(* ===== verification/Prelude.thy ===== *)
theory Prelude
  imports Complex_Main "HOL-Library.Sublist" "HOL-Library.Char_ord" "HOL-Library.List_Lexorder" "HOL-Library.AList"
begin

text \<open>
  What the components share: the type names of the model, Python's string operations on
  code points below 256 (a HOL \<open>char\<close> is one code point), and generic facts about
  lists that stand for database tables.

  Conventions. A \<open>datetime\<close> is an \<open>int\<close>, microseconds since the epoch, and a
  \<open>timedelta\<close> an \<open>int\<close> number of microseconds; Python's floats are
  \<open>real\<close> numbers (rounding of the binary64 format is not modelled); an exception is
  the \<open>Inl\<close> of a sum.
\<close>

type_synonym time = int
type_synonym 'a sql_table = "'a list"

named_theorems table_simps \<open>rewrite rules on lists that stand for tables\<close>
named_theorems step_inv \<open>one operation keeps the component's invariant\<close>

definition seconds :: "int \<Rightarrow> time" where
  "seconds n = n * 1000000"

definition minutes :: "int \<Rightarrow> time" where
  "minutes n = seconds (60 * n)"


section \<open>Python strings\<close>

text \<open>\<open>str.isspace\<close> of one character, for the code points below 256: what
  \<open>str.strip\<close> removes and what the regular expression class \<^verbatim>\<open>\s\<close> matches.\<close>

definition py_space :: "char \<Rightarrow> bool" where
  "py_space c \<longleftrightarrow>
     (let n = of_char c :: nat in (9 \<le> n \<and> n \<le> 13) \<or> (28 \<le> n \<and> n \<le> 32) \<or> n = 133 \<or> n = 160)"

definition py_digit :: "char \<Rightarrow> bool" where
  "py_digit c \<longleftrightarrow> (let n = of_char c :: nat in 48 \<le> n \<and> n \<le> 57)"

definition py_lower_char :: "char \<Rightarrow> char" where
  "py_lower_char c =
     (let n = of_char c :: nat in
      if (65 \<le> n \<and> n \<le> 90) \<or> (192 \<le> n \<and> n \<le> 222 \<and> n \<noteq> 215) then char_of (n + 32) else c)"

definition py_lower :: "string \<Rightarrow> string" where
  "py_lower s = map py_lower_char s"

definition py_lstrip :: "string \<Rightarrow> string" where
  "py_lstrip s = dropWhile py_space s"

definition py_rstrip :: "string \<Rightarrow> string" where
  "py_rstrip s = rev (dropWhile py_space (rev s))"

definition py_strip :: "string \<Rightarrow> string" where
  "py_strip s = py_rstrip (py_lstrip s)"

text \<open>The operator \<open>in\<close> on strings.\<close>

fun py_in :: "string \<Rightarrow> string \<Rightarrow> bool" where
  "py_in n [] = (n = [])"
| "py_in n (c # cs) = (prefix n (c # cs) \<or> py_in n cs)"

lemma py_in_sublist: "py_in n s \<longleftrightarrow> (\<exists>a b. s = a @ n @ b)"
proof (induction s)
  case Nil
  then show ?case by simp
next
  case (Cons c cs)
  show ?case
  proof
    assume "py_in n (c # cs)"
    then consider "prefix n (c # cs)" | "py_in n cs" by auto
    then show "\<exists>a b. c # cs = a @ n @ b"
    proof cases
      case 1
      then obtain b where "c # cs = [] @ n @ b" by (auto simp: prefix_def)
      then show ?thesis by blast
    next
      case 2
      with Cons.IH obtain a b where "cs = a @ n @ b" by blast
      then have "c # cs = (c # a) @ n @ b" by simp
      then show ?thesis by blast
    qed
  next
    assume "\<exists>a b. c # cs = a @ n @ b"
    then obtain a b where ab: "c # cs = a @ n @ b" by blast
    show "py_in n (c # cs)"
    proof (cases a)
      case Nil
      with ab have "prefix n (c # cs)" by (auto simp: prefix_def)
      then show ?thesis by simp
    next
      case (Cons x a')
      with ab have "cs = a' @ n @ b" by simp
      with Cons.IH show ?thesis by auto
    qed
  qed
qed

lemma py_in_refl [simp]: "py_in s s"
  by (simp add: py_in_sublist) (metis append_Nil append_Nil2)

lemma py_in_extend: "py_in n s \<Longrightarrow> py_in n (a @ s @ b)"
  by (auto simp: py_in_sublist) (metis append.assoc)

lemma length_py_lower [simp]: "length (py_lower s) = length s"
  by (simp add: py_lower_def)

lemma py_lower_append [simp]: "py_lower (s @ t) = py_lower s @ py_lower t"
  by (simp add: py_lower_def)

lemma py_strip_Nil [simp]: "py_strip [] = []"
  by (simp add: py_strip_def py_lstrip_def py_rstrip_def)

text \<open>\<open>if not text.strip()\<close>: a text is blank when every character is white space.\<close>

lemma py_strip_eq_Nil: "py_strip s = [] \<longleftrightarrow> (\<forall>c\<in>set s. py_space c)"
proof -
  have "py_strip s = [] \<longleftrightarrow> (\<forall>c\<in>set (dropWhile py_space s). py_space c)"
    by (simp add: py_strip_def py_rstrip_def py_lstrip_def)
  also have "\<dots> \<longleftrightarrow> (\<forall>c\<in>set s. py_space c)"
    by (induction s) auto
  finally show ?thesis .
qed

section \<open>Decimal numerals\<close>

definition digit_char :: "nat \<Rightarrow> char" where
  "digit_char d = char_of (48 + d)"

fun str_of_nat :: "nat \<Rightarrow> string" where
  "str_of_nat n = (if n < 10 then [digit_char n] else str_of_nat (n div 10) @ [digit_char (n mod 10)])"

declare str_of_nat.simps [simp del]

definition str_of_int :: "int \<Rightarrow> string" where
  "str_of_int i = (if i < 0 then ''-'' @ str_of_nat (nat (- i)) else str_of_nat (nat i))"

definition digit_val :: "char \<Rightarrow> nat" where
  "digit_val c = of_char c - 48"

definition nat_of_digits :: "string \<Rightarrow> nat" where
  "nat_of_digits s = foldl (\<lambda>a c. 10 * a + digit_val c) 0 s"

section \<open>Floats in messages and rounding\<close>

text \<open>\<^verbatim>\<open>format(x, ".nf")\<close>: correctly rounded, ties to even.\<close>

definition round_half_even :: "real \<Rightarrow> int" where
  "round_half_even x =
     (let f = \<lfloor>x\<rfloor>; d = x - of_int f in
      if d < 1 / 2 then f else if d > 1 / 2 then f + 1 else if even f then f else f + 1)"

definition py_fixed :: "nat \<Rightarrow> real \<Rightarrow> string" where
  "py_fixed n x =
     (let digits = str_of_nat (nat (round_half_even (\<bar>x\<bar> * 10 ^ n)));
          padded = replicate (Suc n - length digits) CHR ''0'' @ digits;
          whole = take (length padded - n) padded;
          frac = drop (length padded - n) padded
      in (if x < 0 then ''-'' else []) @ whole @ (if n = 0 then [] else ''.'' @ frac))"

text \<open>\<open>int(x)\<close> of a float: truncation towards zero.\<close>

definition py_int :: "real \<Rightarrow> int" where
  "py_int x = (if x \<ge> 0 then \<lfloor>x\<rfloor> else \<lceil>x\<rceil>)"

text \<open>\<open>round(x, 4)\<close>.\<close>

definition round4 :: "real \<Rightarrow> real" where
  "round4 x = of_int (round_half_even (x * 10000)) / 10000"

lemma round_half_even_mono: "x \<le> y \<Longrightarrow> round_half_even x \<le> round_half_even y"
proof (cases "\<lfloor>x\<rfloor> = \<lfloor>y\<rfloor>")
  case True
  assume "x \<le> y"
  with True show ?thesis by (simp add: round_half_even_def Let_def)
next
  case False
  assume "x \<le> y"
  with False have "\<lfloor>x\<rfloor> + 1 \<le> \<lfloor>y\<rfloor>" using floor_mono [of x y] by simp
  then show ?thesis by (simp add: round_half_even_def Let_def)
qed

section \<open>Lists as tables\<close>

lemma filter_filter_comm: "filter P (filter Q xs) = filter Q (filter P xs)"
  by (simp add: conj_commute)

lemma sort_key_sorted_id [table_simps]:
  "sorted (map f xs) \<Longrightarrow> sort_key f xs = xs"
  by (induction xs) (simp_all add: insort_is_Cons)

lemma sorted_wrt_less_sorted: "sorted_wrt (<) (xs :: int list) \<Longrightarrow> sorted xs"
  by (induction xs) (auto intro: less_imp_le)

lemma sorted_map_filter: "sorted (map f xs) \<Longrightarrow> sorted (map f (filter P xs))"
  by (rule sorted_filter)

lemma strict_sorted_map_filter:
  "sorted_wrt (<) (map f xs) \<Longrightarrow> sorted_wrt (<) (map (f :: 'a \<Rightarrow> int) (filter P xs))"
  by (induction xs) auto

lemma distinct_map_filter_table: "distinct (map f xs) \<Longrightarrow> distinct (map f (filter P xs))"
  by (induction xs) auto

text \<open>Reading a table in key order from a cursor: after the rows \<open>ys\<close>, resuming behind the
  key of the last one reads exactly the rest.\<close>

lemma filter_from_resume:
  fixes f :: "'a \<Rightarrow> int"
  assumes srt: "sorted_wrt (<) (map f xs)" and split: "filter (\<lambda>x. c \<le> f x \<and> P x) xs = ys @ zs"
    and ne: "ys \<noteq> []"
  shows "filter (\<lambda>x. f (last ys) + 1 \<le> f x \<and> P x) xs = zs"
proof -
  let ?l = "f (last ys)"
  have "sorted_wrt (<) (map f (ys @ zs))"
    using strict_sorted_map_filter [OF srt] unfolding split[symmetric] .
  then have gt: "?l < f z" if "z \<in> set zs" for z
    using that ne by (auto simp: sorted_wrt_append)
  have le: "f y \<le> ?l" if "y \<in> set ys" for y
    using that \<open>sorted_wrt (<) (map f (ys @ zs))\<close>
    by (cases ys rule: rev_cases) (auto simp: sorted_wrt_append)
  have "last ys \<in> set (filter (\<lambda>x. c \<le> f x \<and> P x) xs)" using ne by (simp add: split)
  then have "c \<le> ?l" by simp
  then have "filter (\<lambda>x. ?l + 1 \<le> f x \<and> P x) xs =
      filter (\<lambda>x. ?l + 1 \<le> f x) (filter (\<lambda>x. c \<le> f x \<and> P x) xs)"
    by (auto intro: filter_cong)
  also have "\<dots> = zs"
  proof -
    have "filter (\<lambda>x. ?l + 1 \<le> f x) ys = []" using le by (force simp: filter_empty_conv)
    moreover have "filter (\<lambda>x. ?l + 1 \<le> f x) zs = zs" using gt by (force simp: filter_id_conv)
    ultimately show ?thesis by (simp add: split)
  qed
  finally show ?thesis .
qed

text \<open>The list \<open>[1, \<dots>, n]\<close> of the versions of a stream with \<open>n\<close> events.\<close>

lemma upto_snoc: "0 \<le> n \<Longrightarrow> [1..n + 1] = [1..n] @ [n + 1 :: int]"
  by (simp add: upto_rec2)

lemma last_upto: "0 < n \<Longrightarrow> last [1..n] = (n :: int)"
  by (simp add: upto_rec2)

lemma Max_upto: "0 < n \<Longrightarrow> Max (set [1..n]) = (n :: int)"
  by (intro Max_eqI) auto

lemma card_eq_length_distinct:
  "set xs \<subseteq> set ys \<Longrightarrow> distinct xs \<Longrightarrow> length xs = length ys \<Longrightarrow> distinct ys \<and> set ys = set xs"
  by (metis List.finite_set card_distinct card_length card_seteq distinct_card order_refl)

section \<open>Paths of a partial state machine\<close>

fun run_path :: "('q \<Rightarrow> 'f \<Rightarrow> 'q option) \<Rightarrow> 'q \<Rightarrow> 'f list \<Rightarrow> 'q option" where
  "run_path delta q [] = Some q"
| "run_path delta q (f # fs) = (case delta q f of None \<Rightarrow> None | Some q' \<Rightarrow> run_path delta q' fs)"

lemma run_path_append:
  "run_path delta q (fs @ gs) = (case run_path delta q fs of None \<Rightarrow> None | Some q' \<Rightarrow> run_path delta q' gs)"
  by (induction fs arbitrary: q) (auto split: option.split)

lemma run_path_map: "run_path delta q (map g fs) = run_path (\<lambda>q f. delta q (g f)) q fs"
  by (induction fs arbitrary: q) (auto split: option.split)

section \<open>Sums over a list one element of which changes\<close>

lemma sum_list_map_update:
  fixes f :: "'a \<Rightarrow> 'b::comm_monoid_add"
  assumes "i < length xs"
  shows "sum_list (map f (xs[i := x])) + f (xs ! i) = sum_list (map f xs) + f x"
  using assms
proof (induction xs arbitrary: i)
  case (Cons y ys)
  then show ?case by (cases i) (simp_all add: ac_simps)
qed simp

lemma sum_list_member_le: "x \<in> set xs \<Longrightarrow> f x \<le> sum_list (map f xs)" for f :: "'a \<Rightarrow> nat"
  by (induction xs) auto

section \<open>Lists with one changed element, association lists\<close>

lemma list_all_update [intro]: "list_all P xs \<Longrightarrow> P x \<Longrightarrow> list_all P (xs[i := x])"
  using set_update_subset_insert [of xs i x] by (auto simp: list_all_iff)

lemma list_ex_update:
  "i < length xs \<Longrightarrow> list_ex P (xs[i := x]) \<longleftrightarrow> P x \<or> list_ex P (take i xs @ drop (Suc i) xs)"
  by (auto simp: upd_conv_take_nth_drop)

lemma list_ex_split: "i < length xs \<Longrightarrow> list_ex P xs \<longleftrightarrow> P (xs ! i) \<or> list_ex P (take i xs @ drop (Suc i) xs)"
  by (metis list_ex_update list_update_id)

lemma list_all_nth_D: "list_all P xs \<Longrightarrow> i < length xs \<Longrightarrow> P (xs ! i)"
  by (simp add: list_all_length)

lemma set_alist_update: "set (AList.update k v al) \<subseteq> insert (k, v) (set al)"
  by (induction al) auto

lemma keys_alist_update: "fst ` set (AList.update k v al) = insert k (fst ` set al)"
  by (induction al) auto

lemma add_swap_cancel:
  fixes a b x y p q :: "'a::cancel_comm_monoid_add"
  assumes "a + p = b + q" "x + q = y + p"
  shows "a + x = b + y"
proof -
  have "(a + x) + (p + q) = (a + p) + (x + q)" by (simp add: ac_simps)
  also have "\<dots> = (b + y) + (p + q)" unfolding assms by (simp add: ac_simps)
  finally show ?thesis by simp
qed

end
