(* ===== verification/Ulid.thy ===== *)
theory Ulid
  imports Prelude
begin

text \<open>
  Identifier generation of \<^verbatim>\<open>src/backend/messaging/envelope.py\<close>: the module-level
  state of \<open>_ulid\<close>, the choice of timestamp and random tail, and the Crockford base-32
  encoding. The clock reading and the ten random bytes are arguments.
\<close>

unbundle bit_operations_syntax

definition CROCKFORD :: string where
  "CROCKFORD = ''0123456789ABCDEFGHJKMNPQRSTVWXYZ''"

definition RAND_MASK :: int where
  "RAND_MASK = push_bit 80 1 - 1"

definition TS_MASK :: int where
  "TS_MASK = push_bit 48 1 - 1"

record ulid_state =
  last_ulid_ts :: int
  last_ulid_rnd :: int

definition ulid_init :: ulid_state where
  "ulid_init = \<lparr>last_ulid_ts = 0, last_ulid_rnd = 0\<rparr>"

text \<open>The critical section of \<open>_ulid\<close>: \<open>clock_ms\<close> is \<^verbatim>\<open>int(time.time() * 1000)\<close>,
  \<open>token\<close> the integer made of ten random bytes.\<close>

definition ulid_step :: "ulid_state \<Rightarrow> int \<Rightarrow> int \<Rightarrow> ulid_state" where
  "ulid_step s clock_ms token =
     (let ts0 = clock_ms AND TS_MASK;
          ts = (if ts0 < last_ulid_ts s then last_ulid_ts s else ts0)
      in if ts = last_ulid_ts s then
           (let rnd = (last_ulid_rnd s + 1) AND RAND_MASK
            in if rnd = 0
               then \<lparr>last_ulid_ts = (ts + 1) AND TS_MASK, last_ulid_rnd = token\<rparr>
               else \<lparr>last_ulid_ts = ts, last_ulid_rnd = rnd\<rparr>)
         else \<lparr>last_ulid_ts = ts, last_ulid_rnd = token\<rparr>)"

text \<open>The encoding loop: one character per five bits, least significant first, and the
  reversal that follows it.\<close>

fun crockford_loop :: "nat \<Rightarrow> int \<Rightarrow> string" where
  "crockford_loop 0 x = []"
| "crockford_loop (Suc n) x = CROCKFORD ! nat (x AND 31) # crockford_loop n (drop_bit 5 x)"

definition crockford :: "nat \<Rightarrow> int \<Rightarrow> string" where
  "crockford n x = rev (crockford_loop n x)"

definition ulid_text :: "ulid_state \<Rightarrow> string" where
  "ulid_text s = crockford 10 (last_ulid_ts s) @ crockford 16 (last_ulid_rnd s)"

definition ulid :: "ulid_state \<Rightarrow> int \<Rightarrow> int \<Rightarrow> string \<times> ulid_state" where
  "ulid s clock_ms token = (let s' = ulid_step s clock_ms token in (ulid_text s', s'))"

definition new_event_id :: "ulid_state \<Rightarrow> int \<Rightarrow> int \<Rightarrow> string \<times> ulid_state" where
  "new_event_id s clock_ms token = (let (u, s') = ulid s clock_ms token in (''evt_'' @ u, s'))"

definition new_correlation_id :: "ulid_state \<Rightarrow> int \<Rightarrow> int \<Rightarrow> string \<times> ulid_state" where
  "new_correlation_id s clock_ms token = (let (u, s') = ulid s clock_ms token in (''cor_'' @ u, s'))"

definition new_command_id :: "ulid_state \<Rightarrow> int \<Rightarrow> int \<Rightarrow> string \<times> ulid_state" where
  "new_command_id s clock_ms token = (let (u, s') = ulid s clock_ms token in (''cmd_'' @ u, s'))"

text \<open>The event identifiers of a sequence of calls, one clock reading and one token each.\<close>

fun event_id_sequence :: "ulid_state \<Rightarrow> (int \<times> int) list \<Rightarrow> string list" where
  "event_id_sequence s [] = []"
| "event_id_sequence s ((c, t) # xs) = (let (i, s') = new_event_id s c t in i # event_id_sequence s' xs)"


section \<open>The encoding\<close>

lemma TS_MASK_and: "x AND TS_MASK = x mod 2 ^ 48"
  using take_bit_eq_mask [of 48 x] by (simp add: TS_MASK_def mask_eq_exp_minus_1 take_bit_eq_mod)

lemma RAND_MASK_and: "x AND RAND_MASK = x mod 2 ^ 80"
  using take_bit_eq_mask [of 80 x] by (simp add: RAND_MASK_def mask_eq_exp_minus_1 take_bit_eq_mod)

lemma and_31: "(x :: int) AND 31 = x mod 32"
  using take_bit_eq_mask [of 5 x] by (simp add: mask_eq_exp_minus_1 take_bit_eq_mod)

lemma CROCKFORD_sorted: "sorted_wrt (<) CROCKFORD"
  by (simp add: CROCKFORD_def less_char_def)

lemma length_CROCKFORD [simp]: "length CROCKFORD = 32"
  by (simp add: CROCKFORD_def)

lemma length_crockford_loop [simp]: "length (crockford_loop n x) = n"
  by (induction n arbitrary: x) auto

lemma length_crockford [simp]: "length (crockford n x) = n"
  by (simp add: crockford_def)

lemma length_ulid_text: "length (ulid_text s) = 26"
  by (simp add: ulid_text_def)

lemma crockford_Suc:
  "crockford (Suc n) x = crockford n (x div 32) @ [CROCKFORD ! nat (x mod 32)]"
  by (simp add: crockford_def and_31 drop_bit_eq_div)

text \<open>Texts of equal length compare like the numbers they encode.\<close>

lemma less_append_same_length:
  fixes u v :: string
  assumes "length u = length v" and "u < v"
  shows "u @ a < v @ b"
proof -
  from assms(2) have "(u, v) \<in> lexord {(x, y). x < y}" by (simp add: list_less_def)
  then have "(u @ a, v @ b) \<in> lexord {(x, y). x < y}"
    using assms(1) by (simp add: lexord_sufI)
  then show ?thesis by (simp add: list_less_def)
qed

lemma less_append_left: "(a :: string) < b \<Longrightarrow> u @ a < u @ b"
  by (simp add: list_less_def lexord_append_leftI)

lemma crockford_digit_mono:
  assumes "0 \<le> i" "i < j" "j < 32"
  shows "CROCKFORD ! nat i < CROCKFORD ! nat j"
proof -
  have "nat i < nat j" "nat j < length CROCKFORD" using assms by auto
  then show ?thesis using CROCKFORD_sorted by (rule sorted_wrt_nth_less [rotated 1])
qed

lemma crockford_mono:
  assumes "0 \<le> x" "x < y" "y < 32 ^ n"
  shows "crockford n x < crockford n y"
  using assms
proof (induction n arbitrary: x y)
  case 0
  then show ?case by simp
next
  case (Suc n)
  show ?case
  proof (cases "x div 32 = y div 32")
    case True
    with Suc.prems(2) have "x mod 32 < y mod 32"
      using div_mult_mod_eq [of x 32] div_mult_mod_eq [of y 32] by linarith
    then have "CROCKFORD ! nat (x mod 32) < CROCKFORD ! nat (y mod 32)"
      by (intro crockford_digit_mono) auto
    with True show ?thesis
      by (simp add: crockford_Suc less_append_left)
  next
    case False
    have "0 \<le> x div 32" using Suc.prems(1) by simp
    moreover have "x div 32 < y div 32"
      using False Suc.prems(2) zdiv_mono1 [of x y 32] by simp
    moreover have "y div 32 < 32 ^ n"
      using Suc.prems(3) by simp
    ultimately have "crockford n (x div 32) < crockford n (y div 32)" by (rule Suc.IH)
    then show ?thesis
      by (simp add: crockford_Suc less_append_same_length)
  qed
qed

section \<open>Monotonicity of generated identifiers\<close>

definition ulid_inv :: "ulid_state \<Rightarrow> bool" where
  "ulid_inv s \<longleftrightarrow> 0 \<le> last_ulid_ts s \<and> last_ulid_ts s < 2 ^ 48 \<and>
     0 \<le> last_ulid_rnd s \<and> last_ulid_rnd s < 2 ^ 80"

definition ulid_less :: "ulid_state \<Rightarrow> ulid_state \<Rightarrow> bool" where
  "ulid_less s t \<longleftrightarrow> last_ulid_ts s < last_ulid_ts t \<or>
     (last_ulid_ts s = last_ulid_ts t \<and> last_ulid_rnd s < last_ulid_rnd t)"

lemma ulid_less_trans: "ulid_less s t \<Longrightarrow> ulid_less t u \<Longrightarrow> ulid_less s u"
  by (auto simp: ulid_less_def)

lemma ulid_step_inv:
  assumes "ulid_inv s" "0 \<le> token" "token < 2 ^ 80"
  shows "ulid_inv (ulid_step s clock token)"
  using assms by (auto simp: ulid_inv_def ulid_step_def Let_def TS_MASK_and RAND_MASK_and)

lemma ulid_step_less:
  assumes inv: "ulid_inv s" and no_wrap: "last_ulid_ts s < 2 ^ 48 - 1"
  shows "ulid_less s (ulid_step s clock token)"
proof -
  let ?r = "last_ulid_rnd s"
  have rnd: "(?r + 1) mod 2 ^ 80 = 0 \<or> (?r + 1) mod 2 ^ 80 = ?r + 1"
  proof (cases "?r + 1 = 2 ^ 80")
    case True
    then show ?thesis by simp
  next
    case False
    with inv have "0 \<le> ?r + 1" "?r + 1 < 2 ^ 80" by (auto simp: ulid_inv_def)
    then show ?thesis by simp
  qed
  have ts: "(last_ulid_ts s + 1) mod 2 ^ 48 = last_ulid_ts s + 1"
    using inv no_wrap by (intro mod_pos_pos_trivial) (auto simp: ulid_inv_def)
  show ?thesis
    using rnd ts unfolding ulid_less_def ulid_step_def Let_def TS_MASK_and RAND_MASK_and
    by (auto simp del: power_numeral numeral_power_eq_of_int_cancel_iff)
qed

lemma ulid_text_mono:
  assumes "ulid_inv s" "ulid_inv t" "ulid_less s t"
  shows "ulid_text s < ulid_text t"
proof -
  consider (ts) "last_ulid_ts s < last_ulid_ts t"
    | (rnd) "last_ulid_ts s = last_ulid_ts t" "last_ulid_rnd s < last_ulid_rnd t"
    using assms(3) by (auto simp: ulid_less_def)
  then show ?thesis
  proof cases
    case ts
    with assms(1,2) have "crockford 10 (last_ulid_ts s) < crockford 10 (last_ulid_ts t)"
      by (intro crockford_mono) (auto simp: ulid_inv_def)
    then show ?thesis by (simp add: ulid_text_def less_append_same_length)
  next
    case rnd
    with assms(1,2) have "crockford 16 (last_ulid_rnd s) < crockford 16 (last_ulid_rnd t)"
      by (intro crockford_mono) (auto simp: ulid_inv_def)
    with rnd show ?thesis by (simp add: ulid_text_def less_append_left)
  qed
qed

text \<open>A clock that stays below \<open>2\<^sup>4\<^sup>7\<close> milliseconds (the year 6429) keeps the
  timestamp away from the wrap of its 48 bits for \<open>2\<^sup>4\<^sup>7\<close> calls.\<close>

definition ulid_inputs_ok :: "(int \<times> int) list \<Rightarrow> bool" where
  "ulid_inputs_ok xs \<longleftrightarrow> (\<forall>(c, t) \<in> set xs. 0 \<le> c \<and> c < 2 ^ 47 \<and> 0 \<le> t \<and> t < 2 ^ 80)"

lemma ulid_step_ts_bound:
  assumes "ulid_inv s" "0 \<le> c" "c < 2 ^ 47" "2 ^ 47 \<le> b" "last_ulid_ts s \<le> b" "b < 2 ^ 48 - 1"
  shows "last_ulid_ts (ulid_step s c t) \<le> b + 1"
proof -
  have "c mod 2 ^ 48 = c" using assms(2,3) by (intro mod_pos_pos_trivial) auto
  moreover have "(last_ulid_ts s + 1) mod 2 ^ 48 = last_ulid_ts s + 1"
    using assms(1,5,6) by (intro mod_pos_pos_trivial) (auto simp: ulid_inv_def)
  ultimately show ?thesis
    using assms(3,4,5) unfolding ulid_step_def Let_def TS_MASK_and RAND_MASK_and by auto
qed

lemma event_ids_above:
  assumes "ulid_inputs_ok xs" "ulid_inv s" "2 ^ 47 \<le> b" "last_ulid_ts s \<le> b"
    "b + int (length xs) < 2 ^ 48"
  shows "sorted_wrt (<) (event_id_sequence s xs) \<and> (\<forall>i\<in>set (event_id_sequence s xs). ''evt_'' @ ulid_text s < i)"
  using assms
proof (induction xs arbitrary: s b)
  case Nil
  then show ?case by simp
next
  case (Cons x xs)
  obtain c t where x: "x = (c, t)" by fastforce
  let ?s' = "ulid_step s c t"
  from Cons.prems x have ct: "0 \<le> c" "c < 2 ^ 47" "0 \<le> t" "t < 2 ^ 80" and ok: "ulid_inputs_ok xs"
    by (auto simp: ulid_inputs_ok_def)
  have b: "b < 2 ^ 48 - 1" using Cons.prems(5) by simp
  have inv': "ulid_inv ?s'" using Cons.prems(2) ct by (intro ulid_step_inv)
  have le': "last_ulid_ts ?s' \<le> b + 1"
    using Cons.prems ct b by (intro ulid_step_ts_bound)
  have less: "ulid_text s < ulid_text ?s'"
    using Cons.prems(2,4) b inv' by (intro ulid_text_mono ulid_step_less) auto
  have IH: "sorted_wrt (<) (event_id_sequence ?s' xs) \<and>
      (\<forall>i\<in>set (event_id_sequence ?s' xs). ''evt_'' @ ulid_text ?s' < i)"
    using Cons.prems(3,5) ok inv' le' by (intro Cons.IH [where b = "b + 1"]) auto
  have lt: "''evt_'' @ ulid_text s < ''evt_'' @ ulid_text ?s'"
    by (rule less_append_left [OF less])
  have eq: "event_id_sequence s (x # xs) = (''evt_'' @ ulid_text ?s') # event_id_sequence ?s' xs"
    by (simp add: x new_event_id_def ulid_def Let_def)
  from IH have "sorted_wrt (<) (event_id_sequence s (x # xs))" by (simp add: eq)
  moreover have "''evt_'' @ ulid_text s < i" if i: "i \<in> set (event_id_sequence s (x # xs))" for i
  proof (cases "i = ''evt_'' @ ulid_text ?s'")
    case True
    with lt show ?thesis by (simp only:)
  next
    case False
    with i have "i \<in> set (event_id_sequence ?s' xs)" by (simp add: eq)
    with IH have "''evt_'' @ ulid_text ?s' < i" by blast
    with lt show ?thesis by (rule less_trans)
  qed
  ultimately show ?case by blast
qed

lemma sorted_wrt_less_distinct: "sorted_wrt (<) (xs :: string list) \<Longrightarrow> distinct xs"
  by (induction xs) auto

text \<open>
  Event identifiers come out in strictly increasing string order, whatever the clock
  does (it may stand still or go backwards) and whatever the random bytes are: from a
  well-formed state, any sequence of calls with clock readings below \<open>2\<^sup>4\<^sup>7\<close> ms yields
  identifiers that are strictly sorted, so no two of them are equal.
\<close>

theorem event_ids_strictly_increasing:
  assumes "ulid_inv s" and "last_ulid_ts s \<le> 2 ^ 47"
    and "ulid_inputs_ok xs" and "int (length xs) < 2 ^ 47"
  shows "sorted_wrt (<) (event_id_sequence s xs) \<and> distinct (event_id_sequence s xs) \<and>
    (\<forall>i. i \<in> set (event_id_sequence s xs) \<longrightarrow> length i = 30)"
proof -
  have "sorted_wrt (<) (event_id_sequence s xs)"
    using event_ids_above [of xs s "2 ^ 47"] assms by simp
  moreover have "\<forall>i\<in>set (event_id_sequence s xs). length i = 30"
    by (induction xs arbitrary: s rule: event_id_sequence.induct)
      (auto simp: new_event_id_def ulid_def Let_def length_ulid_text)
  ultimately show ?thesis using sorted_wrt_less_distinct by auto
qed

theorem event_ids_strictly_increasing_witness:
  "sorted_wrt (<) (event_id_sequence ulid_init [(1000, 5), (999, 7), (1000, 3)]) \<and>
   distinct (event_id_sequence ulid_init [(1000, 5), (999, 7), (1000, 3)])"
proof -
  have "ulid_inv ulid_init" "last_ulid_ts ulid_init \<le> 2 ^ 47"
    "ulid_inputs_ok [(1000, 5), (999, 7), (1000, 3)]"
    by (simp_all add: ulid_inv_def ulid_init_def ulid_inputs_ok_def)
  then show ?thesis
    using event_ids_strictly_increasing [of ulid_init "[(1000, 5), (999, 7), (1000, 3)]"] by simp
qed

end
