(* ===== verification/Event_Registry.thy ===== *)
theory Event_Registry
  imports Ulid "HOL-Library.AList" "HOL-Library.Product_Lexorder"
begin

text \<open>
  Events and their registry, \<^verbatim>\<open>src/backend/messaging/event.py\<close> and the envelope of
  \<^verbatim>\<open>envelope.py\<close>. A Pydantic model class is a record of its class attributes; the payload
  is a value of a type \<open>'p\<close>; what Pydantic validates is the argument \<open>validate\<close> of the
  definitions that call \<open>model_validate\<close>.
\<close>

record event_class =
  cls_module :: string
  cls_name :: string
  cls_event_type :: string
  cls_schema_version :: int

record 'p domain_event =
  de_class :: event_class
  de_payload :: 'p

record event_envelope =
  env_event_id :: string
  env_correlation_id :: string
  env_causation_id :: "string option"
  env_occurred_at :: time
  env_source :: string
  env_schema_version :: int

text \<open>\<open>make_envelope\<close>: the event id is drawn first, and a correlation id only when the caller
  gives none (an empty one counts as none). \<open>in1\<close> and \<open>in2\<close> are the clock reading and
  the random token of the first and of the second draw, \<open>now\<close> the time of the call.\<close>

definition make_envelope :: "ulid_state \<Rightarrow> int \<times> int \<Rightarrow> int \<times> int \<Rightarrow> time \<Rightarrow>
    string \<Rightarrow> string option \<Rightarrow> string option \<Rightarrow> int \<Rightarrow> event_envelope \<times> ulid_state" where
  "make_envelope s in1 in2 now source correlation_id causation_id schema_version =
     (let (event_id, s1) = new_event_id s (fst in1) (snd in1);
          (correlation, s2) =
            (case correlation_id of
               Some c \<Rightarrow> if c \<noteq> [] then (c, s1) else new_correlation_id s1 (fst in2) (snd in2)
             | None \<Rightarrow> new_correlation_id s1 (fst in2) (snd in2))
      in (\<lparr>env_event_id = event_id, env_correlation_id = correlation, env_causation_id = causation_id,
           env_occurred_at = now, env_source = source, env_schema_version = schema_version\<rparr>, s2))"

record 'p stored_event =
  se_global_position :: int
  se_aggregate_id :: string
  se_aggregate_type :: string
  se_aggregate_version :: int
  se_event_type :: string
  se_schema_version :: int
  se_payload :: 'p
  se_envelope :: event_envelope
  se_occurred_at :: time

text \<open>\<open>_REGISTRY\<close>: a dict keyed by event type and schema version.\<close>

type_synonym registry = "((string \<times> int) \<times> event_class) list"

datatype registry_error =
    EmptyEventType
  | BadSchemaVersion int
  | EventTypeAlreadyRegistered event_class

definition register_event :: "registry \<Rightarrow> event_class \<Rightarrow> registry_error + registry" where
  "register_event reg cls =
     (if cls_event_type cls = [] then Inl EmptyEventType
      else if cls_schema_version cls < 1 then Inl (BadSchemaVersion (cls_schema_version cls))
      else let key = (cls_event_type cls, cls_schema_version cls) in
        case map_of reg key of
          None \<Rightarrow> Inr (AList.update key cls reg)
        | Some existing \<Rightarrow>
            if existing \<noteq> cls then Inl (EventTypeAlreadyRegistered existing)
            else Inr (AList.update key cls reg))"

text \<open>\<open>None\<close> is the \<open>KeyError\<close>.\<close>

definition resolve_event_class :: "registry \<Rightarrow> string \<Rightarrow> int \<Rightarrow> event_class option" where
  "resolve_event_class reg event_type schema_version = map_of reg (event_type, schema_version)"

definition registered_event_types :: "registry \<Rightarrow> (string \<times> int) list" where
  "registered_event_types reg = sort (map fst reg)"

datatype into_error =
    EventTypeMismatch string string
  | SchemaVersionMismatch int int
  | IntoValidationError

definition into :: "(event_class \<Rightarrow> 'p \<Rightarrow> bool) \<Rightarrow> 'p stored_event \<Rightarrow> event_class \<Rightarrow>
    into_error + 'p domain_event" where
  "into validate ev cls =
     (if cls_event_type cls \<noteq> se_event_type ev
      then Inl (EventTypeMismatch (se_event_type ev) (cls_event_type cls))
      else if cls_schema_version cls \<noteq> se_schema_version ev
      then Inl (SchemaVersionMismatch (se_schema_version ev) (cls_schema_version cls))
      else if validate cls (se_payload ev)
      then Inr \<lparr>de_class = cls, de_payload = se_payload ev\<rparr>
      else Inl IntoValidationError)"

section \<open>The registry's invariant\<close>

text \<open>Every class sits under its own key, and keys are unique.\<close>

definition registry_wf :: "registry \<Rightarrow> bool" where
  "registry_wf reg \<longleftrightarrow> distinct (map fst reg) \<and>
     (\<forall>(k, cls) \<in> set reg. k = (cls_event_type cls, cls_schema_version cls) \<and>
        cls_event_type cls \<noteq> [] \<and> 1 \<le> cls_schema_version cls)"

lemma registry_wf_Nil: "registry_wf []"
  by (simp add: registry_wf_def)

lemma set_update_subset: "set (AList.update k v al) \<subseteq> insert (k, v) (set al)"
  by (induction al) auto

lemma register_event_wf [step_inv]:
  assumes "registry_wf reg" and "register_event reg cls = Inr reg'"
  shows "registry_wf reg'"
proof -
  let ?k = "(cls_event_type cls, cls_schema_version cls)"
  from assms(2) have reg': "reg' = AList.update ?k cls reg" and cls: "cls_event_type cls \<noteq> []"
    "1 \<le> cls_schema_version cls"
    by (auto simp: register_event_def Let_def split: if_splits option.splits)
  from assms(1) have "distinct (map fst reg')"
    unfolding reg' by (intro distinct_update) (simp add: registry_wf_def)
  moreover have "\<forall>(k, c) \<in> set reg'. k = (cls_event_type c, cls_schema_version c) \<and>
      cls_event_type c \<noteq> [] \<and> 1 \<le> cls_schema_version c"
    using assms(1) set_update_subset [of ?k cls reg] cls unfolding reg' registry_wf_def by fastforce
  ultimately show ?thesis by (simp add: registry_wf_def)
qed

lemma resolve_after_register:
  assumes "register_event reg cls = Inr reg'"
  shows "resolve_event_class reg' t v =
    (if t = cls_event_type cls \<and> v = cls_schema_version cls then Some cls
     else resolve_event_class reg t v)"
  using assms
  by (auto simp: register_event_def resolve_event_class_def Let_def update_conv
      split: if_splits option.splits)

lemma resolve_wf:
  assumes "registry_wf reg" "resolve_event_class reg t v = Some cls"
  shows "cls_event_type cls = t \<and> cls_schema_version cls = v"
  using assms by (fastforce simp: resolve_event_class_def registry_wf_def dest: map_of_SomeD)

text \<open>
  A registration can never be taken over: once a class is registered, every later
  successful registration of any class leaves the lookup of that class's event type and
  version as it was, and the only registration that can succeed for that key is the same
  class again, which changes nothing.
\<close>

theorem registration_is_stable:
  assumes "resolve_event_class reg t v = Some cls" and "register_event reg other = Inr reg'"
  shows "resolve_event_class reg' t v = Some cls \<and>
    (cls_event_type other = t \<and> cls_schema_version other = v \<longrightarrow> other = cls \<and> (\<forall>k. map_of reg' k = map_of reg k))"
proof -
  from assms have same: "other = cls"
    if "cls_event_type other = t" "cls_schema_version other = v"
    using that by (auto simp: register_event_def resolve_event_class_def Let_def split: if_splits)
  have "resolve_event_class reg' t v = Some cls"
    using resolve_after_register [OF assms(2), of t v] assms(1) same by auto
  moreover have "map_of reg' k = map_of reg k"
    if "cls_event_type other = t" "cls_schema_version other = v" for k
    using resolve_after_register [OF assms(2), of "fst k" "snd k"] assms(1) same [OF that] that
    by (cases k) (auto simp: resolve_event_class_def split: if_splits)
  ultimately show ?thesis using same by blast
qed

theorem registration_is_stable_witness:
  "let c = \<lparr>cls_module = ''m'', cls_name = ''A'', cls_event_type = ''a'', cls_schema_version = 1\<rparr>;
       d = \<lparr>cls_module = ''m'', cls_name = ''B'', cls_event_type = ''b'', cls_schema_version = 2\<rparr>;
       reg = [((''a'', 1), c)] in
   register_event reg d = Inr (AList.update (''b'', 2) d reg) \<and>
   resolve_event_class (AList.update (''b'', 2) d reg) ''a'' 1 = Some c"
proof -
  let ?c = "\<lparr>cls_module = ''m'', cls_name = ''A'', cls_event_type = ''a'', cls_schema_version = 1\<rparr>"
  let ?d = "\<lparr>cls_module = ''m'', cls_name = ''B'', cls_event_type = ''b'', cls_schema_version = 2\<rparr>"
  have 1: "resolve_event_class [((''a'', 1), ?c)] ''a'' 1 = Some ?c"
    by (simp add: resolve_event_class_def)
  have 2: "register_event [((''a'', 1), ?c)] ?d = Inr (AList.update (''b'', 2) ?d [((''a'', 1), ?c)])"
    by (simp add: register_event_def Let_def)
  from registration_is_stable [OF 1 2] 2 show ?thesis by (simp add: Let_def)
qed

end
