(* ===== verification/Event_Store.thy ===== *)
theory Event_Store
  imports Event_Registry
begin

text \<open>
  The SQLite event store, \<^verbatim>\<open>src/backend/eventstore/sqlite_store.py\<close>, with the errors and
  results of \<^verbatim>\<open>interface.py\<close>.

  The table \<open>event_store_events\<close> is a list of rows in insertion order and \<open>es_sequence\<close>
  is SQLite's \<open>AUTOINCREMENT\<close> counter. A transaction works on a copy of the state that
  \<open>COMMIT\<close> makes the new state and \<open>ROLLBACK\<close> drops. Arguments stand for what the code
  does not decide: \<open>validate\<close> for Pydantic's \<open>model_validate\<close>, and \<open>fault\<close> for where SQLite
  raises \<open>sqlite3.Error\<close> on its own account: \<open>fault 0\<close> at \<open>BEGIN IMMEDIATE\<close> (a busy
  database), \<open>fault k\<close> at the \<open>k\<close>-th \<open>INSERT\<close> of a batch of \<open>n\<close> events, \<open>fault (n + 1)\<close>
  at \<open>COMMIT\<close>. The JSON columns hold the values whose serialisations the code stores.
\<close>

record 'p event_row =
  er_global_position :: int
  er_event_id :: string
  er_aggregate_id :: string
  er_aggregate_type :: string
  er_aggregate_version :: int
  er_event_type :: string
  er_schema_version :: int
  er_payload :: 'p
  er_metadata :: event_envelope
  er_occurred_at :: time

record 'p event_store =
  es_events :: "'p event_row sql_table"
  es_sequence :: int

definition empty_store :: "'p event_store" where
  "empty_store = \<lparr>es_events = [], es_sequence = 0\<rparr>"

datatype store_error =
    EmptyBatch
  | LengthMismatch nat nat
  | EmptyClassEventType string
  | PydanticValidationError
  | DuplicateOnOtherAggregate string string
  | PartialDuplicate "string list" "string list"
  | ConcurrencyError string int int
  | SqliteError
  | StoreKeyError string

record append_result =
  ar_new_aggregate_version :: int
  ar_written_event_ids :: "string list"
  ar_written_global_positions :: "int list"

section \<open>Append\<close>

fun revalidate :: "(event_class \<Rightarrow> 'p \<Rightarrow> bool) \<Rightarrow> 'p domain_event list \<Rightarrow> store_error option" where
  "revalidate validate [] = None"
| "revalidate validate (ev # evs) =
     (if cls_event_type (de_class ev) = [] then Some (EmptyClassEventType (cls_name (de_class ev)))
      else if \<not> validate (de_class ev) (de_payload ev) then Some PydanticValidationError
      else revalidate validate evs)"

definition agg_rows :: "'p event_store \<Rightarrow> string \<Rightarrow> 'p event_row list" where
  "agg_rows st agg = filter (\<lambda>r. er_aggregate_id r = agg) (es_events st)"

text \<open>\<^verbatim>\<open>SELECT MAX(aggregate_version)\<close>, 0 when there is no row.\<close>

definition get_aggregate_version :: "'p event_store \<Rightarrow> string \<Rightarrow> int" where
  "get_aggregate_version st agg =
     (case map er_aggregate_version (agg_rows st agg) of
        [] \<Rightarrow> 0
      | v # vs \<Rightarrow> fold max vs v)"

text \<open>One \<open>INSERT\<close>: the two \<open>UNIQUE\<close> constraints raise \<open>IntegrityError\<close>.\<close>

definition insert_row :: "'p event_store \<Rightarrow> string \<Rightarrow> string \<Rightarrow> int \<Rightarrow> 'p domain_event \<Rightarrow> event_envelope \<Rightarrow>
    (int \<times> 'p event_store) option" where
  "insert_row st agg agg_type version ev env =
     (if env_event_id env \<in> set (map er_event_id (es_events st)) then None
      else if (agg, version) \<in> set (map (\<lambda>r. (er_aggregate_id r, er_aggregate_version r)) (es_events st))
      then None
      else let gp = es_sequence st + 1;
               row = \<lparr>er_global_position = gp,
                      er_event_id = env_event_id env,
                      er_aggregate_id = agg,
                      er_aggregate_type = agg_type,
                      er_aggregate_version = version,
                      er_event_type = cls_event_type (de_class ev),
                      er_schema_version = cls_schema_version (de_class ev),
                      er_payload = de_payload ev,
                      er_metadata = env,
                      er_occurred_at = env_occurred_at env\<rparr>
           in Some (gp, st\<lparr>es_events := es_events st @ [row], es_sequence := gp\<rparr>))"

fun insert_loop :: "(nat \<Rightarrow> bool) \<Rightarrow> nat \<Rightarrow> 'p event_store \<Rightarrow> string \<Rightarrow> string \<Rightarrow> int \<Rightarrow>
    ('p domain_event \<times> event_envelope) list \<Rightarrow> (int \<times> int list \<times> 'p event_store) option" where
  "insert_loop fault k st agg agg_type version [] = Some (version, [], st)"
| "insert_loop fault k st agg agg_type version ((ev, env) # rest) =
     (if fault k then None
      else case insert_row st agg agg_type (version + 1) ev env of
             None \<Rightarrow> None
           | Some (gp, st') \<Rightarrow>
               (case insert_loop fault (Suc k) st' agg agg_type (version + 1) rest of
                  None \<Rightarrow> None
                | Some (v, gps, st'') \<Rightarrow> Some (v, gp # gps, st'')))"

definition existing_rows :: "'p event_store \<Rightarrow> string list \<Rightarrow> 'p event_row list" where
  "existing_rows st event_ids = filter (\<lambda>r. er_event_id r \<in> set event_ids) (es_events st)"

fun positions_by_id :: "'p event_row list \<Rightarrow> string list \<Rightarrow> store_error + int list" where
  "positions_by_id rows [] = Inr []"
| "positions_by_id rows (eid # eids) =
     (case find (\<lambda>r. er_event_id r = eid) rows of
        None \<Rightarrow> Inl (StoreKeyError eid)
      | Some r \<Rightarrow> (case positions_by_id rows eids of
                    Inl e \<Rightarrow> Inl e
                  | Inr ps \<Rightarrow> Inr (er_global_position r # ps)))"

definition max_version :: "'p event_row list \<Rightarrow> int" where
  "max_version rows = fold (\<lambda>r m. max m (er_aggregate_version r)) (tl rows)
     (case rows of [] \<Rightarrow> 0 | r # _ \<Rightarrow> er_aggregate_version r)"

text \<open>The branch for ids that are already stored: idempotent re-emit, or an error.\<close>

definition append_existing :: "string \<Rightarrow> string list \<Rightarrow> 'p event_row list \<Rightarrow> store_error + append_result" where
  "append_existing agg event_ids existing =
     (let existing_ids = remdups (map er_event_id existing) in
      if length existing_ids = length event_ids then
        (case find (\<lambda>r. er_aggregate_id r \<noteq> agg) existing of
           Some r \<Rightarrow> Inl (DuplicateOnOtherAggregate (er_event_id r) (er_aggregate_id r))
         | None \<Rightarrow>
             (case positions_by_id existing event_ids of
                Inl e \<Rightarrow> Inl e
              | Inr ps \<Rightarrow> Inr \<lparr>ar_new_aggregate_version = max_version existing,
                               ar_written_event_ids = event_ids,
                               ar_written_global_positions = ps\<rparr>))
      else Inl (PartialDuplicate (sort existing_ids)
                 (sort (remdups (filter (\<lambda>i. i \<notin> set existing_ids) event_ids)))))"

definition append_events :: "(event_class \<Rightarrow> 'p \<Rightarrow> bool) \<Rightarrow> (nat \<Rightarrow> bool) \<Rightarrow> 'p event_store \<Rightarrow>
    string \<Rightarrow> string \<Rightarrow> 'p domain_event list \<Rightarrow> int \<Rightarrow> event_envelope list \<Rightarrow>
    (store_error + append_result) \<times> 'p event_store" where
  "append_events validate fault st agg agg_type events expected_version envelopes =
     (if length events = 0 then (Inl EmptyBatch, st)
      else if length events \<noteq> length envelopes
      then (Inl (LengthMismatch (length events) (length envelopes)), st)
      else case revalidate validate events of
        Some e \<Rightarrow> (Inl e, st)
      | None \<Rightarrow>
         if fault 0 then (Inl SqliteError, st) else
         (let event_ids = map env_event_id envelopes;
              existing = existing_rows st event_ids
          in if existing \<noteq> [] then (append_existing agg event_ids existing, st)
             else let current_version = get_aggregate_version st agg in
               if current_version \<noteq> expected_version
               then (Inl (ConcurrencyError agg expected_version current_version), st)
               else case insert_loop fault 1 st agg agg_type expected_version (zip events envelopes) of
                 None \<Rightarrow> (Inl SqliteError, st)
               | Some (new_version, positions, st') \<Rightarrow>
                   if fault (Suc (length events)) then (Inl SqliteError, st) else
                   (Inr \<lparr>ar_new_aggregate_version = new_version,
                         ar_written_event_ids = event_ids,
                         ar_written_global_positions = positions\<rparr>, st')))"

section \<open>Reading\<close>

definition row_to_stored :: "registry \<Rightarrow> (event_class \<Rightarrow> 'p \<Rightarrow> bool) \<Rightarrow> 'p event_row \<Rightarrow>
    store_error + 'p stored_event" where
  "row_to_stored reg validate r =
     (let cls = resolve_event_class reg (er_event_type r) (er_schema_version r);
          stored = \<lparr>se_global_position = er_global_position r,
                    se_aggregate_id = er_aggregate_id r,
                    se_aggregate_type = er_aggregate_type r,
                    se_aggregate_version = er_aggregate_version r,
                    se_event_type = er_event_type r,
                    se_schema_version = er_schema_version r,
                    se_payload = er_payload r,
                    se_envelope = er_metadata r,
                    se_occurred_at = er_occurred_at r\<rparr>
      in case cls of
           None \<Rightarrow> Inr stored
         | Some c \<Rightarrow> if validate c (er_payload r) then Inr stored else Inl PydanticValidationError)"

text \<open>A generator over rows: the events it yields before it ends or raises.\<close>

fun yield_rows :: "registry \<Rightarrow> (event_class \<Rightarrow> 'p \<Rightarrow> bool) \<Rightarrow> 'p event_row list \<Rightarrow>
    store_error + 'p stored_event list" where
  "yield_rows reg validate [] = Inr []"
| "yield_rows reg validate (r # rs) =
     (case row_to_stored reg validate r of
        Inl e \<Rightarrow> Inl e
      | Inr ev \<Rightarrow> (case yield_rows reg validate rs of
                     Inl e \<Rightarrow> Inl e
                   | Inr evs \<Rightarrow> Inr (ev # evs)))"

definition load_rows :: "'p event_store \<Rightarrow> string \<Rightarrow> int \<Rightarrow> 'p event_row list" where
  "load_rows st agg from_version =
     sort_key er_aggregate_version
       (filter (\<lambda>r. er_aggregate_id r = agg \<and> er_aggregate_version r > from_version) (es_events st))"

definition load :: "registry \<Rightarrow> (event_class \<Rightarrow> 'p \<Rightarrow> bool) \<Rightarrow> 'p event_store \<Rightarrow> string \<Rightarrow> int \<Rightarrow>
    store_error + 'p stored_event list" where
  "load reg validate st agg from_version = yield_rows reg validate (load_rows st agg from_version)"

text \<open>One page of \<open>load_global\<close>. SQLite's \<open>LIMIT\<close> with a negative argument is no limit;
  an absent or empty list of types is no filter.\<close>

definition sql_limit :: "int \<Rightarrow> 'a list \<Rightarrow> 'a list" where
  "sql_limit n xs = (if n < 0 then xs else take (nat n) xs)"

definition global_match :: "int \<Rightarrow> int option \<Rightarrow> string list option \<Rightarrow> 'p event_row \<Rightarrow> bool" where
  "global_match from_position to_position types r \<longleftrightarrow>
     er_global_position r \<ge> from_position \<and>
     (case to_position of None \<Rightarrow> True | Some t \<Rightarrow> er_global_position r \<le> t) \<and>
     (case types of None \<Rightarrow> True | Some ts \<Rightarrow> ts = [] \<or> er_event_type r \<in> set ts)"

definition global_page :: "'p event_store \<Rightarrow> int option \<Rightarrow> string list option \<Rightarrow> int \<Rightarrow> int \<Rightarrow> 'p event_row list" where
  "global_page st to_position types batch_size cursor =
     sql_limit batch_size
       (sort_key er_global_position (filter (global_match cursor to_position types) (es_events st)))"

lemma set_sql_limit: "set (sql_limit n xs) \<subseteq> set xs"
  by (auto simp: sql_limit_def dest: in_set_takeD)

lemma global_page_mem:
  assumes "r \<in> set (global_page st to_position types batch_size cursor)"
  shows "r \<in> set (es_events st) \<and> cursor \<le> er_global_position r"
  using assms set_sql_limit [of batch_size] by (fastforce simp: global_page_def global_match_def)

function load_global_rows :: "'p event_store \<Rightarrow> int option \<Rightarrow> string list option \<Rightarrow> int \<Rightarrow> int \<Rightarrow> 'p event_row list" where
  "load_global_rows st to_position types batch_size cursor =
     (let rows = global_page st to_position types batch_size cursor in
      if rows = [] then []
      else if int (length rows) < batch_size then rows
      else rows @ load_global_rows st to_position types batch_size (er_global_position (last rows) + 1))"
  by pat_completeness auto
termination
proof (relation "measure (\<lambda>(st, t, ty, b, c). card {r \<in> set (es_events st). c \<le> er_global_position r})", goal_cases)
  case 1
  then show ?case by simp
next
  case (2 st to_position types batch_size cursor rows)
  have "last rows \<in> set rows" using 2(2) by simp
  then have last: "last rows \<in> set (es_events st)" "cursor \<le> er_global_position (last rows)"
    using global_page_mem 2(1) by blast+
  let ?later = "{r \<in> set (es_events st). er_global_position (last rows) + 1 \<le> er_global_position r}"
  let ?all = "{r \<in> set (es_events st). cursor \<le> er_global_position r}"
  have "?later \<subseteq> ?all" "last rows \<in> ?all" "last rows \<notin> ?later" using last by auto
  then have "?later \<subset> ?all" by blast
  then show ?case by (simp add: psubset_card_mono)
qed

declare load_global_rows.simps [simp del]

definition load_global :: "registry \<Rightarrow> (event_class \<Rightarrow> 'p \<Rightarrow> bool) \<Rightarrow> 'p event_store \<Rightarrow>
    int \<Rightarrow> int option \<Rightarrow> string list option \<Rightarrow> int \<Rightarrow> store_error + 'p stored_event list" where
  "load_global reg validate st from_position to_position types batch_size =
     yield_rows reg validate (load_global_rows st to_position types batch_size from_position)"

section \<open>Purge\<close>

text \<open>SQLite's \<open>LIKE\<close> with an escape character: \<open>%\<close> matches any run, \<open>_\<close> one character,
  the escape makes the next pattern character literal, and letters A--Z match either case.\<close>

definition ascii_fold :: "char \<Rightarrow> char" where
  "ascii_fold c = (let n = of_char c :: nat in if 65 \<le> n \<and> n \<le> 90 then char_of (n + 32) else c)"

fun sql_like :: "char \<Rightarrow> string \<Rightarrow> string \<Rightarrow> bool" where
  "sql_like e [] s = (s = [])"
| "sql_like e (p # ps) s =
     (if p = e then
        (case ps of
           [] \<Rightarrow> False
         | q # qs \<Rightarrow> (case s of [] \<Rightarrow> False | c # cs \<Rightarrow> ascii_fold c = ascii_fold q \<and> sql_like e qs cs))
      else if p = CHR ''%'' then
        sql_like e ps s \<or> (case s of [] \<Rightarrow> False | c # cs \<Rightarrow> sql_like e (p # ps) cs)
      else if p = CHR ''_'' then (case s of [] \<Rightarrow> False | c # cs \<Rightarrow> sql_like e ps cs)
      else (case s of [] \<Rightarrow> False | c # cs \<Rightarrow> ascii_fold c = ascii_fold p \<and> sql_like e ps cs))"

definition backslash :: char where
  "backslash = CHR 0x5C"

text \<open>The three \<open>replace\<close> calls on the project id.\<close>

definition py_replace_char :: "char \<Rightarrow> string \<Rightarrow> string \<Rightarrow> string" where
  "py_replace_char c new s = concat (map (\<lambda>x. if x = c then new else [x]) s)"

definition like_escape :: "string \<Rightarrow> string" where
  "like_escape s = py_replace_char CHR ''_'' [backslash, CHR ''_'']
     (py_replace_char CHR ''%'' [backslash, CHR ''%'']
       (py_replace_char backslash [backslash, backslash] s))"

definition purge_match :: "string \<Rightarrow> 'p event_row \<Rightarrow> bool" where
  "purge_match project_id r \<longleftrightarrow>
     er_aggregate_id r = project_id \<or>
     sql_like backslash (like_escape project_id @ '':%'') (er_aggregate_id r) \<or>
     er_aggregate_id r = ''rlm-run:'' @ project_id"

definition purge_project_aggregates :: "bool \<Rightarrow> 'p event_store \<Rightarrow> string \<Rightarrow>
    (store_error + nat) \<times> 'p event_store" where
  "purge_project_aggregates fault st project_id =
     (if fault then (Inl SqliteError, st)
      else (Inr (length (filter (purge_match project_id) (es_events st))),
            st\<lparr>es_events := filter (\<lambda>r. \<not> purge_match project_id r) (es_events st)\<rparr>))"

end
