(* ===== verification/Event_Log.thy ===== *)
theory Event_Log
  imports Prelude
begin

text \<open>
  The interface the event-sourced services program against
  (\<^verbatim>\<open>class EventStore(Protocol)\<close> of \<^verbatim>\<open>src/backend/eventstore/interface.py\<close>), as the laws a
  client may rely on: a stream of facts per aggregate, a version that counts them, and a
  conditional write that adds a non-empty batch when the caller's version is current.
  \<open>commit\<close> is \<open>None\<close> where the store raises.
\<close>

locale event_log =
  fixes log_wf :: "'s \<Rightarrow> bool"
    and stream_of :: "'s \<Rightarrow> string \<Rightarrow> 'f list"
    and version_of :: "'s \<Rightarrow> string \<Rightarrow> int"
    and commit :: "'s \<Rightarrow> string \<Rightarrow> 'b \<Rightarrow> int \<Rightarrow> 's option"
    and facts_of :: "'b \<Rightarrow> 'f list"
  assumes version_is_length: "log_wf s \<Longrightarrow> version_of s a = int (length (stream_of s a))"
    and write_wf: "log_wf s \<Longrightarrow> commit s a b v = Some s' \<Longrightarrow> log_wf s'"
    and write_version: "log_wf s \<Longrightarrow> commit s a b v = Some s' \<Longrightarrow> v = version_of s a"
    and write_stream: "log_wf s \<Longrightarrow> commit s a b v = Some s' \<Longrightarrow>
      stream_of s' = (stream_of s)(a := stream_of s a @ facts_of b)"
    and write_nonempty: "log_wf s \<Longrightarrow> commit s a b v = Some s' \<Longrightarrow> facts_of b \<noteq> []"
begin

text \<open>A write at a version that was already written at fails.\<close>

lemma stale_write_fails:
  assumes "log_wf s" "commit s a b v = Some s'"
  shows "commit s' a b' v = None"
proof (rule ccontr)
  assume "commit s' a b' v \<noteq> None"
  then obtain s'' where "commit s' a b' v = Some s''" by blast
  then have "v = version_of s' a" using assms write_wf write_version by blast
  moreover have "version_of s' a > version_of s a"
    using assms write_wf write_stream write_nonempty by (simp add: version_is_length)
  moreover have "v = version_of s a" using assms by (rule write_version)
  ultimately show False by simp
qed

text \<open>Streams only grow: nothing that was written is changed by later writes.\<close>

lemma writes_append_only:
  assumes "(\<lambda>s s'. \<exists>a b v. commit s a b v = Some s')\<^sup>*\<^sup>* s s'" and "log_wf s"
  shows "log_wf s' \<and> prefix (stream_of s a) (stream_of s' a)"
  using assms
proof (induction rule: rtranclp_induct)
  case base
  then show ?case by simp
next
  case (step s1 s2)
  then obtain a' b v where w: "commit s1 a' b v = Some s2" by blast
  then show ?case using step write_wf write_stream by (auto intro: prefix_order.trans)
qed

text \<open>
  The optimistic protocol: a client that read a snapshot and writes with the snapshot's
  version succeeds only if the stream it read is still the whole stream.
\<close>

lemma write_needs_current_snapshot:
  assumes "log_wf s0" "(\<lambda>s s'. \<exists>a b v. commit s a b v = Some s')\<^sup>*\<^sup>* s0 s"
    and "commit s a b (version_of s0 a) = Some s'"
  shows "stream_of s a = stream_of s0 a \<and> stream_of s' a = stream_of s0 a @ facts_of b"
proof -
  from writes_append_only [OF assms(2,1)] have wf: "log_wf s"
    and pre: "prefix (stream_of s0 a) (stream_of s a)" by auto
  have "version_of s0 a = version_of s a" by (rule write_version [OF wf assms(3)])
  then have "length (stream_of s0 a) = length (stream_of s a)"
    using assms(1) wf by (simp add: version_is_length)
  with pre have eq: "stream_of s a = stream_of s0 a" by (auto simp: prefix_def)
  moreover have "stream_of s' a = stream_of s a @ facts_of b"
    using write_stream [OF wf assms(3)] by simp
  ultimately show ?thesis by simp
qed

end

text \<open>
  An event-sourced aggregate over the log: its events drive a state machine \<open>delta\<close> from
  \<open>start\<close>. A client that decides on the state it replayed and writes with the version it read
  keeps every stream a path of the machine, whoever else wrote in between.
\<close>

locale lifecycle_log = event_log log_wf stream_of version_of commit facts_of
  for log_wf :: "'s \<Rightarrow> bool" and stream_of :: "'s \<Rightarrow> string \<Rightarrow> 'f list" and version_of :: "'s \<Rightarrow> string \<Rightarrow> int"
    and commit :: "'s \<Rightarrow> string \<Rightarrow> 'b \<Rightarrow> int \<Rightarrow> 's option" and facts_of :: "'b \<Rightarrow> 'f list" +
  fixes delta :: "'q \<Rightarrow> 'f \<Rightarrow> 'q option"
    and start :: 'q
begin

lemma decided_write_keeps_path:
  assumes "log_wf s0" "(\<lambda>s s'. \<exists>a b v. commit s a b v = Some s')\<^sup>*\<^sup>* s0 s"
    and "commit s a b (version_of s0 a) = Some s'"
    and "run_path delta start (stream_of s0 a) = Some q" "run_path delta q (facts_of b) = Some q'"
  shows "run_path delta start (stream_of s' a) = Some q'"
  using write_needs_current_snapshot [OF assms(1-3)] assms(4,5) by (simp add: run_path_append)

text \<open>The machine cannot leave its final states, so neither can the aggregate.\<close>

lemma final_state_closed:
  assumes "log_wf s0" "(\<lambda>s s'. \<exists>a b v. commit s a b v = Some s')\<^sup>*\<^sup>* s0 s"
    and "run_path delta start (stream_of s0 a) = Some q" "\<And>f. delta q f = None"
    and "run_path delta start (stream_of s a) \<noteq> None"
  shows "stream_of s a = stream_of s0 a"
proof -
  obtain fs where fs: "stream_of s a = stream_of s0 a @ fs"
    using writes_append_only [OF assms(2,1)] by (auto simp: prefix_def)
  then show ?thesis using assms(3-5) by (cases fs) (simp_all add: run_path_append)
qed

end

end
