(* ===== verification/Event_Store_Laws.thy ===== *)
theory Event_Store_Laws
  imports Event_Store Event_Log
begin

text \<open>
  What the event store promises: the table invariant and its preservation, the refinement of
  the table by one append-only stream per aggregate, idempotent re-emission, atomicity,
  pagination, and the reach of a purge.
\<close>

section \<open>The table invariant\<close>

definition store_wf :: "'p event_store \<Rightarrow> bool" where
  "store_wf st \<longleftrightarrow>
     sorted_wrt (<) (map er_global_position (es_events st)) \<and>
     (\<forall>r \<in> set (es_events st). 0 < er_global_position r \<and> er_global_position r \<le> es_sequence st) \<and>
     0 \<le> es_sequence st \<and>
     distinct (map er_event_id (es_events st)) \<and>
     (\<forall>agg. map er_aggregate_version (agg_rows st agg) = [1..int (length (agg_rows st agg))])"

lemma store_wf_empty: "store_wf empty_store"
  by (simp add: store_wf_def empty_store_def agg_rows_def)

lemma store_wf_positions_sorted: "store_wf st \<Longrightarrow> sorted (map er_global_position (es_events st))"
  by (simp add: store_wf_def sorted_wrt_less_sorted)

lemma store_wf_versions:
  "store_wf st \<Longrightarrow> map er_aggregate_version (agg_rows st agg) = [1..int (length (agg_rows st agg))]"
  by (simp add: store_wf_def)

lemma fold_max_sorted: "sorted (v # vs) \<Longrightarrow> fold max vs v = last (v # vs :: int list)"
  by (induction vs arbitrary: v) (auto simp: max_def)

text \<open>Under the invariant the version of an aggregate is the length of its stream.\<close>

lemma version_eq_length:
  assumes "store_wf st"
  shows "get_aggregate_version st agg = int (length (agg_rows st agg))"
proof (cases "agg_rows st agg")
  case Nil
  then show ?thesis by (simp add: get_aggregate_version_def)
next
  case (Cons r rs)
  let ?vs = "map er_aggregate_version (agg_rows st agg)"
  have eq: "?vs = [1..int (length (agg_rows st agg))]" by (rule store_wf_versions [OF assms])
  have "sorted ?vs" unfolding eq by simp
  then have "get_aggregate_version st agg = last ?vs"
    using fold_max_sorted [of "er_aggregate_version r" "map er_aggregate_version rs"] Cons
    by (simp add: get_aggregate_version_def del: last.simps)
  also have "\<dots> = int (length (agg_rows st agg))"
    unfolding eq using Cons by (intro last_upto) simp
  finally show ?thesis .
qed

lemma agg_rows_append:
  "agg_rows (st\<lparr>es_events := es_events st @ rows, es_sequence := n\<rparr>) agg =
     agg_rows st agg @ filter (\<lambda>r. er_aggregate_id r = agg) rows"
  by (simp add: agg_rows_def)

section \<open>The insert loop\<close>

text \<open>The rows a batch becomes, as a function of the counter and the version.\<close>

fun batch_rows :: "int \<Rightarrow> string \<Rightarrow> string \<Rightarrow> int \<Rightarrow> ('p domain_event \<times> event_envelope) list \<Rightarrow> 'p event_row list" where
  "batch_rows gp agg agg_type version [] = []"
| "batch_rows gp agg agg_type version ((ev, env) # rest) =
     \<lparr>er_global_position = gp + 1, er_event_id = env_event_id env, er_aggregate_id = agg,
      er_aggregate_type = agg_type, er_aggregate_version = version + 1,
      er_event_type = cls_event_type (de_class ev), er_schema_version = cls_schema_version (de_class ev),
      er_payload = de_payload ev, er_metadata = env, er_occurred_at = env_occurred_at env\<rparr>
     # batch_rows (gp + 1) agg agg_type (version + 1) rest"

lemma length_batch_rows [simp]: "length (batch_rows gp agg ty v ps) = length ps"
  by (induction ps arbitrary: gp v rule: list.induct) auto

lemma batch_rows_agg: "r \<in> set (batch_rows gp agg ty v ps) \<Longrightarrow> er_aggregate_id r = agg"
  by (induction ps arbitrary: gp v) auto

lemma batch_rows_ids: "map er_event_id (batch_rows gp agg ty v ps) = map (env_event_id \<circ> snd) ps"
  by (induction ps arbitrary: gp v) auto

lemma batch_rows_positions:
  "map er_global_position (batch_rows gp agg ty v ps) = [gp + 1..gp + int (length ps)]"
proof (induction ps arbitrary: gp v)
  case Nil
  then show ?case by simp
next
  case (Cons p ps)
  have "[gp + 1..gp + int (length (p # ps))] = (gp + 1) # [gp + 1 + 1..gp + 1 + int (length ps)]"
    by (subst upto_rec1) (auto simp: algebra_simps)
  with Cons show ?case by (cases p) simp
qed

lemma batch_rows_versions:
  "map er_aggregate_version (batch_rows gp agg ty v ps) = [v + 1..v + int (length ps)]"
proof (induction ps arbitrary: gp v)
  case Nil
  then show ?case by simp
next
  case (Cons p ps)
  have "[v + 1..v + int (length (p # ps))] = (v + 1) # [v + 1 + 1..v + 1 + int (length ps)]"
    by (subst upto_rec1) (auto simp: algebra_simps)
  with Cons show ?case by (cases p) simp
qed

lemma filter_batch_rows:
  "filter (\<lambda>r. er_aggregate_id r = a) (batch_rows gp agg ty v ps) =
     (if a = agg then batch_rows gp agg ty v ps else [])"
  using batch_rows_agg by (fastforce simp: filter_id_conv filter_empty_conv)

lemma insert_row_Some:
  assumes "insert_row st agg ty version ev env = Some (gp, st')"
  shows "gp = es_sequence st + 1 \<and>
    st' = st\<lparr>es_events := es_events st @ batch_rows (es_sequence st) agg ty (version - 1) [(ev, env)],
             es_sequence := es_sequence st + 1\<rparr> \<and>
    env_event_id env \<notin> set (map er_event_id (es_events st))"
  using assms by (auto simp: insert_row_def Let_def split: if_splits)

lemma insert_loop_Some:
  assumes "insert_loop fault k st agg ty v ps = Some (v', gps, st')"
  shows "v' = v + int (length ps) \<and> gps = [es_sequence st + 1..es_sequence st + int (length ps)] \<and>
    st' = st\<lparr>es_events := es_events st @ batch_rows (es_sequence st) agg ty v ps,
             es_sequence := es_sequence st + int (length ps)\<rparr> \<and>
    distinct (map (env_event_id \<circ> snd) ps) \<and>
    set (map (env_event_id \<circ> snd) ps) \<inter> set (map er_event_id (es_events st)) = {}"
  using assms
proof (induction fault k st agg ty v ps arbitrary: v' gps st' rule: insert_loop.induct)
  case (1 fault k st agg ty version)
  then show ?case by simp
next
  case (2 fault k st agg ty version ev env rest)
  from 2(2) obtain gp st1 gps' where
    nf: "\<not> fault k" and
    ins: "insert_row st agg ty (version + 1) ev env = Some (gp, st1)" and
    rest: "insert_loop fault (Suc k) st1 agg ty (version + 1) rest = Some (v', gps', st')" and
    gps: "gps = gp # gps'"
    by (auto split: if_splits option.splits)
  note st1 = insert_row_Some [OF ins]
  note IH = 2(1) [OF nf ins refl rest]
  have seq: "es_sequence st1 = es_sequence st + 1" using st1 by simp
  have ev1: "es_events st1 = es_events st @ batch_rows (es_sequence st) agg ty version [(ev, env)]"
    using st1 by simp
  have upto: "[es_sequence st + 1..es_sequence st + int (length ((ev, env) # rest))] =
      (es_sequence st + 1) # [es_sequence st1 + 1..es_sequence st1 + int (length rest)]"
    by (subst upto_rec1) (auto simp: seq algebra_simps)
  show ?case
    using IH st1 unfolding gps upto seq ev1 by (auto simp: seq ev1)
qed

lemma insert_row_succeeds:
  assumes "env_event_id env \<notin> set (map er_event_id (es_events st))"
    and "\<forall>r \<in> set (agg_rows st agg). er_aggregate_version r < version"
  shows "\<exists>gp st'. insert_row st agg ty version ev env = Some (gp, st')"
  using assms by (auto simp: insert_row_def Let_def agg_rows_def)

lemma insert_loop_succeeds:
  assumes "\<And>j. \<not> fault j"
    and "distinct (map (env_event_id \<circ> snd) ps)"
    and "set (map (env_event_id \<circ> snd) ps) \<inter> set (map er_event_id (es_events st)) = {}"
    and "\<forall>r \<in> set (agg_rows st agg). er_aggregate_version r \<le> v"
  shows "\<exists>v' gps st'. insert_loop fault k st agg ty v ps = Some (v', gps, st')"
  using assms(2-4)
proof (induction ps arbitrary: k st v)
  case Nil
  then show ?case by simp
next
  case (Cons p ps)
  obtain ev env where p: "p = (ev, env)" by fastforce
  from Cons.prems obtain gp st1 where ins: "insert_row st agg ty (v + 1) ev env = Some (gp, st1)"
    using insert_row_succeeds [of env st agg "v + 1" ty ev] by (fastforce simp: p)
  note st1 = insert_row_Some [OF ins]
  have "\<forall>r \<in> set (agg_rows st1 agg). er_aggregate_version r \<le> v + 1"
    using Cons.prems(3) st1 by (auto simp: agg_rows_append)
  moreover have "set (map (env_event_id \<circ> snd) ps) \<inter> set (map er_event_id (es_events st1)) = {}"
    using Cons.prems(1,2) st1 by (auto simp: p)
  ultimately obtain v' gps st' where
    "insert_loop fault (Suc k) st1 agg ty (v + 1) ps = Some (v', gps, st')"
    using Cons.IH [of st1 "v + 1" "Suc k"] Cons.prems(1) by auto
  moreover have "\<not> fault k" by (rule assms(1))
  ultimately show ?case using ins by (simp add: p)
qed


section \<open>Append as an operation on streams\<close>

text \<open>What a stream records of an event: its type and version, payload and envelope.\<close>

type_synonym 'p fact = "string \<times> int \<times> 'p \<times> event_envelope"

definition row_fact :: "'p event_row \<Rightarrow> 'p fact" where
  "row_fact r = (er_event_type r, er_schema_version r, er_payload r, er_metadata r)"

definition event_fact :: "'p domain_event \<times> event_envelope \<Rightarrow> 'p fact" where
  "event_fact p = (cls_event_type (de_class (fst p)), cls_schema_version (de_class (fst p)),
     de_payload (fst p), snd p)"

definition stream :: "'p event_store \<Rightarrow> string \<Rightarrow> 'p fact list" where
  "stream st agg = map row_fact (agg_rows st agg)"

lemma length_stream [simp]: "length (stream st agg) = length (agg_rows st agg)"
  by (simp add: stream_def)

lemma batch_rows_facts: "map row_fact (batch_rows gp agg ty v ps) = map event_fact ps"
  by (induction ps arbitrary: gp v) (auto simp: row_fact_def event_fact_def)

text \<open>The state after the rows of a batch were inserted.\<close>

definition after_batch :: "'p event_store \<Rightarrow> string \<Rightarrow> string \<Rightarrow> int \<Rightarrow> ('p domain_event \<times> event_envelope) list \<Rightarrow> 'p event_store" where
  "after_batch st agg ty v ps =
     st\<lparr>es_events := es_events st @ batch_rows (es_sequence st) agg ty v ps,
        es_sequence := es_sequence st + int (length ps)\<rparr>"

lemma agg_rows_after_batch:
  "agg_rows (after_batch st agg ty v ps) a =
     agg_rows st a @ (if a = agg then batch_rows (es_sequence st) agg ty v ps else [])"
  by (simp add: after_batch_def agg_rows_append filter_batch_rows)

lemma stream_after_batch:
  "stream (after_batch st agg ty v ps) a =
     stream st a @ (if a = agg then map event_fact ps else [])"
  by (simp add: stream_def agg_rows_after_batch batch_rows_facts)

lemma upto_concat:
  assumes "0 \<le> n" "0 \<le> m"
  shows "[1..n] @ [n + 1..n + m] = [1..n + (m :: int)]"
proof (cases "m = 0")
  case True
  then show ?thesis by simp
next
  case False
  with assms show ?thesis using upto_split1 [of 1 "n + 1" "n + m"] by simp
qed

lemma after_batch_wf:
  assumes wf: "store_wf st" and v: "v = get_aggregate_version st agg"
    and fresh: "distinct (map (env_event_id \<circ> snd) ps)"
      "set (map (env_event_id \<circ> snd) ps) \<inter> set (map er_event_id (es_events st)) = {}"
  shows "store_wf (after_batch st agg ty v ps)"
proof -
  let ?new = "batch_rows (es_sequence st) agg ty v ps"
  have gps: "map er_global_position ?new = [es_sequence st + 1..es_sequence st + int (length ps)]"
    by (rule batch_rows_positions)
  have new: "es_sequence st < er_global_position r \<and>
      er_global_position r \<le> es_sequence st + int (length ps)" if "r \<in> set ?new" for r
  proof -
    have "er_global_position r \<in> set (map er_global_position ?new)" using that by simp
    then show ?thesis unfolding gps by simp
  qed
  have "sorted_wrt (<) (map er_global_position (es_events st @ ?new))"
    using wf new unfolding map_append sorted_wrt_append
    by (fastforce simp: store_wf_def gps)
  moreover have "distinct (map er_event_id (es_events st @ ?new))"
    using wf fresh by (auto simp: store_wf_def batch_rows_ids)
  moreover have "map er_aggregate_version (agg_rows (after_batch st agg ty v ps) a) =
      [1..int (length (agg_rows (after_batch st agg ty v ps) a))]" for a
  proof (cases "a = agg")
    case True
    have "[1..v] @ [v + 1..v + int (length ps)] = [1..v + int (length ps)]"
      using version_eq_length [OF wf] v by (intro upto_concat) auto
    with True show ?thesis
      using store_wf_versions [OF wf, of agg] version_eq_length [OF wf, of agg] v
      by (simp add: agg_rows_after_batch batch_rows_versions)
  next
    case False
    then show ?thesis using store_wf_versions [OF wf, of a] by (simp add: agg_rows_after_batch)
  qed
  ultimately show ?thesis
    using wf new unfolding store_wf_def after_batch_def by fastforce
qed

text \<open>Everything an append that returns can have done.\<close>

lemma append_Inr_cases:
  assumes "append_events validate fault st agg ty evs v envs = (Inr ar, st')"
  obtains (replay) "existing_rows st (map env_event_id envs) \<noteq> []" "st' = st"
      "append_existing agg (map env_event_id envs) (existing_rows st (map env_event_id envs)) = Inr ar"
      "length evs = length envs"
  | (fresh) "existing_rows st (map env_event_id envs) = []" "length evs = length envs" "evs \<noteq> []"
      "revalidate validate evs = None" "v = get_aggregate_version st agg"
      "st' = after_batch st agg ty v (zip evs envs)"
      "distinct (map env_event_id envs)"
      "set (map env_event_id envs) \<inter> set (map er_event_id (es_events st)) = {}"
      "ar = \<lparr>ar_new_aggregate_version = v + int (length evs),
             ar_written_event_ids = map env_event_id envs,
             ar_written_global_positions = [es_sequence st + 1..es_sequence st + int (length evs)]\<rparr>"
proof (cases "existing_rows st (map env_event_id envs) = []")
  case False
  with assms show ?thesis
    by (intro replay) (auto simp: append_events_def Let_def split: if_splits option.splits)
next
  case True
  from assms True obtain v' gps st1 where
    len: "length evs = length envs" "evs \<noteq> []" and val: "revalidate validate evs = None" and
    ver: "v = get_aggregate_version st agg" and
    loop: "insert_loop fault 1 st agg ty v (zip evs envs) = Some (v', gps, st1)" and
    res: "st' = st1" "ar = \<lparr>ar_new_aggregate_version = v', ar_written_event_ids = map env_event_id envs,
      ar_written_global_positions = gps\<rparr>"
    by (auto simp: append_events_def Let_def split: if_splits option.splits)
  have ids: "map (env_event_id \<circ> snd) (zip evs envs) = map env_event_id envs"
    using len(1) by (metis map_map map_snd_zip)
  note L = insert_loop_Some [OF loop]
  show ?thesis
    using L True len val ver res unfolding ids by (intro fresh) (auto simp: after_batch_def)
qed

lemma append_Inl_unchanged:
  assumes "append_events validate fault st agg ty evs v envs = (Inl e, st')"
  shows "st' = st"
  using assms by (auto simp: append_events_def Let_def split: if_splits option.splits)

text \<open>Every append keeps the table invariant, whatever its arguments and faults.\<close>

lemma append_wf [step_inv]:
  assumes "store_wf st" and "append_events validate fault st agg ty evs v envs = (res, st')"
  shows "store_wf st'"
proof (cases res)
  case (Inl e)
  with assms append_Inl_unchanged show ?thesis by blast
next
  case (Inr ar)
  from assms(2)[unfolded Inr] show ?thesis
  proof (cases rule: append_Inr_cases)
    case replay
    with assms(1) show ?thesis by simp
  next
    case fresh
    have ids: "map (env_event_id \<circ> snd) (zip evs envs) = map env_event_id envs"
      using fresh(2) by (metis map_map map_snd_zip)
    show ?thesis
      unfolding fresh(6) using assms(1) fresh(5,7,8) by (intro after_batch_wf) (simp_all only: ids)
  qed
qed


lemma append_fresh_eq:
  assumes "append_events validate fault st agg ty evs v envs = (Inr ar, st')"
    and "existing_rows st (map env_event_id envs) = []"
  shows "length evs = length envs" "evs \<noteq> []" "v = get_aggregate_version st agg"
    "st' = after_batch st agg ty v (zip evs envs)" "distinct (map env_event_id envs)"
    "ar = \<lparr>ar_new_aggregate_version = v + int (length evs),
           ar_written_event_ids = map env_event_id envs,
           ar_written_global_positions = [es_sequence st + 1..es_sequence st + int (length evs)]\<rparr>"
  using assms(1) by (rule append_Inr_cases; simp add: assms(2))+

lemma version_after_append:
  assumes "store_wf st"
    and "append_events validate fault st agg ty evs v envs = (Inr ar, st')"
    and "existing_rows st (map env_event_id envs) = []"
  shows "get_aggregate_version st' agg = v + int (length evs)"
proof -
  note eq = append_fresh_eq [OF assms(2,3)]
  have "get_aggregate_version st' agg = int (length (agg_rows st' agg))"
    by (rule version_eq_length [OF append_wf [OF assms(1,2)]])
  then show ?thesis
    using version_eq_length [OF assms(1), of agg] eq(1,3)
    by (simp add: eq(4) agg_rows_after_batch)
qed

lemma positions_below_sequence:
  "store_wf st \<Longrightarrow> p \<in> set (map er_global_position (es_events st)) \<Longrightarrow> p \<le> es_sequence st"
  by (auto simp: store_wf_def)

text \<open>
  C1. An append that returns with new event ids does to the store exactly what appending to
  one stream does: the aggregate's stream grows by the batch, in order, with payloads and
  envelopes unchanged; every other stream is untouched; the version becomes the expected
  version plus the batch size and is what the result reports; and the new global positions
  are the reported ones and larger than all positions before, so the global log grows at its
  end. The table invariant is kept.
\<close>

theorem append_refines_streams:
  assumes "store_wf st"
    and "append_events validate fault st agg ty evs v envs = (Inr ar, st')"
    and "existing_rows st (map env_event_id envs) = []"
  shows "store_wf st' \<and>
    stream st' = (stream st)(agg := stream st agg @ map event_fact (zip evs envs)) \<and>
    v = get_aggregate_version st agg \<and>
    get_aggregate_version st' agg = v + int (length evs) \<and>
    ar_new_aggregate_version ar = v + int (length evs) \<and>
    map er_global_position (es_events st') =
      map er_global_position (es_events st) @ ar_written_global_positions ar \<and>
    (\<forall>p \<in> set (map er_global_position (es_events st)). \<forall>q \<in> set (ar_written_global_positions ar). p < q)"
proof (intro conjI)
  note eq = append_fresh_eq [OF assms(2,3)]
  show "store_wf st'" by (rule append_wf [OF assms(1,2)])
  show "v = get_aggregate_version st agg" by (rule eq(3))
  show "stream st' = (stream st)(agg := stream st agg @ map event_fact (zip evs envs))"
    by (auto simp: eq(4) stream_after_batch)
  show "get_aggregate_version st' agg = v + int (length evs)"
    by (rule version_after_append [OF assms])
  show "ar_new_aggregate_version ar = v + int (length evs)" by (simp add: eq(6))
  show "map er_global_position (es_events st') =
      map er_global_position (es_events st) @ ar_written_global_positions ar"
    using eq(1) by (simp add: eq(4,6) after_batch_def batch_rows_positions)
  show "\<forall>p \<in> set (map er_global_position (es_events st)). \<forall>q \<in> set (ar_written_global_positions ar). p < q"
    using positions_below_sequence [OF assms(1)] by (fastforce simp: eq(6))
qed

lemma existing_rows_Nil:
  "existing_rows st ids = [] \<longleftrightarrow> set ids \<inter> set (map er_event_id (es_events st)) = {}"
  unfolding existing_rows_def filter_empty_conv by (simp add: disjoint_iff image_iff) metis

text \<open>When an append with new ids is accepted, on a database that raises no error.\<close>

lemma append_fresh_accepted:
  assumes "store_wf st" and "\<And>k. \<not> fault k"
    and "existing_rows st (map env_event_id envs) = []"
    and "evs \<noteq> []" "length evs = length envs" "revalidate validate evs = None"
    and "distinct (map env_event_id envs)" and "v = get_aggregate_version st agg"
  shows "\<exists>ar st'. append_events validate fault st agg ty evs v envs = (Inr ar, st')"
proof -
  have ids: "map (env_event_id \<circ> snd) (zip evs envs) = map env_event_id envs"
    using assms(5) by (metis map_map map_snd_zip)
  have fresh: "set (map env_event_id envs) \<inter> set (map er_event_id (es_events st)) = {}"
    using assms(3) by (simp only: existing_rows_Nil)
  have "er_aggregate_version r \<le> v" if "r \<in> set (agg_rows st agg)" for r
  proof -
    have "er_aggregate_version r \<in> set (map er_aggregate_version (agg_rows st agg))" using that by simp
    then show ?thesis
      unfolding store_wf_versions [OF assms(1)] assms(8) version_eq_length [OF assms(1)] by simp
  qed
  then obtain v' gps st1 where "insert_loop fault 1 st agg ty v (zip evs envs) = Some (v', gps, st1)"
    using insert_loop_succeeds [of fault "zip evs envs" st agg v 1 ty] assms(2,7) fresh
    unfolding ids by blast
  moreover have "\<not> fault 0" "\<not> fault (Suc (length evs))" by (rule assms(2))+
  moreover have "envs \<noteq> []" using assms(4,5) by auto
  ultimately show ?thesis using assms(3-6,8) by (simp add: append_events_def Let_def)
qed


section \<open>Re-emission and races\<close>

text \<open>A later state of the store: rows were only added since.\<close>

definition extends :: "'p event_store \<Rightarrow> 'p event_store \<Rightarrow> bool" where
  "extends st later \<longleftrightarrow> (\<exists>rows. es_events later = es_events st @ rows)"

lemma append_extends:
  assumes "append_events validate fault st agg ty evs v envs = (res, st')"
  shows "extends st st'"
proof (cases res)
  case (Inl e)
  with assms append_Inl_unchanged show ?thesis by (fastforce simp: extends_def)
next
  case (Inr ar)
  from assms[unfolded Inr] show ?thesis
    by (rule append_Inr_cases) (auto simp: extends_def after_batch_def)
qed

lemma positions_by_id_batch:
  assumes "distinct (map er_event_id rows)"
    and "set (map er_event_id pre) \<inter> set (map er_event_id rows) = {}"
  shows "positions_by_id (pre @ rows) (map er_event_id rows) = Inr (map er_global_position rows)"
  using assms
proof (induction rows arbitrary: pre)
  case Nil
  then show ?case by simp
next
  case (Cons r rows)
  have "find (\<lambda>x. er_event_id x = er_event_id r) (pre @ r # rows) = Some r"
    using Cons.prems(2) by (induction pre) auto
  moreover have "positions_by_id ((pre @ [r]) @ rows) (map er_event_id rows) = Inr (map er_global_position rows)"
    using Cons.prems by (intro Cons.IH) auto
  ultimately show ?case by simp
qed

lemma max_version_sorted:
  assumes "rows \<noteq> []" "sorted (map er_aggregate_version rows)"
  shows "max_version rows = er_aggregate_version (last rows)"
proof (cases rows)
  case Nil
  with assms show ?thesis by simp
next
  case (Cons r rs)
  have "fold (\<lambda>r m. max m (er_aggregate_version r)) rs a = fold max (map er_aggregate_version rs) a" for a
    by (induction rs arbitrary: a) (simp_all add: max.commute)
  then show ?thesis
    using assms(2) fold_max_sorted [of "er_aggregate_version r" "map er_aggregate_version rs"]
    by (cases rs rule: rev_cases) (simp_all add: Cons max_version_def)
qed

lemma existing_rows_later:
  assumes "store_wf later" and "es_events later = old @ rows @ newer"
  shows "existing_rows later (map er_event_id rows) = rows"
proof -
  from assms have d: "distinct (map er_event_id (old @ rows @ newer))" by (simp add: store_wf_def)
  then have "filter (\<lambda>r. er_event_id r \<in> set (map er_event_id rows)) old = []"
    "filter (\<lambda>r. er_event_id r \<in> set (map er_event_id rows)) newer = []"
    by (auto simp: filter_empty_conv)
  then show ?thesis by (simp add: existing_rows_def assms(2))
qed

lemma remdups_distinct_id: "distinct xs \<Longrightarrow> length (remdups xs) = length xs"
  by (simp add: distinct_remdups_id)

text \<open>
  A retried append is harmless. After an append succeeded, repeating it later (with the
  same ids, against any state in which rows were only added, and with any expected version,
  even a stale one) returns the very same result, with the original positions and version,
  and changes nothing.
\<close>

theorem append_retry_idempotent:
  assumes "store_wf st"
    and first: "append_events validate fault st agg ty evs v envs = (Inr ar, st')"
    and fresh: "existing_rows st (map env_event_id envs) = []"
    and later: "extends st' later" "store_wf later"
    and "\<not> fault' 0"
  shows "append_events validate fault' later agg ty' evs v' envs = (Inr ar, later)"
proof -
  note eq = append_fresh_eq [OF first fresh]
  let ?rows = "batch_rows (es_sequence st) agg ty v (zip evs envs)"
  have ids: "map er_event_id ?rows = map env_event_id envs"
    using eq(1) by (simp add: batch_rows_ids flip: map_map)
  from later(1) obtain newer where ev: "es_events later = es_events st @ ?rows @ newer"
    by (auto simp: extends_def eq(4) after_batch_def)
  have ex: "existing_rows later (map env_event_id envs) = ?rows"
    using existing_rows_later [OF later(2) ev] by (simp add: ids)
  have ne: "?rows \<noteq> []" using eq(1,2) by (metis length_0_conv length_batch_rows length_zip min.idem)
  have vs: "map er_aggregate_version ?rows = [v + 1..v + int (length evs)]"
    using eq(1) by (simp add: batch_rows_versions)
  have len: "length (remdups (map er_event_id ?rows)) = length (map env_event_id envs)"
    using eq(5) by (simp add: ids distinct_remdups_id)
  have agg: "find (\<lambda>r. er_aggregate_id r \<noteq> agg) ?rows = None"
    using batch_rows_agg by (fastforce simp: find_None_iff)
  have pos: "positions_by_id ?rows (map env_event_id envs) =
      Inr [es_sequence st + 1..es_sequence st + int (length evs)]"
    using positions_by_id_batch [of ?rows "[]"] eq(1,5) by (simp add: ids batch_rows_positions)
  have max: "max_version ?rows = v + int (length evs)"
  proof -
    have "sorted (map er_aggregate_version ?rows)" unfolding vs by simp
    then have "max_version ?rows = last (map er_aggregate_version ?rows)"
      using ne max_version_sorted by (metis last_map)
    also have "\<dots> = v + int (length evs)"
      unfolding vs using eq(2) by (subst upto_rec2) (auto simp: Suc_le_eq)
    finally show ?thesis .
  qed
  have "append_existing agg (map env_event_id envs) ?rows = Inr ar"
    using len agg pos max by (simp add: append_existing_def Let_def eq(6))
  moreover have "revalidate validate evs = None"
    using first by (auto simp: append_events_def Let_def split: if_splits option.splits)
  moreover have "envs \<noteq> []" using eq(1,2) by auto
  ultimately show ?thesis
    using assms(6) eq(1,2) ne by (simp add: append_events_def Let_def ex)
qed

text \<open>
  Of two writers that read the same version, one wins: once an append at version \<open>v\<close>
  added its batch, every other append of new events at the same version is refused with
  \<open>ConcurrencyError\<close>, which reports the version to reload, and the store stays as it is.
\<close>

theorem stale_append_refused:
  assumes "store_wf st"
    and first: "append_events validate fault st agg ty evs v envs = (Inr ar, st')"
      "existing_rows st (map env_event_id envs) = []"
    and second: "evs' \<noteq> []" "length evs' = length envs'" "revalidate validate evs' = None"
      "existing_rows st' (map env_event_id envs') = []" "\<not> fault' 0"
  shows "append_events validate fault' st' agg ty' evs' v envs' =
    (Inl (ConcurrencyError agg v (v + int (length evs))), st')"
proof -
  have "get_aggregate_version st' agg = v + int (length evs)"
    by (rule version_after_append [OF assms(1) first])
  moreover have "length evs > 0" using append_fresh_eq(2) [OF first] by simp
  moreover have "envs' \<noteq> []" using second(1,2) by auto
  ultimately show ?thesis using second by (simp add: append_events_def Let_def)
qed


text \<open>
  C22. An append is all or nothing. On a database that raises no error, an append of new
  event ids to a well-formed store returns exactly when the batch is non-empty and has one
  envelope per event, every event passes validation, no id occurs twice in the batch and the
  expected version is the current one; and whenever an append raises, for whatever reason
  and at whichever row a database error struck, the store is unchanged.
\<close>

theorem append_all_or_nothing:
  assumes "store_wf st" and "existing_rows st (map env_event_id envs) = []"
  shows "((\<exists>ar. fst (append_events validate (\<lambda>_. False) st agg ty evs v envs) = Inr ar) \<longleftrightarrow>
      evs \<noteq> [] \<and> length evs = length envs \<and> revalidate validate evs = None \<and>
      distinct (map env_event_id envs) \<and> v = get_aggregate_version st agg) \<and>
    (\<forall>fault e. fst (append_events validate fault st agg ty evs v envs) = Inl e \<longrightarrow>
      snd (append_events validate fault st agg ty evs v envs) = st)"
proof (intro conjI iffI allI impI)
  assume "\<exists>ar. fst (append_events validate (\<lambda>_. False) st agg ty evs v envs) = Inr ar"
  then obtain ar st' where r: "append_events validate (\<lambda>_. False) st agg ty evs v envs = (Inr ar, st')"
    by (metis prod.collapse)
  note eq = append_fresh_eq [OF r assms(2)]
  show "evs \<noteq> []" "length evs = length envs" "distinct (map env_event_id envs)"
    "v = get_aggregate_version st agg" using eq by auto
  show "revalidate validate evs = None"
    using r by (auto simp: append_events_def Let_def split: if_splits option.splits)
next
  assume "evs \<noteq> [] \<and> length evs = length envs \<and> revalidate validate evs = None \<and>
      distinct (map env_event_id envs) \<and> v = get_aggregate_version st agg"
  then show "\<exists>ar. fst (append_events validate (\<lambda>_. False) st agg ty evs v envs) = Inr ar"
    using append_fresh_accepted [OF assms(1), of "\<lambda>_. False" envs evs validate v agg ty] assms(2) by auto
next
  fix fault e
  assume "fst (append_events validate fault st agg ty evs v envs) = Inl e"
  then show "snd (append_events validate fault st agg ty evs v envs) = st"
    by (metis append_Inl_unchanged prod.collapse)
qed

section \<open>Reading back\<close>

lemma load_rows_wf:
  assumes "store_wf st"
  shows "load_rows st agg 0 = agg_rows st agg"
proof -
  have pos: "0 < er_aggregate_version r" if "r \<in> set (agg_rows st agg)" for r
  proof -
    have "er_aggregate_version r \<in> set (map er_aggregate_version (agg_rows st agg))" using that by simp
    then show ?thesis unfolding store_wf_versions [OF assms] by simp
  qed
  have "filter (\<lambda>r. er_aggregate_id r = agg \<and> er_aggregate_version r > 0) (es_events st) = agg_rows st agg"
    using pos by (auto simp: agg_rows_def intro: filter_cong)
  moreover have "sorted (map er_aggregate_version (agg_rows st agg))"
    unfolding store_wf_versions [OF assms] by simp
  ultimately show ?thesis by (simp add: load_rows_def sort_key_sorted_id)
qed

lemma yield_rows_Inr:
  assumes "yield_rows reg validate rows = Inr evs"
  shows "map (\<lambda>e. (se_event_type e, se_schema_version e, se_payload e, se_envelope e)) evs = map row_fact rows
    \<and> map se_aggregate_version evs = map er_aggregate_version rows
    \<and> map se_global_position evs = map er_global_position rows
    \<and> map se_aggregate_id evs = map er_aggregate_id rows"
  using assms
  by (induction rows arbitrary: evs)
    (auto simp: row_to_stored_def row_fact_def Let_def split: sum.splits option.splits if_splits)

lemma yield_rows_valid:
  assumes "\<And>r cls. r \<in> set rows \<Longrightarrow>
      resolve_event_class reg (er_event_type r) (er_schema_version r) = Some cls \<Longrightarrow> validate cls (er_payload r)"
  shows "\<exists>evs. yield_rows reg validate rows = Inr evs"
  using assms
proof (induction rows)
  case Nil
  then show ?case by simp
next
  case (Cons r rows)
  obtain evs where "yield_rows reg validate rows = Inr evs" using Cons by auto
  moreover obtain e where "row_to_stored reg validate r = Inr e"
    using Cons.prems [of r]
    by (cases "resolve_event_class reg (er_event_type r) (er_schema_version r)")
      (auto simp: row_to_stored_def Let_def)
  ultimately show ?case by simp
qed


section \<open>Pagination\<close>

definition global_rows :: "'p event_store \<Rightarrow> int option \<Rightarrow> string list option \<Rightarrow> int \<Rightarrow> 'p event_row list" where
  "global_rows st to_position types from_position =
     filter (global_match from_position to_position types) (es_events st)"

lemma global_page_wf:
  assumes "store_wf st"
  shows "global_page st to_position types n cursor = sql_limit n (global_rows st to_position types cursor)"
  unfolding global_page_def global_rows_def
  using sorted_map_filter [OF store_wf_positions_sorted [OF assms]] by (simp add: sort_key_sorted_id)

text \<open>Cutting a position-sorted list after its first \<open>n\<close> rows is restarting at the next position.\<close>

lemma global_rows_resume:
  assumes "store_wf st" and "global_rows st t ty c = xs @ ys" and "xs \<noteq> []"
  shows "global_rows st t ty (er_global_position (last xs) + 1) = ys"
proof -
  from assms(1) have "sorted_wrt (<) (map er_global_position (es_events st))" by (simp add: store_wf_def)
  from filter_from_resume [OF this assms(2) [unfolded global_rows_def global_match_def [abs_def]] assms(3)]
  show ?thesis by (simp add: global_rows_def global_match_def [abs_def])
qed

text \<open>
  Reading the log in pages loses and repeats nothing: for every batch size but 0 (a
  negative one is SQLite's \<open>no limit\<close>), \<open>load_global\<close> on a well-formed store yields exactly
  the rows that match the position range and the type filter, once each, in position order,
  and it ends.
\<close>

theorem load_global_complete:
  assumes "store_wf st" and "batch_size \<noteq> 0"
  shows "load_global_rows st to_position types batch_size from_position =
      filter (global_match from_position to_position types) (es_events st) \<and>
    sorted_wrt (<) (map er_global_position
      (load_global_rows st to_position types batch_size from_position))"
proof -
  have "load_global_rows st to_position types batch_size c = global_rows st to_position types c" for c
    using assms
  proof (induction st to_position types batch_size c rule: load_global_rows.induct)
    case (1 st t ty n c)
    let ?all = "global_rows st t ty c"
    let ?p = "sql_limit n ?all"
    note page = global_page_wf [OF 1(2), of t ty n c]
    have split: "?all = ?p @ (if n < 0 then [] else drop (nat n) ?all)"
      by (simp add: sql_limit_def)
    show ?case
    proof (cases "?p = [] \<or> int (length ?p) < n")
      case True
      then have "?all = ?p" using 1(3) by (cases "n < 0") (auto simp: sql_limit_def split: if_splits)
      with True page show ?thesis by (auto simp: load_global_rows.simps [of st t ty n c] Let_def)
    next
      case False
      then have "load_global_rows st t ty n c =
          ?p @ load_global_rows st t ty n (er_global_position (last ?p) + 1)"
        using page by (simp add: load_global_rows.simps [of st t ty n c] Let_def)
      also have "load_global_rows st t ty n (er_global_position (last ?p) + 1) =
          global_rows st t ty (er_global_position (last ?p) + 1)"
        using 1(1) [of ?p] 1(2,3) False page by auto
      also have "\<dots> = (if n < 0 then [] else drop (nat n) ?all)"
        using False by (intro global_rows_resume [OF 1(2) split]) simp
      finally show ?thesis using split by simp
    qed
  qed
  then show ?thesis
    using strict_sorted_map_filter assms(1) by (fastforce simp: global_rows_def store_wf_def)
qed


section \<open>Purge\<close>

definition like_escape_char :: "char \<Rightarrow> string" where
  "like_escape_char c = (if c = backslash \<or> c = CHR ''%'' \<or> c = CHR ''_'' then [backslash, c] else [c])"

lemma backslash_neq [simp]: "backslash \<noteq> CHR ''%''" "backslash \<noteq> CHR ''_''" "backslash \<noteq> CHR '':''"
  "CHR ''%'' \<noteq> backslash" "CHR ''_'' \<noteq> backslash" "CHR '':'' \<noteq> backslash"
  by (simp_all add: backslash_def)

lemma py_replace_char_append [simp]:
  "py_replace_char c n (s @ t) = py_replace_char c n s @ py_replace_char c n t"
  by (simp add: py_replace_char_def)

lemma like_escape_Nil [simp]: "like_escape [] = []"
  by (simp add: like_escape_def py_replace_char_def)

lemma like_escape_Cons [simp]: "like_escape (c # cs) = like_escape_char c @ like_escape cs"
proof -
  have "like_escape (c # cs) = like_escape ([c] @ cs)" by simp
  also have "\<dots> = like_escape [c] @ like_escape cs" by (simp only: like_escape_def py_replace_char_append)
  also have "like_escape [c] = like_escape_char c"
    by (simp add: like_escape_def like_escape_char_def py_replace_char_def)
  finally show ?thesis .
qed

text \<open>An escaped text matches itself, letter case aside, and nothing else.\<close>

lemma sql_like_escape:
  "sql_like backslash (like_escape p @ q) s \<longleftrightarrow>
     (\<exists>s1 s2. s = s1 @ s2 \<and> map ascii_fold s1 = map ascii_fold p \<and> sql_like backslash q s2)"
proof (induction p arbitrary: s)
  case Nil
  then show ?case by simp
next
  case (Cons c p)
  have step: "sql_like backslash (like_escape (c # p) @ q) s \<longleftrightarrow>
      (\<exists>x xs. s = x # xs \<and> ascii_fold x = ascii_fold c \<and> sql_like backslash (like_escape p @ q) xs)"
    by (cases s) (auto simp: like_escape_char_def)
  show ?case
    unfolding step Cons.IH
    by (auto simp: map_eq_Cons_conv) (metis append_Cons, blast)
qed

lemma ascii_fold_colon: "ascii_fold c = ascii_fold CHR '':'' \<longleftrightarrow> c = CHR '':''"
proof -
  have "ascii_fold CHR '':'' = CHR '':''" by (simp add: ascii_fold_def)
  moreover have "c = CHR '':''" if "ascii_fold c = CHR '':''"
  proof (rule ccontr)
    assume c: "c \<noteq> CHR '':''"
    have "of_char (ascii_fold c) = (58 :: nat)" using that by simp
    then show False
      using c that by (cases "65 \<le> (of_char c :: nat) \<and> of_char c \<le> (90 :: nat)") (auto simp: ascii_fold_def Let_def)
  qed
  ultimately show ?thesis by auto
qed

lemma sql_like_percent: "sql_like backslash ''%'' s"
  by (induction s) auto

lemma sql_like_sub: "sql_like backslash '':%'' s \<longleftrightarrow> (\<exists>rest. s = CHR '':'' # rest)"
proof (cases s)
  case Nil
  then show ?thesis by simp
next
  case (Cons c cs)
  have "sql_like backslash '':%'' (c # cs) \<longleftrightarrow>
      ascii_fold c = ascii_fold CHR '':'' \<and> sql_like backslash ''%'' cs"
    by (subst sql_like.simps) (simp del: sql_like.simps)
  then show ?thesis by (simp only: Cons sql_like_percent ascii_fold_colon simp_thms list.inject) simp
qed

text \<open>The aggregates a purge of \<open>project_id\<close> reaches.\<close>

definition purge_reaches :: "string \<Rightarrow> string \<Rightarrow> bool" where
  "purge_reaches project_id agg \<longleftrightarrow>
     agg = project_id \<or> agg = ''rlm-run:'' @ project_id \<or>
     (\<exists>p rest. agg = p @ '':'' @ rest \<and> map ascii_fold p = map ascii_fold project_id)"

lemma purge_match_reaches: "purge_match project_id r \<longleftrightarrow> purge_reaches project_id (er_aggregate_id r)"
  unfolding purge_match_def purge_reaches_def sql_like_escape sql_like_sub by auto

lemma agg_rows_purge:
  assumes "purge_project_aggregates fault st project_id = (Inr n, st')"
  shows "agg_rows st' agg = (if purge_reaches project_id agg then [] else agg_rows st agg)"
proof -
  from assms have "es_events st' = filter (\<lambda>r. \<not> purge_reaches project_id (er_aggregate_id r)) (es_events st)"
    by (auto simp: purge_project_aggregates_def purge_match_reaches split: if_splits)
  then have "agg_rows st' agg =
      filter (\<lambda>r. er_aggregate_id r = agg \<and> \<not> purge_reaches project_id agg) (es_events st)"
    unfolding agg_rows_def by (auto intro: filter_cong)
  then show ?thesis by (simp add: agg_rows_def)
qed

lemma purge_wf [step_inv]:
  assumes "store_wf st" and "purge_project_aggregates fault st project_id = (res, st')"
  shows "store_wf st'"
proof (cases res)
  case (Inl e)
  with assms show ?thesis by (auto simp: purge_project_aggregates_def split: if_splits)
next
  case (Inr n)
  then have st': "st' = st\<lparr>es_events := filter (\<lambda>r. \<not> purge_match project_id r) (es_events st)\<rparr>"
    and p: "purge_project_aggregates fault st project_id = (Inr n, st')"
    using assms(2) by (auto simp: purge_project_aggregates_def split: if_splits)
  have "map er_aggregate_version (agg_rows st' agg) = [1..int (length (agg_rows st' agg))]" for agg
    using store_wf_versions [OF assms(1), of agg] by (simp add: agg_rows_purge [OF p])
  then show ?thesis
    using assms(1) strict_sorted_map_filter distinct_map_filter_table
    unfolding store_wf_def by (auto simp: st')
qed

text \<open>
  A purge removes whole aggregates only: exactly those named by the project id itself,
  by \<open>rlm-run:\<close> followed by it, or by it and a colon, where this last comparison ignores the
  case of the letters A--Z as SQLite's \<open>LIKE\<close> does; all other streams keep every event, the
  invariant is kept, positions are never handed out again, and the number returned is the
  number of rows removed.
\<close>

theorem purge_scope:
  assumes "store_wf st" and "purge_project_aggregates fault st project_id = (Inr n, st')"
  shows "store_wf st' \<and>
    (\<forall>agg. stream st' agg = (if purge_reaches project_id agg then [] else stream st agg)) \<and>
    es_sequence st' = es_sequence st \<and>
    length (es_events st') + n = length (es_events st)"
proof (intro conjI allI)
  show "store_wf st'" by (rule purge_wf [OF assms])
  show "stream st' agg = (if purge_reaches project_id agg then [] else stream st agg)" for agg
    by (simp add: stream_def agg_rows_purge [OF assms(2)])
  show "es_sequence st' = es_sequence st" "length (es_events st') + n = length (es_events st)"
    using assms(2) sum_length_filter_compl [of "purge_match project_id" "es_events st"]
    by (auto simp: purge_project_aggregates_def split: if_splits)
qed


section \<open>The store provides the event log interface\<close>

type_synonym 'p event_batch = "(nat \<Rightarrow> bool) \<times> string \<times> 'p domain_event list \<times> event_envelope list"

text \<open>An append of a batch with new ids, \<open>None\<close> where it raises; the first component of the batch
  is where SQLite faults while it is written.\<close>

definition write_batch :: "(event_class \<Rightarrow> 'p \<Rightarrow> bool) \<Rightarrow> 'p event_store \<Rightarrow> string \<Rightarrow>
    'p event_batch \<Rightarrow> int \<Rightarrow> 'p event_store option" where
  "write_batch validate st agg b v =
     (case b of (fault, ty, evs, envs) \<Rightarrow>
        if existing_rows st (map env_event_id envs) \<noteq> [] then None
        else case append_events validate fault st agg ty evs v envs of
               (Inl e, _) \<Rightarrow> None
             | (Inr ar, st') \<Rightarrow> Some st')"

definition batch_facts :: "'p event_batch \<Rightarrow> 'p fact list" where
  "batch_facts b = (case b of (fault, ty, evs, envs) \<Rightarrow> map event_fact (zip evs envs))"

lemma write_batch_Some:
  assumes "write_batch validate st agg (fault, ty, evs, envs) v = Some st'"
  obtains ar where "append_events validate fault st agg ty evs v envs = (Inr ar, st')"
    "existing_rows st (map env_event_id envs) = []"
  using assms by (auto simp: write_batch_def split: if_splits prod.splits sum.splits)

lemma append_is_write:
  "append_events validate fault st agg ty evs v envs = (Inr ar, st') \<Longrightarrow>
   existing_rows st (map env_event_id envs) = [] \<Longrightarrow> write_batch validate st agg (fault, ty, evs, envs) v = Some st'"
  by (simp add: write_batch_def)

interpretation es_log: event_log store_wf stream get_aggregate_version "write_batch validate" batch_facts
  for validate :: "event_class \<Rightarrow> 'p \<Rightarrow> bool"
proof unfold_locales
  fix s :: "'p event_store" and a
  assume "store_wf s"
  then show "get_aggregate_version s a = int (length (stream s a))" by (simp add: version_eq_length)
next
  fix s a v s' and b :: "'p event_batch"
  assume wf: "store_wf s" and w: "write_batch validate s a b v = Some s'"
  obtain fault ty evs envs where b: "b = (fault, ty, evs, envs)" by (cases b)
  obtain ar where ap: "append_events validate fault s a ty evs v envs = (Inr ar, s')"
    and ex: "existing_rows s (map env_event_id envs) = []"
    using w write_batch_Some unfolding b by metis
  note eq = append_fresh_eq [OF ap ex]
  show "store_wf s'" by (rule append_wf [OF wf ap])
  show "v = get_aggregate_version s a" by (rule eq(3))
  show "stream s' = (stream s)(a := stream s a @ batch_facts b)"
    by (auto simp: eq(4) b batch_facts_def stream_after_batch)
  show "batch_facts b \<noteq> []" using eq(1,2) by (cases evs; cases envs) (simp_all add: b batch_facts_def)
qed

text \<open>Any number of writes by anyone.\<close>

definition store_grows :: "(event_class \<Rightarrow> 'p \<Rightarrow> bool) \<Rightarrow> 'p event_store \<Rightarrow> 'p event_store \<Rightarrow> bool" where
  "store_grows validate = (\<lambda>s s'. \<exists>a b v. write_batch validate s a b v = Some s')\<^sup>*\<^sup>*"

text \<open>The optimistic protocol at work: a service that read the version of an aggregate at \<open>st\<close> and
  appends to \<open>st1\<close>, which others have extended meanwhile, either leaves \<open>st1\<close> as it is or extends
  the very stream it had read.\<close>

lemma snapshot_append_cases:
  assumes "store_wf st" "store_grows validate st st1" "v = get_aggregate_version st agg"
    and "append_events validate fault st1 agg ty evs v envs = (res, st')"
  obtains (raised) e where "res = Inl e" "st' = st1"
  | (replayed) ar where "res = Inr ar" "st' = st1" "existing_rows st1 (map env_event_id envs) \<noteq> []"
  | (added) ar where "res = Inr ar" "store_wf st'" "length evs = length envs" "stream st1 agg = stream st agg"
      "stream st' = (stream st1)(agg := stream st agg @ map event_fact (zip evs envs))"
      "get_aggregate_version st' agg = v + int (length evs)" "store_grows validate st1 st'"
proof (cases res)
  case (Inl e)
  with assms(4) append_Inl_unchanged raised show ?thesis by blast
next
  case (Inr ar)
  show ?thesis
  proof (cases "existing_rows st1 (map env_event_id envs) = []")
    case False
    with assms(4) Inr have "st' = st1" by (auto elim: append_Inr_cases)
    with Inr False show ?thesis by (intro replayed)
  next
    case True
    let ?b = "(fault, ty, evs, envs)"
    from assms(2) have grows: "(\<lambda>s s'. \<exists>a b v. write_batch validate s a b v = Some s')\<^sup>*\<^sup>* st st1"
      by (simp add: store_grows_def)
    note ap = assms(4) [unfolded Inr]
    have w: "write_batch validate st1 agg ?b (get_aggregate_version st agg) = Some st'"
      using append_is_write [OF ap True] by (simp add: assms(3))
    have wf1: "store_wf st1" using es_log.writes_append_only [OF grows assms(1)] by simp
    have same: "stream st1 agg = stream st agg"
      using es_log.write_needs_current_snapshot [OF assms(1) grows w] by simp
    have "stream st' = (stream st1)(agg := stream st agg @ map event_fact (zip evs envs))"
      using es_log.write_stream [OF wf1 w] same by (simp add: batch_facts_def)
    moreover have "store_grows validate st1 st'" unfolding store_grows_def using w by blast
    ultimately show ?thesis
      using added [OF Inr es_log.write_wf [OF wf1 w] append_fresh_eq(1) [OF ap True] same]
        version_after_append [OF wf1 ap True] by blast
  qed
qed

lemma store_grows_refl [simp]: "store_grows validate st st"
  by (simp add: store_grows_def)

lemma store_grows_trans: "store_grows validate r s \<Longrightarrow> store_grows validate s t \<Longrightarrow> store_grows validate r t"
  unfolding store_grows_def by (rule rtranclp_trans)

lemma store_grows_wf: "store_grows validate s t \<Longrightarrow> store_wf s \<Longrightarrow> store_wf t"
  unfolding store_grows_def using es_log.writes_append_only by blast

section \<open>Concrete runs\<close>

definition sample_class :: event_class where
  "sample_class = \<lparr>cls_module = ''m'', cls_name = ''Sample'', cls_event_type = ''sample'', cls_schema_version = 1\<rparr>"

definition sample_event :: "nat \<Rightarrow> nat domain_event" where
  "sample_event n = \<lparr>de_class = sample_class, de_payload = n\<rparr>"

definition sample_env :: "string \<Rightarrow> event_envelope" where
  "sample_env i = \<lparr>env_event_id = i, env_correlation_id = ''c'', env_causation_id = None,
     env_occurred_at = 0, env_source = ''s'', env_schema_version = 1\<rparr>"

definition sample_append :: "nat event_store \<Rightarrow> string \<Rightarrow> int \<Rightarrow> nat \<Rightarrow> string \<Rightarrow>
    (store_error + append_result) \<times> nat event_store" where
  "sample_append st agg v n i =
     append_events (\<lambda>_ _. True) (\<lambda>_. False) st agg ''t'' [sample_event n] v [sample_env i]"

definition sample_store :: "nat event_store" where
  "sample_store = after_batch empty_store ''p:x'' ''t'' 0 [(sample_event 7, sample_env ''e1'')]"

definition sample_result :: append_result where
  "sample_result = \<lparr>ar_new_aggregate_version = 1, ar_written_event_ids = [''e1''],
     ar_written_global_positions = [1]\<rparr>"

lemmas sample_defs = sample_append_def sample_store_def sample_event_def sample_env_def sample_class_def
  sample_result_def after_batch_def empty_store_def append_events_def existing_rows_def
  get_aggregate_version_def agg_rows_def insert_row_def Let_def

lemma sample_run: "sample_append empty_store ''p:x'' 0 7 ''e1'' = (Inr sample_result, sample_store)"
  by (simp add: sample_defs)

lemma sample_fresh: "existing_rows empty_store (map env_event_id [sample_env ''e1'']) = []"
  by (simp add: sample_defs)

lemma sample_store_wf: "store_wf sample_store"
  using append_wf [OF store_wf_empty] sample_run unfolding sample_append_def by blast

theorem append_refines_streams_witness:
  "stream sample_store ''p:x'' = [(''sample'', 1, 7, sample_env ''e1'')] \<and>
   stream sample_store ''q'' = [] \<and> get_aggregate_version sample_store ''p:x'' = 1"
  using append_refines_streams [OF store_wf_empty sample_run [unfolded sample_append_def] sample_fresh]
  by (simp add: stream_def agg_rows_def empty_store_def event_fact_def sample_event_def sample_class_def)

theorem append_retry_idempotent_witness:
  "sample_append sample_store ''p:x'' 0 7 ''e1'' = (Inr sample_result, sample_store)"
proof -
  have "extends sample_store sample_store" by (simp add: extends_def)
  then show ?thesis
    unfolding sample_append_def
    using append_retry_idempotent [OF store_wf_empty sample_run [unfolded sample_append_def] sample_fresh
        _ sample_store_wf, of "\<lambda>_. False" "''t''" 0] by simp
qed

theorem stale_append_refused_witness:
  "sample_append sample_store ''p:x'' 0 8 ''e2'' =
     (Inl (ConcurrencyError ''p:x'' 0 1), sample_store)"
proof -
  have "existing_rows sample_store (map env_event_id [sample_env ''e2'']) = []"
    "revalidate (\<lambda>_ _. True) [sample_event 8] = None"
    by (simp_all add: sample_defs)
  then show ?thesis
    unfolding sample_append_def
    using stale_append_refused [OF store_wf_empty sample_run [unfolded sample_append_def] sample_fresh,
        of "[sample_event 8]" "[sample_env ''e2'']" "\<lambda>_. False" "''t''"] by simp
qed

theorem append_all_or_nothing_witness:
  "(\<exists>ar. fst (sample_append empty_store ''p:x'' 0 7 ''e1'') = Inr ar) \<and>
   (\<nexists>ar. fst (sample_append empty_store ''p:x'' 3 7 ''e1'') = Inr ar)"
  unfolding sample_append_def
  using append_all_or_nothing [OF store_wf_empty sample_fresh, of "\<lambda>_ _. True" "''p:x''" "''t''" "[sample_event 7]" 0]
    append_all_or_nothing [OF store_wf_empty sample_fresh, of "\<lambda>_ _. True" "''p:x''" "''t''" "[sample_event 7]" 3]
  by (simp add: get_aggregate_version_def agg_rows_def empty_store_def sample_event_def sample_class_def)


theorem load_global_complete_witness:
  "map er_event_id (load_global_rows sample_store None None 1 0) = [''e1'']"
  using load_global_complete [OF sample_store_wf, of 1 None None 0]
  by (simp add: global_match_def sample_store_def after_batch_def empty_store_def sample_env_def)

theorem purge_scope_witness:
  "stream (snd (purge_project_aggregates False sample_store ''P'')) ''p:x'' = []"
proof -
  have "map ascii_fold ''p'' = map ascii_fold ''P''" by code_simp
  then have "\<exists>p rest. ''p:x'' = p @ '':'' @ rest \<and> map ascii_fold p = map ascii_fold ''P''"
    by (intro exI [of _ "''p''"] exI [of _ "''x''"]) (simp del: list.map)
  then have reach: "purge_reaches ''P'' ''p:x''" by (simp only: purge_reaches_def) blast
  then have p: "purge_project_aggregates False sample_store ''P'' =
      (Inr 1, sample_store\<lparr>es_events := []\<rparr>)"
    by (simp add: purge_project_aggregates_def purge_match_reaches sample_store_def
        after_batch_def empty_store_def)
  from reach show ?thesis using purge_scope [OF sample_store_wf p] by (simp add: p)
qed

end
