(* ===== verification/Event_Subscription.thy ===== *)
theory Event_Subscription
  imports Event_Store_Laws
begin

text \<open>
  Durable subscriptions, \<^verbatim>\<open>src/backend/eventstore/subscription.py\<close>: the checkpoint and
  redelivery tables, acknowledgement, negative acknowledgement, and the generator \<open>_iter\<close>
  as a resumable iterator (one call of \<open>iter_resume\<close> runs the generator to its next
  \<open>yield\<close>, its end, or the sleep of the poll loop). The time of each call is an argument.
\<close>

record checkpoint_row =
  cp_last_position :: int
  cp_lease_expires_at :: "time option"
  cp_last_ack_at :: time

record redelivery_row =
  rd_subscription :: string
  rd_consumer :: string
  rd_global_position :: int
  rd_available_at :: time

record sub_tables =
  tb_checkpoints :: "((string \<times> string) \<times> checkpoint_row) list"
  tb_redelivery :: "redelivery_row sql_table"

definition empty_tables :: sub_tables where
  "empty_tables = \<lparr>tb_checkpoints = [], tb_redelivery = []\<rparr>"

record subscription =
  sub_name :: string
  sub_consumer_id :: string
  sub_types :: "string list option"
  sub_exit_at_tail :: bool
  sub_closed :: bool

datatype sub_error = SubscriptionClosedError string string

definition sub_key :: "subscription \<Rightarrow> string \<times> string" where
  "sub_key sub = (sub_name sub, sub_consumer_id sub)"

definition closed_error :: "subscription \<Rightarrow> sub_error" where
  "closed_error sub = SubscriptionClosedError (sub_name sub) (sub_consumer_id sub)"

text \<open>An \<open>UPDATE\<close> of the checkpoint row: no row, no change.\<close>

definition update_checkpoint :: "string \<times> string \<Rightarrow> (checkpoint_row \<Rightarrow> checkpoint_row) \<Rightarrow> sub_tables \<Rightarrow> sub_tables" where
  "update_checkpoint k f tb =
     tb\<lparr>tb_checkpoints := map (\<lambda>(k', c). (k', if k' = k then f c else c)) (tb_checkpoints tb)\<rparr>"

definition ensure_checkpoint_row :: "sub_tables \<Rightarrow> string \<times> string \<Rightarrow> int option \<Rightarrow> time \<Rightarrow> sub_tables" where
  "ensure_checkpoint_row tb k from_position now =
     (case map_of (tb_checkpoints tb) k of
        None \<Rightarrow>
          let initial = (case from_position of None \<Rightarrow> - 1 | Some p \<Rightarrow> p - 1)
          in tb\<lparr>tb_checkpoints := tb_checkpoints tb @
               [(k, \<lparr>cp_last_position = initial, cp_lease_expires_at = None, cp_last_ack_at = now\<rparr>)]\<rparr>
      | Some _ \<Rightarrow>
          (case from_position of
             None \<Rightarrow> tb
           | Some p \<Rightarrow> update_checkpoint k (\<lambda>c. c\<lparr>cp_last_position := p - 1\<rparr>) tb))"

text \<open>\<open>__init__\<close>.\<close>

definition open_subscription :: "sub_tables \<Rightarrow> string \<Rightarrow> string \<Rightarrow> string list option \<Rightarrow> int option \<Rightarrow> bool \<Rightarrow> time \<Rightarrow>
    subscription \<times> sub_tables" where
  "open_subscription tb name consumer_id types from_position exit_at_tail now =
     (\<lparr>sub_name = name, sub_consumer_id = consumer_id, sub_types = types,
       sub_exit_at_tail = exit_at_tail, sub_closed = False\<rparr>,
      ensure_checkpoint_row tb (name, consumer_id) from_position now)"

definition checkpoint_of :: "sub_tables \<Rightarrow> string \<times> string \<Rightarrow> int" where
  "checkpoint_of tb k = (case map_of (tb_checkpoints tb) k of None \<Rightarrow> - 1 | Some c \<Rightarrow> cp_last_position c)"

definition sub_position :: "subscription \<Rightarrow> sub_tables \<Rightarrow> sub_error + int" where
  "sub_position sub tb =
     (if sub_closed sub then Inl (closed_error sub) else Inr (checkpoint_of tb (sub_key sub)))"

definition is_redelivery :: "string \<times> string \<Rightarrow> redelivery_row \<Rightarrow> bool" where
  "is_redelivery k d \<longleftrightarrow> (rd_subscription d, rd_consumer d) = k"

definition ack :: "subscription \<Rightarrow> sub_tables \<Rightarrow> int \<Rightarrow> time \<Rightarrow> sub_error + sub_tables" where
  "ack sub tb gp now =
     (if sub_closed sub then Inl (closed_error sub)
      else let tb1 = update_checkpoint (sub_key sub)
                 (\<lambda>c. c\<lparr>cp_last_position := max (cp_last_position c) gp, cp_last_ack_at := now\<rparr>) tb
           in Inr (tb1\<lparr>tb_redelivery := filter
                 (\<lambda>d. \<not> (is_redelivery (sub_key sub) d \<and> rd_global_position d = gp)) (tb_redelivery tb1)\<rparr>))"

definition nack :: "subscription \<Rightarrow> sub_tables \<Rightarrow> int \<Rightarrow> time \<Rightarrow> time \<Rightarrow> sub_error + sub_tables" where
  "nack sub tb gp retry_after now =
     (if sub_closed sub then Inl (closed_error sub)
      else Inr (tb\<lparr>tb_redelivery :=
        filter (\<lambda>d. \<not> (is_redelivery (sub_key sub) d \<and> rd_global_position d = gp)) (tb_redelivery tb)
        @ [\<lparr>rd_subscription = sub_name sub, rd_consumer = sub_consumer_id sub,
            rd_global_position = gp, rd_available_at = now + retry_after\<rparr>]\<rparr>))"

definition renew_lease :: "subscription \<Rightarrow> sub_tables \<Rightarrow> time \<Rightarrow> time \<Rightarrow> sub_error + sub_tables" where
  "renew_lease sub tb ttl now =
     (if sub_closed sub then Inl (closed_error sub)
      else Inr (update_checkpoint (sub_key sub) (\<lambda>c. c\<lparr>cp_lease_expires_at := Some (now + ttl)\<rparr>) tb))"

definition sub_close :: "subscription \<Rightarrow> subscription" where
  "sub_close sub = sub\<lparr>sub_closed := True\<rparr>"

text \<open>The positions whose redelivery time has arrived, at most 100, in position order.\<close>

definition due_positions :: "sub_tables \<Rightarrow> string \<times> string \<Rightarrow> time \<Rightarrow> int list" where
  "due_positions tb k now =
     map rd_global_position (take 100 (sort_key rd_global_position
       (filter (\<lambda>d. is_redelivery k d \<and> rd_available_at d \<le> now) (tb_redelivery tb))))"

definition claim_due_redeliveries :: "sub_tables \<Rightarrow> 'p event_store \<Rightarrow> string \<times> string \<Rightarrow> time \<Rightarrow>
    'p event_row list \<times> sub_tables" where
  "claim_due_redeliveries tb st k now =
     (let positions = due_positions tb k now in
      if positions = [] then ([], tb)
      else (sort_key er_global_position
              (filter (\<lambda>r. er_global_position r \<in> set positions) (es_events st)),
            tb\<lparr>tb_redelivery := filter
              (\<lambda>d. \<not> (is_redelivery k d \<and> rd_global_position d \<in> set positions)) (tb_redelivery tb)\<rparr>))"

text \<open>The log query of the poll loop: the type filter, and the events held back for
  redelivery to this consumer.\<close>

definition held_back :: "sub_tables \<Rightarrow> string \<times> string \<Rightarrow> int set" where
  "held_back tb k = set (map rd_global_position (filter (is_redelivery k) (tb_redelivery tb)))"

definition sub_match :: "sub_tables \<Rightarrow> subscription \<Rightarrow> int \<Rightarrow> 'p event_row \<Rightarrow> bool" where
  "sub_match tb sub next_position r \<longleftrightarrow>
     er_global_position r \<ge> next_position \<and>
     (case sub_types sub of None \<Rightarrow> True | Some ts \<Rightarrow> ts = [] \<or> er_event_type r \<in> set ts) \<and>
     er_global_position r \<notin> held_back tb (sub_key sub)"

definition sub_rows :: "sub_tables \<Rightarrow> 'p event_store \<Rightarrow> subscription \<Rightarrow> int \<Rightarrow> 'p event_row list" where
  "sub_rows tb st sub next_position =
     sort_key er_global_position (filter (sub_match tb sub next_position) (es_events st))"

text \<open>The generator's local state: \<open>next_position\<close>, and the rows of the \<open>for\<close> loop it is in.\<close>

datatype loop_kind = RedeliveryLoop | LogLoop

record 'p iterator =
  it_next_position :: int
  it_rows :: "'p event_row list"
  it_loop :: loop_kind

datatype 'p iter_out = Yielded "'p event_row" | Finished | Sleeping

definition iter_start :: "subscription \<Rightarrow> sub_tables \<Rightarrow> sub_error + 'p iterator" where
  "iter_start sub tb =
     (case sub_position sub tb of
        Inl e \<Rightarrow> Inl e
      | Inr p \<Rightarrow> Inr \<lparr>it_next_position = p + 1, it_rows = [], it_loop = LogLoop\<rparr>)"

text \<open>One element of the current \<open>for\<close> loop.\<close>

definition iter_emit :: "subscription \<Rightarrow> 'p iterator \<Rightarrow> 'p event_row \<Rightarrow> 'p event_row list \<Rightarrow> loop_kind \<Rightarrow>
    'p iter_out \<times> 'p iterator" where
  "iter_emit sub it r rs kind =
     (case kind of
        RedeliveryLoop \<Rightarrow>
          (Yielded r, \<lparr>it_next_position = max (it_next_position it) (er_global_position r + 1),
                       it_rows = rs, it_loop = RedeliveryLoop\<rparr>)
      | LogLoop \<Rightarrow>
          if sub_closed sub then (Finished, it\<lparr>it_rows := []\<rparr>)
          else (Yielded r, \<lparr>it_next_position = er_global_position r + 1,
                            it_rows = rs, it_loop = LogLoop\<rparr>))"

definition iter_resume :: "subscription \<Rightarrow> sub_tables \<Rightarrow> 'p event_store \<Rightarrow> time \<Rightarrow> 'p iterator \<Rightarrow>
    'p iter_out \<times> 'p iterator \<times> sub_tables" where
  "iter_resume sub tb st now it =
     (case it_rows it of
        r # rs \<Rightarrow> (case iter_emit sub it r rs (it_loop it) of (out, it') \<Rightarrow> (out, it', tb))
      | [] \<Rightarrow>
          if sub_closed sub then (Finished, it, tb)
          else (case claim_due_redeliveries tb st (sub_key sub) now of
            (r # rs, tb') \<Rightarrow> (case iter_emit sub it r rs RedeliveryLoop of (out, it') \<Rightarrow> (out, it', tb'))
          | ([], tb') \<Rightarrow>
              (case take 100 (sub_rows tb' st sub (it_next_position it)) of
                 [] \<Rightarrow> (if sub_exit_at_tail sub then (Finished, it, tb') else (Sleeping, it, tb'))
               | r # rs \<Rightarrow> (case iter_emit sub it r rs LogLoop of (out, it') \<Rightarrow> (out, it', tb')))))"

text \<open>The recommended consumer of the protocol: iterate, handle one event, acknowledge it.
  \<open>fuel\<close> bounds the number of resumptions; \<open>None\<close> is running out of it.\<close>

fun drain :: "nat \<Rightarrow> subscription \<Rightarrow> sub_tables \<Rightarrow> 'p event_store \<Rightarrow> time \<Rightarrow> 'p iterator \<Rightarrow>
    ('p event_row list \<times> sub_tables) option" where
  "drain 0 sub tb st now it = None"
| "drain (Suc n) sub tb st now it =
     (case iter_resume sub tb st now it of
        (Finished, it', tb') \<Rightarrow> Some ([], tb')
      | (Sleeping, it', tb') \<Rightarrow> Some ([], tb')
      | (Yielded r, it', tb') \<Rightarrow>
          (case ack sub tb' (er_global_position r) now of
             Inl e \<Rightarrow> Some ([r], tb')
           | Inr tb'' \<Rightarrow>
               (case drain n sub tb'' st now it' of
                  None \<Rightarrow> None
                | Some (rs, tb3) \<Rightarrow> Some (r # rs, tb3))))"


text \<open>The calls that change the tables, made by the consumer with key \<open>k\<close>: opening (with or
  without a position), the three handlers, and a resumption of the iterator.\<close>

inductive sub_step :: "'p event_store \<Rightarrow> string \<times> string \<Rightarrow> sub_tables \<Rightarrow> sub_tables \<Rightarrow> bool"
  for st :: "'p event_store" where
  step_open: "sub_step st (n, c) tb (snd (open_subscription tb n c types p e now))"
| step_ack: "ack sub tb gp now = Inr tb' \<Longrightarrow> sub_step st (sub_key sub) tb tb'"
| step_nack: "nack sub tb gp d now = Inr tb' \<Longrightarrow> sub_step st (sub_key sub) tb tb'"
| step_renew: "renew_lease sub tb ttl now = Inr tb' \<Longrightarrow> sub_step st (sub_key sub) tb tb'"
| step_resume: "iter_resume sub tb st now it = (out, it', tb') \<Longrightarrow> sub_step st (sub_key sub) tb tb'"


section \<open>Checkpoints\<close>

lemma map_of_update_rows:
  "map_of (map (\<lambda>(k', c). (k', if k' = k then f c else c)) xs) k' =
     (if k' = k then map_option f (map_of xs k) else map_of xs k')"
  by (induction xs) auto

lemma checkpoint_update:
  "checkpoint_of (update_checkpoint k f tb) k' =
     (if k' = k \<and> map_of (tb_checkpoints tb) k \<noteq> None
      then cp_last_position (f (the (map_of (tb_checkpoints tb) k))) else checkpoint_of tb k')"
  by (auto simp: checkpoint_of_def update_checkpoint_def map_of_update_rows split: option.splits)

lemma has_checkpoint_update:
  "map_of (tb_checkpoints (update_checkpoint k f tb)) k' \<noteq> None \<longleftrightarrow> map_of (tb_checkpoints tb) k' \<noteq> None"
  by (simp add: update_checkpoint_def map_of_update_rows)

lemma held_back_empty: "held_back tb k = {} \<longleftrightarrow> (\<forall>d \<in> set (tb_redelivery tb). \<not> is_redelivery k d)"
  by (auto simp: held_back_def)

lemma redelivery_update_checkpoint [simp]: "tb_redelivery (update_checkpoint k f tb) = tb_redelivery tb"
  by (simp add: update_checkpoint_def)

lemma checkpoint_redelivery [simp]: "checkpoint_of (tb\<lparr>tb_redelivery := xs\<rparr>) k = checkpoint_of tb k"
  by (simp add: checkpoint_of_def)

lemma ack_Inr:
  assumes "ack sub tb gp now = Inr tb'"
  shows "\<not> sub_closed sub"
    and "map_of (tb_checkpoints tb) (sub_key sub) \<noteq> None \<Longrightarrow>
      checkpoint_of tb' (sub_key sub) = max (checkpoint_of tb (sub_key sub)) gp"
    and "k \<noteq> sub_key sub \<Longrightarrow> checkpoint_of tb' k = checkpoint_of tb k"
    and "map_of (tb_checkpoints tb') k \<noteq> None \<longleftrightarrow> map_of (tb_checkpoints tb) k \<noteq> None"
    and "held_back tb' (sub_key sub) = held_back tb (sub_key sub) - {gp}"
    and "k \<noteq> sub_key sub \<Longrightarrow> held_back tb' k = held_back tb k"
proof -
  from assms have tb': "tb' = (update_checkpoint (sub_key sub)
      (\<lambda>c. c\<lparr>cp_last_position := max (cp_last_position c) gp, cp_last_ack_at := now\<rparr>) tb)
      \<lparr>tb_redelivery := filter (\<lambda>d. \<not> (is_redelivery (sub_key sub) d \<and> rd_global_position d = gp)) (tb_redelivery tb)\<rparr>"
    and open': "\<not> sub_closed sub"
    by (auto simp: ack_def Let_def split: if_splits)
  show "\<not> sub_closed sub" by (rule open')
  show "checkpoint_of tb' (sub_key sub) = max (checkpoint_of tb (sub_key sub)) gp"
    if "map_of (tb_checkpoints tb) (sub_key sub) \<noteq> None"
    using that by (simp add: tb' checkpoint_update) (auto simp: checkpoint_of_def)
  show "checkpoint_of tb' k = checkpoint_of tb k" if "k \<noteq> sub_key sub"
    using that by (simp add: tb' checkpoint_update)
  show "map_of (tb_checkpoints tb') k \<noteq> None \<longleftrightarrow> map_of (tb_checkpoints tb) k \<noteq> None"
    using has_checkpoint_update by (simp add: tb')
  show "held_back tb' (sub_key sub) = held_back tb (sub_key sub) - {gp}"
    by (auto simp: tb' held_back_def)
  show "held_back tb' k = held_back tb k" if "k \<noteq> sub_key sub"
    using that by (auto simp: tb' held_back_def is_redelivery_def)
qed

section \<open>Draining a subscription\<close>

lemma sub_rows_wf:
  assumes "store_wf st"
  shows "sub_rows tb st sub n = filter (sub_match tb sub n) (es_events st)"
  unfolding sub_rows_def
  using sorted_map_filter [OF store_wf_positions_sorted [OF assms]] by (simp add: sort_key_sorted_id)

lemma sub_rows_next:
  assumes "store_wf st" and "sub_rows tb st sub n = r # rs"
  shows "sub_rows tb st sub (er_global_position r + 1) = rs"
proof -
  from assms(1) have srt: "sorted_wrt (<) (map er_global_position (es_events st))" by (simp add: store_wf_def)
  from assms(2) have "filter (sub_match tb sub n) (es_events st) = [r] @ rs"
    by (simp add: sub_rows_wf [OF assms(1)])
  from filter_from_resume [OF srt this [unfolded sub_match_def [abs_def]]]
  show ?thesis by (simp add: sub_rows_wf [OF assms(1)] sub_match_def [abs_def])
qed

lemma sub_rows_cong: "held_back tb (sub_key sub) = held_back tb' (sub_key sub) \<Longrightarrow>
    sub_rows tb st sub n = sub_rows tb' st sub n"
  by (simp add: sub_rows_def sub_match_def [abs_def])

lemma due_none: "held_back tb k = {} \<Longrightarrow> due_positions tb k now = []"
  by (simp add: due_positions_def held_back_empty filter_empty_conv)

text \<open>A resumption of an open, exhausting iterator with nothing held back.\<close>

lemma iter_resume_log:
  assumes "store_wf st" "\<not> sub_closed sub" "sub_exit_at_tail sub" "held_back tb (sub_key sub) = {}"
    and "it_loop it = LogLoop" "prefix (it_rows it) (sub_rows tb st sub (it_next_position it))"
  shows "case sub_rows tb st sub (it_next_position it) of
      [] \<Rightarrow> \<exists>it'. iter_resume sub tb st now it = (Finished, it', tb)
    | r # rs \<Rightarrow> \<exists>it'. iter_resume sub tb st now it = (Yielded r, it', tb) \<and>
        it_loop it' = LogLoop \<and> it_next_position it' = er_global_position r + 1 \<and>
        prefix (it_rows it') rs"
proof (cases "it_rows it")
  case Nil
  have claim: "claim_due_redeliveries tb st (sub_key sub) now = ([], tb)"
    by (simp add: claim_due_redeliveries_def due_none [OF assms(4)])
  show ?thesis
    using assms(2,3) claim Nil
    by (auto simp: iter_resume_def iter_emit_def take_is_prefix split: list.splits)
next
  case (Cons r rs)
  with assms(2,5,6) show ?thesis
    by (auto simp: iter_resume_def iter_emit_def split: list.splits)
qed

lemma drain_rows:
  assumes "store_wf st" "\<not> sub_closed sub" "sub_exit_at_tail sub"
    and "held_back tb (sub_key sub) = {}" "map_of (tb_checkpoints tb) (sub_key sub) \<noteq> None"
    and "it_loop it = LogLoop" "prefix (it_rows it) (sub_rows tb st sub (it_next_position it))"
    and "length (sub_rows tb st sub (it_next_position it)) < fuel"
  shows "\<exists>tb'. drain fuel sub tb st now it = Some (sub_rows tb st sub (it_next_position it), tb') \<and>
    held_back tb' (sub_key sub) = {} \<and>
    checkpoint_of tb' (sub_key sub) =
      foldl max (checkpoint_of tb (sub_key sub))
        (map er_global_position (sub_rows tb st sub (it_next_position it)))"
  using assms(4-8)
proof (induction fuel arbitrary: tb it)
  case 0
  then show ?case by simp
next
  case (Suc fuel)
  note res = iter_resume_log [OF assms(1-3) Suc.prems(1,3,4), of now]
  show ?case
  proof (cases "sub_rows tb st sub (it_next_position it)")
    case Nil
    with res Suc.prems(1) show ?thesis by auto
  next
    case (Cons r rs)
    with res obtain it' where it': "iter_resume sub tb st now it = (Yielded r, it', tb)"
      "it_loop it' = LogLoop" "it_next_position it' = er_global_position r + 1" "prefix (it_rows it') rs"
      by auto
    obtain tb1 where a: "ack sub tb (er_global_position r) now = Inr tb1"
      using assms(2) by (simp add: ack_def Let_def)
    note A = ack_Inr [OF a]
    have h1: "held_back tb1 (sub_key sub) = {}" using A(5) Suc.prems(1) by simp
    have rows: "sub_rows tb1 st sub (it_next_position it') = rs"
      using sub_rows_next [OF assms(1) Cons] sub_rows_cong [of tb1 sub tb st "er_global_position r + 1"] h1 Suc.prems(1)
      by (simp add: it'(3))
    have "\<exists>tb'. drain fuel sub tb1 st now it' = Some (rs, tb') \<and> held_back tb' (sub_key sub) = {} \<and>
        checkpoint_of tb' (sub_key sub) =
          foldl max (checkpoint_of tb1 (sub_key sub)) (map er_global_position rs)"
      using Suc.IH [of tb1 it'] h1 A(4) Suc.prems(2,5) it'(2,4) Cons unfolding rows by simp
    then show ?thesis
      using it'(1) a A(2) [OF Suc.prems(2)] Cons by auto
  qed
qed

lemma foldl_max_sorted: "sorted_wrt (<) xs \<Longrightarrow> xs \<noteq> [] \<Longrightarrow> foldl max c xs = max c (last xs :: int)"
proof (induction xs arbitrary: c)
  case Nil
  then show ?case by simp
next
  case (Cons x xs)
  show ?case
  proof (cases "xs = []")
    case True
    then show ?thesis by simp
  next
    case False
    then have "last xs \<in> set xs" by simp
    with Cons.prems have "x < last xs" by auto
    with Cons False show ?thesis by (simp add: max.assoc)
  qed
qed



section \<open>Consumers do not disturb each other\<close>

lemma nack_Inr:
  assumes "nack sub tb gp d now = Inr tb'"
  shows "tb' = tb\<lparr>tb_redelivery :=
    filter (\<lambda>r. \<not> (is_redelivery (sub_key sub) r \<and> rd_global_position r = gp)) (tb_redelivery tb)
    @ [\<lparr>rd_subscription = sub_name sub, rd_consumer = sub_consumer_id sub,
        rd_global_position = gp, rd_available_at = now + d\<rparr>]\<rparr>"
  using assms by (auto simp: nack_def split: if_splits)

lemma claim_frame:
  "checkpoint_of (snd (claim_due_redeliveries tb st k now)) k' = checkpoint_of tb k'"
  "k' \<noteq> k \<Longrightarrow> held_back (snd (claim_due_redeliveries tb st k now)) k' = held_back tb k'"
  by (auto simp: claim_due_redeliveries_def Let_def held_back_def is_redelivery_def)

lemma iter_resume_tables:
  assumes "iter_resume sub tb st now it = (out, it', tb')"
  shows "tb' = tb \<or> tb' = snd (claim_due_redeliveries tb st (sub_key sub) now)"
  using assms unfolding iter_resume_def
  by (auto split: list.splits prod.splits if_splits)

lemma sub_step_frame:
  assumes "sub_step st k' tb tb'" "k' \<noteq> k"
  shows "checkpoint_of tb' k = checkpoint_of tb k \<and> held_back tb' k = held_back tb k"
  using assms
proof cases
  case (step_open n c types p e now)
  with assms(2) show ?thesis
    by (auto simp: open_subscription_def ensure_checkpoint_row_def checkpoint_update
        checkpoint_of_def update_checkpoint_def map_of_update_rows held_back_def Let_def
        split: option.splits)
next
  case (step_ack sub gp now)
  with assms(2) show ?thesis using ack_Inr(3,6) by metis
next
  case (step_nack sub gp d now)
  with assms(2) show ?thesis
    by (auto simp: nack_Inr [OF step_nack(2)] held_back_def is_redelivery_def sub_key_def)
next
  case (step_renew sub ttl now)
  with assms(2) show ?thesis
    by (auto simp: renew_lease_def checkpoint_update held_back_def split: if_splits)
next
  case (step_resume sub now it out it')
  with assms(2) show ?thesis using iter_resume_tables claim_frame by metis
qed

text \<open>
  Consumers of one store are independent: whatever the other consumers do (open,
  acknowledge, negatively acknowledge, renew, iterate), in any order, the checkpoint of a
  consumer and the set of events held back for it stay as they are.
\<close>

theorem consumers_isolated:
  assumes "(\<lambda>tb tb'. \<exists>k'. k' \<noteq> k \<and> sub_step st k' tb tb')\<^sup>*\<^sup>* tb tb'"
  shows "checkpoint_of tb' k = checkpoint_of tb k \<and> held_back tb' k = held_back tb k"
  using assms by (induction rule: rtranclp_induct) (auto dest: sub_step_frame)

section \<open>Redelivery\<close>

lemma due_positions_few:
  assumes "length (filter (is_redelivery k) (tb_redelivery tb)) \<le> 100"
  shows "set (due_positions tb k now) =
    rd_global_position ` set (filter (\<lambda>d. is_redelivery k d \<and> rd_available_at d \<le> now) (tb_redelivery tb))"
proof -
  let ?due = "filter (\<lambda>d. is_redelivery k d \<and> rd_available_at d \<le> now) (tb_redelivery tb)"
  have "?due = filter (\<lambda>d. rd_available_at d \<le> now) (filter (is_redelivery k) (tb_redelivery tb))"
    by (simp add: conj_commute)
  then have "length ?due \<le> 100" using assms by (metis length_filter_le order_trans)
  then have "take 100 (sort_key rd_global_position ?due) = sort_key rd_global_position ?due" by simp
  then show ?thesis by (auto simp: due_positions_def)
qed

text \<open>
  A negatively acknowledged event comes back exactly when its delay has passed: claimed
  at a time \<open>t\<close>, it is among the redeliveries if and only if \<open>now + retry_after \<le> t\<close>; until
  then the log query of the iterator leaves it out, and once claimed it is no longer held
  back. (One claim takes at most 100 events.)
\<close>

theorem nack_redelivers_when_due:
  assumes "nack sub tb gp retry_after now = Inr tb'"
    and "r \<in> set (es_events st)" "er_global_position r = gp"
    and "length (filter (is_redelivery (sub_key sub)) (tb_redelivery tb)) < 100"
    and "claim_due_redeliveries tb' st (sub_key sub) t = (rows, tb'')"
  shows "(r \<in> set rows \<longleftrightarrow> now + retry_after \<le> t) \<and>
    (gp \<in> held_back tb'' (sub_key sub) \<longleftrightarrow> t < now + retry_after) \<and>
    (t < now + retry_after \<longrightarrow> r \<notin> set (sub_rows tb'' st sub n))"
proof -
  let ?k = "sub_key sub"
  let ?old = "filter (\<lambda>d. \<not> (is_redelivery ?k d \<and> rd_global_position d = gp)) (tb_redelivery tb)"
  let ?new = "\<lparr>rd_subscription = sub_name sub, rd_consumer = sub_consumer_id sub,
      rd_global_position = gp, rd_available_at = now + retry_after\<rparr>"
  have rd: "tb_redelivery tb' = ?old @ [?new]" using nack_Inr [OF assms(1)] by simp
  have new: "is_redelivery ?k ?new" by (simp add: is_redelivery_def sub_key_def)
  have "length (filter (is_redelivery ?k) ?old) \<le> length (filter (is_redelivery ?k) (tb_redelivery tb))"
    by (simp only: filter_filter_comm [of "is_redelivery ?k"] length_filter_le)
  then have "length (filter (is_redelivery ?k) (tb_redelivery tb')) \<le> 100"
    using assms(4) by (simp add: rd new)
  from due_positions_few [OF this, of t]
  have due: "gp \<in> set (due_positions tb' ?k t) \<longleftrightarrow> now + retry_after \<le> t"
    by (auto simp: rd new)
  have held: "gp \<in> held_back tb' ?k" using new by (auto simp: held_back_def rd)
  have rows: "r \<in> set rows \<longleftrightarrow> gp \<in> set (due_positions tb' ?k t)"
    using assms(2,3,5) by (auto simp: claim_due_redeliveries_def Let_def split: if_splits)
  have hb: "gp \<in> held_back tb'' ?k \<longleftrightarrow> gp \<notin> set (due_positions tb' ?k t)"
    using assms(5) held by (auto simp: claim_due_redeliveries_def Let_def held_back_def split: if_splits)
  have "gp \<in> held_back tb'' ?k \<Longrightarrow> r \<notin> set (sub_rows tb'' st sub n)"
    using assms(3) by (simp add: sub_rows_def sub_match_def)
  with rows hb due show ?thesis by auto
qed

section \<open>Sample runs\<close>

definition two_store :: "nat event_store" where
  "two_store = after_batch sample_store ''p:y'' ''t'' 0 [(sample_event 8, sample_env ''e2'')]"

definition reader :: subscription where
  "reader = \<lparr>sub_name = ''s'', sub_consumer_id = ''c'', sub_types = None,
     sub_exit_at_tail = True, sub_closed = False\<rparr>"

definition fresh_tables :: sub_tables where
  "fresh_tables = snd (open_subscription empty_tables ''s'' ''c'' None None True 0)"

lemmas reader_defs = reader_def fresh_tables_def open_subscription_def ensure_checkpoint_row_def
  empty_tables_def sub_key_def held_back_def is_redelivery_def checkpoint_of_def
  iter_start_def sub_position_def


lemma two_store_wf: "store_wf two_store"
proof -
  have "snd (sample_append sample_store ''p:y'' 0 8 ''e2'') = two_store"
    by (simp add: sample_defs two_store_def)
  then show ?thesis using append_wf [OF sample_store_wf] unfolding sample_append_def
    by (metis prod.collapse)
qed

lemma two_store_rows:
  "map (\<lambda>r. (er_global_position r, er_event_id r)) (es_events two_store) = [(1, ''e1''), (2, ''e2'')]"
  by (simp add: two_store_def sample_defs)

lemma two_store_row: "\<exists>r \<in> set (es_events two_store). er_global_position r = 2"
  by (simp add: two_store_def sample_defs)


theorem consumers_isolated_witness:
  "checkpoint_of (snd (open_subscription fresh_tables ''s'' ''d'' None (Some 5) True 0)) (''s'', ''c'') = - 1"
proof -
  let ?tb = "snd (open_subscription fresh_tables ''s'' ''d'' None (Some 5) True 0)"
  have "sub_step sample_store (''s'', ''d'') fresh_tables ?tb" by (rule step_open)
  then have "(\<lambda>tb tb'. \<exists>k'. k' \<noteq> (''s'', ''c'') \<and> sub_step sample_store k' tb tb')\<^sup>*\<^sup>* fresh_tables ?tb"
    by (intro r_into_rtranclp exI [of _ "(''s'', ''d'')"]) simp
  from consumers_isolated [OF this] show ?thesis by (simp add: reader_defs)
qed

definition nacked_tables :: sub_tables where
  "nacked_tables = fresh_tables\<lparr>tb_redelivery := [\<lparr>rd_subscription = ''s'', rd_consumer = ''c'',
     rd_global_position = 2, rd_available_at = 30\<rparr>]\<rparr>"

lemma nacked_run: "nack reader fresh_tables 2 20 10 = Inr nacked_tables"
  by (simp add: nack_def nacked_tables_def reader_defs)

theorem nack_redelivers_when_due_witness:
  "\<exists>r \<in> set (es_events two_store). r \<in> set (fst (claim_due_redeliveries nacked_tables two_store (''s'', ''c'') 30)) \<and>
     r \<notin> set (fst (claim_due_redeliveries nacked_tables two_store (''s'', ''c'') 29))"
proof -
  have k: "sub_key reader = (''s'', ''c'')" by (simp add: reader_defs)
  have few: "length (filter (is_redelivery (sub_key reader)) (tb_redelivery fresh_tables)) < 100"
    by (simp add: reader_defs)
  obtain r where r: "r \<in> set (es_events two_store)" "er_global_position r = 2"
    using two_store_row by blast
  let ?claim = "claim_due_redeliveries nacked_tables two_store (sub_key reader)"
  have "r \<in> set (fst (?claim t)) \<longleftrightarrow> 30 \<le> t" for t
    using nack_redelivers_when_due [OF nacked_run r few, of t "fst (?claim t)" "snd (?claim t)"] by simp
  with r(1) show ?thesis unfolding k by (intro bexI [of _ r]) simp_all
qed

text \<open>
  A rebuild loses events when a redelivery is pending: reopened at position 1, a reader with
  a due redelivery at position 2 is handed event 2 first, its cursor moves behind it, and
  event 1 is never delivered although the checkpoint ends at 2.
\<close>

lemma rebuild_skips_events:
  "case open_subscription nacked_tables ''s'' ''c'' None (Some 1) True 50 of (sub, tb) \<Rightarrow>
   case iter_start sub tb of Inl e \<Rightarrow> False | Inr it \<Rightarrow>
   case drain 5 sub tb two_store 50 it of None \<Rightarrow> False | Some (rows, tb') \<Rightarrow>
     map er_global_position rows = [2] \<and> checkpoint_of tb' (''s'', ''c'') = 2"
  by code_simp

end
