(* ===== verification/Call_Machine.thy ===== *)
theory Call_Machine
  imports Prelude
begin

text \<open>
  A component behind an object or a table: a state, the calls that change it in the order they
  take effect, an invariant, and which calls it is promised for. The second interface is that of
  a component that keeps a log: every call adds what it emits behind what was there. The third is that of a system of threads that runs to
  an end.
\<close>

locale call_machine =
  fixes step :: "'s \<Rightarrow> 'c \<Rightarrow> 's"
    and admissible :: "'c \<Rightarrow> bool"
    and inv :: "'s \<Rightarrow> bool"
  assumes step_keeps: "inv s \<Longrightarrow> admissible c \<Longrightarrow> inv (step s c)"
begin

lemma run_keeps: "inv s \<Longrightarrow> list_all admissible cs \<Longrightarrow> inv (foldl step s cs)"
  by (induction cs arbitrary: s) (simp_all add: step_keeps)

text \<open>At every moment of a run, not only at its end.\<close>

lemma run_always: "inv s \<Longrightarrow> list_all admissible (pre @ post) \<Longrightarrow> inv (foldl step s pre)"
  by (simp add: run_keeps)

end

locale logging_machine = call_machine step admissible inv
  for step :: "'s \<Rightarrow> 'c \<Rightarrow> 's" and admissible :: "'c \<Rightarrow> bool" and inv :: "'s \<Rightarrow> bool" +
  fixes view :: "'s \<Rightarrow> 'v list"
    and emits :: "'c \<Rightarrow> 'v list"
  assumes step_view: "inv s \<Longrightarrow> admissible c \<Longrightarrow> view (step s c) = view s @ emits c"
begin

lemma run_view: "inv s \<Longrightarrow> list_all admissible cs \<Longrightarrow> view (foldl step s cs) = view s @ concat (map emits cs)"
  by (induction cs arbitrary: s) (simp_all add: step_keeps step_view)

lemma run_view_prefix: "inv s \<Longrightarrow> list_all admissible cs \<Longrightarrow> prefix (view s) (view (foldl step s cs))"
  by (simp add: run_view)

end

section \<open>Systems that run to an end\<close>

text \<open>A machine whose every move lowers a rank and which, while it is not finished, has a move. The
  moves hold the choices of the scheduler and of the environment.\<close>

locale progress_system =
  fixes delta :: "'q \<Rightarrow> 'm \<Rightarrow> 'q option"
    and inv :: "'q \<Rightarrow> bool"
    and finished :: "'q \<Rightarrow> bool"
    and rank :: "'q \<Rightarrow> nat"
  assumes move_keeps: "inv q \<Longrightarrow> delta q m = Some q' \<Longrightarrow> inv q'"
    and move_lowers: "inv q \<Longrightarrow> delta q m = Some q' \<Longrightarrow> rank q' < rank q"
    and has_move: "inv q \<Longrightarrow> \<not> finished q \<Longrightarrow> \<exists>m q'. delta q m = Some q'"
begin

lemma run_inv: "inv q \<Longrightarrow> run_path delta q ms = Some q' \<Longrightarrow> inv q'"
  by (induction ms arbitrary: q) (auto split: option.splits intro: move_keeps)

lemma run_bounded: "inv q \<Longrightarrow> run_path delta q ms = Some q' \<Longrightarrow> length ms + rank q' \<le> rank q"
proof (induction ms arbitrary: q)
  case (Cons m ms)
  then obtain p where p: "delta q m = Some p" "run_path delta p ms = Some q'" by (auto split: option.splits)
  from Cons.IH [OF move_keeps [OF Cons.prems(1) p(1)] p(2)] move_lowers [OF Cons.prems(1) p(1)]
  show ?case by simp
qed simp

lemma blocked_is_finished: "inv q \<Longrightarrow> (\<And>m. delta q m = None) \<Longrightarrow> finished q"
  using has_move by fastforce

lemma can_finish: "inv q \<Longrightarrow> \<exists>ms q'. run_path delta q ms = Some q' \<and> finished q'"
proof (induction "rank q" arbitrary: q rule: less_induct)
  case less
  show ?case
  proof (cases "finished q")
    case True
    then show ?thesis by (intro exI [of _ "[]"]) simp
  next
    case False
    with has_move less.prems obtain m p where m: "delta q m = Some p" by blast
    with less.hyps [OF move_lowers move_keeps] less.prems obtain ms q'
      where "run_path delta p ms = Some q'" "finished q'" by blast
    with m show ?thesis by (intro exI [of _ "m # ms"]) auto
  qed
qed

end

end
