(* ===== verification/Idempotency.thy ===== *)
theory Idempotency
  imports Call_Machine "HOL-Library.AList"
begin

text \<open>
  The bounded command-idempotency table, \<^verbatim>\<open>src/backend/messaging/idempotency.py\<close>. The table is
  an association list keyed by (aggregate id, command id); each call gets the instants its
  \<open>datetime.now\<close> calls return.
\<close>

record idem_row =
  ir_result_event_ids :: "string list"
  ir_handled_at :: time
  ir_expires_at :: time

type_synonym idem_table = "((string \<times> string) \<times> idem_row) list"

datatype command_error =
  DuplicateCommandError "string \<times> string" (ce_existing: "string list") (ce_incoming: "string list")

definition lookup :: "idem_table \<Rightarrow> string \<times> string \<Rightarrow> time \<Rightarrow> string list option" where
  "lookup tb k now =
     (case map_of tb k of
        None \<Rightarrow> None
      | Some row \<Rightarrow> if ir_expires_at row < now then None else Some (ir_result_event_ids row))"

text \<open>\<open>INSERT OR REPLACE\<close> deletes the row with the key, if there is one, and adds the new row.\<close>

definition insert_or_replace :: "'k \<Rightarrow> 'v \<Rightarrow> ('k \<times> 'v) list \<Rightarrow> ('k \<times> 'v) list" where
  "insert_or_replace k v tb = AList.delete k tb @ [(k, v)]"

text \<open>\<open>record\<close>; \<open>now0\<close> is the instant of its \<open>lookup\<close>, \<open>now\<close> the instant it stores.\<close>

definition record_command :: "time \<Rightarrow> idem_table \<Rightarrow> string \<times> string \<Rightarrow> string list \<Rightarrow> time \<Rightarrow> time \<Rightarrow>
    command_error + idem_table" where
  "record_command retention tb k incoming now0 now =
     (case lookup tb k now0 of
        Some existing \<Rightarrow>
          if existing = incoming then Inr tb else Inl (DuplicateCommandError k existing incoming)
      | None \<Rightarrow>
          Inr (insert_or_replace k \<lparr>ir_result_event_ids = incoming, ir_handled_at = now,
                 ir_expires_at = now + retention\<rparr> tb))"

definition purge_expired :: "idem_table \<Rightarrow> time \<Rightarrow> nat \<times> idem_table" where
  "purge_expired tb now =
     (length (filter (\<lambda>(k, row). ir_expires_at row < now) tb),
      filter (\<lambda>(k, row). \<not> ir_expires_at row < now) tb)"

text \<open>Calls on the table by any number of services, in the order the database sees them; a
  call that raises leaves the table as it is.\<close>

datatype idem_call =
  Record_Call (ic_key: "string \<times> string") (ic_ids: "string list") (ic_now0: time) (ic_now: time)
| Purge_Call (ic_now: time)

fun idem_step :: "time \<Rightarrow> idem_table \<Rightarrow> idem_call \<Rightarrow> idem_table" where
  "idem_step retention tb (Record_Call k ids now0 now) =
     (case record_command retention tb k ids now0 now of Inl _ \<Rightarrow> tb | Inr tb' \<Rightarrow> tb')"
| "idem_step retention tb (Purge_Call now) = snd (purge_expired tb now)"

fun called_by :: "time \<Rightarrow> idem_call \<Rightarrow> bool" where
  "called_by t (Record_Call k ids now0 now) \<longleftrightarrow> now0 \<le> t \<and> now \<le> t"
| "called_by t (Purge_Call now) \<longleftrightarrow> now \<le> t"

definition idem_run :: "time \<Rightarrow> idem_table \<Rightarrow> idem_call list \<Rightarrow> idem_table" where
  "idem_run retention tb calls = foldl (idem_step retention) tb calls"

text \<open>The primary key of the table.\<close>

definition idem_wf :: "idem_table \<Rightarrow> bool" where
  "idem_wf tb \<longleftrightarrow> distinct (map fst tb)"


section \<open>The table keeps its key, and a valid row stays\<close>

lemma map_of_insert_or_replace [simp]:
  "map_of (insert_or_replace k v tb) = (map_of tb)(k \<mapsto> v)"
  by (rule ext) (simp add: insert_or_replace_def map_add_def delete_conv' split: option.split)

lemma distinct_insert_or_replace:
  "distinct (map fst tb) \<Longrightarrow> distinct (map fst (insert_or_replace k v tb))"
  by (simp add: insert_or_replace_def distinct_delete) (simp add: AList.delete_eq image_iff)

lemma map_of_filter_snd:
  assumes "distinct (map fst tb)"
  shows "map_of (filter (\<lambda>(k, v). P v) tb) k = (case map_of tb k of None \<Rightarrow> None | Some v \<Rightarrow> if P v then Some v else None)"
  using assms
proof (induction tb)
  case (Cons a tb)
  have "map_of tb (fst a) = None" using Cons.prems by (simp add: map_of_eq_None_iff)
  with Cons show ?case by (cases a) (auto split: option.splits)
qed simp

lemma idem_step_wf [step_inv]: "idem_wf tb \<Longrightarrow> idem_wf (idem_step retention tb c)"
  by (cases c) (auto simp: idem_wf_def record_command_def purge_expired_def distinct_insert_or_replace
      distinct_map_filter_table split: option.split sum.split)

lemma idem_step_keeps:
  assumes "idem_wf tb" "map_of tb k = Some row" "t \<le> ir_expires_at row" "called_by t c"
  shows "map_of (idem_step retention tb c) k = Some row"
proof (cases c)
  case (Record_Call k' ids now0 now)
  show ?thesis
  proof (cases "k' = k")
    case True
    have "lookup tb k now0 = Some (ir_result_event_ids row)"
      using assms Record_Call by (simp add: lookup_def)
    with assms(2) Record_Call True show ?thesis by (simp add: record_command_def)
  next
    case False
    with assms(2) Record_Call show ?thesis
      by (auto simp: record_command_def split: option.split)
  qed
next
  case (Purge_Call now)
  with assms show ?thesis
    by (simp add: purge_expired_def map_of_filter_snd [where P = "\<lambda>row. \<not> ir_expires_at row < now"] idem_wf_def)
qed

text \<open>The table as a machine: a row that is valid at \<open>t\<close> outlives every call made by then.\<close>

interpretation idem_calls: call_machine "idem_step retention" "called_by t"
    "\<lambda>tb. idem_wf tb \<and> map_of tb k = Some row \<and> t \<le> ir_expires_at row"
  for retention t k row
  by unfold_locales (auto simp: idem_step_keeps idem_step_wf)

lemma idem_run_keeps:
  assumes "idem_wf tb" "map_of tb k = Some row" "t \<le> ir_expires_at row" "\<forall>c \<in> set calls. called_by t c"
  shows "map_of (idem_run retention tb calls) k = Some row"
  using idem_calls.run_keeps [of tb k row t calls] assms by (simp add: idem_run_def list_all_iff)

text \<open>
  A recorded command result is the only one until it expires: after a first \<open>record\<close> at
  \<open>now\<close>, whatever \<open>record\<close> and \<open>purge_expired\<close> calls follow (for this command or others), every
  \<open>lookup\<close> up to \<open>now + retention\<close> answers with that result, recording it again changes
  nothing, and recording a different result raises \<open>DuplicateCommandError\<close>.
\<close>

theorem recorded_result_stable:
  assumes "idem_wf tb" and "lookup tb k now0 = None"
    and "record_command retention tb k ids now0 now = Inr tb'"
    and "\<forall>c \<in> set calls. called_by t c" and "t \<le> now + retention"
  shows "lookup (idem_run retention tb' calls) k t = Some ids \<and>
    record_command retention (idem_run retention tb' calls) k ids' t t' =
      (if ids' = ids then Inr (idem_run retention tb' calls) else Inl (DuplicateCommandError k ids ids'))"
proof -
  have tb': "tb' = insert_or_replace k \<lparr>ir_result_event_ids = ids, ir_handled_at = now,
      ir_expires_at = now + retention\<rparr> tb"
    using assms(2,3) by (simp add: record_command_def)
  have "idem_wf tb'" using assms(1) by (simp add: tb' idem_wf_def distinct_insert_or_replace)
  moreover have "map_of tb' k = Some \<lparr>ir_result_event_ids = ids, ir_handled_at = now,
      ir_expires_at = now + retention\<rparr>" by (simp add: tb')
  ultimately have "map_of (idem_run retention tb' calls) k = Some \<lparr>ir_result_event_ids = ids,
      ir_handled_at = now, ir_expires_at = now + retention\<rparr>"
    using idem_run_keeps assms(4,5) by fastforce
  then have "lookup (idem_run retention tb' calls) k t = Some ids"
    using assms(5) by (simp add: lookup_def)
  then show ?thesis by (simp add: record_command_def)
qed

theorem recorded_result_stable_witness:
  "\<exists>tb. record_command 100 [] (''a'', ''c'') [''e''] 5 6 = Inr tb \<and>
     lookup (idem_run 100 tb [Purge_Call 80, Record_Call (''a'', ''c'') [''f''] 90 91]) (''a'', ''c'') 106 = Some [''e'']"
proof -
  obtain tb where r: "record_command 100 [] (''a'', ''c'') [''e''] 5 6 = Inr tb"
    by (simp add: record_command_def lookup_def)
  have "idem_wf []" "lookup [] (''a'', ''c'') 5 = None" by (simp_all add: idem_wf_def lookup_def)
  from recorded_result_stable [OF this r, of "[Purge_Call 80, Record_Call (''a'', ''c'') [''f''] 90 91]" 106] r
  show ?thesis by simp
qed

text \<open>
  Purging is invisible: at the instant of the purge and at every later one, no lookup
  can tell that \<open>purge_expired\<close> ran.
\<close>

theorem purge_invisible:
  assumes "idem_wf tb" and "now \<le> t"
  shows "lookup (snd (purge_expired tb now)) k t = lookup tb k t"
  using assms by (auto simp: lookup_def purge_expired_def idem_wf_def
      map_of_filter_snd [where P = "\<lambda>row. \<not> ir_expires_at row < now"] split: option.split)

theorem purge_invisible_witness:
  "lookup (snd (purge_expired [((''a'', ''c''), \<lparr>ir_result_event_ids = [''e''], ir_handled_at = 1,
     ir_expires_at = 9\<rparr>)] 10)) (''a'', ''c'') 11 = None"
proof -
  let ?tb = "[((''a'', ''c''), \<lparr>ir_result_event_ids = [''e''], ir_handled_at = 1, ir_expires_at = 9\<rparr>)]"
  have "idem_wf ?tb" by (simp add: idem_wf_def)
  from purge_invisible [OF this, of 10 11 "(''a'', ''c'')"] show ?thesis by (simp add: lookup_def)
qed

end
