(* ===== verification/Event_Bus.thy ===== *)
theory Event_Bus
  imports Prelude "HOL-Library.Multiset"
begin

text \<open>
  The in-process event bus, \<^verbatim>\<open>src/backend/messaging/bus.py\<close>. Listeners and the error hook
  are arguments: functions that may raise (\<open>Some\<close> exception) and may change the state,
  the bus included, since the lock is re-entrant and a listener can subscribe or
  unsubscribe while an event is being emitted.
\<close>

record 'l bus =
  bus_listeners :: "'l list"

type_synonym ('l, 'e, 'w, 'x) listener_code = "'l \<Rightarrow> 'e \<Rightarrow> 'l bus \<times> 'w \<Rightarrow> 'x option \<times> 'l bus \<times> 'w"
type_synonym ('l, 'e, 'w, 'x) hook_code = "'x \<Rightarrow> 'l \<Rightarrow> 'e \<Rightarrow> 'l bus \<times> 'w \<Rightarrow> 'x option \<times> 'l bus \<times> 'w"

definition new_bus :: "'l bus" where
  "new_bus = \<lparr>bus_listeners = []\<rparr>"

definition subscribe :: "'l bus \<Rightarrow> 'l \<Rightarrow> 'l bus" where
  "subscribe b l = b\<lparr>bus_listeners := bus_listeners b @ [l]\<rparr>"

text \<open>\<open>list.remove\<close> drops the first equal element; the \<open>ValueError\<close> of an absent one is swallowed.\<close>

definition unsubscribe :: "'l bus \<Rightarrow> 'l \<Rightarrow> 'l bus" where
  "unsubscribe b l = b\<lparr>bus_listeners := remove1 l (bus_listeners b)\<rparr>"

definition listener_count :: "'l bus \<Rightarrow> nat" where
  "listener_count b = length (bus_listeners b)"

text \<open>What \<open>emit\<close> calls, in order.\<close>

datatype ('l, 'x) bus_call = Listener_Called 'l | Hook_Called 'x 'l

fun emit_loop :: "('l, 'e, 'w, 'x) listener_code \<Rightarrow> ('l, 'e, 'w, 'x) hook_code option \<Rightarrow> 'e \<Rightarrow> 'l list \<Rightarrow>
    'l bus \<times> 'w \<Rightarrow> ('l, 'x) bus_call list \<times> 'l bus \<times> 'w" where
  "emit_loop run hook e [] s = ([], s)"
| "emit_loop run hook e (l # ls) s =
     (case run l e s of
        (None, s1) \<Rightarrow> apfst (\<lambda>cs. Listener_Called l # cs) (emit_loop run hook e ls s1)
      | (Some x, s1) \<Rightarrow>
          (case hook of
             None \<Rightarrow> apfst (\<lambda>cs. Listener_Called l # cs) (emit_loop run hook e ls s1)
           | Some h \<Rightarrow> apfst (\<lambda>cs. Listener_Called l # Hook_Called x l # cs)
               (emit_loop run hook e ls (snd (h x l e s1)))))"

definition emit :: "('l, 'e, 'w, 'x) listener_code \<Rightarrow> ('l, 'e, 'w, 'x) hook_code option \<Rightarrow> 'l bus \<times> 'w \<Rightarrow> 'e \<Rightarrow>
    ('l, 'x) bus_call list \<times> 'l bus \<times> 'w" where
  "emit run hook s e = emit_loop run hook e (bus_listeners (fst s)) s"

fun called_listeners :: "('l, 'x) bus_call list \<Rightarrow> 'l list" where
  "called_listeners [] = []"
| "called_listeners (Listener_Called l # cs) = l # called_listeners cs"
| "called_listeners (Hook_Called x l # cs) = called_listeners cs"

lemma emit_loop_calls: "called_listeners (fst (emit_loop run hook e ls s)) = ls"
proof (induction ls arbitrary: s)
  case (Cons l ls)
  obtain r s1 where r: "run l e s = (r, s1)" by (cases "run l e s")
  show ?case using Cons.IH by (cases r; cases hook) (simp_all add: r)
qed simp

lemma emit_loop_hooks:
  "Hook_Called x l \<in> set (fst (emit_loop run hook e ls s)) \<Longrightarrow> l \<in> set ls \<and> (\<exists>s' s''. run l e s' = (Some x, s'')) \<and> hook \<noteq> None"
proof (induction ls arbitrary: s)
  case (Cons a ls)
  obtain r s1 where r: "run a e s = (r, s1)" by (cases "run a e s")
  show ?case
  proof (cases r)
    case None
    with Cons show ?thesis by (fastforce simp: r)
  next
    case (Some y)
    show ?thesis
    proof (cases "hook")
      case None
      with Cons \<open>r = Some y\<close> show ?thesis by (fastforce simp: r)
    next
      case (Some h)
      with Cons.prems \<open>r = Some y\<close> have "x = y \<and> l = a \<or>
          Hook_Called x l \<in> set (fst (emit_loop run hook e ls (snd (h y a e s1))))"
        by (simp add: r)
      with Cons.IH r \<open>r = Some y\<close> Some show ?thesis by fastforce
    qed
  qed
qed simp

text \<open>
  Listener isolation: one \<open>emit\<close> calls every listener registered when it starts, once per
  registration and in registration order, whichever of them (or the error hook) raise and
  whatever they subscribe or unsubscribe meanwhile; and the error hook is called only for a
  listener that raised, with its exception.
\<close>

theorem emit_reaches_every_listener:
  "called_listeners (fst (emit run hook (b, w) e)) = bus_listeners b \<and>
   (\<forall>x l. Hook_Called x l \<notin> set (fst (emit run hook (b, w) e)) \<or>
      l \<in> set (bus_listeners b) \<and> (\<exists>s' s''. run l e s' = (Some x, s'')) \<and> hook \<noteq> None)"
proof -
  have "l \<in> set (bus_listeners b) \<and> (\<exists>s' s''. run l e s' = (Some x, s'')) \<and> hook \<noteq> None"
    if "Hook_Called x l \<in> set (fst (emit run hook (b, w) e))" for x l
    using emit_loop_hooks [of x l run hook e] that by (force simp: emit_def)
  then show ?thesis by (auto simp: emit_def emit_loop_calls)
qed

definition raising_code :: "(nat, nat, nat, string) listener_code" where
  "raising_code l e = (\<lambda>(b, w). if l = 1 then (Some ''boom'', unsubscribe b 2, w) else (None, b, w + e))"

theorem emit_reaches_every_listener_witness:
  "called_listeners (fst (emit raising_code None (subscribe (subscribe new_bus 1) 2, 0) 5)) = [1, 2]"
  using emit_reaches_every_listener [of raising_code None "subscribe (subscribe new_bus 1) 2" 0 5]
  by (simp add: subscribe_def new_bus_def)

text \<open>Unsubscribing undoes a subscription up to order.\<close>

lemma subscribe_unsubscribe: "mset (bus_listeners (unsubscribe (subscribe b l) l)) = mset (bus_listeners b)"
  by (simp add: subscribe_def unsubscribe_def)

end
