(* ===== verification/Intake.thy ===== *)
theory Intake
  imports Event_Store_Laws
begin

text \<open>
  Paper intake, \<^verbatim>\<open>src/backend/services/ingestion/intake/\<close>: the sources and their ids
  (\<^verbatim>\<open>sources.py\<close>, \<open>project_id_for\<close>), the project aggregate (\<^verbatim>\<open>aggregate.py\<close>, \<^verbatim>\<open>events.py\<close>) and the
  application service over the event store (\<^verbatim>\<open>service.py\<close>). An instance of an event class is a
  constructor of \<open>intake_payload\<close>. Other processes act on the store while a command runs:
  \<open>other1\<close> is what they do between the load and the append of the command, \<open>other2\<close> what they
  do before the reload after a lost race. Pydantic's validation, the registry, SHA-256, path
  resolution, the clock and the random draws, and the fetchers are arguments.
\<close>

section \<open>Sources\<close>

datatype paper_source = PdfPath string | ArxivId string | DoiRef string

fun source_kind :: "paper_source \<Rightarrow> string" where
  "source_kind (PdfPath _) = ''pdf_path''"
| "source_kind (ArxivId _) = ''arxiv''"
| "source_kind (DoiRef _) = ''doi''"

text \<open>The expression of \<open>_ARXIV_ID_RE\<close>: four digits, a dot, four or five digits, and an optional
  version.\<close>

definition digits_ok :: "string \<Rightarrow> bool" where
  "digits_ok s \<longleftrightarrow> s \<noteq> [] \<and> list_all py_digit s"

definition arxiv_tail_ok :: "string \<Rightarrow> bool" where
  "arxiv_tail_ok s = (let d = takeWhile py_digit s; rest = dropWhile py_digit s in
     (length d = 4 \<or> length d = 5) \<and>
     (case rest of [] \<Rightarrow> True | v # ds \<Rightarrow> py_lower_char v = CHR ''v'' \<and> digits_ok ds))"

definition arxiv_id_ok :: "string \<Rightarrow> bool" where
  "arxiv_id_ok s \<longleftrightarrow> 5 \<le> length s \<and> list_all py_digit (take 4 s) \<and> s ! 4 = CHR ''.'' \<and> arxiv_tail_ok (drop 5 s)"

text \<open>A match of \<open>_ARXIV_URL_RE\<close> that starts at the given point; \<open>at_start\<close> is \<^verbatim>\<open>^\<close>.\<close>

definition arxiv_url_rest :: "string \<Rightarrow> string option" where
  "arxiv_url_rest s =
     (if py_lower (take 14 s) = ''arxiv.org/abs/'' \<or> py_lower (take 14 s) = ''arxiv.org/pdf/''
      then let i = drop 14 s in
        if arxiv_id_ok i then Some i
        else if py_lower (drop (length i - 4) i) = ''.pdf'' \<and> arxiv_id_ok (take (length i - 4) i)
        then Some (take (length i - 4) i)
        else None
      else None)"

definition arxiv_url_at :: "bool \<Rightarrow> string \<Rightarrow> string option" where
  "arxiv_url_at at_start s =
     (case (if at_start then arxiv_url_rest s else None) of
        Some i \<Rightarrow> Some i
      | None \<Rightarrow> (case s of c # cs \<Rightarrow> if c = CHR ''/'' then arxiv_url_rest cs else None | [] \<Rightarrow> None))"

fun arxiv_url_search :: "bool \<Rightarrow> string \<Rightarrow> string option" where
  "arxiv_url_search at_start [] = arxiv_url_at at_start []"
| "arxiv_url_search at_start (c # cs) =
     (case arxiv_url_at at_start (c # cs) of
        Some i \<Rightarrow> Some i
      | None \<Rightarrow> arxiv_url_search False cs)"

text \<open>\<open>normalize_arxiv_id\<close>; \<open>None\<close> is the \<open>ValueError\<close>.\<close>

definition normalize_arxiv_id :: "string \<Rightarrow> string option" where
  "normalize_arxiv_id v =
     (let candidate = py_strip v;
          candidate = (case arxiv_url_search True candidate of Some i \<Rightarrow> i | None \<Rightarrow> candidate);
          candidate = (if py_lower (take 6 candidate) = ''arxiv:'' then drop 6 candidate else candidate)
      in if arxiv_id_ok candidate then Some candidate else None)"

text \<open>\<open>project_id_for\<close>; \<open>sha256_hex\<close> is \<open>hashlib.sha256(\<dots>).hexdigest()\<close> of the encoded text,
  \<open>resolve_path\<close> is \<open>str(Path(\<dots>).expanduser().resolve())\<close>.\<close>

fun project_id_for :: "(string \<Rightarrow> string) \<Rightarrow> (string \<Rightarrow> string) \<Rightarrow> paper_source \<Rightarrow> string" where
  "project_id_for sha256_hex resolve_path (PdfPath path) =
     ''prj_'' @ take 16 (sha256_hex (''pdf_path:'' @ resolve_path path))"
| "project_id_for sha256_hex resolve_path (ArxivId arxiv_id) =
     ''prj_'' @ take 16 (sha256_hex (''arxiv:'' @ py_lower arxiv_id))"
| "project_id_for sha256_hex resolve_path (DoiRef doi) =
     ''prj_'' @ take 16 (sha256_hex (''doi:'' @ py_lower doi))"

section \<open>Events and the aggregate\<close>

datatype intake_payload =
    ProjectCreated string paper_source
  | PaperFetched string string string int string
  | PaperFetchFailed string string string bool
  | Foreign_Event event_class string

definition intake_class :: "string \<Rightarrow> string \<Rightarrow> event_class" where
  "intake_class name event_type = \<lparr>cls_module = ''backend.services.ingestion.intake.events'',
     cls_name = name, cls_event_type = event_type, cls_schema_version = 1\<rparr>"

fun class_of :: "intake_payload \<Rightarrow> event_class" where
  "class_of (ProjectCreated _ _) = intake_class ''ProjectCreated'' ''project_created''"
| "class_of (PaperFetched _ _ _ _ _) = intake_class ''PaperFetched'' ''paper_fetched''"
| "class_of (PaperFetchFailed _ _ _ _) = intake_class ''PaperFetchFailed'' ''paper_fetch_failed''"
| "class_of (Foreign_Event cls _) = cls"

definition event_of :: "intake_payload \<Rightarrow> intake_payload domain_event" where
  "event_of p = \<lparr>de_class = class_of p, de_payload = p\<rparr>"

datatype project_state = NEW | REGISTERED | FETCHED

record project_aggregate =
  pa_project_id :: string
  pa_state :: project_state
  pa_source :: "paper_source option"
  pa_version :: int

datatype intake_error =
    InvalidStateTransition project_state string
  | CannotApply string
  | UnknownProject string
  | NoSource string
  | CannotReplay string string int
  | StoreRaised store_error
  | IntoRaised into_error
  | FetcherRaised

definition agg_empty :: "string \<Rightarrow> project_aggregate" where
  "agg_empty project_id = \<lparr>pa_project_id = project_id, pa_state = NEW, pa_source = None, pa_version = 0\<rparr>"

definition handle_register :: "project_aggregate \<Rightarrow> paper_source \<Rightarrow> intake_error + intake_payload domain_event list" where
  "handle_register agg source =
     (if pa_state agg \<noteq> NEW then Inl (InvalidStateTransition (pa_state agg) ''register'')
      else Inr [event_of (ProjectCreated (pa_project_id agg) source)])"

definition handle_fetch :: "project_aggregate \<Rightarrow> string \<Rightarrow> string \<Rightarrow> int \<Rightarrow> string \<Rightarrow>
    intake_error + intake_payload domain_event list" where
  "handle_fetch agg raw_paper_path pdf_sha256 pdf_size_bytes fetched_via =
     (if pa_state agg \<noteq> REGISTERED then Inl (InvalidStateTransition (pa_state agg) ''fetch'')
      else Inr [event_of (PaperFetched (pa_project_id agg) raw_paper_path pdf_sha256 pdf_size_bytes fetched_via)])"

definition handle_fetch_failure :: "project_aggregate \<Rightarrow> string \<Rightarrow> string \<Rightarrow> bool \<Rightarrow>
    intake_error + intake_payload domain_event list" where
  "handle_fetch_failure agg cause_kind cause_message retryable =
     (if pa_state agg \<noteq> REGISTERED then Inl (InvalidStateTransition (pa_state agg) ''fetch_failure'')
      else Inr [event_of (PaperFetchFailed (pa_project_id agg) cause_kind cause_message retryable)])"

definition agg_apply :: "project_aggregate \<Rightarrow> intake_payload domain_event \<Rightarrow> intake_error + project_aggregate" where
  "agg_apply agg ev =
     (case de_payload ev of
        ProjectCreated _ source \<Rightarrow>
          Inr (agg\<lparr>pa_state := REGISTERED, pa_source := Some source, pa_version := pa_version agg + 1\<rparr>)
      | PaperFetched _ _ _ _ _ \<Rightarrow> Inr (agg\<lparr>pa_state := FETCHED, pa_version := pa_version agg + 1\<rparr>)
      | PaperFetchFailed _ _ _ _ \<Rightarrow> Inr (agg\<lparr>pa_version := pa_version agg + 1\<rparr>)
      | Foreign_Event cls _ \<Rightarrow> Inl (CannotApply (cls_name cls)))"

section \<open>The application service\<close>

record fetch_result =
  fr_raw_paper_path :: string
  fr_pdf_sha256 :: string
  fr_pdf_size_bytes :: int

datatype fetch_exn = IntakeFetchError string string bool | Other_Exception

record fetcher =
  ft_kind :: string
  ft_fetch :: "paper_source \<Rightarrow> string \<Rightarrow> fetch_exn + fetch_result"

record intake_world =
  iw_registry :: registry
  iw_validate :: "event_class \<Rightarrow> intake_payload \<Rightarrow> bool"
  iw_fault :: "nat \<Rightarrow> bool"
  iw_sha256_hex :: "string \<Rightarrow> string"
  iw_resolve_path :: "string \<Rightarrow> string"
  iw_fetchers :: "(string \<times> fetcher) list"
  iw_draws :: "nat \<Rightarrow> int \<times> int"
  iw_now :: time
  iw_correlation_id :: "string option"

type_synonym intake_store = "intake_payload event_store"

text \<open>\<open>_load_aggregate\<close>: the store's generator converts a row, then the loop body handles it.\<close>

fun replay :: "intake_world \<Rightarrow> string \<Rightarrow> project_aggregate \<Rightarrow> intake_payload event_row list \<Rightarrow>
    intake_error + project_aggregate" where
  "replay w project_id agg [] = Inr agg"
| "replay w project_id agg (r # rs) =
     (case row_to_stored (iw_registry w) (iw_validate w) r of
        Inl e \<Rightarrow> Inl (StoreRaised e)
      | Inr stored \<Rightarrow>
          (case resolve_event_class (iw_registry w) (se_event_type stored) (se_schema_version stored) of
             None \<Rightarrow> Inl (CannotReplay project_id (se_event_type stored) (se_schema_version stored))
           | Some cls \<Rightarrow>
               (case into (iw_validate w) stored cls of
                  Inl e \<Rightarrow> Inl (IntoRaised e)
                | Inr ev \<Rightarrow>
                    (case agg_apply agg ev of
                       Inl e \<Rightarrow> Inl e
                     | Inr agg' \<Rightarrow> replay w project_id agg' rs))))"

definition load_aggregate :: "intake_world \<Rightarrow> intake_store \<Rightarrow> string \<Rightarrow> intake_error + project_aggregate" where
  "load_aggregate w st project_id = replay w project_id (agg_empty project_id) (load_rows st project_id 0)"

definition effective_correlation_id :: "intake_world \<Rightarrow> ulid_state \<Rightarrow> string \<times> ulid_state" where
  "effective_correlation_id w us =
     (case iw_correlation_id w of
        Some c \<Rightarrow> if c \<noteq> [] then (c, us) else new_correlation_id us (fst (iw_draws w 0)) (snd (iw_draws w 0))
      | None \<Rightarrow> new_correlation_id us (fst (iw_draws w 0)) (snd (iw_draws w 0)))"

fun service_envelopes :: "intake_world \<Rightarrow> ulid_state \<Rightarrow> nat \<Rightarrow> string \<Rightarrow> 'e list \<Rightarrow>
    event_envelope list \<times> ulid_state" where
  "service_envelopes w us k cid [] = ([], us)"
| "service_envelopes w us k cid (e # es) =
     (let (env, us1) = make_envelope us (iw_draws w k) (iw_draws w k) (iw_now w)
            ''ingestion.intake.service'' (Some cid) None 1;
          (envs, us2) = service_envelopes w us1 (Suc k) cid es
      in (env # envs, us2))"

text \<open>\<open>_append\<close>, and the append of \<open>register_project\<close>.\<close>

definition service_append :: "intake_world \<Rightarrow> ulid_state \<Rightarrow> intake_store \<Rightarrow> project_aggregate \<Rightarrow>
    intake_payload domain_event list \<Rightarrow> string \<Rightarrow> (store_error + append_result) \<times> intake_store \<times> ulid_state" where
  "service_append w us st agg events cid =
     (let (envs, us') = service_envelopes w us 1 cid events;
          (res, st') = append_events (iw_validate w) (iw_fault w) st (pa_project_id agg) ''project''
            events (pa_version agg) envs
      in (res, st', us'))"

definition chosen_project_id :: "intake_world \<Rightarrow> string option \<Rightarrow> paper_source \<Rightarrow> string" where
  "chosen_project_id w project_id_override source =
     (case project_id_override of
        Some p \<Rightarrow> if p \<noteq> [] then p else project_id_for (iw_sha256_hex w) (iw_resolve_path w) source
      | None \<Rightarrow> project_id_for (iw_sha256_hex w) (iw_resolve_path w) source)"

definition register_project :: "intake_world \<Rightarrow> (intake_store \<Rightarrow> intake_store) \<Rightarrow> (intake_store \<Rightarrow> intake_store) \<Rightarrow>
    ulid_state \<Rightarrow> intake_store \<Rightarrow> paper_source \<Rightarrow> string option \<Rightarrow>
    (intake_error + string) \<times> intake_store \<times> ulid_state" where
  "register_project w other1 other2 us st source project_id_override =
     (let project_id = chosen_project_id w project_id_override source;
          (cid, us1) = effective_correlation_id w us
      in case load_aggregate w st project_id of
           Inl e \<Rightarrow> (Inl e, st, us1)
         | Inr agg \<Rightarrow>
             if pa_state agg \<noteq> NEW then (Inr project_id, st, us1)
             else case handle_register agg source of
               Inl e \<Rightarrow> (Inl e, st, us1)
             | Inr events \<Rightarrow>
                 (case service_append w us1 (other1 st) agg events cid of
                    (Inr ar, st', us2) \<Rightarrow> (Inr project_id, st', us2)
                  | (Inl (ConcurrencyError a x y), st', us2) \<Rightarrow>
                      (case load_aggregate w (other2 st') project_id of
                         Inl e \<Rightarrow> (Inl e, other2 st', us2)
                       | Inr agg' \<Rightarrow>
                           if pa_state agg' = NEW
                           then (Inl (StoreRaised (ConcurrencyError a x y)), other2 st', us2)
                           else (Inr project_id, other2 st', us2))
                  | (Inl e, st', us2) \<Rightarrow> (Inl (StoreRaised e), st', us2)))"

text \<open>The tail of every branch of \<open>fetch_paper\<close>: build the events, append them, return.\<close>

definition fetch_record :: "intake_world \<Rightarrow> ulid_state \<Rightarrow> intake_store \<Rightarrow> project_aggregate \<Rightarrow> string \<Rightarrow>
    intake_error + intake_payload domain_event list \<Rightarrow> bool \<Rightarrow> (intake_error + bool) \<times> intake_store \<times> ulid_state" where
  "fetch_record w us st agg cid handled outcome =
     (case handled of
        Inl e \<Rightarrow> (Inl e, st, us)
      | Inr events \<Rightarrow>
          (case service_append w us st agg events cid of
             (Inl e, st', us') \<Rightarrow> (Inl (StoreRaised e), st', us')
           | (Inr ar, st', us') \<Rightarrow> (Inr outcome, st', us')))"

definition fetch_paper :: "intake_world \<Rightarrow> (intake_store \<Rightarrow> intake_store) \<Rightarrow> ulid_state \<Rightarrow> intake_store \<Rightarrow> string \<Rightarrow>
    (intake_error + bool) \<times> intake_store \<times> ulid_state" where
  "fetch_paper w other1 us st project_id =
     (let (cid, us1) = effective_correlation_id w us in
      case load_aggregate w st project_id of
        Inl e \<Rightarrow> (Inl e, st, us1)
      | Inr agg \<Rightarrow>
          if pa_state agg = NEW then (Inl (UnknownProject project_id), st, us1)
          else if pa_state agg = FETCHED then (Inr True, st, us1)
          else case pa_source agg of
            None \<Rightarrow> (Inl (NoSource project_id), st, us1)
          | Some source \<Rightarrow>
              (case map_of (iw_fetchers w) (source_kind source) of
                 None \<Rightarrow>
                   fetch_record w us1 (other1 st) agg cid
                     (handle_fetch_failure agg ''unsupported_source_kind''
                        (''No fetcher registered for source kind '' @ CHR 0x27 # source_kind source @ [CHR 0x27]) False)
                     False
               | Some fetcher \<Rightarrow>
                   (case ft_fetch fetcher source project_id of
                      Inl (IntakeFetchError message cause_kind retryable) \<Rightarrow>
                        fetch_record w us1 (other1 st) agg cid
                          (handle_fetch_failure agg cause_kind message retryable) False
                    | Inl Other_Exception \<Rightarrow> (Inl FetcherRaised, other1 st, us1)
                    | Inr result \<Rightarrow>
                        fetch_record w us1 (other1 st) agg cid
                          (handle_fetch agg (fr_raw_paper_path result) (fr_pdf_sha256 result)
                             (fr_pdf_size_bytes result) (ft_kind fetcher)) True)))"

definition get_state :: "intake_world \<Rightarrow> intake_store \<Rightarrow> string \<Rightarrow> intake_error + project_state" where
  "get_state w st project_id =
     (case load_aggregate w st project_id of Inl e \<Rightarrow> Inl e | Inr agg \<Rightarrow> Inr (pa_state agg))"

section \<open>The life of a project, abstractly\<close>

text \<open>The state machine of the module comment in \<^verbatim>\<open>events.py\<close>.\<close>

fun life_next :: "project_state \<Rightarrow> intake_payload \<Rightarrow> project_state option" where
  "life_next NEW (ProjectCreated _ _) = Some REGISTERED"
| "life_next REGISTERED (PaperFetched _ _ _ _ _) = Some FETCHED"
| "life_next REGISTERED (PaperFetchFailed _ _ _ _) = Some REGISTERED"
| "life_next _ _ = None"

abbreviation life_path :: "project_state \<Rightarrow> intake_payload list \<Rightarrow> project_state option" where
  "life_path \<equiv> run_path life_next"

fun typed_fact :: "intake_payload fact \<Rightarrow> bool" where
  "typed_fact (ty, ver, p, env) \<longleftrightarrow> ty = cls_event_type (class_of p) \<and> ver = cls_schema_version (class_of p)"

text \<open>The invariant of one project's stream: events of the right types, in an order the state
  machine allows.\<close>

definition life_state :: "intake_store \<Rightarrow> string \<Rightarrow> project_state option" where
  "life_state st pid = life_path NEW (map (\<lambda>(ty, ver, p, env). p) (stream st pid))"

definition project_ok :: "intake_store \<Rightarrow> string \<Rightarrow> bool" where
  "project_ok st pid \<longleftrightarrow> store_wf st \<and> list_all typed_fact (stream st pid) \<and> life_state st pid \<noteq> None"

text \<open>What the service relies on: its three event classes are registered, and Pydantic accepts an
  instance's own JSON.\<close>

definition intake_ready :: "intake_world \<Rightarrow> bool" where
  "intake_ready w \<longleftrightarrow> (\<forall>p. (\<exists>c x. p = Foreign_Event c x) \<or>
     resolve_event_class (iw_registry w) (cls_event_type (class_of p)) (cls_schema_version (class_of p))
       = Some (class_of p) \<and> iw_validate w (class_of p) p)"

text \<open>Any number of writes by anyone to the log.\<close>

abbreviation log_grows :: "intake_world \<Rightarrow> intake_store \<Rightarrow> intake_store \<Rightarrow> bool" where
  "log_grows w \<equiv> store_grows (iw_validate w)"

lemma life_path_foreign: "life_path s ps = Some s' \<Longrightarrow> Foreign_Event c x \<notin> set ps"
proof (induction ps arbitrary: s)
  case (Cons p ps)
  then obtain t where "life_next s p = Some t" "life_path t ps = Some s'" by (auto split: option.splits)
  with Cons show ?case by (cases s) auto
qed simp

section \<open>Replay\<close>

definition advance :: "project_aggregate \<Rightarrow> intake_payload \<Rightarrow> project_aggregate" where
  "advance agg p = (case agg_apply agg (event_of p) of Inl e \<Rightarrow> agg | Inr agg' \<Rightarrow> agg')"

lemma advance_simps [simp]:
  "advance agg (ProjectCreated i s) = agg\<lparr>pa_state := REGISTERED, pa_source := Some s, pa_version := pa_version agg + 1\<rparr>"
  "advance agg (PaperFetched i a b c d) = agg\<lparr>pa_state := FETCHED, pa_version := pa_version agg + 1\<rparr>"
  "advance agg (PaperFetchFailed i a b e) = agg\<lparr>pa_version := pa_version agg + 1\<rparr>"
  by (simp_all add: advance_def agg_apply_def event_of_def)

lemma replay_typed:
  assumes "intake_ready w" and "\<And>r. r \<in> set rows \<Longrightarrow> typed_fact (row_fact r)"
    and "\<And>c x. Foreign_Event c x \<notin> set (map er_payload rows)"
  shows "replay w pid agg rows = Inr (foldl advance agg (map er_payload rows))"
  using assms(2,3)
proof (induction rows arbitrary: agg)
  case (Cons r rows)
  let ?p = "er_payload r"
  have nf: "?p \<noteq> Foreign_Event c x" for c x using Cons.prems(2) [of c x] by auto
  have "typed_fact (row_fact r)" using Cons.prems(1) by simp
  then have ty: "er_event_type r = cls_event_type (class_of ?p)"
    "er_schema_version r = cls_schema_version (class_of ?p)"
    by (simp_all add: row_fact_def)
  have reg: "resolve_event_class (iw_registry w) (cls_event_type (class_of ?p)) (cls_schema_version (class_of ?p))
      = Some (class_of ?p)" and val: "iw_validate w (class_of ?p) ?p"
    using assms(1) nf unfolding intake_ready_def by blast+
  have "agg_apply agg \<lparr>de_class = class_of ?p, de_payload = ?p\<rparr> = Inr (advance agg ?p)"
    using nf by (cases ?p) (auto simp: agg_apply_def)
  moreover have "replay w pid a rows = Inr (foldl advance a (map er_payload rows))" for a
    using Cons by simp
  ultimately show ?case
    by (simp add: row_to_stored_def Let_def ty reg val into_def)
qed simp

lemma foldl_advance:
  assumes "life_path (pa_state agg) ps = Some s"
  shows "pa_state (foldl advance agg ps) = s \<and>
    pa_version (foldl advance agg ps) = pa_version agg + int (length ps) \<and>
    pa_project_id (foldl advance agg ps) = pa_project_id agg \<and>
    ((pa_state agg \<noteq> NEW \<longrightarrow> pa_source agg \<noteq> None) \<longrightarrow> (s \<noteq> NEW \<longrightarrow> pa_source (foldl advance agg ps) \<noteq> None))"
  using assms
proof (induction ps arbitrary: agg)
  case (Cons p ps)
  then obtain t where t: "life_next (pa_state agg) p = Some t" "life_path t ps = Some s"
    by (auto split: option.splits)
  have "pa_state (advance agg p) = t \<and> pa_version (advance agg p) = pa_version agg + 1 \<and>
      pa_project_id (advance agg p) = pa_project_id agg \<and>
      ((pa_state agg \<noteq> NEW \<longrightarrow> pa_source agg \<noteq> None) \<longrightarrow> pa_source (advance agg p) \<noteq> None)"
    using t(1) by (cases p; cases "pa_state agg") auto
  then show ?case using Cons.IH [of "advance agg p"] t(2) by auto
qed simp

text \<open>A load of a well-formed project gives its state, and the version the store will expect.\<close>

lemma load_project_ok:
  assumes "intake_ready w" "project_ok st pid"
  obtains agg where "load_aggregate w st pid = Inr agg" "life_state st pid = Some (pa_state agg)"
    "pa_version agg = get_aggregate_version st pid" "pa_project_id agg = pid"
    "pa_state agg \<noteq> NEW \<longrightarrow> pa_source agg \<noteq> None"
proof -
  from assms(2) have wf: "store_wf st" and ty: "list_all typed_fact (stream st pid)"
    and "life_state st pid \<noteq> None" by (simp_all add: project_ok_def)
  let ?rows = "agg_rows st pid"
  have pl: "map (\<lambda>(ty, ver, p, env). p) (stream st pid) = map er_payload ?rows"
    by (simp add: stream_def row_fact_def)
  obtain s where s: "life_path NEW (map er_payload ?rows) = Some s"
    using \<open>life_state st pid \<noteq> None\<close> by (auto simp: life_state_def pl)
  have "replay w pid (agg_empty pid) ?rows = Inr (foldl advance (agg_empty pid) (map er_payload ?rows))"
    using ty life_path_foreign [OF s] by (intro replay_typed [OF assms(1)]) (auto simp: stream_def list_all_iff)
  moreover have "life_state st pid = Some s" by (simp add: life_state_def pl s)
  ultimately show thesis
    using that [of "foldl advance (agg_empty pid) (map er_payload ?rows)"] s
      foldl_advance [of "agg_empty pid" "map er_payload ?rows" s]
    by (simp add: load_aggregate_def load_rows_wf [OF wf] agg_empty_def version_eq_length [OF wf])
qed

section \<open>One write of a command\<close>

lemma service_envelopes_length: "length (fst (service_envelopes w us k cid es)) = length es"
proof (induction es arbitrary: us k)
  case (Cons e es)
  obtain env us1 where "make_envelope us (iw_draws w k) (iw_draws w k) (iw_now w)
      ''ingestion.intake.service'' (Some cid) None 1 = (env, us1)" by fastforce
  with Cons.IH [of us1 "Suc k"] show ?case by (auto split: prod.splits)
qed simp

text \<open>A command that loaded the aggregate from \<open>st\<close> and appends one event to \<open>st1\<close>, which others have
  extended meanwhile.\<close>

lemma service_append_cases:
  assumes "store_wf st" "log_grows w st st1" "pa_version agg = get_aggregate_version st pid"
    and "pa_project_id agg = pid" "service_append w us st1 agg [event_of p] cid = (res, st', us')"
  obtains (same) "st' = st1"
  | (added) env where "store_wf st'" "stream st1 pid = stream st pid"
      "stream st' = (stream st1)(pid := stream st pid @ [(cls_event_type (class_of p), cls_schema_version (class_of p), p, env)])"
      "\<exists>ar. res = Inr ar"
proof -
  obtain envs us1 where e: "service_envelopes w us 1 cid [event_of p] = (envs, us1)" by fastforce
  from assms(4,5) have ap: "append_events (iw_validate w) (iw_fault w) st1 pid ''project'' [event_of p]
      (pa_version agg) envs = (res, st')"
    by (simp add: service_append_def e [simplified One_nat_def] del: service_envelopes.simps split: prod.splits)
  have "length envs = 1" using service_envelopes_length [of w us 1 cid "[event_of p]"] unfolding e by simp
  then obtain env where "envs = [env]" by (auto simp: length_Suc_conv)
  with snapshot_append_cases [OF assms(1-3) ap] same added show thesis
    by (auto simp: event_fact_def event_of_def)
qed

lemma service_append_ok:
  assumes "store_wf st" "log_grows w st st1" "pa_version agg = get_aggregate_version st pid"
    and "pa_project_id agg = pid" "service_append w us st1 agg [event_of p] cid = (res, st', us')"
    and "life_state st pid = Some s" "life_next s p \<noteq> None" "project_ok st1 pid"
  shows "project_ok st' pid"
  using assms(1-5)
proof (cases rule: service_append_cases)
  case same
  with assms(8) show ?thesis by simp
next
  case (added env)
  with assms(6-8) show ?thesis
    by (auto simp: project_ok_def life_state_def run_path_append)
qed

section \<open>Commands\<close>

datatype intake_command = RegisterProject paper_source "string option" | FetchPaper string

fun command_target :: "intake_world \<Rightarrow> intake_command \<Rightarrow> string" where
  "command_target w (RegisterProject source override) = chosen_project_id w override source"
| "command_target w (FetchPaper pid) = pid"

fun run_command :: "intake_world \<Rightarrow> (intake_store \<Rightarrow> intake_store) \<Rightarrow> (intake_store \<Rightarrow> intake_store) \<Rightarrow>
    ulid_state \<Rightarrow> intake_store \<Rightarrow> intake_command \<Rightarrow> (intake_error + string + bool) \<times> intake_store" where
  "run_command w other1 other2 us st (RegisterProject source override) =
     (case register_project w other1 other2 us st source override of
        (Inl e, st', _) \<Rightarrow> (Inl e, st') | (Inr pid, st', _) \<Rightarrow> (Inr (Inl pid), st'))"
| "run_command w other1 other2 us st (FetchPaper pid) =
     (case fetch_paper w other1 us st pid of
        (Inl e, st', _) \<Rightarrow> (Inl e, st') | (Inr b, st', _) \<Rightarrow> (Inr (Inr b), st'))"

lemma handle_next:
  "handle_register agg source = Inr evs \<Longrightarrow>
     \<exists>p. evs = [event_of p] \<and> life_next (pa_state agg) p \<noteq> None"
  "handle_fetch agg a b c d = Inr evs \<Longrightarrow> \<exists>p. evs = [event_of p] \<and> life_next (pa_state agg) p \<noteq> None"
  "handle_fetch_failure agg a b r = Inr evs \<Longrightarrow> \<exists>p. evs = [event_of p] \<and> life_next (pa_state agg) p \<noteq> None"
  by (auto simp: handle_register_def handle_fetch_def handle_fetch_failure_def split: if_splits)

lemma fetch_record_ok:
  assumes "store_wf st" "log_grows w st st1" "pa_version agg = get_aggregate_version st pid"
    "pa_project_id agg = pid" "life_state st pid = Some (pa_state agg)" "project_ok st1 pid"
    and "\<And>evs. handled = Inr evs \<Longrightarrow> \<exists>p. evs = [event_of p] \<and> life_next (pa_state agg) p \<noteq> None"
    and "fetch_record w us st1 agg cid handled b = (res, st', us')"
  shows "project_ok st' pid"
proof (cases handled)
  case (Inl e)
  with assms(6,8) show ?thesis by (simp add: fetch_record_def)
next
  case (Inr evs)
  then obtain p where p: "evs = [event_of p]" "life_next (pa_state agg) p \<noteq> None" using assms(7) by blast
  obtain res1 st2 us2 where a: "service_append w us st1 agg evs cid = (res1, st2, us2)" by (cases "service_append w us st1 agg evs cid")
  with assms(8) Inr have "st' = st2" by (auto simp: fetch_record_def split: sum.splits)
  with service_append_ok [OF assms(1-4) a [unfolded p(1)] assms(5) p(2) assms(6)] show ?thesis by simp
qed

lemma register_keeps:
  assumes "intake_ready w" "project_ok st pid" "log_grows w st (other1 st)" "project_ok (other1 st) pid"
    and "\<And>s. project_ok s pid \<Longrightarrow> project_ok (other2 s) pid"
    and "pid = chosen_project_id w override source"
    and "register_project w other1 other2 us st source override = (res, st', us')"
  shows "project_ok st' pid"
proof -
  obtain agg where agg: "load_aggregate w st pid = Inr agg" "life_state st pid = Some (pa_state agg)"
    "pa_version agg = get_aggregate_version st pid" "pa_project_id agg = pid"
    using load_project_ok [OF assms(1,2)] by blast
  obtain cid us1 where cid: "effective_correlation_id w us = (cid, us1)" by fastforce
  have wf: "store_wf st" using assms(2) by (simp add: project_ok_def)
  show ?thesis
  proof (cases "pa_state agg = NEW")
    case False
    with assms(2,7) agg(1) cid show ?thesis
      by (simp add: register_project_def assms(6) [symmetric])
  next
    case True
    then obtain evs where evs: "handle_register agg source = Inr evs" by (simp add: handle_register_def)
    obtain p where p: "evs = [event_of p]" "life_next (pa_state agg) p \<noteq> None"
      using handle_next(1) [OF evs] by blast
    obtain r st2 us2 where a: "service_append w us1 (other1 st) agg evs cid = (r, st2, us2)"
      by (cases "service_append w us1 (other1 st) agg evs cid")
    have ok2: "project_ok st2 pid"
      by (rule service_append_ok [OF wf assms(3) agg(3,4) a [unfolded p(1)] agg(2) p(2) assms(4)])
    have "st' = st2 \<or> st' = other2 st2"
      using assms(7) agg(1) cid True evs a
      by (auto simp: register_project_def assms(6) [symmetric] split: sum.splits store_error.splits if_splits)
    with ok2 assms(5) show ?thesis by blast
  qed
qed

lemma fetch_keeps:
  assumes "intake_ready w" "project_ok st pid" "log_grows w st (other1 st)" "project_ok (other1 st) pid"
    and "fetch_paper w other1 us st pid = (res, st', us')"
  shows "project_ok st' pid"
proof -
  obtain agg where agg: "load_aggregate w st pid = Inr agg" "life_state st pid = Some (pa_state agg)"
    "pa_version agg = get_aggregate_version st pid" "pa_project_id agg = pid"
    "pa_state agg \<noteq> NEW \<longrightarrow> pa_source agg \<noteq> None"
    using load_project_ok [OF assms(1,2)] by blast
  obtain cid us1 where cid: "effective_correlation_id w us = (cid, us1)" by fastforce
  have wf: "store_wf st" using assms(2) by (simp add: project_ok_def)
  note rec = fetch_record_ok [OF wf assms(3) agg(3,4,2) assms(4)]
  consider "st' = st" | "st' = other1 st"
    | a b c d where "fetch_record w us1 (other1 st) agg cid (handle_fetch agg a b c d) True = (res, st', us')"
    | a b c where "fetch_record w us1 (other1 st) agg cid (handle_fetch_failure agg a b c) False = (res, st', us')"
  proof (cases "pa_state agg = REGISTERED")
    case False
    then have "st' = st" using assms(5) agg(1) cid by (cases "pa_state agg") (simp_all add: fetch_paper_def)
    then show thesis by (rule that(1))
  next
    case True
    with agg(5) obtain source where src: "pa_source agg = Some source" by auto
    note body = assms(5) [unfolded fetch_paper_def cid agg(1), simplified, simplified True src, simplified]
    show thesis
    proof (cases "map_of (iw_fetchers w) (source_kind source)")
      case None
      with body show ?thesis using that(4) by simp
    next
      case (Some f)
      with body that show ?thesis
        by (cases "ft_fetch f source pid") (auto split: fetch_exn.splits)
    qed
  qed
  then show ?thesis
    using assms(2,4) rec [OF handle_next(2)] rec [OF handle_next(3)] by cases blast+
qed

text \<open>
  C2. Whatever the interleaving, a project's stream stays a path of the state machine
  NEW -> REGISTERED -> FETCHED (one \<open>ProjectCreated\<close>, then failed fetches, then at most one
  \<open>PaperFetched\<close> and nothing after it): a command that loaded the project at \<open>st\<close> and appends
  after others extended the log to \<open>other1 st\<close> keeps the invariant on every outcome, error
  outcomes included. (No writer purges the project meanwhile.)
\<close>

theorem commands_keep_lifecycle:
  assumes "intake_ready w" and "project_ok st (command_target w cmd)"
    and "log_grows w st (other1 st)" and "project_ok (other1 st) (command_target w cmd)"
    and "\<And>s. project_ok s (command_target w cmd) \<Longrightarrow> project_ok (other2 s) (command_target w cmd)"
    and "run_command w other1 other2 us st cmd = (res, st')"
  shows "project_ok st' (command_target w cmd)"
proof (cases cmd)
  case (RegisterProject source override)
  obtain r st2 us2 where r: "register_project w other1 other2 us st source override = (r, st2, us2)"
    by (cases "register_project w other1 other2 us st source override")
  with assms(6) RegisterProject have "st' = st2" by (auto split: sum.splits)
  with register_keeps [OF _ _ _ _ _ _ r] assms(1-5) RegisterProject show ?thesis by simp
next
  case (FetchPaper pid)
  obtain r st2 us2 where r: "fetch_paper w other1 us st pid = (r, st2, us2)"
    by (cases "fetch_paper w other1 us st pid")
  with assms(6) FetchPaper have "st' = st2" by (auto split: sum.splits)
  with fetch_keeps [OF _ _ _ _ r] assms(1-4) FetchPaper show ?thesis by simp
qed

text \<open>The project as an aggregate of the log; a fetched project is final.\<close>

interpretation project_log: lifecycle_log store_wf stream get_aggregate_version "write_batch validate" batch_facts
    "\<lambda>s (ty, ver, p, env). life_next s p" NEW
  for validate :: "event_class \<Rightarrow> intake_payload \<Rightarrow> bool"
  by unfold_locales

lemma life_state_path: "life_state st pid = run_path (\<lambda>s (ty, ver, p, env). life_next s p) NEW (stream st pid)"
  unfolding life_state_def run_path_map
  by (rule arg_cong [where f = "\<lambda>d. run_path d NEW (stream st pid)"]) (auto simp: fun_eq_iff)

lemma fetched_is_final:
  assumes "project_ok st pid" "life_state st pid = Some FETCHED" "log_grows w st st'" "project_ok st' pid"
  shows "stream st' pid = stream st pid"
proof (rule project_log.final_state_closed [of st "iw_validate w" st' pid FETCHED])
  show "store_wf st" using assms(1) by (simp add: project_ok_def)
  show "(\<lambda>s s'. \<exists>a b v. write_batch (iw_validate w) s a b v = Some s')\<^sup>*\<^sup>* st st'"
    using assms(3) by (simp add: store_grows_def)
  show "(case f of (ty, ver, p, env) \<Rightarrow> life_next FETCHED p) = None" for f by (cases f) simp
qed (use assms(2,4) in \<open>simp_all add: life_state_path [symmetric] project_ok_def\<close>)

section \<open>Registration\<close>

lemma life_path_new: "life_path s ps = Some NEW \<Longrightarrow> ps = []"
proof (induction ps arbitrary: s)
  case (Cons p ps)
  then obtain t where "life_next s p = Some t" "life_path t ps = Some NEW" by (auto split: option.splits)
  with Cons.IH [of t] have "life_next s p = Some NEW" by auto
  then show ?case by (cases s; cases p) auto
qed simp

lemma life_state_new: "life_state st pid = Some NEW \<longleftrightarrow> stream st pid = []"
  using life_path_new [of NEW] by (auto simp: life_state_def)

lemma service_envelopes_cong:
  "length es = length es' \<Longrightarrow> service_envelopes w us k cid es = service_envelopes w us k cid es'"
  by (induction es es' arbitrary: us k rule: list_induct2) (auto split: prod.splits)

text \<open>The id of the event a command would write.\<close>

definition next_event_ids :: "intake_world \<Rightarrow> ulid_state \<Rightarrow> string list" where
  "next_event_ids w us = (let (cid, us1) = effective_correlation_id w us in
     map env_event_id (fst (service_envelopes w us1 1 cid [()])))"

lemma service_append_fresh:
  assumes "effective_correlation_id w us = (cid, us1)"
    and "existing_rows st1 (next_event_ids w us) = []" "store_wf st1" "\<And>k. \<not> iw_fault w k"
    and "iw_validate w (class_of p) p" "cls_event_type (class_of p) \<noteq> []"
  shows "if pa_version agg = get_aggregate_version st1 (pa_project_id agg)
    then \<exists>ar st' us'. service_append w us1 st1 agg [event_of p] cid = (Inr ar, st', us') \<and>
      (\<exists>env. stream st' = (stream st1)(pa_project_id agg := stream st1 (pa_project_id agg) @
        [(cls_event_type (class_of p), cls_schema_version (class_of p), p, env)]))
    else \<exists>us'. service_append w us1 st1 agg [event_of p] cid =
      (Inl (ConcurrencyError (pa_project_id agg) (pa_version agg) (get_aggregate_version st1 (pa_project_id agg))), st1, us')"
proof -
  obtain envs us2 where e: "service_envelopes w us1 1 cid [event_of p] = (envs, us2)" by fastforce
  have e': "service_envelopes w us1 1 cid [()] = (envs, us2)"
    using service_envelopes_cong [of "[()]" "[event_of p]"] e by simp
  have ids: "existing_rows st1 (map env_event_id envs) = []"
    using assms(2) unfolding next_event_ids_def assms(1) prod.case Let_def e' by simp
  have len: "length envs = 1" using service_envelopes_length [of w us1 1 cid "[event_of p]"] unfolding e by simp
  then have one: "distinct (map env_event_id envs)" by (auto simp: length_Suc_conv)
  have val: "revalidate (iw_validate w) [event_of p] = None" using assms(5,6) by (simp add: event_of_def)
  let ?ap = "append_events (iw_validate w) (iw_fault w) st1 (pa_project_id agg) ''project'' [event_of p] (pa_version agg) envs"
  have sa: "service_append w us1 st1 agg [event_of p] cid = (fst ?ap, snd ?ap, us2)"
    unfolding service_append_def e by (simp add: case_prod_beta)
  show ?thesis
  proof (cases "pa_version agg = get_aggregate_version st1 (pa_project_id agg)")
    case True
    have "\<exists>ar st'. ?ap = (Inr ar, st')"
      using True len val one by (intro append_fresh_accepted [OF assms(3,4) ids]) simp_all
    then obtain ar st' where ap: "?ap = (Inr ar, st')" by blast
    obtain env where "envs = [env]" using len by (auto simp: length_Suc_conv)
    then have "stream st' = (stream st1)(pa_project_id agg := stream st1 (pa_project_id agg) @
        [(cls_event_type (class_of p), cls_schema_version (class_of p), p, env)])"
      by (auto simp: append_fresh_eq(4) [OF ap ids] stream_after_batch event_fact_def event_of_def)
    with True sa ap show ?thesis by auto
  next
    case False
    then have "?ap = (Inl (ConcurrencyError (pa_project_id agg) (pa_version agg)
        (get_aggregate_version st1 (pa_project_id agg))), st1)"
      using ids len val assms(4) by (auto simp: append_events_def Let_def)
    with False sa show ?thesis by auto
  qed
qed

lemma register_new:
  assumes "intake_ready w" "store_wf st" "pid = chosen_project_id w override source"
    and "load_aggregate w st pid = Inr agg" "pa_state agg = NEW" "pa_version agg = 0" "pa_project_id agg = pid"
    and "log_grows w st (other1 st)" "\<And>k. \<not> iw_fault w k" "existing_rows (other1 st) (next_event_ids w us) = []"
    and "\<And>s. project_ok s pid \<Longrightarrow> stream s pid \<noteq> [] \<Longrightarrow> project_ok (other2 s) pid \<and> stream (other2 s) pid \<noteq> []"
    and "project_ok (other1 st) pid"
  shows "\<exists>st' us'. register_project w other1 other2 us st source override = (Inr pid, st', us') \<and> stream st' pid \<noteq> []"
proof -
  let ?p = "ProjectCreated pid source"
  obtain cid us1 where cid: "effective_correlation_id w us = (cid, us1)" by fastforce
  have wf1: "store_wf (other1 st)"
    using es_log.writes_append_only [of "iw_validate w" st "other1 st"] assms(2,8) by (simp add: store_grows_def)
  have val: "iw_validate w (class_of ?p) ?p" using assms(1) unfolding intake_ready_def by blast
  have evs: "handle_register agg source = Inr [event_of ?p]" using assms(5,7) by (simp add: handle_register_def)
  have ne: "cls_event_type (class_of ?p) \<noteq> []" by (simp add: intake_class_def)
  note fresh = service_append_fresh [OF cid assms(10) wf1 assms(9) val ne, of agg, unfolded assms(6,7)]
  have ver: "0 = get_aggregate_version (other1 st) pid \<longleftrightarrow> stream (other1 st) pid = []"
    by (simp add: version_eq_length [OF wf1] stream_def)
  note body = register_project_def assms(3) [symmetric] cid assms(4,5) evs
  show ?thesis
  proof (cases "stream (other1 st) pid = []")
    case True
    then obtain ar st' us' where "service_append w us1 (other1 st) agg [event_of ?p] cid = (Inr ar, st', us')"
        "stream st' pid \<noteq> []"
      using fresh ver by (auto dest: fun_cong [of _ _ pid])
    then show ?thesis by (simp add: body)
  next
    case False
    then obtain us' where a: "service_append w us1 (other1 st) agg [event_of ?p] cid =
        (Inl (ConcurrencyError pid 0 (get_aggregate_version (other1 st) pid)), other1 st, us')"
      using fresh ver by auto
    obtain agg' where "load_aggregate w (other2 (other1 st)) pid = Inr agg'" "pa_state agg' \<noteq> NEW"
      using load_project_ok [OF assms(1)] assms(11) [OF assms(12) False] life_state_new by metis
    with a assms(11) [OF assms(12) False] show ?thesis by (simp add: body)
  qed
qed

fun is_created :: "intake_payload \<Rightarrow> bool" where
  "is_created (ProjectCreated _ _) = True"
| "is_created _ = False"

lemma life_path_created: "life_path s ps = Some t \<Longrightarrow> length (filter is_created ps) = (if s = NEW \<and> t \<noteq> NEW then 1 else 0)"
proof (induction ps arbitrary: s)
  case (Cons p ps)
  then obtain u where u: "life_next s p = Some u" "life_path u ps = Some t" by (auto split: option.splits)
  then have "u \<noteq> NEW" by (cases s; cases p) auto
  then have "t \<noteq> NEW" using u(2) life_path_new [of u ps] by auto
  with Cons.IH [OF u(2)] u(1) show ?case by (cases s; cases p) auto
qed simp

text \<open>
  Registering is idempotent and survives races: on a healthy database \<open>register_project\<close>
  returns the project id even when another process registers the same project between its load
  and its append; afterwards the project is registered, its stream holds exactly one
  \<open>ProjectCreated\<close>, and registering it again returns the same id and writes nothing.
\<close>

theorem register_exactly_once:
  assumes "intake_ready w" and "\<And>k. \<not> iw_fault w k" and "pid = chosen_project_id w override source"
    and "project_ok st pid" and "log_grows w st (other1 st)" and "project_ok (other1 st) pid"
    and "existing_rows (other1 st) (next_event_ids w us) = []"
    and "\<And>s. project_ok s pid \<Longrightarrow> project_ok (other2 s) pid \<and> (stream s pid \<noteq> [] \<longrightarrow> stream (other2 s) pid \<noteq> [])"
  shows "\<exists>st' us'. register_project w other1 other2 us st source override = (Inr pid, st', us') \<and>
    project_ok st' pid \<and>
    length (filter (\<lambda>(ty, ver, p, env). is_created p) (stream st' pid)) = 1 \<and>
    (\<forall>o1 o2 us2. \<exists>us3. register_project w o1 o2 us2 st' source override = (Inr pid, st', us3))"
proof -
  obtain agg where agg: "load_aggregate w st pid = Inr agg" "life_state st pid = Some (pa_state agg)"
    "pa_version agg = get_aggregate_version st pid" "pa_project_id agg = pid"
    using load_project_ok [OF assms(1,4)] by blast
  have wf: "store_wf st" using assms(4) by (simp add: project_ok_def)
  have "\<exists>st' us'. register_project w other1 other2 us st source override = (Inr pid, st', us') \<and> stream st' pid \<noteq> []"
  proof (cases "pa_state agg = NEW")
    case True
    with agg(2) have "stream st pid = []" by (simp add: life_state_new)
    then have "pa_version agg = 0" using agg(3) by (simp add: version_eq_length [OF wf] stream_def)
    with assms(8) show ?thesis
      by (intro register_new [where agg = agg]) (use assms(1-3,5-7) wf agg(1,4) True in auto)
  next
    case False
    with agg(2) have "stream st pid \<noteq> []" using life_state_new [of st pid] by auto
    with False agg(1) show ?thesis
      by (auto simp: register_project_def assms(3) [symmetric] split: prod.split)
  qed
  then obtain st' us' where r: "register_project w other1 other2 us st source override = (Inr pid, st', us')"
    and ne: "stream st' pid \<noteq> []" by blast
  have ok: "project_ok st' pid"
    using register_keeps [OF assms(1,4,5,6) _ assms(3) r] assms(8) by blast
  obtain agg' where agg': "load_aggregate w st' pid = Inr agg'" "life_state st' pid = Some (pa_state agg')"
    using load_project_ok [OF assms(1) ok] by blast
  have reg: "pa_state agg' \<noteq> NEW" using agg'(2) ne life_state_new by metis
  have "length (filter (\<lambda>(ty, ver, p, env). is_created p) (stream st' pid)) =
      length (filter is_created (map (\<lambda>(ty, ver, p, env). p) (stream st' pid)))"
    by (simp add: filter_map comp_def case_prod_unfold)
  also have "\<dots> = 1" using life_path_created [OF agg'(2) [unfolded life_state_def]] reg by simp
  finally show ?thesis
    using r ok reg agg'(1) by (auto simp: register_project_def assms(3) [symmetric] split: prod.split)
qed

lemma fetch_record_fresh:
  assumes "effective_correlation_id w us = (cid, us1)" "project_ok st pid" "\<And>k. \<not> iw_fault w k"
    "existing_rows st (next_event_ids w us) = []" "intake_ready w"
    "pa_version agg = get_aggregate_version st pid" "pa_project_id agg = pid"
    "life_state st pid = Some (pa_state agg)" "life_next (pa_state agg) p = Some s"
  shows "\<exists>st' us'. fetch_record w us1 st agg cid (Inr [event_of p]) b = (Inr b, st', us') \<and>
    life_state st' pid = Some s \<and> length (stream st' pid) = length (stream st pid) + 1"
proof -
  have nf: "p \<noteq> Foreign_Event c x" for c x using assms(9) by (cases "pa_state agg") auto
  have val: "iw_validate w (class_of p) p" using assms(5) nf unfolding intake_ready_def by blast
  have ne: "cls_event_type (class_of p) \<noteq> []" using nf by (cases p) (auto simp: intake_class_def)
  have wf: "store_wf st" using assms(2) by (simp add: project_ok_def)
  obtain ar st' us' env where a: "service_append w us1 st agg [event_of p] cid = (Inr ar, st', us')"
    and st': "stream st' = (stream st)(pid := stream st pid @ [(cls_event_type (class_of p), cls_schema_version (class_of p), p, env)])"
    using service_append_fresh [OF assms(1,4) wf assms(3) val ne, of agg] assms(6,7) by auto
  have "life_state st' pid = Some s"
    using assms(8,9) by (simp add: life_state_def st' run_path_append)
  moreover have "length (stream st' pid) = length (stream st pid) + 1" unfolding st' by (simp del: length_stream)
  ultimately show ?thesis using a by (simp add: fetch_record_def del: length_stream)
qed

text \<open>
  What \<open>fetch_paper\<close> reports is what the log says: without interference and on a healthy
  database it raises \<open>UnknownProject\<close> for a project that was never registered, returns \<open>True\<close>
  and writes nothing for a fetched one, and for a registered one returns \<open>True\<close> exactly when a
  fetcher for the source kind exists and succeeds, leaving the project fetched; a missing
  fetcher or a fetch error gives \<open>False\<close> with one \<open>PaperFetchFailed\<close> and the project still
  registered, so that a retry is possible.
\<close>

theorem fetch_paper_outcomes:
  assumes "intake_ready w" and "\<And>k. \<not> iw_fault w k" and "project_ok st pid"
    and "existing_rows st (next_event_ids w us) = []"
    and "load_aggregate w st pid = Inr agg"
    and "fetch_paper w id us st pid = (res, st', us')"
  shows "case pa_state agg of
      NEW \<Rightarrow> res = Inl (UnknownProject pid) \<and> st' = st
    | FETCHED \<Rightarrow> res = Inr True \<and> st' = st
    | REGISTERED \<Rightarrow> (\<exists>source. pa_source agg = Some source \<and>
        (case map_of (iw_fetchers w) (source_kind source) of
           None \<Rightarrow> res = Inr False \<and> life_state st' pid = Some REGISTERED \<and>
             length (stream st' pid) = length (stream st pid) + 1
         | Some f \<Rightarrow> (case ft_fetch f source pid of
             Inr fr \<Rightarrow> res = Inr True \<and> life_state st' pid = Some FETCHED
           | Inl (IntakeFetchError msg kind retryable) \<Rightarrow>
               res = Inr False \<and> life_state st' pid = Some REGISTERED \<and>
               length (stream st' pid) = length (stream st pid) + 1
           | Inl Other_Exception \<Rightarrow> res = Inl FetcherRaised \<and> st' = st)))"
proof -
  obtain agg0 where "load_aggregate w st pid = Inr agg0" "life_state st pid = Some (pa_state agg0)"
    "pa_version agg0 = get_aggregate_version st pid" "pa_project_id agg0 = pid"
    "pa_state agg0 \<noteq> NEW \<longrightarrow> pa_source agg0 \<noteq> None"
    using load_project_ok [OF assms(1,3)] by blast
  with assms(5) have agg: "life_state st pid = Some (pa_state agg)"
    "pa_version agg = get_aggregate_version st pid" "pa_project_id agg = pid"
    "pa_state agg \<noteq> NEW \<longrightarrow> pa_source agg \<noteq> None" by auto
  obtain cid us1 where cid: "effective_correlation_id w us = (cid, us1)" by fastforce
  note rec = fetch_record_fresh [OF cid assms(3,2,4,1) agg(2,3,1)]
  note body = assms(6) [unfolded fetch_paper_def cid assms(5), simplified]
  show ?thesis
  proof (cases "pa_state agg")
    case REGISTERED
    with agg(4) obtain source where src: "pa_source agg = Some source" by auto
    note body' = body [unfolded REGISTERED src, simplified]
    have fail: "\<exists>st' us'. fetch_record w us1 st agg cid (handle_fetch_failure agg k m r) False = (Inr False, st', us') \<and>
        life_state st' pid = Some REGISTERED \<and> length (stream st' pid) = length (stream st pid) + 1" for k m r
      using rec [of "PaperFetchFailed pid k m r" REGISTERED False] REGISTERED agg(3)
      by (simp add: handle_fetch_failure_def)
    have succ: "\<exists>st' us'. fetch_record w us1 st agg cid (handle_fetch agg a b c d) True = (Inr True, st', us') \<and>
        life_state st' pid = Some FETCHED" for a b c d
      using rec [of "PaperFetched pid a b c d" FETCHED True] REGISTERED agg(3)
      by (auto simp: handle_fetch_def)
    show ?thesis
    proof (cases "map_of (iw_fetchers w) (source_kind source)")
      case None
      show ?thesis
        using body' fail [of "''unsupported_source_kind''" "''No fetcher registered for source kind '' @
          CHR 0x27 # source_kind source @ [CHR 0x27]" False] REGISTERED src None by auto
    next
      case (Some f)
      show ?thesis
      proof (cases "ft_fetch f source pid")
        case (Inl e)
        show ?thesis
        proof (cases e)
          case (IntakeFetchError m k r)
          show ?thesis using body' fail [of k m r] REGISTERED src Some Inl IntakeFetchError by auto
        next
          case Other_Exception
          show ?thesis using body' REGISTERED src Some Inl Other_Exception by simp
        qed
      next
        case (Inr fr)
        show ?thesis
          using body' succ [of "fr_raw_paper_path fr" "fr_pdf_sha256 fr" "fr_pdf_size_bytes fr" "ft_kind f"]
            REGISTERED src Some Inr by auto
      qed
    qed
  qed (use body in simp_all)
qed

section \<open>arXiv identifiers\<close>

definition arxiv_char :: "char \<Rightarrow> bool" where
  "arxiv_char c \<longleftrightarrow> py_digit c \<or> c = CHR ''.'' \<or> py_lower_char c = CHR ''v''"

lemma arxiv_tail_chars: "arxiv_tail_ok s \<Longrightarrow> list_all arxiv_char s"
proof -
  assume ok: "arxiv_tail_ok s"
  have "list_all arxiv_char (takeWhile py_digit s)"
    by (auto simp: list_all_iff arxiv_char_def dest: set_takeWhileD)
  moreover have "list_all arxiv_char (dropWhile py_digit s)"
  proof (cases "dropWhile py_digit s")
    case (Cons v ds)
    with ok have "py_lower_char v = CHR ''v''" "digits_ok ds" by (simp_all add: arxiv_tail_ok_def Let_def)
    then show ?thesis by (simp add: Cons arxiv_char_def digits_ok_def list_all_iff)
  next
    case Nil
    then show ?thesis by (simp only: list.pred_inject)
  qed
  ultimately have "list_all arxiv_char (takeWhile py_digit s @ dropWhile py_digit s)"
    by (simp only: list_all_append)
  then show ?thesis by simp
qed

lemma arxiv_id_chars: "arxiv_id_ok s \<Longrightarrow> list_all arxiv_char s"
proof -
  assume ok: "arxiv_id_ok s"
  then have "s = take 4 s @ s ! 4 # drop 5 s" by (metis arxiv_id_ok_def Suc_le_lessD id_take_nth_drop eval_nat_numeral(3))
  moreover have "list_all arxiv_char (take 4 s @ s ! 4 # drop 5 s)"
    using ok arxiv_tail_chars [of "drop 5 s"] by (auto simp: arxiv_id_ok_def arxiv_char_def list_all_iff)
  ultimately show ?thesis by metis
qed

lemma arxiv_char_facts:
  "arxiv_char c \<Longrightarrow> \<not> py_space c" "arxiv_char c \<Longrightarrow> c \<noteq> CHR ''/''" "\<not> arxiv_char CHR ''p''" "\<not> arxiv_char CHR '':''"
proof -
  have v: "py_lower_char c = CHR ''v'' \<Longrightarrow> of_char c = (118::nat) \<or> of_char c = (86::nat)" for c
  proof -
    assume "py_lower_char c = CHR ''v''"
    then have "of_char (py_lower_char c) = (118::nat)" by simp
    moreover have "of_char c < (256::nat)" by (rule nat_of_char_less_256)
    ultimately show ?thesis by (auto simp: py_lower_char_def Let_def split: if_splits)
  qed
  show "arxiv_char c \<Longrightarrow> \<not> py_space c"
    using v [of c] by (auto simp: arxiv_char_def py_digit_def py_space_def Let_def)
  show "arxiv_char c \<Longrightarrow> c \<noteq> CHR ''/''"
    using v [of c] by (auto simp: arxiv_char_def py_digit_def Let_def)
  show "\<not> arxiv_char CHR ''p''" using v [of "CHR ''p''"] by (auto simp: arxiv_char_def py_digit_def Let_def)
  show "\<not> arxiv_char CHR '':''" using v [of "CHR '':''"] by (auto simp: arxiv_char_def py_digit_def Let_def)
qed

lemma py_strip_id:
  assumes "s \<noteq> []" "\<not> py_space (hd s)" "\<not> py_space (last s)"
  shows "py_strip s = s"
proof -
  have "dropWhile py_space s = s" using assms(1,2) by (cases s) simp_all
  moreover have "dropWhile py_space (rev s) = rev s" using assms(1,3) by (cases s rule: rev_cases) simp_all
  ultimately show ?thesis by (simp add: py_strip_def py_lstrip_def py_rstrip_def)
qed

lemma py_lower_slash: "py_lower_char c = CHR ''/'' \<Longrightarrow> c = CHR ''/''"
proof -
  assume "py_lower_char c = CHR ''/''"
  then have "of_char (py_lower_char c) = (47::nat)" by simp
  moreover have "of_char c < (256::nat)" by (rule nat_of_char_less_256)
  ultimately have "of_char c = (47::nat)" by (auto simp: py_lower_char_def Let_def split: if_splits)
  then have "of_char c = (of_char CHR ''/'' :: nat)" by simp
  then show ?thesis by (simp only: of_char_eq_iff)
qed

lemma arxiv_url_rest_slash: "CHR ''/'' \<notin> set s \<Longrightarrow> arxiv_url_rest s = None"
proof -
  assume s: "CHR ''/'' \<notin> set s"
  have "CHR ''/'' \<notin> set (py_lower (take 14 s))"
    using s py_lower_slash by (force simp: py_lower_def dest: in_set_takeD)
  moreover have "CHR ''/'' \<in> set ''arxiv.org/abs/''" "CHR ''/'' \<in> set ''arxiv.org/pdf/''" by simp_all
  ultimately have "py_lower (take 14 s) \<noteq> ''arxiv.org/abs/'' \<and> py_lower (take 14 s) \<noteq> ''arxiv.org/pdf/''" by metis
  then show ?thesis by (simp add: arxiv_url_rest_def)
qed

lemma arxiv_url_search_slash: "CHR ''/'' \<notin> set s \<Longrightarrow> arxiv_url_search b s = None"
proof (induction s arbitrary: b)
  case (Cons c s)
  then show ?case using arxiv_url_rest_slash [of "c # s"] by (auto simp: arxiv_url_at_def)
qed (simp add: arxiv_url_at_def arxiv_url_rest_slash)

lemma normalize_canonical:
  assumes "arxiv_id_ok c"
  shows "c \<noteq> []" "\<not> py_space (hd c)" "\<not> py_space (last c)" "arxiv_url_search b c = None"
    "py_lower (take 6 c) \<noteq> ''arxiv:''" "\<not> arxiv_id_ok (c @ ''.pdf'')"
proof -
  note ch = arxiv_id_chars [OF assms]
  show ne: "c \<noteq> []" using assms by (auto simp: arxiv_id_ok_def)
  have hd: "hd c \<in> set c" "last c \<in> set c" using ne by simp_all
  show "\<not> py_space (hd c)" "\<not> py_space (last c)" using ch hd arxiv_char_facts(1) by (auto simp: list_all_iff)
  show "arxiv_url_search b c = None"
    using ch arxiv_char_facts(2) by (intro arxiv_url_search_slash) (auto simp: list_all_iff)
  have d: "py_digit (hd c)" using assms ne by (cases c) (auto simp: arxiv_id_ok_def)
  then have "py_lower_char (hd c) = hd c" by (auto simp: py_digit_def py_lower_char_def Let_def)
  with d have "hd (py_lower (take 6 c)) \<noteq> CHR ''a''" using ne
    by (cases c) (auto simp: py_lower_def py_digit_def Let_def)
  then show "py_lower (take 6 c) \<noteq> ''arxiv:''" by auto
  show "\<not> arxiv_id_ok (c @ ''.pdf'')" using arxiv_id_chars [of "c @ ''.pdf''"] arxiv_char_facts(3) by auto
qed

lemma normalize_of_canonical: "arxiv_id_ok c \<Longrightarrow> normalize_arxiv_id c = Some c"
  using normalize_canonical [of c] by (simp add: normalize_arxiv_id_def Let_def py_strip_id)

lemma normalize_with_prefix: "arxiv_id_ok c \<Longrightarrow> normalize_arxiv_id (''arxiv:'' @ c) = Some c"
proof -
  assume ok: "arxiv_id_ok c"
  have "CHR ''/'' \<notin> set (''arxiv:'' @ c)"
    using arxiv_id_chars [OF ok] arxiv_char_facts(2) by (auto simp: list_all_iff)
  then have "arxiv_url_search True (''arxiv:'' @ c) = None" by (rule arxiv_url_search_slash)
  moreover have "py_strip (''arxiv:'' @ c) = ''arxiv:'' @ c"
    using normalize_canonical [OF ok] by (intro py_strip_id) (simp_all add: py_space_def Let_def)
  moreover have "py_lower (take 6 (''arxiv:'' @ c)) = ''arxiv:''" by (simp add: py_lower_def py_lower_char_def Let_def)
  ultimately show ?thesis using ok unfolding normalize_arxiv_id_def Let_def by simp
qed

lemma arxiv_rest_url:
  assumes "arxiv_id_ok c"
  shows "arxiv_url_rest (''arxiv.org/abs/'' @ c) = Some c" "arxiv_url_rest (''arxiv.org/pdf/'' @ c) = Some c"
    "arxiv_url_rest (''arxiv.org/pdf/'' @ c @ ''.pdf'') = Some c"
  using assms normalize_canonical(6) [OF assms]
  by (simp_all add: arxiv_url_rest_def Let_def py_lower_def py_lower_char_def)

lemma arxiv_rest_head: "py_lower_char x \<noteq> CHR ''a'' \<Longrightarrow> arxiv_url_rest (x # xs) = None"
  by (simp add: arxiv_url_rest_def py_lower_def)

lemma arxiv_search_https:
  assumes "arxiv_url_rest (''arxiv.org/'' @ t) = Some c"
  shows "arxiv_url_search True (''https://arxiv.org/'' @ t) = Some c"
proof -
  have "arxiv_url_search b (x # xs) = arxiv_url_search False xs"
    if "x \<in> set ''https:''" for b x xs
    using that by (auto simp: arxiv_url_at_def arxiv_rest_head py_lower_char_def Let_def)
  moreover have "arxiv_url_search False (''//arxiv.org/'' @ t) = Some c"
    using assms by (simp add: arxiv_url_at_def arxiv_rest_head py_lower_char_def Let_def)
  ultimately show ?thesis by simp
qed

lemma normalize_of_url:
  assumes "arxiv_id_ok c" "arxiv_url_rest (''arxiv.org/'' @ t) = Some c" "t \<noteq> []" "\<not> py_space (last t)"
  shows "normalize_arxiv_id (''https://arxiv.org/'' @ t) = Some c"
proof -
  have "py_strip (''https://arxiv.org/'' @ t) = ''https://arxiv.org/'' @ t"
    using assms(3,4) by (intro py_strip_id) (simp_all add: py_space_def Let_def)
  with arxiv_search_https [OF assms(2)] normalize_canonical(5) [OF assms(1)] assms(1) show ?thesis
    by (simp only: normalize_arxiv_id_def Let_def option.case if_False if_True)
qed

text \<open>
  Every spelling of an arXiv paper is one paper: for a valid identifier \<open>c\<close>, the bare
  identifier, \<open>arxiv:c\<close>, and the abs, pdf and .pdf links at arxiv.org all normalise to \<open>c\<close> (so
  they get one project id); and what normalisation accepts is a valid identifier that it
  leaves as it is.
\<close>

theorem arxiv_spellings_agree:
  assumes "arxiv_id_ok c"
  shows "(\<forall>v \<in> {c, ''arxiv:'' @ c, ''https://arxiv.org/abs/'' @ c, ''https://arxiv.org/pdf/'' @ c,
      ''https://arxiv.org/pdf/'' @ c @ ''.pdf''}. normalize_arxiv_id v = Some c) \<and>
    (\<forall>v d. normalize_arxiv_id v = Some d \<longrightarrow> arxiv_id_ok d \<and> normalize_arxiv_id d = Some d)"
proof -
  note nc = normalize_canonical [OF assms] and rest = arxiv_rest_url [OF assms]
  have "normalize_arxiv_id (''https://arxiv.org/'' @ ''abs/'' @ c) = Some c"
    using nc rest(1) by (intro normalize_of_url [OF assms]) simp_all
  moreover have "normalize_arxiv_id (''https://arxiv.org/'' @ ''pdf/'' @ c) = Some c"
    using nc rest(2) by (intro normalize_of_url [OF assms]) simp_all
  moreover have "normalize_arxiv_id (''https://arxiv.org/'' @ ''pdf/'' @ c @ ''.pdf'') = Some c"
    using nc rest(3) by (intro normalize_of_url [OF assms]) (simp_all add: py_space_def)
  ultimately have "\<forall>v \<in> {c, ''arxiv:'' @ c, ''https://arxiv.org/abs/'' @ c, ''https://arxiv.org/pdf/'' @ c,
      ''https://arxiv.org/pdf/'' @ c @ ''.pdf''}. normalize_arxiv_id v = Some c"
    using normalize_of_canonical [OF assms] normalize_with_prefix [OF assms] by simp
  moreover have "arxiv_id_ok d" if "normalize_arxiv_id v = Some d" for v d
    using that by (auto simp: normalize_arxiv_id_def Let_def split: if_splits)
  ultimately show ?thesis using normalize_of_canonical by blast
qed

theorem arxiv_spellings_agree_witness:
  "normalize_arxiv_id ''https://arxiv.org/pdf/2401.12345v2.pdf'' = Some ''2401.12345v2''"
proof -
  have "arxiv_id_ok ''2401.12345v2''"
    by (simp add: arxiv_id_ok_def arxiv_tail_ok_def Let_def py_digit_def digits_ok_def py_lower_char_def)
  from arxiv_spellings_agree [OF this] show ?thesis by simp
qed

section \<open>Sample runs\<close>

definition copy_fetcher :: fetcher where
  "copy_fetcher = \<lparr>ft_kind = ''pdf_path'',
     ft_fetch = (\<lambda>_ _. Inr \<lparr>fr_raw_paper_path = ''runs/p/raw_paper.pdf'', fr_pdf_sha256 = ''00'', fr_pdf_size_bytes = 9\<rparr>)\<rparr>"

definition sample_world :: intake_world where
  "sample_world = \<lparr>
     iw_registry = map (\<lambda>c. ((cls_event_type c, cls_schema_version c), c))
       [intake_class ''ProjectCreated'' ''project_created'', intake_class ''PaperFetched'' ''paper_fetched'',
        intake_class ''PaperFetchFailed'' ''paper_fetch_failed''],
     iw_validate = (\<lambda>c p. c = class_of p), iw_fault = (\<lambda>_. False), iw_sha256_hex = (\<lambda>s. s), iw_resolve_path = (\<lambda>s. s),
     iw_fetchers = [(''pdf_path'', copy_fetcher)], iw_draws = (\<lambda>k. (int k, int k)), iw_now = 0,
     iw_correlation_id = Some ''c''\<rparr>"

lemma sample_world_ready: "intake_ready sample_world"
proof -
  have "(\<exists>c x. p = Foreign_Event c x) \<or>
     resolve_event_class (iw_registry sample_world) (cls_event_type (class_of p)) (cls_schema_version (class_of p))
       = Some (class_of p) \<and> iw_validate sample_world (class_of p) p" for p
    by (cases p) (simp_all add: sample_world_def resolve_event_class_def intake_class_def)
  then show ?thesis by (simp add: intake_ready_def)
qed

lemma project_ok_empty: "project_ok empty_store pid"
proof -
  have "stream (empty_store :: intake_store) pid = []" by (simp add: stream_def agg_rows_def empty_store_def)
  then show ?thesis by (simp add: project_ok_def store_wf_empty life_state_def)
qed

lemma chosen_sample: "''p'' = chosen_project_id sample_world (Some ''p'') (PdfPath ''x'')"
  by (simp add: chosen_project_id_def)

lemma sample_world_faults: "\<not> iw_fault sample_world k"
  by (simp add: sample_world_def)

theorem register_exactly_once_witness:
  "\<exists>st' us'. register_project sample_world id id ulid_init empty_store (PdfPath ''x'') (Some ''p'') = (Inr ''p'', st', us') \<and>
     project_ok st' ''p'' \<and> length (filter (\<lambda>(ty, ver, p, env). is_created p) (stream st' ''p'')) = 1"
proof -
  have "log_grows sample_world empty_store (id empty_store)" by (simp add: store_grows_def)
  moreover have "existing_rows (id empty_store) (next_event_ids sample_world ulid_init) = []"
    by (simp add: existing_rows_def empty_store_def)
  moreover have "project_ok (id empty_store) ''p''" by (simp add: project_ok_empty)
  ultimately obtain st' us' where "register_project sample_world id id ulid_init empty_store (PdfPath ''x'') (Some ''p'')
      = (Inr ''p'', st', us')" "project_ok st' ''p''"
      "length (filter (\<lambda>(ty, ver, p, env). is_created p) (stream st' ''p'')) = 1"
    using register_exactly_once [OF sample_world_ready sample_world_faults chosen_sample project_ok_empty,
        of id ulid_init id] by (metis id_apply)
  then show ?thesis by blast
qed

definition registered_store :: intake_store where
  "registered_store = after_batch empty_store ''p'' ''project'' 0
     [(event_of (ProjectCreated ''p'' (PdfPath ''x'')), sample_env ''e1'')]"

lemma registered_stream:
  "stream registered_store ''p'' = [(''project_created'', 1, ProjectCreated ''p'' (PdfPath ''x''), sample_env ''e1'')]"
  by (simp add: registered_store_def stream_after_batch) (simp add: stream_def agg_rows_def empty_store_def
      event_fact_def event_of_def intake_class_def)

lemma registered_ok: "project_ok registered_store ''p''"
proof -
  have "append_events (\<lambda>_ _. True) (\<lambda>_. False) empty_store ''p'' ''project''
      [event_of (ProjectCreated ''p'' (PdfPath ''x''))] 0 [sample_env ''e1''] = (Inr sample_result, registered_store)"
    by (simp add: sample_defs registered_store_def event_of_def intake_class_def)
  from append_wf [OF store_wf_empty this] have "store_wf registered_store" .
  then show ?thesis by (simp add: project_ok_def life_state_def registered_stream intake_class_def)
qed

lemma registered_fresh: "existing_rows registered_store (next_event_ids sample_world ulid_init) = []"
  by code_simp

theorem commands_keep_lifecycle_witness:
  "project_ok (snd (run_command sample_world id id ulid_init registered_store (FetchPaper ''p''))) ''p''"
proof -
  have "log_grows sample_world registered_store (id registered_store)" by (simp add: store_grows_def)
  with commands_keep_lifecycle [OF sample_world_ready, of registered_store "FetchPaper ''p''" id id ulid_init]
  show ?thesis using registered_ok by (simp del: run_command.simps) (metis prod.collapse)
qed

theorem fetch_paper_outcomes_witness:
  "fst (fetch_paper sample_world id ulid_init registered_store ''p'') = Inr True \<and>
   life_state (fst (snd (fetch_paper sample_world id ulid_init registered_store ''p''))) ''p'' = Some FETCHED"
proof -
  let ?agg = "\<lparr>pa_project_id = ''p'', pa_state = REGISTERED, pa_source = Some (PdfPath ''x''), pa_version = 1\<rparr>"
  have "load_aggregate sample_world registered_store ''p'' = Inr ?agg" by code_simp
  from fetch_paper_outcomes [OF sample_world_ready sample_world_faults registered_ok registered_fresh this,
      of "fst (fetch_paper sample_world id ulid_init registered_store ''p'')"
         "fst (snd (fetch_paper sample_world id ulid_init registered_store ''p''))"
         "snd (snd (fetch_paper sample_world id ulid_init registered_store ''p''))"]
  show ?thesis by (simp add: sample_world_def copy_fetcher_def)
qed

end
