(* ===== verification/Checkpoint.thy ===== *)
theory Checkpoint
  imports Event_Store_Laws
begin

text \<open>
  The per-iteration checkpoint log, \<^verbatim>\<open>src/backend/agents/rlm/checkpoint.py\<close>: a client of the
  event store that counts the version of its own aggregate and mirrors every iteration as a line
  of \<^verbatim>\<open>iterations.jsonl\<close>.

  A sanitized iteration is the association list of its dict; \<open>mk_event\<close> is the Pydantic
  constructor of the event class (\<open>None\<close> where it raises) and \<open>dumps\<close> is \<open>json.dumps\<close>
  (\<open>None\<close> where it raises). \<open>call_inputs\<close> is what one call meets outside the code: the clock
  and random token of the event id, the time, where SQLite faults, and how many characters reach
  the file when the snapshot write raises \<open>OSError\<close>.
\<close>

type_synonym 'j iteration = "(string \<times> 'j) list"

datatype checkpoint_error =
    EmptyProjectId
  | MkdirError
  | MissingField string
  | IterationInvalid
  | CheckpointStore store_error
  | LineNotSerialisable
  | SnapshotOSError

record checkpointer =
  ck_project_id :: string
  ck_aggregate_id :: string
  ck_version :: int

record 'p checkpoint_world =
  cw_store :: "'p event_store"
  cw_ulid :: ulid_state
  cw_snapshot :: string

record call_inputs =
  ci_clock_ms :: int
  ci_token :: int
  ci_now :: time
  ci_fault :: "nat \<Rightarrow> bool"
  ci_disk :: "nat option"

definition rlm_run_iteration :: event_class where
  "rlm_run_iteration = \<lparr>cls_module = ''backend.agents.rlm.checkpoint'', cls_name = ''RLMRunIteration'',
     cls_event_type = ''rlm_run_iteration'', cls_schema_version = 1\<rparr>"

section \<open>The operations\<close>

definition checkpointer_init :: "bool \<Rightarrow> 'p event_store \<Rightarrow> string \<Rightarrow> checkpoint_error + checkpointer" where
  "checkpointer_init mkdir_ok st project_id =
     (if project_id = [] then Inl EmptyProjectId
      else if \<not> mkdir_ok then Inl MkdirError
      else let aggregate_id = ''rlm-run:'' @ project_id
           in Inr \<lparr>ck_project_id = project_id, ck_aggregate_id = aggregate_id,
                   ck_version = get_aggregate_version st aggregate_id\<rparr>)"

text \<open>The event: four required keys, read in this order, and \<open>timing\<close> by \<open>get\<close>.\<close>

definition iteration_event :: "('j \<Rightarrow> 'j \<Rightarrow> 'j \<Rightarrow> 'j \<Rightarrow> 'j option \<Rightarrow> 'p option) \<Rightarrow> 'j iteration \<Rightarrow>
    checkpoint_error + 'p domain_event" where
  "iteration_event mk_event clean =
     (case map_of clean ''iteration'' of None \<Rightarrow> Inl (MissingField ''iteration'') | Some i \<Rightarrow>
      case map_of clean ''response'' of None \<Rightarrow> Inl (MissingField ''response'') | Some r \<Rightarrow>
      case map_of clean ''code_blocks'' of None \<Rightarrow> Inl (MissingField ''code_blocks'') | Some b \<Rightarrow>
      case map_of clean ''sub_calls'' of None \<Rightarrow> Inl (MissingField ''sub_calls'') | Some s \<Rightarrow>
      case mk_event i r b s (map_of clean ''timing'') of
        None \<Rightarrow> Inl IterationInvalid
      | Some p \<Rightarrow> Inr \<lparr>de_class = rlm_run_iteration, de_payload = p\<rparr>)"

definition iteration_envelope :: "checkpointer \<Rightarrow> ulid_state \<Rightarrow> call_inputs \<Rightarrow> event_envelope \<times> ulid_state" where
  "iteration_envelope ck u inp =
     (let (event_id, u') = new_event_id u (ci_clock_ms inp) (ci_token inp)
      in (\<lparr>env_event_id = event_id, env_correlation_id = ck_project_id ck, env_causation_id = None,
           env_occurred_at = ci_now inp, env_source = ''agents.rlm.checkpoint'',
           env_schema_version = 1\<rparr>, u'))"

text \<open>What one snapshot write adds to the file, and the exception it ends with.\<close>

definition newline :: char where
  "newline = CHR 0x0A"

definition snapshot_write :: "('j iteration \<Rightarrow> string option) \<Rightarrow> nat option \<Rightarrow> 'j iteration \<Rightarrow>
    string \<times> checkpoint_error option" where
  "snapshot_write dumps disk clean =
     (case dumps clean of
        None \<Rightarrow> ([], Some LineNotSerialisable)
      | Some text \<Rightarrow>
          (let line = text @ [newline]
           in case disk of
                None \<Rightarrow> (line, None)
              | Some n \<Rightarrow> (take n line, Some SnapshotOSError)))"

definition checkpoint_record :: "('j \<Rightarrow> 'j \<Rightarrow> 'j \<Rightarrow> 'j \<Rightarrow> 'j option \<Rightarrow> 'p option) \<Rightarrow> (event_class \<Rightarrow> 'p \<Rightarrow> bool) \<Rightarrow>
    ('j iteration \<Rightarrow> string option) \<Rightarrow> call_inputs \<Rightarrow> checkpointer \<Rightarrow> 'p checkpoint_world \<Rightarrow> 'j iteration \<Rightarrow>
    checkpoint_error option \<times> checkpointer \<times> 'p checkpoint_world" where
  "checkpoint_record mk_event validate dumps inp ck w clean =
     (case iteration_event mk_event clean of
        Inl e \<Rightarrow> (Some e, ck, w)
      | Inr event \<Rightarrow>
          (let (envelope, u') = iteration_envelope ck (cw_ulid w) inp;
               w1 = w\<lparr>cw_ulid := u'\<rparr>
           in case append_events validate (ci_fault inp) (cw_store w1) (ck_aggregate_id ck) ''rlm_run''
                     [event] (ck_version ck) [envelope] of
                (Inl e, st') \<Rightarrow> (Some (CheckpointStore e), ck, w1\<lparr>cw_store := st'\<rparr>)
              | (Inr _, st') \<Rightarrow>
                  (let (text, err) = snapshot_write dumps (ci_disk inp) clean
                   in (err, ck\<lparr>ck_version := ck_version ck + 1\<rparr>,
                       w1\<lparr>cw_store := st', cw_snapshot := cw_snapshot w1 @ text\<rparr>))))"

section \<open>One call\<close>

abbreviation call_envelope :: "call_inputs \<Rightarrow> checkpointer \<Rightarrow> 'p checkpoint_world \<Rightarrow> event_envelope" where
  "call_envelope inp ck w \<equiv> fst (iteration_envelope ck (cw_ulid w) inp)"

text \<open>The id the call draws is not in the store yet.\<close>

definition fresh_call :: "call_inputs \<Rightarrow> checkpointer \<Rightarrow> 'p checkpoint_world \<Rightarrow> bool" where
  "fresh_call inp ck w \<longleftrightarrow> existing_rows (cw_store w) [env_event_id (call_envelope inp ck w)] = []"

text \<open>A call either raises before the commit and leaves store, snapshot and counter alone, or it
  is one write of the event log followed by the counter and the snapshot.\<close>

lemma record_cases:
  assumes "checkpoint_record mk_event validate dumps inp ck w clean = (res, ck', w')"
    and "fresh_call inp ck w"
  obtains (raised) e where "res = Some e" "ck' = ck" "cw_store w' = cw_store w" "cw_snapshot w' = cw_snapshot w"
  | (committed) event where "iteration_event mk_event clean = Inr event"
      "write_batch validate (cw_store w) (ck_aggregate_id ck)
         (ci_fault inp, ''rlm_run'', [event], [call_envelope inp ck w]) (ck_version ck) = Some (cw_store w')"
      "ck' = ck\<lparr>ck_version := ck_version ck + 1\<rparr>"
      "cw_snapshot w' = cw_snapshot w @ fst (snapshot_write dumps (ci_disk inp) clean)"
      "res = snd (snapshot_write dumps (ci_disk inp) clean)"
proof (cases "iteration_event mk_event clean")
  case (Inl e)
  with assms(1) show ?thesis by (intro raised) (auto simp: checkpoint_record_def)
next
  case (Inr event)
  let ?ap = "append_events validate (ci_fault inp) (cw_store w) (ck_aggregate_id ck) ''rlm_run''
     [event] (ck_version ck) [call_envelope inp ck w]"
  show ?thesis
  proof (cases ?ap)
    case (Pair r st')
    show ?thesis
    proof (cases r)
      case (Inl e)
      have "st' = cw_store w" using append_Inl_unchanged Pair Inl by blast
      then show ?thesis
        using assms(1) Inr Pair Inl by (intro raised) (auto simp: checkpoint_record_def Let_def split: prod.splits)
    next
      case ar: (Inr ar)
      have "write_batch validate (cw_store w) (ck_aggregate_id ck)
         (ci_fault inp, ''rlm_run'', [event], [call_envelope inp ck w]) (ck_version ck) = Some st'"
        using assms(2) Pair ar by (auto intro: append_is_write simp: fresh_call_def)
      then show ?thesis
        using assms(1) Inr Pair ar by (intro committed) (auto simp: checkpoint_record_def Let_def split: prod.splits)
    qed
  qed
qed

section \<open>Runs\<close>

text \<open>
  A run of one checkpointer beside other clients of the store: its own calls, with the exceptions
  they end with, and writes of others to any aggregate, its own included. The list collects,
  per committed call, the fact that was written and the text that was added to the snapshot.
\<close>

inductive checkpoint_run :: "('j \<Rightarrow> 'j \<Rightarrow> 'j \<Rightarrow> 'j \<Rightarrow> 'j option \<Rightarrow> 'p option) \<Rightarrow> (event_class \<Rightarrow> 'p \<Rightarrow> bool) \<Rightarrow>
    ('j iteration \<Rightarrow> string option) \<Rightarrow> checkpointer \<Rightarrow> 'p checkpoint_world \<Rightarrow>
    ('p fact \<times> string) list \<Rightarrow> checkpointer \<Rightarrow> 'p checkpoint_world \<Rightarrow> bool"
  for mk_event validate dumps ck0 w0 where
  run_start: "checkpoint_run mk_event validate dumps ck0 w0 [] ck0 w0"
| run_record: "checkpoint_run mk_event validate dumps ck0 w0 es ck w \<Longrightarrow> fresh_call inp ck w \<Longrightarrow>
    checkpoint_record mk_event validate dumps inp ck w clean = (res, ck', w') \<Longrightarrow>
    new = (if ck_version ck' = ck_version ck then []
           else [(event_fact (projr (iteration_event mk_event clean), call_envelope inp ck w),
                  fst (snapshot_write dumps (ci_disk inp) clean))]) \<Longrightarrow>
    checkpoint_run mk_event validate dumps ck0 w0 (es @ new) ck' w'"
| run_other: "checkpoint_run mk_event validate dumps ck0 w0 es ck w \<Longrightarrow>
    write_batch validate (cw_store w) agg b v = Some st' \<Longrightarrow>
    checkpoint_run mk_event validate dumps ck0 w0 es ck (w\<lparr>cw_store := st', cw_ulid := u\<rparr>)"

definition run_inv :: "checkpointer \<Rightarrow> 'p checkpoint_world \<Rightarrow> ('p fact \<times> string) list \<Rightarrow>
    checkpointer \<Rightarrow> 'p checkpoint_world \<Rightarrow> bool" where
  "run_inv ck0 w0 es ck w \<longleftrightarrow>
     (let agg = ck_aggregate_id ck0; log = stream (cw_store w0) agg @ map fst es in
      store_wf (cw_store w) \<and> ck_aggregate_id ck = agg \<and> ck_version ck = int (length log) \<and>
      prefix log (stream (cw_store w) agg) \<and> cw_snapshot w = cw_snapshot w0 @ concat (map snd es))"

text \<open>A write at the counter finds exactly the stream the checkpointer has seen.\<close>

lemma write_at_counter:
  assumes inv: "run_inv ck0 w0 es ck w"
    and wr: "write_batch validate (cw_store w) (ck_aggregate_id ck0) b (ck_version ck) = Some st'"
  shows "stream (cw_store w) (ck_aggregate_id ck0) = stream (cw_store w0) (ck_aggregate_id ck0) @ map fst es"
proof -
  have "ck_version ck = get_aggregate_version (cw_store w) (ck_aggregate_id ck0)"
    using inv es_log.write_version [OF _ wr] by (simp add: run_inv_def Let_def)
  then show ?thesis
    using inv by (auto simp: run_inv_def Let_def version_eq_length prefix_def simp flip: length_stream)
qed

lemma run_inv_record:
  assumes inv: "run_inv ck0 w0 es ck w" and fr: "fresh_call inp ck w"
    and rec: "checkpoint_record mk_event validate dumps inp ck w clean = (res, ck', w')"
    and new: "new = (if ck_version ck' = ck_version ck then []
           else [(event_fact (projr (iteration_event mk_event clean), call_envelope inp ck w),
                  fst (snapshot_write dumps (ci_disk inp) clean))])"
  shows "run_inv ck0 w0 (es @ new) ck' w'"
  using rec fr
proof (cases rule: record_cases)
  case (raised e)
  with inv new show ?thesis by (simp add: run_inv_def)
next
  case (committed event)
  have agg: "ck_aggregate_id ck = ck_aggregate_id ck0" and wf: "store_wf (cw_store w)"
    using inv by (simp_all add: run_inv_def Let_def)
  note wr = committed(2) [unfolded agg]
  have "stream (cw_store w') = (stream (cw_store w))(ck_aggregate_id ck0 :=
      stream (cw_store w) (ck_aggregate_id ck0) @ [event_fact (event, call_envelope inp ck w)])"
    using es_log.write_stream [OF wf wr] by (simp add: batch_facts_def)
  then show ?thesis
    using inv new committed(1,3,4) es_log.write_wf [OF wf wr] write_at_counter [OF inv wr]
    by (simp add: run_inv_def Let_def)
qed

lemma run_inv_other:
  assumes inv: "run_inv ck0 w0 es ck w" and wr: "write_batch validate (cw_store w) agg b v = Some st'"
  shows "run_inv ck0 w0 es ck (w\<lparr>cw_store := st', cw_ulid := u\<rparr>)"
proof -
  have wf: "store_wf (cw_store w)" using inv by (simp add: run_inv_def Let_def)
  have "prefix (stream (cw_store w) (ck_aggregate_id ck0)) (stream st' (ck_aggregate_id ck0))"
    using es_log.write_stream [OF wf wr] by simp
  then show ?thesis
    using inv es_log.write_wf [OF wf wr] by (auto simp: run_inv_def Let_def intro: prefix_order.trans)
qed

lemma checkpoint_run_inv:
  assumes "checkpoint_run mk_event validate dumps ck0 w0 es ck w"
    and "store_wf (cw_store w0)" "checkpointer_init mk (cw_store w0) pid = Inr ck0"
  shows "run_inv ck0 w0 es ck w"
  using assms(1)
proof induction
  case run_start
  show ?case
    using assms(2,3) by (auto simp: run_inv_def Let_def checkpointer_init_def version_eq_length split: if_splits)
next
  case (run_record es ck w inp clean res ck' w' new)
  then show ?case by (blast intro: run_inv_record)
next
  case (run_other es ck w agg b v st' u)
  then show ?case by (blast intro: run_inv_other)
qed

text \<open>An undisturbed call of valid input is accepted, a disturbed one ends in \<open>ConcurrencyError\<close>.\<close>

lemma next_record:
  assumes inv: "run_inv ck0 w0 es ck w" and fr: "fresh_call inp ck w" and nf: "\<And>k. \<not> ci_fault inp k"
    and ev: "iteration_event mk_event clean = Inr event" and val: "validate rlm_run_iteration (de_payload event)"
    and rec: "checkpoint_record mk_event validate dumps inp ck w clean = (res, ck', w')"
  shows "if stream (cw_store w) (ck_aggregate_id ck0) = stream (cw_store w0) (ck_aggregate_id ck0) @ map fst es
    then ck_version ck' = ck_version ck + 1 \<and> res = snd (snapshot_write dumps (ci_disk inp) clean)
    else (\<exists>n. res = Some (CheckpointStore (ConcurrencyError (ck_aggregate_id ck0) (ck_version ck) n))) \<and>
      ck' = ck \<and> cw_store w' = cw_store w \<and> cw_snapshot w' = cw_snapshot w"
proof -
  have cls: "de_class event = rlm_run_iteration"
    using ev by (auto simp: iteration_event_def split: option.splits)
  have rv: "revalidate validate [event] = None"
    using val cls by (simp add: rlm_run_iteration_def)
  have wf: "store_wf (cw_store w)" and agg: "ck_aggregate_id ck = ck_aggregate_id ck0"
    and ver: "ck_version ck = int (length (stream (cw_store w0) (ck_aggregate_id ck0) @ map fst es))"
    and pre: "prefix (stream (cw_store w0) (ck_aggregate_id ck0) @ map fst es) (stream (cw_store w) (ck_aggregate_id ck0))"
    using inv by (simp_all add: run_inv_def Let_def)
  let ?env = "call_envelope inp ck w"
  have ex: "existing_rows (cw_store w) (map env_event_id [?env]) = []" using fr by (simp add: fresh_call_def)
  show ?thesis
  proof (cases "stream (cw_store w) (ck_aggregate_id ck0) = stream (cw_store w0) (ck_aggregate_id ck0) @ map fst es")
    case True
    then have "ck_version ck = get_aggregate_version (cw_store w) (ck_aggregate_id ck)"
      using version_eq_length [OF wf] by (simp add: agg ver flip: length_stream)
    then obtain ar st' where "append_events validate (ci_fault inp) (cw_store w) (ck_aggregate_id ck) ''rlm_run''
        [event] (ck_version ck) [?env] = (Inr ar, st')"
      using append_fresh_accepted [OF wf nf ex _ _ rv] by fastforce
    with True rec ev show ?thesis by (auto simp: checkpoint_record_def Let_def split: prod.splits)
  next
    case False
    then have "length (stream (cw_store w) (ck_aggregate_id ck0)) \<noteq>
        length (stream (cw_store w0) (ck_aggregate_id ck0) @ map fst es)"
      using pre by (auto simp: prefix_def simp del: length_stream)
    then have "get_aggregate_version (cw_store w) (ck_aggregate_id ck) \<noteq> ck_version ck"
      using version_eq_length [OF wf] by (simp add: agg ver flip: length_stream)
    then have "append_events validate (ci_fault inp) (cw_store w) (ck_aggregate_id ck) ''rlm_run''
        [event] (ck_version ck) [?env] = (Inl (ConcurrencyError (ck_aggregate_id ck) (ck_version ck)
          (get_aggregate_version (cw_store w) (ck_aggregate_id ck))), cw_store w)"
      using ex rv nf [of 0] by (simp add: append_events_def Let_def del: revalidate.simps)
    with False rec ev agg show ?thesis by (auto simp: checkpoint_record_def Let_def split: prod.splits)
  qed
qed

text \<open>
  In every run of a checkpointer beside other clients of the store, whatever exceptions its
  calls end with: the stream of its aggregate starts with what it held at construction followed by
  exactly one fact per committed iteration, in order, the counter is their number, and the snapshot
  grew by the lines of these iterations and nothing else. The next call with a valid iteration and
  no fault commits exactly when no other client wrote to the aggregate; otherwise it raises
  \<open>ConcurrencyError\<close> and changes neither store nor snapshot. A checkpointer constructed then
  starts at the length of the stream.
\<close>

theorem checkpoint_log_complete:
  assumes "store_wf (cw_store w0)" "checkpointer_init mk (cw_store w0) pid = Inr ck0"
    and "checkpoint_run mk_event validate dumps ck0 w0 es ck w"
    and "fresh_call inp ck w" "\<And>k. \<not> ci_fault inp k"
    and "iteration_event mk_event clean = Inr event" "validate rlm_run_iteration (de_payload event)"
    and "checkpoint_record mk_event validate dumps inp ck w clean = (res, ck', w')"
  shows "prefix (stream (cw_store w0) (''rlm-run:'' @ pid) @ map fst es) (stream (cw_store w) (''rlm-run:'' @ pid)) \<and>
    ck_version ck = int (length (stream (cw_store w0) (''rlm-run:'' @ pid)) + length es) \<and>
    cw_snapshot w = cw_snapshot w0 @ concat (map snd es) \<and>
    (if stream (cw_store w) (''rlm-run:'' @ pid) = stream (cw_store w0) (''rlm-run:'' @ pid) @ map fst es
     then ck_version ck' = ck_version ck + 1 \<and> res = snd (snapshot_write dumps (ci_disk inp) clean)
     else (\<exists>n. res = Some (CheckpointStore (ConcurrencyError (''rlm-run:'' @ pid) (ck_version ck) n))) \<and>
       ck' = ck \<and> cw_store w' = cw_store w \<and> cw_snapshot w' = cw_snapshot w) \<and>
    checkpointer_init True (cw_store w) pid = Inr \<lparr>ck_project_id = pid, ck_aggregate_id = ''rlm-run:'' @ pid,
      ck_version = int (length (stream (cw_store w) (''rlm-run:'' @ pid)))\<rparr>"
proof -
  have agg: "ck_aggregate_id ck0 = ''rlm-run:'' @ pid" and pid: "pid \<noteq> []"
    using assms(2) by (auto simp: checkpointer_init_def Let_def split: if_splits)
  have inv: "run_inv ck0 w0 es ck w" using assms(3,1,2) by (rule checkpoint_run_inv)
  note nxt = next_record [OF inv assms(4-8)]
  have "checkpointer_init True (cw_store w) pid = Inr \<lparr>ck_project_id = pid, ck_aggregate_id = ''rlm-run:'' @ pid,
      ck_version = int (length (stream (cw_store w) (''rlm-run:'' @ pid)))\<rparr>"
    using inv pid by (simp add: checkpointer_init_def run_inv_def Let_def version_eq_length)
  with inv nxt show ?thesis unfolding run_inv_def Let_def agg by auto
qed

section \<open>A concrete run\<close>

definition sample_inputs :: "int \<Rightarrow> nat option \<Rightarrow> call_inputs" where
  "sample_inputs t disk = \<lparr>ci_clock_ms = t, ci_token = 5, ci_now = 0, ci_fault = (\<lambda>_. False), ci_disk = disk\<rparr>"

definition sample_world :: "nat checkpoint_world" where
  "sample_world = \<lparr>cw_store = empty_store, cw_ulid = \<lparr>last_ulid_ts = 0, last_ulid_rnd = 0\<rparr>, cw_snapshot = []\<rparr>"

definition sample_clean :: "nat iteration" where
  "sample_clean = [(''iteration'', 1), (''response'', 2), (''code_blocks'', 3), (''sub_calls'', 4)]"

definition sample_record :: "int \<Rightarrow> nat option \<Rightarrow> checkpointer \<Rightarrow> nat checkpoint_world \<Rightarrow>
    checkpoint_error option \<times> checkpointer \<times> nat checkpoint_world" where
  "sample_record t disk ck w = checkpoint_record (\<lambda>i r b s t. Some i) (\<lambda>_ _. True) (\<lambda>_. Some ''{}'')
     (sample_inputs t disk) ck w sample_clean"

definition sample_checkpointer :: checkpointer where
  "sample_checkpointer = \<lparr>ck_project_id = ''p'', ck_aggregate_id = ''rlm-run:p'', ck_version = 0\<rparr>"

definition sample_first :: "nat checkpoint_world" where
  "sample_first = snd (snd (sample_record 7 (Some 1) sample_checkpointer sample_world))"

definition sample_first_fact :: "nat fact" where
  "sample_first_fact = (''rlm_run_iteration'', 1, 1, call_envelope (sample_inputs 7 (Some 1)) sample_checkpointer sample_world)"

lemmas sample_ck_defs = sample_inputs_def sample_world_def sample_clean_def sample_record_def
  sample_checkpointer_def sample_first_def sample_first_fact_def

lemma sample_first_run:
  "sample_record 7 (Some 1) sample_checkpointer sample_world =
     (Some SnapshotOSError, sample_checkpointer\<lparr>ck_version := 1\<rparr>, sample_first) \<and>
   stream (cw_store sample_first) ''rlm-run:p'' = [sample_first_fact] \<and>
   fresh_call (sample_inputs 7 (Some 1)) sample_checkpointer sample_world \<and>
   fresh_call (sample_inputs 8 None) (sample_checkpointer\<lparr>ck_version := 1\<rparr>) sample_first"
  by code_simp

lemma sample_trace:
  "checkpoint_run (\<lambda>i r b s t. Some i) (\<lambda>_ _. True) (\<lambda>_. Some ''{}'') sample_checkpointer sample_world
     [(sample_first_fact, ''{'')] (sample_checkpointer\<lparr>ck_version := 1\<rparr>) sample_first"
proof -
  have new: "[(sample_first_fact, ''{'')] =
      (if ck_version (sample_checkpointer\<lparr>ck_version := 1\<rparr>) = ck_version sample_checkpointer then []
       else [(event_fact (projr (iteration_event (\<lambda>i r b s t. Some i) sample_clean),
                call_envelope (sample_inputs 7 (Some 1)) sample_checkpointer sample_world),
              fst (snapshot_write (\<lambda>_. Some ''{}'') (ci_disk (sample_inputs 7 (Some 1))) sample_clean))])"
    by (simp add: sample_ck_defs event_fact_def iteration_event_def snapshot_write_def rlm_run_iteration_def)
  show ?thesis
    using run_record [OF run_start conjunct1 [OF conjunct2 [OF conjunct2 [OF sample_first_run]]]
        conjunct1 [OF sample_first_run, unfolded sample_record_def] new] by simp
qed

theorem checkpoint_log_complete_witness:
  "\<exists>ck w. sample_record 8 None (sample_checkpointer\<lparr>ck_version := 1\<rparr>) sample_first = (None, ck, w) \<and> ck_version ck = 2"
proof -
  obtain res ck w where r: "sample_record 8 None (sample_checkpointer\<lparr>ck_version := 1\<rparr>) sample_first = (res, ck, w)"
    by (metis prod_cases3)
  have i: "store_wf (cw_store sample_world)"
    "checkpointer_init True (cw_store sample_world) ''p'' = Inr sample_checkpointer"
    "iteration_event (\<lambda>i r b s t. Some i) sample_clean = Inr \<lparr>de_class = rlm_run_iteration, de_payload = 1\<rparr>"
    "\<And>k. \<not> ci_fault (sample_inputs 8 None) k"
    "stream (cw_store sample_world) ''rlm-run:p'' = []"
    "snd (snapshot_write (\<lambda>_. Some ''{}'') (ci_disk (sample_inputs 8 None)) sample_clean) = None"
    by (simp_all add: store_wf_empty [unfolded empty_store_def] sample_ck_defs checkpointer_init_def iteration_event_def
        get_aggregate_version_def stream_def agg_rows_def empty_store_def Let_def snapshot_write_def)
  have "ck_version ck = 2 \<and> res = None"
    using checkpoint_log_complete [OF i(1,2) sample_trace _ i(4,3) _ r [unfolded sample_record_def]]
      sample_first_run i(5,6) by (simp add: sample_checkpointer_def)
  with r show ?thesis by blast
qed

end
