(* ===== verification/Task_Lifecycle.thy ===== *)
theory Task_Lifecycle
  imports Call_Machine
begin

text \<open>
  The task state machine, \<^verbatim>\<open>src/backend/services/orchestration/task_lifecycle.py\<close> over
  \<^verbatim>\<open>persistence/repositories/task_repository.py\<close> and \<^verbatim>\<open>schemas/tasks.py\<close>. The table holds
  strings; reading a row back validates them against the enums. A listener is a value, and
  \<open>raises\<close> says which listener raises on which event: \<open>_emit\<close> does not catch.
\<close>

section \<open>Schemas\<close>

datatype task_status =
    Created | Context_Prepared | Running | Artifact_Submitted | Verification_Pending
  | Verified | Failed | Blocked_Requires_Human

fun status_value :: "task_status \<Rightarrow> string" where
  "status_value Created = ''created''"
| "status_value Context_Prepared = ''context_prepared''"
| "status_value Running = ''running''"
| "status_value Artifact_Submitted = ''artifact_submitted''"
| "status_value Verification_Pending = ''verification_pending''"
| "status_value Verified = ''verified''"
| "status_value Failed = ''failed''"
| "status_value Blocked_Requires_Human = ''blocked_requires_human''"

definition all_statuses :: "task_status list" where
  "all_statuses = [Created, Context_Prepared, Running, Artifact_Submitted, Verification_Pending,
     Verified, Failed, Blocked_Requires_Human]"

definition parse_status :: "string \<Rightarrow> task_status option" where
  "parse_status s = find (\<lambda>t. status_value t = s) all_statuses"

definition failure_substatuses :: "string list" where
  "failure_substatuses = [''failed_install'', ''failed_dependency_resolution'', ''failed_data_download'',
     ''failed_dataset_validation'', ''failed_docker_build'', ''failed_smoke_test'', ''failed_training'',
     ''failed_evaluation'', ''failed_metric_validation'', ''failed_plot_generation'', ''failed_remote_sync'',
     ''failed_remote_execution'', ''timeout'', ''out_of_memory'', ''out_of_disk'', ''blocked_approval'',
     ''blocked_license'', ''blocked_credentials'', ''blocked_unavailable_dataset'', ''inconclusive_budget'']"

record agent_task =
  at_task_id :: string
  at_agent_type :: string
  at_status :: task_status
  at_parent_task_id :: "string option"
  at_failure_substatus :: "string option"
  at_created_at :: time
  at_updated_at :: time

section \<open>The repository\<close>

record task_row =
  tr_task_id :: string
  tr_agent_type :: string
  tr_status :: string
  tr_parent_task_id :: "string option"
  tr_failure_substatus :: "string option"
  tr_created_at :: time
  tr_updated_at :: time

datatype task_error =
    TaskNotFound string
  | InvalidTransitionError string string
  | TaskValidationError
  | TaskIntegrityError
  | TaskAttributeError
  | ListenerRaised

definition row_to_task :: "task_row \<Rightarrow> task_error + agent_task" where
  "row_to_task r =
     (case parse_status (tr_status r) of
        None \<Rightarrow> Inl TaskValidationError
      | Some s \<Rightarrow>
          if (case tr_failure_substatus r of None \<Rightarrow> True | Some f \<Rightarrow> f \<in> set failure_substatuses)
          then Inr \<lparr>at_task_id = tr_task_id r, at_agent_type = tr_agent_type r, at_status = s,
                 at_parent_task_id = tr_parent_task_id r, at_failure_substatus = tr_failure_substatus r,
                 at_created_at = tr_created_at r, at_updated_at = tr_updated_at r\<rparr>
          else Inl TaskValidationError)"

text \<open>The \<open>INSERT\<close>: the primary key raises \<open>IntegrityError\<close>; foreign keys are switched off on the
  connection.\<close>

definition repo_create :: "task_row sql_table \<Rightarrow> agent_task \<Rightarrow> task_error + task_row sql_table" where
  "repo_create tb t =
     (if at_task_id t \<in> set (map tr_task_id tb) then Inl TaskIntegrityError
      else Inr (tb @ [\<lparr>tr_task_id = at_task_id t, tr_agent_type = at_agent_type t,
             tr_status = status_value (at_status t), tr_parent_task_id = at_parent_task_id t,
             tr_failure_substatus = at_failure_substatus t,
             tr_created_at = at_created_at t, tr_updated_at = at_updated_at t\<rparr>]))"

definition get_by_id :: "task_row sql_table \<Rightarrow> string \<Rightarrow> task_error + agent_task option" where
  "get_by_id tb task_id =
     (case find (\<lambda>r. tr_task_id r = task_id) tb of
        None \<Rightarrow> Inr None
      | Some r \<Rightarrow> (case row_to_task r of Inl e \<Rightarrow> Inl e | Inr t \<Rightarrow> Inr (Some t)))"

definition update_status :: "task_row sql_table \<Rightarrow> string \<Rightarrow> string \<Rightarrow> string option \<Rightarrow> time \<Rightarrow> task_row sql_table" where
  "update_status tb task_id status failure_substatus now =
     map (\<lambda>r. if tr_task_id r = task_id
       then r\<lparr>tr_status := status, tr_failure_substatus := failure_substatus, tr_updated_at := now\<rparr> else r) tb"

fun rows_to_tasks :: "task_row list \<Rightarrow> task_error + agent_task list" where
  "rows_to_tasks [] = Inr []"
| "rows_to_tasks (r # rs) =
     (case row_to_task r of
        Inl e \<Rightarrow> Inl e
      | Inr t \<Rightarrow> (case rows_to_tasks rs of Inl e \<Rightarrow> Inl e | Inr ts \<Rightarrow> Inr (t # ts)))"

definition list_by_status :: "task_row sql_table \<Rightarrow> string \<Rightarrow> task_error + agent_task list" where
  "list_by_status tb status = rows_to_tasks (filter (\<lambda>r. tr_status r = status) tb)"

definition list_by_parent :: "task_row sql_table \<Rightarrow> string \<Rightarrow> task_error + agent_task list" where
  "list_by_parent tb parent = rows_to_tasks (filter (\<lambda>r. tr_parent_task_id r = Some parent) tb)"

section \<open>The service\<close>

record transition_record =
  tx_task_id :: string
  tx_from_status :: string
  tx_to_status :: string
  tx_timestamp :: time

datatype task_event = Agent_Started string string | Task_Status_Changed string string string string

record 'l task_service =
  ts_table :: "task_row sql_table"
  ts_listeners :: "'l list"
  ts_history :: "string \<Rightarrow> transition_record list"

definition valid_transitions :: "string \<Rightarrow> string list" where
  "valid_transitions s =
     (if s = ''created'' then [''context_prepared'']
      else if s = ''context_prepared'' then [''running'']
      else if s = ''running'' then [''artifact_submitted'', ''failed'', ''blocked_requires_human'']
      else if s = ''artifact_submitted'' then [''verification_pending'', ''failed'']
      else if s = ''verification_pending'' then [''verified'', ''failed'', ''blocked_requires_human'']
      else [])"

definition on_event :: "'l task_service \<Rightarrow> 'l \<Rightarrow> 'l task_service" where
  "on_event sv l = sv\<lparr>ts_listeners := ts_listeners sv @ [l]\<rparr>"

text \<open>\<open>_emit\<close>: the listeners it calls, and whether one raised (which ends the loop).\<close>

fun emit_event :: "('l \<Rightarrow> task_event \<Rightarrow> bool) \<Rightarrow> 'l list \<Rightarrow> task_event \<Rightarrow> 'l list \<times> bool" where
  "emit_event raises [] e = ([], False)"
| "emit_event raises (l # ls) e =
     (if raises l e then ([l], True) else (case emit_event raises ls e of (called, b) \<Rightarrow> (l # called, b)))"

definition add_history :: "'l task_service \<Rightarrow> string \<Rightarrow> transition_record \<Rightarrow> 'l task_service" where
  "add_history sv task_id r = sv\<lparr>ts_history := (ts_history sv)(task_id := ts_history sv task_id @ [r])\<rparr>"

text \<open>\<open>create_task\<close>; \<open>hex\<close> is the hexadecimal text of the fresh UUID.\<close>

definition create_task :: "('l \<Rightarrow> task_event \<Rightarrow> bool) \<Rightarrow> 'l task_service \<Rightarrow> string \<Rightarrow> time \<Rightarrow> string \<Rightarrow> string option \<Rightarrow>
    (task_error + agent_task) \<times> 'l task_service" where
  "create_task raises sv hex now agent_type parent_task_id =
     (let task_id = ''task_'' @ take 12 hex;
          task = \<lparr>at_task_id = task_id, at_agent_type = agent_type, at_status = Created,
            at_parent_task_id = parent_task_id, at_failure_substatus = None,
            at_created_at = now, at_updated_at = now\<rparr>
      in case repo_create (ts_table sv) task of
           Inl e \<Rightarrow> (Inl e, sv)
         | Inr tb \<Rightarrow>
             let sv1 = add_history (sv\<lparr>ts_table := tb\<rparr>) task_id
                   \<lparr>tx_task_id = task_id, tx_from_status = [], tx_to_status = ''created'', tx_timestamp = now\<rparr>
             in if snd (emit_event raises (ts_listeners sv1) (Agent_Started agent_type task_id))
                then (Inl ListenerRaised, sv1) else (Inr task, sv1))"

definition transition :: "('l \<Rightarrow> task_event \<Rightarrow> bool) \<Rightarrow> 'l task_service \<Rightarrow> time \<Rightarrow> string \<Rightarrow> string \<Rightarrow> string option \<Rightarrow>
    (task_error + agent_task) \<times> 'l task_service" where
  "transition raises sv now task_id to_status failure_substatus =
     (case get_by_id (ts_table sv) task_id of
        Inl e \<Rightarrow> (Inl e, sv)
      | Inr None \<Rightarrow> (Inl (TaskNotFound task_id), sv)
      | Inr (Some task) \<Rightarrow>
          let current = status_value (at_status task) in
          if to_status \<notin> set (valid_transitions current)
          then (Inl (InvalidTransitionError current to_status), sv)
          else let sv1 = sv\<lparr>ts_table := update_status (ts_table sv) task_id to_status failure_substatus now\<rparr>
            in case get_by_id (ts_table sv1) task_id of
                 Inl e \<Rightarrow> (Inl e, sv1)
               | Inr None \<Rightarrow> (Inl TaskAttributeError, sv1)
               | Inr (Some updated) \<Rightarrow>
                   let sv2 = add_history sv1 task_id \<lparr>tx_task_id = task_id, tx_from_status = current,
                         tx_to_status = to_status, tx_timestamp = now\<rparr>
                   in if snd (emit_event raises (ts_listeners sv2)
                           (Task_Status_Changed (at_agent_type updated) task_id current to_status))
                      then (Inl ListenerRaised, sv2) else (Inr updated, sv2))"

definition get_task :: "'l task_service \<Rightarrow> string \<Rightarrow> task_error + agent_task option" where
  "get_task sv task_id = get_by_id (ts_table sv) task_id"

definition get_transition_history :: "'l task_service \<Rightarrow> string \<Rightarrow> transition_record list" where
  "get_transition_history sv task_id = ts_history sv task_id"

section \<open>Histories\<close>

datatype task_call =
    Create_Call string time string "string option"
  | Transition_Call time string string "string option"

fun task_step :: "('l \<Rightarrow> task_event \<Rightarrow> bool) \<Rightarrow> 'l task_service \<Rightarrow> task_call \<Rightarrow> 'l task_service" where
  "task_step raises sv (Create_Call hex now ty parent) = snd (create_task raises sv hex now ty parent)"
| "task_step raises sv (Transition_Call now tid to sub) = snd (transition raises sv now tid to sub)"

fun known_substatus :: "task_call \<Rightarrow> bool" where
  "known_substatus (Create_Call _ _ _ _) = True"
| "known_substatus (Transition_Call _ _ _ sub) = (case sub of None \<Rightarrow> True | Some f \<Rightarrow> f \<in> set failure_substatuses)"

definition task_run :: "('l \<Rightarrow> task_event \<Rightarrow> bool) \<Rightarrow> 'l task_service \<Rightarrow> task_call list \<Rightarrow> 'l task_service" where
  "task_run raises sv calls = foldl (task_step raises) sv calls"

definition empty_service :: "'l list \<Rightarrow> 'l task_service" where
  "empty_service ls = \<lparr>ts_table = [], ts_listeners = ls, ts_history = (\<lambda>_. [])\<rparr>"

abbreviation status_step :: "string \<Rightarrow> string \<Rightarrow> bool" where
  "status_step a b \<equiv> b \<in> set (valid_transitions a)"

text \<open>The recorded history of a task: it starts at \<open>created\<close>, goes along the transition table, each
  record starts where the one before ended, and it ends at the row's status.\<close>

definition history_ok :: "transition_record list \<Rightarrow> string \<Rightarrow> bool" where
  "history_ok h status \<longleftrightarrow>
     h \<noteq> [] \<and> tx_to_status (hd h) = ''created'' \<and>
     map tx_from_status h = [] # butlast (map tx_to_status h) \<and>
     successively status_step (map tx_to_status h) \<and>
     tx_to_status (last h) = status"

definition row_ok :: "'l task_service \<Rightarrow> task_row \<Rightarrow> bool" where
  "row_ok sv r \<longleftrightarrow> history_ok (ts_history sv (tr_task_id r)) (tr_status r) \<and>
     (\<exists>t. row_to_task r = Inr t)"

definition service_ok :: "'l task_service \<Rightarrow> bool" where
  "service_ok sv \<longleftrightarrow> distinct (map tr_task_id (ts_table sv)) \<and> list_all (row_ok sv) (ts_table sv) \<and>
     (\<forall>tid. tid \<notin> set (map tr_task_id (ts_table sv)) \<longrightarrow> ts_history sv tid = [])"

lemma parse_status_value [simp]: "parse_status (status_value s) = Some s"
  by (cases s) (simp_all add: parse_status_def all_statuses_def)

lemma parse_status_Some: "parse_status s = Some t \<Longrightarrow> s = status_value t"
  by (auto simp: parse_status_def find_Some_iff)

lemma valid_target_parses: "to \<in> set (valid_transitions s) \<Longrightarrow> \<exists>t. to = status_value t"
  by (auto simp: valid_transitions_def split: if_splits intro: exI [of _ Context_Prepared] exI [of _ Running]
      exI [of _ Artifact_Submitted] exI [of _ Verification_Pending] exI [of _ Verified] exI [of _ Failed]
      exI [of _ Blocked_Requires_Human])

lemma history_ok_snoc:
  assumes "history_ok h s" "status_step s s'" "tx_from_status r = s" "tx_to_status r = s'"
  shows "history_ok (h @ [r]) s'"
proof -
  have ne: "map tx_to_status h \<noteq> []" and last: "last (map tx_to_status h) = s"
    using assms(1) by (auto simp: history_ok_def last_map)
  have "[] # map tx_to_status h = ([] # butlast (map tx_to_status h)) @ [s]"
    using append_butlast_last_id [OF ne] last by simp
  then show ?thesis
    using assms ne last by (auto simp: history_ok_def successively_append_iff)
qed

lemma find_unique:
  assumes "distinct (map tr_task_id tb)" "r \<in> set tb"
  shows "find (\<lambda>x. tr_task_id x = tr_task_id r) tb = Some r"
  using assms by (induction tb) (auto simp: image_iff)

lemma find_id: "find (\<lambda>x. tr_task_id x = tid) tb = Some r \<Longrightarrow> r \<in> set tb \<and> tr_task_id r = tid"
  by (auto simp: find_Some_iff)

lemma update_status_ids [simp]: "map tr_task_id (update_status tb tid st f now) = map tr_task_id tb"
  by (induction tb) (auto simp: update_status_def)

lemma create_ok:
  assumes "service_ok sv"
  shows "service_ok (snd (create_task raises sv hex now ty parent))"
proof (cases "''task_'' @ take 12 hex \<in> set (map tr_task_id (ts_table sv))")
  case True
  then show ?thesis using assms by (simp add: create_task_def repo_create_def Let_def)
next
  case False
  let ?id = "''task_'' @ take 12 hex"
  let ?row = "\<lparr>tr_task_id = ?id, tr_agent_type = ty, tr_status = ''created'', tr_parent_task_id = parent,
      tr_failure_substatus = None, tr_created_at = now, tr_updated_at = now\<rparr>"
  let ?rec = "\<lparr>tx_task_id = ?id, tx_from_status = [], tx_to_status = ''created'', tx_timestamp = now\<rparr>"
  let ?sv = "add_history (sv\<lparr>ts_table := ts_table sv @ [?row]\<rparr>) ?id ?rec"
  have "snd (create_task raises sv hex now ty parent) = ?sv"
    using False by (simp add: create_task_def repo_create_def Let_def)
  moreover have "row_ok ?sv ?row"
    using assms False parse_status_value [of Created]
    by (auto simp: service_ok_def row_ok_def add_history_def history_ok_def row_to_task_def)
  moreover have "list_all (row_ok ?sv) (ts_table sv)"
  proof -
    have "tr_task_id x \<noteq> ?id" if "x \<in> set (ts_table sv)" for x
    proof
      assume "tr_task_id x = ?id"
      with that have "?id \<in> set (map tr_task_id (ts_table sv))" by (metis image_eqI set_map)
      with False show False by contradiction
    qed
    then have "ts_history ?sv (tr_task_id x) = ts_history sv (tr_task_id x)" if "x \<in> set (ts_table sv)" for x
      using that by (simp add: add_history_def)
    with assms show ?thesis by (simp add: service_ok_def list_all_iff row_ok_def)
  qed
  ultimately show ?thesis using assms False by (auto simp: service_ok_def add_history_def)
qed

lemma transition_ok:
  assumes "service_ok sv" "known_substatus (Transition_Call now tid to sub)"
  shows "service_ok (snd (transition raises sv now tid to sub))"
proof (cases "find (\<lambda>r. tr_task_id r = tid) (ts_table sv)")
  case None
  then show ?thesis using assms(1) by (simp add: transition_def get_by_id_def)
next
  case (Some r)
  have r: "r \<in> set (ts_table sv)" "tr_task_id r = tid" using find_id [OF Some] by auto
  then have rok: "row_ok sv r" using assms(1) by (simp add: service_ok_def list_all_iff)
  then obtain t where t: "row_to_task r = Inr t" by (auto simp: row_ok_def)
  then have st: "status_value (at_status t) = tr_status r"
    by (auto simp: row_to_task_def dest: parse_status_Some split: option.splits if_splits)
  show ?thesis
  proof (cases "status_step (tr_status r) to")
    case False
    then show ?thesis using assms(1) Some t st by (simp add: transition_def get_by_id_def Let_def)
  next
    case True
    let ?tb = "update_status (ts_table sv) tid to sub now"
    let ?rec = "\<lparr>tx_task_id = tid, tx_from_status = tr_status r, tx_to_status = to, tx_timestamp = now\<rparr>"
    let ?sv = "add_history (sv\<lparr>ts_table := ?tb\<rparr>) tid ?rec"
    let ?r = "r\<lparr>tr_status := to, tr_failure_substatus := sub, tr_updated_at := now\<rparr>"
    obtain s' where s': "to = status_value s'" using valid_target_parses [OF True] by blast
    have "?r \<in> set ?tb" using r by (force simp: update_status_def)
    moreover have dist: "distinct (map tr_task_id ?tb)" using assms(1) by (simp add: service_ok_def)
    ultimately have f: "find (\<lambda>x. tr_task_id x = tid) ?tb = Some ?r"
      using find_unique [of ?tb ?r] r(2) by simp
    have valid: "\<exists>t'. row_to_task (x\<lparr>tr_status := to, tr_failure_substatus := sub, tr_updated_at := now\<rparr>) = Inr t'" for x
      using assms(2) by (auto simp: row_to_task_def s' split: option.splits)
    then obtain t' where t': "row_to_task ?r = Inr t'" by blast
    have "snd (transition raises sv now tid to sub) = ?sv"
      using Some t t' f True by (simp add: transition_def get_by_id_def Let_def st)
    moreover have "service_ok ?sv"
    proof -
      have "row_ok ?sv y" if "y \<in> set ?tb" for y
      proof -
        from that obtain x where x: "x \<in> set (ts_table sv)"
          "y = (if tr_task_id x = tid then x\<lparr>tr_status := to, tr_failure_substatus := sub, tr_updated_at := now\<rparr> else x)"
          by (auto simp: update_status_def)
        show ?thesis
        proof (cases "tr_task_id x = tid")
          case True
          then have "x = r" using find_unique [of "ts_table sv" x] x(1) assms(1) Some by (simp add: service_ok_def)
          then show ?thesis
            using x(2) r(2) rok t' history_ok_snoc [of "ts_history sv tid" "tr_status r" to ?rec] \<open>status_step (tr_status r) to\<close>
            by (simp add: row_ok_def add_history_def)
        next
          case False
          then show ?thesis using x assms(1) by (simp add: service_ok_def list_all_iff row_ok_def add_history_def)
        qed
      qed
      moreover have "tid \<in> set (map tr_task_id (ts_table sv))" using r by auto
      ultimately show ?thesis using assms(1) dist
        by (auto simp: service_ok_def list_all_iff add_history_def simp del: set_map)
    qed
    ultimately show ?thesis by simp
  qed
qed

interpretation task_calls: call_machine "task_step raises" known_substatus service_ok
  for raises :: "'l \<Rightarrow> task_event \<Rightarrow> bool"
proof unfold_locales
  fix sv :: "'l task_service" and c
  assume "service_ok sv" "known_substatus c"
  then show "service_ok (task_step raises sv c)" by (cases c) (simp_all add: create_ok transition_ok)
qed

lemma task_run_ok: "\<forall>c \<in> set calls. known_substatus c \<Longrightarrow> service_ok sv \<Longrightarrow> service_ok (task_run raises sv calls)"
  using task_calls.run_keeps [of sv calls raises] by (simp add: task_run_def list_all_iff)

text \<open>Going backwards along a path of the table.\<close>

lemma path_back:
  assumes "successively status_step (xs @ [b])" "hd (xs @ [b]) = ''created''"
    and "\<And>a. status_step a b \<Longrightarrow> a = c" "b \<noteq> ''created''"
  obtains ys where "xs = ys @ [c]" "successively status_step (ys @ [c])" "hd (ys @ [c]) = ''created''"
proof (cases xs rule: rev_cases)
  case Nil
  with assms(2,4) show thesis by simp
next
  case (snoc ys a)
  with assms(1) have "status_step a b" "successively status_step (ys @ [a])"
    by (simp_all add: successively_append_iff)
  moreover have "hd (ys @ [a]) = ''created''" using assms(2) snoc by (cases ys) simp_all
  ultimately show thesis using that [of ys] assms(3) snoc by simp
qed

lemma step_sources:
  "status_step a ''verified'' \<Longrightarrow> a = ''verification_pending''"
  "status_step a ''verification_pending'' \<Longrightarrow> a = ''artifact_submitted''"
  "status_step a ''artifact_submitted'' \<Longrightarrow> a = ''running''"
  "status_step a ''running'' \<Longrightarrow> a = ''context_prepared''"
  "status_step a ''context_prepared'' \<Longrightarrow> a = ''created''"
  "\<not> status_step a ''created''"
  by (auto simp: valid_transitions_def split: if_splits)

lemma path_created: "successively status_step (xs @ [''created'']) \<Longrightarrow> xs = []"
  using step_sources(6) by (cases xs rule: rev_cases) (auto simp: successively_append_iff)

lemma path_verified:
  assumes "successively status_step (xs @ [''verified''])" "hd (xs @ [''verified'']) = ''created''"
  shows "xs @ [''verified''] = [''created'', ''context_prepared'', ''running'', ''artifact_submitted'',
     ''verification_pending'', ''verified'']"
proof -
  obtain y1 where 1: "xs = y1 @ [''verification_pending'']" "successively status_step (y1 @ [''verification_pending''])"
    "hd (y1 @ [''verification_pending'']) = ''created''"
    by (rule path_back [OF assms step_sources(1)]) simp_all
  obtain y2 where 2: "y1 = y2 @ [''artifact_submitted'']" "successively status_step (y2 @ [''artifact_submitted''])"
    "hd (y2 @ [''artifact_submitted'']) = ''created''"
    by (rule path_back [OF 1(2,3) step_sources(2)]) simp_all
  obtain y3 where 3: "y2 = y3 @ [''running'']" "successively status_step (y3 @ [''running''])"
    "hd (y3 @ [''running'']) = ''created''"
    by (rule path_back [OF 2(2,3) step_sources(3)]) simp_all
  obtain y4 where 4: "y3 = y4 @ [''context_prepared'']" "successively status_step (y4 @ [''context_prepared''])"
    "hd (y4 @ [''context_prepared'']) = ''created''"
    by (rule path_back [OF 3(2,3) step_sources(4)]) simp_all
  obtain y5 where 5: "y4 = y5 @ [''created'']" "successively status_step (y5 @ [''created''])"
    by (rule path_back [OF 4(2,3) step_sources(5)]) simp_all
  have "y5 = []" by (rule path_created [OF 5(2)])
  with 1 2 3 4 5 show ?thesis by simp
qed

text \<open>
  C21. The recorded history of a task is the path its status took: after any calls of the service
  (successful or raising, with any listeners, the failure sub-statuses being known ones), a
  task's history starts at \<open>created\<close>, follows the transition table, each record starts where the
  one before ended and the last one ends at the stored status; a task that is \<open>verified\<close> went
  through exactly the five stages before it.
\<close>

theorem task_history_is_status_path:
  assumes "\<forall>c \<in> set calls. known_substatus c"
    and "sv = task_run raises (empty_service listeners) calls" and "r \<in> set (ts_table sv)"
  shows "history_ok (get_transition_history sv (tr_task_id r)) (tr_status r) \<and>
    (tr_status r = ''verified'' \<longrightarrow> map tx_to_status (get_transition_history sv (tr_task_id r)) =
      [''created'', ''context_prepared'', ''running'', ''artifact_submitted'', ''verification_pending'', ''verified''])"
proof -
  have "service_ok (empty_service listeners)" by (simp add: service_ok_def empty_service_def)
  with task_run_ok [OF assms(1)] have "service_ok sv" by (simp add: assms(2))
  with assms(3) have ok: "history_ok (get_transition_history sv (tr_task_id r)) (tr_status r)"
    by (simp add: service_ok_def list_all_iff row_ok_def get_transition_history_def)
  let ?h = "map tx_to_status (get_transition_history sv (tr_task_id r))"
  have h: "?h \<noteq> []" "hd ?h = ''created''" "last ?h = tr_status r" "successively status_step ?h"
    using ok by (auto simp: history_ok_def hd_map last_map)
  have "?h = [''created'', ''context_prepared'', ''running'', ''artifact_submitted'', ''verification_pending'', ''verified'']"
    if "tr_status r = ''verified''"
    using path_verified [of "butlast ?h"] h that append_butlast_last_id [OF h(1)] by metis
  with ok show ?thesis by blast
qed

text \<open>
  Terminal statuses are final: a task whose stored status is \<open>verified\<close>, \<open>failed\<close> or
  \<open>blocked_requires_human\<close> refuses every transition with \<open>InvalidTransitionError\<close>, and neither
  the table nor the history changes.
\<close>

theorem terminal_statuses_final:
  assumes "get_by_id (ts_table sv) task_id = Inr (Some t)"
    and "at_status t \<in> {Verified, Failed, Blocked_Requires_Human}"
  shows "transition raises sv now task_id to_status failure_substatus =
    (Inl (InvalidTransitionError (status_value (at_status t)) to_status), sv)"
proof -
  have "valid_transitions (status_value (at_status t)) = []"
    using assms(2) by (auto simp: valid_transitions_def)
  with assms(1) show ?thesis by (simp add: transition_def Let_def)
qed

text \<open>
  A transition with a failure sub-status outside the enum is half done: it raises a
  validation error after the new status was committed, leaves no trace in the history, and from
  then on the task cannot be read or moved any more.
\<close>

theorem unknown_substatus_poisons_task:
  assumes "get_by_id (ts_table sv) task_id = Inr (Some t)"
    and "to_status \<in> set (valid_transitions (status_value (at_status t)))"
    and "f \<notin> set failure_substatuses"
    and "transition raises sv now task_id to_status (Some f) = (res, sv')"
  shows "res = Inl TaskValidationError \<and> ts_history sv' = ts_history sv \<and> ts_table sv' \<noteq> ts_table sv \<and>
    get_task sv' task_id = Inl TaskValidationError \<and>
    transition raises' sv' now' task_id to' f' = (Inl TaskValidationError, sv')"
proof -
  let ?tb = "update_status (ts_table sv) task_id to_status (Some f) now"
  obtain r where r: "find (\<lambda>r. tr_task_id r = task_id) (ts_table sv) = Some r" "row_to_task r = Inr t"
    using assms(1) by (auto simp: get_by_id_def split: option.splits sum.splits)
  let ?r = "r\<lparr>tr_status := to_status, tr_failure_substatus := Some f, tr_updated_at := now\<rparr>"
  have "find (\<lambda>x. tr_task_id x = task_id) (update_status tb task_id to_status (Some f) now) = Some ?r"
    if "find (\<lambda>r. tr_task_id r = task_id) tb = Some r" for tb
    using that by (induction tb) (auto simp: update_status_def split: if_splits)
  then have f: "find (\<lambda>x. tr_task_id x = task_id) ?tb = Some ?r" using r(1) .
  have bad: "row_to_task ?r = Inl TaskValidationError"
    using assms(3) by (simp add: row_to_task_def split: option.split)
  have g: "get_by_id ?tb task_id = Inl TaskValidationError" by (simp add: get_by_id_def f bad)
  have tr: "transition raises sv now task_id to_status (Some f) = (Inl TaskValidationError, sv\<lparr>ts_table := ?tb\<rparr>)"
    using assms(1,2) g by (simp add: transition_def Let_def)
  have "?r \<noteq> r" using r(2) bad by auto
  then have "?tb \<noteq> ts_table sv" using f r(1) by auto
  with tr assms(4) g show ?thesis by (auto simp: get_task_def transition_def)
qed

section \<open>Sample runs\<close>

definition sample_calls :: "task_call list" where
  "sample_calls = [Create_Call ''0123456789abcdef'' 1 ''coder'' None,
     Transition_Call 2 ''task_0123456789ab'' ''context_prepared'' None,
     Transition_Call 3 ''task_0123456789ab'' ''verified'' None]"

definition sample_service :: "nat task_service" where
  "sample_service = task_run (\<lambda>_ _. False) (empty_service [0]) sample_calls"

lemma sample_row: "\<exists>r \<in> set (ts_table sample_service). tr_status r = ''context_prepared''"
  by code_simp

theorem task_history_is_status_path_witness:
  "\<exists>r \<in> set (ts_table sample_service). history_ok (get_transition_history sample_service (tr_task_id r)) ''context_prepared''"
proof -
  obtain r where "r \<in> set (ts_table sample_service)" "tr_status r = ''context_prepared''" using sample_row by blast
  moreover have "\<forall>c \<in> set sample_calls. known_substatus c" by (simp add: sample_calls_def)
  ultimately show ?thesis using task_history_is_status_path [OF _ sample_service_def] by metis
qed

definition one_task :: "task_status \<Rightarrow> nat task_service" where
  "one_task s = \<lparr>ts_table = [\<lparr>tr_task_id = ''t'', tr_agent_type = ''a'', tr_status = status_value s,
     tr_parent_task_id = None, tr_failure_substatus = None, tr_created_at = 0, tr_updated_at = 0\<rparr>],
     ts_listeners = [], ts_history = (\<lambda>_. [])\<rparr>"

lemma one_task_get: "get_by_id (ts_table (one_task s)) ''t'' = Inr (Some \<lparr>at_task_id = ''t'', at_agent_type = ''a'',
    at_status = s, at_parent_task_id = None, at_failure_substatus = None, at_created_at = 0, at_updated_at = 0\<rparr>)"
  by (simp add: one_task_def get_by_id_def row_to_task_def)

theorem terminal_statuses_final_witness:
  "transition (\<lambda>_ _. False) (one_task Failed) 5 ''t'' ''running'' None =
     (Inl (InvalidTransitionError ''failed'' ''running''), one_task Failed)"
  using terminal_statuses_final [OF one_task_get [of Failed]] by simp

theorem unknown_substatus_poisons_task_witness:
  "fst (transition (\<lambda>_ _. False) (one_task Running) 5 ''t'' ''failed'' (Some ''unheard_of'')) = Inl TaskValidationError"
proof -
  have "''failed'' \<in> set (valid_transitions (status_value Running))" "''unheard_of'' \<notin> set failure_substatuses"
    by (simp_all add: valid_transitions_def failure_substatuses_def)
  then show ?thesis
    using unknown_substatus_poisons_task [OF one_task_get [of Running], of "''failed''" "''unheard_of''" "\<lambda>_ _. False" 5
        "fst (transition (\<lambda>_ _. False) (one_task Running) 5 ''t'' ''failed'' (Some ''unheard_of''))"
        "snd (transition (\<lambda>_ _. False) (one_task Running) 5 ''t'' ''failed'' (Some ''unheard_of''))"] by simp
qed

end
