(* ===== verification/Delegation.thy ===== *)
theory Delegation
  imports Prelude "HOL-Library.Multiset"
begin

text \<open>
  Delegation of tasks, \<^verbatim>\<open>src/backend/services/orchestration/delegation.py\<close>, \<^verbatim>\<open>spawn_policy.py\<close> and
  \<^verbatim>\<open>blackboard.py\<close>. A query without \<^verbatim>\<open>ORDER BY\<close> returns its rows in an order SQL does not fix: the
  argument \<open>scan\<close> is that order, a permutation of the table. The loop of \<open>get_lineage\<close> need not
  end; not returning is \<open>None\<close>. \<open>get_tree\<close> recurses to a depth \<open>limit\<close> (Python's recursion limit),
  \<open>None\<close> being the \<open>RecursionError\<close>.
\<close>

type_synonym delegation_tree = "(string \<times> string) list"

definition register_child :: "delegation_tree \<Rightarrow> string \<Rightarrow> string \<Rightarrow> delegation_tree" where
  "register_child tree parent_id child_id =
     (if (parent_id, child_id) \<in> set tree then tree else tree @ [(parent_id, child_id)])"

definition get_children :: "(delegation_tree \<Rightarrow> delegation_tree) \<Rightarrow> delegation_tree \<Rightarrow> string \<Rightarrow> string list" where
  "get_children scan tree parent_id = map snd (filter (\<lambda>r. fst r = parent_id) (scan tree))"

definition get_parent :: "(delegation_tree \<Rightarrow> delegation_tree) \<Rightarrow> delegation_tree \<Rightarrow> string \<Rightarrow> string option" where
  "get_parent scan tree task_id = map_option fst (find (\<lambda>r. snd r = task_id) (scan tree))"

partial_function (option) lineage_loop ::
    "(delegation_tree \<Rightarrow> delegation_tree) \<Rightarrow> delegation_tree \<Rightarrow> string list \<Rightarrow> string \<Rightarrow> string list option" where
  "lineage_loop scan tree lineage current =
     (case get_parent scan tree current of
        None \<Rightarrow> Some lineage
      | Some parent \<Rightarrow> lineage_loop scan tree (parent # lineage) parent)"

declare lineage_loop.simps [code]

definition get_lineage :: "(delegation_tree \<Rightarrow> delegation_tree) \<Rightarrow> delegation_tree \<Rightarrow> string \<Rightarrow> string list option" where
  "get_lineage scan tree task_id = lineage_loop scan tree [task_id] task_id"

definition get_depth :: "(delegation_tree \<Rightarrow> delegation_tree) \<Rightarrow> delegation_tree \<Rightarrow> string \<Rightarrow> int option" where
  "get_depth scan tree task_id = map_option (\<lambda>l. int (length l) - 1) (get_lineage scan tree task_id)"

datatype task_tree = Task_Node string "task_tree list"

primrec get_tree :: "nat \<Rightarrow> (delegation_tree \<Rightarrow> delegation_tree) \<Rightarrow> delegation_tree \<Rightarrow> string \<Rightarrow> task_tree option" where
  "get_tree 0 scan tree root_id = None"
| "get_tree (Suc limit) scan tree root_id =
     map_option (Task_Node root_id) (those (map (get_tree limit scan tree) (get_children scan tree root_id)))"

section \<open>Spawn policy\<close>

record spawn_policy =
  sp_max_depth :: int
  sp_max_fanout :: int
  sp_escalation_threshold :: int

datatype spawn_reason = Spawn_Allowed | Max_Depth_Exceeded int int | Max_Fanout_Exceeded int int

definition check_can_spawn_detailed :: "spawn_policy \<Rightarrow> (delegation_tree \<Rightarrow> delegation_tree) \<Rightarrow> delegation_tree \<Rightarrow> string \<Rightarrow>
    spawn_reason option" where
  "check_can_spawn_detailed pol scan tree parent_task_id =
     (case get_depth scan tree parent_task_id of
        None \<Rightarrow> None
      | Some depth \<Rightarrow>
          if depth \<ge> sp_max_depth pol then Some (Max_Depth_Exceeded depth (sp_max_depth pol))
          else let n = int (length (get_children scan tree parent_task_id)) in
            if n \<ge> sp_max_fanout pol then Some (Max_Fanout_Exceeded n (sp_max_fanout pol))
            else Some Spawn_Allowed)"

definition check_can_spawn :: "spawn_policy \<Rightarrow> (delegation_tree \<Rightarrow> delegation_tree) \<Rightarrow> delegation_tree \<Rightarrow> string \<Rightarrow> bool option" where
  "check_can_spawn pol scan tree parent = map_option (\<lambda>r. r = Spawn_Allowed) (check_can_spawn_detailed pol scan tree parent)"

definition check_escalation :: "spawn_policy \<Rightarrow> int \<Rightarrow> bool" where
  "check_escalation pol child_failure_count \<longleftrightarrow> child_failure_count \<ge> sp_escalation_threshold pol"

section \<open>Blackboard\<close>

record blackboard_row =
  bb_key :: string
  bb_value :: string
  bb_scope :: string
  bb_owner :: string
  bb_created_at :: time

definition bb_write :: "blackboard_row sql_table \<Rightarrow> string \<Rightarrow> string \<Rightarrow> string \<Rightarrow> string \<Rightarrow> time \<Rightarrow> blackboard_row sql_table" where
  "bb_write tb key val scope owner now =
     filter (\<lambda>r. \<not> (bb_key r = key \<and> bb_owner r = owner)) tb
     @ [\<lparr>bb_key = key, bb_value = val, bb_scope = scope, bb_owner = owner, bb_created_at = now\<rparr>]"

text \<open>\<^verbatim>\<open>ORDER BY created_at DESC LIMIT 1\<close>; among equal times the scan order decides.\<close>

definition bb_read :: "(blackboard_row list \<Rightarrow> blackboard_row list) \<Rightarrow> blackboard_row sql_table \<Rightarrow> string \<Rightarrow> blackboard_row option" where
  "bb_read scan tb key =
     (case sort_key (\<lambda>r. - bb_created_at r) (filter (\<lambda>r. bb_key r = key) (scan tb)) of
        [] \<Rightarrow> None | r # _ \<Rightarrow> Some r)"

definition bb_visible :: "string \<Rightarrow> string list \<Rightarrow> blackboard_row \<Rightarrow> bool" where
  "bb_visible reader lineage r \<longleftrightarrow>
     bb_scope r = ''global_verified'' \<or>
     bb_scope r = ''branch_shared'' \<and> (bb_owner r \<in> set lineage \<or> bb_owner r = reader)"

definition read_visible :: "(blackboard_row list \<Rightarrow> blackboard_row list) \<Rightarrow> blackboard_row sql_table \<Rightarrow>
    string \<Rightarrow> string \<Rightarrow> string list \<Rightarrow> blackboard_row option" where
  "read_visible scan tb key reader lineage = find (bb_visible reader lineage) (filter (\<lambda>r. bb_key r = key) (scan tb))"

section \<open>Lineages\<close>

text \<open>The path from a root down to a task, as the table has it.\<close>

inductive lineage :: "delegation_tree \<Rightarrow> string \<Rightarrow> string list \<Rightarrow> bool" for tree where
  root: "x \<notin> snd ` set tree \<Longrightarrow> lineage tree x [x]"
| child: "(p, x) \<in> set tree \<Longrightarrow> lineage tree p l \<Longrightarrow> lineage tree x (l @ [x])"

text \<open>How a tree grows when every task is registered once, as a new child.\<close>

inductive forest :: "delegation_tree \<Rightarrow> bool" where
  forest_Nil: "forest []"
| forest_snoc: "forest t \<Longrightarrow> c \<notin> fst ` set t \<Longrightarrow> c \<notin> snd ` set t \<Longrightarrow> c \<noteq> p \<Longrightarrow> forest (t @ [(p, c)])"

lemma forest_one_parent: "forest t \<Longrightarrow> distinct (map snd t)"
  by (induction rule: forest.induct) auto

lemma lineage_last: "lineage t x l \<Longrightarrow> l \<noteq> [] \<and> last l = x"
  by (induction rule: lineage.induct) auto

lemma get_parent_unique:
  assumes "distinct (map snd t)" "set (scan t) = set t"
  shows "(p, x) \<in> set t \<Longrightarrow> get_parent scan t x = Some p" and "x \<notin> snd ` set t \<Longrightarrow> get_parent scan t x = None"
proof -
  assume px: "(p, x) \<in> set t"
  then have "find (\<lambda>r. snd r = x) (scan t) \<noteq> None" using assms(2) by (auto simp: find_None_iff)
  then obtain r where r: "find (\<lambda>r. snd r = x) (scan t) = Some r" by blast
  then have "r \<in> set t" "snd r = x" using assms(2) by (auto simp: find_Some_iff simp flip: assms(2))
  with px assms(1) have "r = (p, x)" by (metis distinct_map inj_onD snd_conv)
  with r show "get_parent scan t x = Some p" by (simp add: get_parent_def)
next
  assume "x \<notin> snd ` set t"
  then show "get_parent scan t x = None" using assms(2) by (force simp: get_parent_def find_None_iff)
qed

lemma lineage_loop_eq:
  assumes "distinct (map snd t)" "set (scan t) = set t" "lineage t x l"
  shows "lineage_loop scan t (x # acc) x = Some (l @ acc)"
  using assms(3)
proof (induction arbitrary: acc rule: lineage.induct)
  case (root x)
  with assms(1,2) show ?case by (simp add: lineage_loop.simps [of scan t "x # acc"] get_parent_unique)
next
  case (child p x l)
  with assms(1,2) show ?case
    using get_parent_unique(1) [of t scan p x] by (simp add: lineage_loop.simps [of scan t "x # acc"])
qed

lemma get_lineage_eq:
  "forest t \<Longrightarrow> set (scan t) = set t \<Longrightarrow> lineage t x l \<Longrightarrow> get_lineage scan t x = Some l"
  using lineage_loop_eq [of t scan x l "[]"] by (simp add: get_lineage_def forest_one_parent)

text \<open>Adding a new leaf changes no other lineage.\<close>

lemma lineage_mono:
  assumes "lineage t x l" "c \<notin> fst ` set t" "c \<notin> snd ` set t" "x \<noteq> c"
  shows "lineage (t @ [(p, c)]) x l"
  using assms
proof (induction rule: lineage.induct)
  case (root x)
  then show ?case by (intro lineage.root) auto
next
  case (child q x l)
  then have "q \<noteq> c" by force
  with child show ?case by (intro lineage.child [of q]) auto
qed

lemma forest_lineage:
  assumes "forest t"
  shows "\<exists>l. lineage t x l"
  using assms
proof (induction arbitrary: x rule: forest.induct)
  case forest_Nil
  have "lineage [] x [x]" by (rule lineage.root) simp
  then show ?case by blast
next
  case (forest_snoc t c p)
  show ?case
  proof (cases "x = c")
    case True
    obtain l where "lineage t p l" using forest_snoc.IH by blast
    then have "lineage (t @ [(p, c)]) p l" using forest_snoc.hyps by (intro lineage_mono) auto
    then have "lineage (t @ [(p, c)]) c (l @ [c])" by (intro lineage.child [of p]) auto
    with True show ?thesis by blast
  next
    case False
    obtain l where "lineage t x l" using forest_snoc.IH by blast
    then show ?thesis using lineage_mono forest_snoc.hyps False by blast
  qed
qed

lemma lineage_path:
  "lineage t x l \<Longrightarrow> hd l \<notin> snd ` set t \<and> successively (\<lambda>p c. (p, c) \<in> set t) l"
proof (induction rule: lineage.induct)
  case (child p x l)
  then show ?case using lineage_last [of t p l] by (simp add: successively_append_iff)
qed simp

text \<open>
  In a delegation forest (each task registered once, as a new child) the walk to the root
  ends for every task, and \<open>get_lineage\<close> is the path of delegations from a root to the task;
  \<open>get_depth\<close> is its length minus one. The order in which the database returns rows does not
  matter.
\<close>

theorem lineage_walk_correct:
  assumes "forest t" and "set (scan t) = set t"
  shows "\<exists>l. get_lineage scan t x = Some l \<and> get_depth scan t x = Some (int (length l) - 1) \<and>
    l \<noteq> [] \<and> last l = x \<and> hd l \<notin> snd ` set t \<and> successively (\<lambda>p c. (p, c) \<in> set t) l"
proof -
  obtain l where l: "lineage t x l" using forest_lineage [OF assms(1)] by blast
  have "get_lineage scan t x = Some l" using get_lineage_eq [where scan = scan, OF assms l] .
  with lineage_last [OF l] lineage_path [OF l] show ?thesis by (simp add: get_depth_def)
qed

section \<open>Spawning under the policy\<close>

inductive spawned :: "spawn_policy \<Rightarrow> (delegation_tree \<Rightarrow> delegation_tree) \<Rightarrow> delegation_tree \<Rightarrow> bool"
  for pol scan where
  spawned_Nil: "spawned pol scan []"
| spawned_step: "spawned pol scan t \<Longrightarrow> check_can_spawn pol scan t p = Some True \<Longrightarrow>
    c \<notin> fst ` set t \<Longrightarrow> c \<notin> snd ` set t \<Longrightarrow> c \<noteq> p \<Longrightarrow> spawned pol scan (register_child t p c)"

lemma register_fresh: "c \<notin> snd ` set t \<Longrightarrow> register_child t p c = t @ [(p, c)]"
  by (force simp: register_child_def)

lemma spawned_forest: "spawned pol scan t \<Longrightarrow> forest t"
  by (induction rule: spawned.induct) (simp_all add: register_fresh forest.intros)

lemma get_children_length:
  assumes "mset (scan t) = mset t"
  shows "length (get_children scan t p) = length (filter (\<lambda>r. fst r = p) t)"
proof -
  have "mset (filter (\<lambda>r. fst r = p) (scan t)) = mset (filter (\<lambda>r. fst r = p) t)" using assms by simp
  then show ?thesis unfolding get_children_def length_map by (rule mset_eq_length)
qed

lemma check_can_spawn_True:
  "check_can_spawn pol scan t p = Some True \<longleftrightarrow> (\<exists>d. get_depth scan t p = Some d \<and> d < sp_max_depth pol \<and>
     int (length (get_children scan t p)) < sp_max_fanout pol)"
  by (auto simp: check_can_spawn_def check_can_spawn_detailed_def Let_def split: option.splits if_splits)

lemma spawned_bounds:
  assumes "spawned pol scan t" "\<And>t. mset (scan t) = mset t" "0 \<le> sp_max_depth pol" "0 \<le> sp_max_fanout pol"
  shows "(\<forall>l. lineage t x l \<longrightarrow> int (length l) - 1 \<le> sp_max_depth pol) \<and>
    int (length (filter (\<lambda>r. fst r = x) t)) \<le> sp_max_fanout pol"
  using assms(1)
proof (induction arbitrary: x rule: spawned.induct)
  case spawned_Nil
  then show ?case using assms(3,4) by (auto elim: lineage.cases)
next
  case (spawned_step t p c)
  note fo = spawned_forest [OF spawned_step.hyps(1)]
  have scan: "set (scan t') = set t'" for t' using assms(2) by (metis set_mset_mset)
  let ?t = "t @ [(p, c)]"
  have reg: "register_child t p c = ?t" using spawned_step.hyps by (simp add: register_fresh)
  have fo': "forest ?t" using fo spawned_step.hyps by (intro forest.intros)
  obtain d where d: "get_depth scan t p = Some d" "d < sp_max_depth pol"
      "int (length (get_children scan t p)) < sp_max_fanout pol"
    using spawned_step.hyps(2) by (auto simp: check_can_spawn_True)
  have fan: "int (length (filter (\<lambda>r. fst r = x) ?t)) \<le> sp_max_fanout pol"
    using d(3) spawned_step.IH [of x] by (auto simp: get_children_length [OF assms(2)])
  have "int (length l) - 1 \<le> sp_max_depth pol" if l: "lineage ?t x l" for l
  proof (cases "x = c")
    case False
    obtain l' where l': "lineage t x l'" using forest_lineage [OF fo] by blast
    have "lineage ?t x l'" using lineage_mono [OF l'] spawned_step.hyps False by blast
    then have "l = l'" using get_lineage_eq [where scan = scan, OF fo' scan] l by (metis option.inject)
    with l' spawned_step.IH [of x] show ?thesis by blast
  next
    case True
    obtain l' where l': "lineage t p l'" using forest_lineage [OF fo] by blast
    have "lineage ?t p l'" using spawned_step.hyps by (intro lineage_mono [OF l']) auto
    then have "lineage ?t c (l' @ [c])" by (intro lineage.child [of p]) auto
    then have "l = l' @ [c]" using get_lineage_eq [where scan = scan, OF fo' scan] l True by (metis option.inject)
    moreover have "d = int (length l') - 1" using d(1) get_lineage_eq [where scan = scan, OF fo scan l'] by (simp add: get_depth_def)
    ultimately show ?thesis using d(2) by simp
  qed
  with fan show ?case by (simp add: reg)
qed

text \<open>
  The spawn policy bounds the tree: when every new task is registered only after
  \<open>check_can_spawn\<close> allowed it, the check always answers, no task is ever deeper than
  \<open>max_depth\<close>, and no task has more than \<open>max_fanout\<close> children.
\<close>

theorem guarded_spawning_bounded:
  assumes "spawned pol scan t" and "\<And>t. mset (scan t) = mset t"
    and "0 \<le> sp_max_depth pol" and "0 \<le> sp_max_fanout pol"
  shows "(\<exists>d. get_depth scan t x = Some d \<and> d \<le> sp_max_depth pol) \<and>
    int (length (get_children scan t x)) \<le> sp_max_fanout pol \<and>
    check_can_spawn pol scan t x \<noteq> None"
proof -
  have fo: "forest t" by (rule spawned_forest [OF assms(1)])
  have scan: "set (scan t) = set t" using assms(2) by (metis set_mset_mset)
  obtain l where l: "lineage t x l" using forest_lineage [OF fo] by blast
  have "get_depth scan t x = Some (int (length l) - 1)"
    using get_lineage_eq [where scan = scan, OF fo scan l] by (simp add: get_depth_def)
  moreover have "int (length l) - 1 \<le> sp_max_depth pol"
    "int (length (get_children scan t x)) \<le> sp_max_fanout pol"
    using spawned_bounds [OF assms, of x] l by (simp_all add: get_children_length [OF assms(2)])
  ultimately show ?thesis by (auto simp: check_can_spawn_def check_can_spawn_detailed_def Let_def)
qed

section \<open>Cycles\<close>

lemma lineage_loop_escapes:
  assumes "lineage_loop scan t acc x = Some l"
  shows "(\<forall>y \<in> C. \<exists>p \<in> C. get_parent scan t y = Some p) \<longrightarrow> x \<notin> C"
proof (rule lineage_loop.raw_induct
    [where P = "\<lambda>scan t acc x l. (\<forall>y \<in> C. \<exists>p \<in> C. get_parent scan t y = Some p) \<longrightarrow> x \<notin> C", OF _ assms])
  fix loop scan t acc x l
  assume IH: "\<And>scan t acc x l. loop scan t acc x = Some l \<Longrightarrow>
      (\<forall>y \<in> C. \<exists>p \<in> C. get_parent scan t y = Some p) \<longrightarrow> x \<notin> C"
    and body: "(case get_parent scan t x of None \<Rightarrow> Some acc | Some p \<Rightarrow> loop scan t (p # acc) p) = Some l"
  show "(\<forall>y \<in> C. \<exists>p \<in> C. get_parent scan t y = Some p) \<longrightarrow> x \<notin> C"
  proof (intro impI notI)
    assume c: "\<forall>y \<in> C. \<exists>p \<in> C. get_parent scan t y = Some p" and "x \<in> C"
    then obtain p where p: "p \<in> C" "get_parent scan t x = Some p" by blast
    with body have "loop scan t (p # acc) p = Some l" by simp
    from IH [OF this] c p(1) show False by blast
  qed
qed

text \<open>
  A cycle hangs the walk: if each task of a set has a parent in the set (a task that is its
  own parent, say), \<open>get_lineage\<close> and \<open>get_depth\<close>, and with them the spawn check, do not return for
  any of them. \<open>register\<close> accepts such rows.
\<close>

theorem cyclic_lineage_never_returns:
  assumes "x \<in> C" and "\<forall>y \<in> C. \<exists>p \<in> C. get_parent scan t y = Some p"
  shows "get_lineage scan t x = None \<and> get_depth scan t x = None \<and> check_can_spawn pol scan t x = None"
proof -
  have "get_lineage scan t x = None"
    using lineage_loop_escapes [of scan t "[x]" x _ C] assms
    by (cases "lineage_loop scan t [x] x") (auto simp: get_lineage_def)
  then show ?thesis by (simp add: get_depth_def check_can_spawn_def check_can_spawn_detailed_def)
qed

section \<open>Visibility on the blackboard\<close>

lemma bb_write_key: "bb_key r = k \<Longrightarrow> r \<in> set (bb_write tb k v s ow now) \<Longrightarrow>
   r = \<lparr>bb_key = k, bb_value = v, bb_scope = s, bb_owner = ow, bb_created_at = now\<rparr> \<or> r \<in> set tb \<and> bb_owner r \<noteq> ow"
  by (auto simp: bb_write_def)

text \<open>
  A reader sees a record exactly when one of its key is visible to it, and what it sees is
  \<open>global_verified\<close> or was shared by itself or by a task of its lineage: a record of any other
  branch, and a \<open>private_to_parent\<close> record, whoever reads, never reaches it.
\<close>

theorem read_visible_scoped:
  assumes "set (scan tb) = set tb"
  shows "(read_visible scan tb key reader lin = None \<longleftrightarrow> (\<forall>r \<in> set tb. bb_key r = key \<longrightarrow> \<not> bb_visible reader lin r)) \<and>
    (\<forall>r. read_visible scan tb key reader lin = Some r \<longrightarrow> r \<in> set tb \<and> bb_key r = key \<and>
      bb_scope r \<noteq> ''private_to_parent'' \<and>
      (bb_scope r = ''global_verified'' \<or> bb_scope r = ''branch_shared'' \<and> bb_owner r \<in> insert reader (set lin)))"
proof -
  have "read_visible scan tb key reader lin = None \<longleftrightarrow> (\<forall>r \<in> set tb. bb_key r = key \<longrightarrow> \<not> bb_visible reader lin r)"
    using assms by (auto simp: read_visible_def find_None_iff)
  moreover have "r \<in> set tb \<and> bb_key r = key \<and> bb_visible reader lin r" if "read_visible scan tb key reader lin = Some r" for r
  proof -
    from that have "bb_visible reader lin r" "r \<in> set (filter (\<lambda>r. bb_key r = key) (scan tb))"
      unfolding read_visible_def find_Some_iff by (metis nth_mem)+
    then show ?thesis using assms by auto
  qed
  ultimately show ?thesis by (auto simp: bb_visible_def)
qed

section \<open>Sample runs\<close>

lemma chain_forest: "forest [(''a'', ''b''), (''b'', ''c'')]"
proof -
  have "forest ([] @ [(''a'', ''b'')])" by (intro forest_snoc forest_Nil) simp_all
  then have "forest ([(''a'', ''b'')] @ [(''b'', ''c'')])" by (intro forest_snoc) simp_all
  then show ?thesis by simp
qed

theorem lineage_walk_correct_witness:
  "get_lineage rev [(''a'', ''b''), (''b'', ''c'')] ''c'' = Some [''a'', ''b'', ''c''] \<and>
   get_depth rev [(''a'', ''b''), (''b'', ''c'')] ''c'' = Some 2"
proof -
  let ?t = "[(''a'', ''b''), (''b'', ''c'')]"
  have l: "lineage ?t ''c'' [''a'', ''b'', ''c'']"
    using lineage.child [OF _ lineage.child [OF _ lineage.root [of "''a''" ?t]], of "''b''" "''c''"] by simp
  have "get_lineage rev ?t ''c'' = Some [''a'', ''b'', ''c'']"
    by (rule get_lineage_eq [where scan = rev, OF chain_forest set_rev l])
  with lineage_walk_correct [where scan = rev, OF chain_forest set_rev, of "''c''"] show ?thesis by auto
qed

definition strict_policy :: spawn_policy where
  "strict_policy = \<lparr>sp_max_depth = 1, sp_max_fanout = 2, sp_escalation_threshold = 3\<rparr>"

theorem guarded_spawning_bounded_witness:
  "\<exists>d. get_depth rev [(''a'', ''b'')] ''b'' = Some d \<and> d \<le> 1"
proof -
  have "check_can_spawn strict_policy rev [] ''a'' = Some True"
    by (simp add: check_can_spawn_True get_depth_def get_lineage_def lineage_loop.simps get_parent_def
        get_children_def strict_policy_def)
  from spawned_step [OF spawned_Nil this, of "''b''"] have "spawned strict_policy rev [(''a'', ''b'')]"
    by (simp add: register_child_def)
  from guarded_spawning_bounded [OF this, of "''b''"] show ?thesis by (simp add: strict_policy_def)
qed

theorem cyclic_lineage_never_returns_witness:
  "get_lineage id (register_child (register_child [] ''a'' ''b'') ''b'' ''a'') ''a'' = None"
proof -
  let ?t = "register_child (register_child [] ''a'' ''b'') ''b'' ''a''"
  have "\<forall>y \<in> {''a'', ''b''}. \<exists>p \<in> {''a'', ''b''}. get_parent id ?t y = Some p"
    by (simp add: register_child_def get_parent_def)
  from cyclic_lineage_never_returns [OF _ this, of "''a''"] show ?thesis by simp
qed

theorem read_visible_scoped_witness:
  "read_visible id (bb_write [] ''k'' ''v'' ''private_to_parent'' ''child'' 0) ''k'' ''parent'' [''parent''] = None"
  using read_visible_scoped [of id "bb_write [] ''k'' ''v'' ''private_to_parent'' ''child'' 0" "''k''" "''parent''" "[''parent'']"]
  by (simp add: bb_write_def bb_visible_def)

end
