(* ===== verification/Approval.thy ===== *)
theory Approval
  imports Idempotency
begin

text \<open>
  Human approval checkpoints, \<^verbatim>\<open>src/backend/services/approval/model.py\<close> and \<^verbatim>\<open>service.py\<close>. The table
  is an association list by approval id (\<open>INSERT OR REPLACE\<close> as in the idempotency table);
  literals are strings that are validated when a model is built. \<open>sha256_hex\<close> is an argument.
\<close>

section \<open>Model\<close>

record approval_policy =
  ap_max_dataset_download_gb :: real
  ap_max_runtime_minutes :: int
  ap_max_gpu_cost_usd :: real
  ap_allow_unofficial_repos :: bool
  ap_allow_network_during_build :: bool
  ap_allow_network_during_run :: bool
  ap_allow_external_data :: bool
  ap_require_unknown_license :: bool

definition default_policy :: approval_policy where
  "default_policy = \<lparr>ap_max_dataset_download_gb = 2, ap_max_runtime_minutes = 30, ap_max_gpu_cost_usd = 0,
     ap_allow_unofficial_repos = False, ap_allow_network_during_build = True, ap_allow_network_during_run = False,
     ap_allow_external_data = False, ap_require_unknown_license = True\<rparr>"

definition approval_actions :: "string list" where
  "approval_actions = [''dataset_download'', ''long_run'', ''gpu_spend'', ''unofficial_repo'', ''substitute_dataset'',
     ''high_risk_assumption'', ''unknown_license'', ''sandbox_network'', ''external_upload'', ''untrusted_code'']"

definition approval_states :: "string list" where
  "approval_states = [''pending'', ''approved'', ''rejected'']"

definition approval_risks :: "string list" where
  "approval_risks = [''low'', ''medium'', ''high'', ''critical'']"

type_synonym metadata = "(string \<times> string) list"

record approval_evaluation =
  ae_action :: string
  ae_requires_approval :: bool
  ae_reason :: string
  ae_risk :: string
  ae_policy_snapshot :: approval_policy
  ae_metadata :: metadata

record approval_request =
  aq_approval_id :: string
  aq_project_id :: string
  aq_action :: string
  aq_label :: string
  aq_details :: string
  aq_state :: string
  aq_risk :: string
  aq_metadata :: metadata
  aq_created_at :: time
  aq_resolved_at :: "time option"
  aq_resolved_by :: string
  aq_resolution_note :: string

datatype approval_error = ApprovalValidationError | UnknownApproval string

section \<open>Evaluation\<close>

record action_facts =
  af_dataset_size_gb :: "real option"
  af_runtime_minutes :: "real option"
  af_gpu_cost_usd :: "real option"
  af_repo_trust_level :: string
  af_license_state :: string
  af_network_stage :: string
  af_assumption_risk :: string
  af_external_data :: bool
  af_metadata :: metadata

definition or_zero :: "real option \<Rightarrow> real" where
  "or_zero x = (case x of None \<Rightarrow> 0 | Some v \<Rightarrow> v)"

definition or_text :: "string \<Rightarrow> string \<Rightarrow> string" where
  "or_text s d = (if s \<noteq> [] then s else d)"

text \<open>The \<open>if\<close> chain on the action: whether approval is required, the reason and the risk.\<close>

definition evaluate_action :: "approval_policy \<Rightarrow> string \<Rightarrow> action_facts \<Rightarrow> bool \<times> string \<times> string" where
  "evaluate_action pol action f =
     (if action = ''dataset_download'' then
        let size = or_zero (af_dataset_size_gb f) in
        (size > ap_max_dataset_download_gb pol,
         ''Dataset download is '' @ py_fixed 2 size @ '' GB; policy allows '' @
           py_fixed 2 (ap_max_dataset_download_gb pol) @ '' GB without approval.'',
         if size \<ge> 10 then ''high'' else ''medium'')
      else if action = ''long_run'' then
        let minutes = or_zero (af_runtime_minutes f) in
        (minutes > of_int (ap_max_runtime_minutes pol),
         ''Run estimate is '' @ py_fixed 1 minutes @ '' minutes; policy allows '' @
           str_of_int (ap_max_runtime_minutes pol) @ '' minutes without approval.'',
         if minutes \<ge> 120 then ''high'' else ''medium'')
      else if action = ''gpu_spend'' then
        let cost = or_zero (af_gpu_cost_usd f) in
        (cost > ap_max_gpu_cost_usd pol,
         ''GPU spend estimate is $'' @ py_fixed 2 cost @ ''; policy allows $'' @
           py_fixed 2 (ap_max_gpu_cost_usd pol) @ '' without approval.'',
         if cost \<ge> 10 then ''high'' else ''medium'')
      else if action = ''unofficial_repo'' then
        (\<not> ap_allow_unofficial_repos pol \<or> af_repo_trust_level f \<notin> {''primary'', ''strong_secondary''},
         ''Repository trust level is '' @ or_text (af_repo_trust_level f) ''unknown'' @ ''.'',
         if af_repo_trust_level f \<in> {''weak'', ''unknown'', []} then ''high'' else ''medium'')
      else if action = ''unknown_license'' then
        (ap_require_unknown_license pol \<and> af_license_state f \<in> {[], ''unknown'', ''requires_user_confirmation''},
         ''License state is '' @ or_text (af_license_state f) ''unknown'' @ ''.'', ''high'')
      else if action = ''sandbox_network'' then
        let stage = or_text (af_network_stage f) ''run'';
            allowed = (if stage = ''build'' then ap_allow_network_during_build pol else ap_allow_network_during_run pol)
        in (\<not> allowed,
            ''Network requested during '' @ stage @ ''; policy allowed='' @ (if allowed then ''True'' else ''False'') @ ''.'',
            if stage \<noteq> ''build'' then ''high'' else ''medium'')
      else if action = ''high_risk_assumption'' then
        (af_assumption_risk f \<in> {''high'', ''critical''},
         ''Assumption risk is '' @ or_text (af_assumption_risk f) ''unspecified'' @ ''.'',
         if af_assumption_risk f = ''critical'' then ''critical'' else ''high'')
      else if action = ''substitute_dataset'' then
        (True, ''Substitute datasets change the reproduction contract.'', ''critical'')
      else if action = ''external_upload'' then
        (True, ''External artifact upload can expose code, data, or credentials.'', ''high'')
      else if action = ''untrusted_code'' then
        (True, ''Running untrusted code requires explicit approval.'', ''high'')
      else (False, [], ''medium''))"

definition evaluate :: "approval_policy \<Rightarrow> string \<Rightarrow> action_facts \<Rightarrow> approval_error + approval_evaluation" where
  "evaluate pol action f =
     (let (requires, reason, risk) = evaluate_action pol action f;
          blocked = af_external_data f \<and> \<not> ap_allow_external_data pol
      in if action \<notin> set approval_actions then Inl ApprovalValidationError
         else Inr \<lparr>ae_action = action,
           ae_requires_approval = (if blocked then True else requires),
           ae_reason = (if blocked then reason @ '' External data for improvements is disallowed without approval.'' else reason),
           ae_risk = (if blocked then ''high'' else risk),
           ae_policy_snapshot = pol, ae_metadata = af_metadata f\<rparr>)"

section \<open>Requests\<close>

definition approval_id_for :: "(string \<Rightarrow> string) \<Rightarrow> string \<Rightarrow> string \<Rightarrow> string \<Rightarrow> string \<Rightarrow> string" where
  "approval_id_for sha256_hex project_id action label details =
     ''appr_'' @ take 20 (sha256_hex ((''approval:'' @ project_id @ '':'' @ action @ '':'' @ label @ '':'') @ details))"

type_synonym approval_table = "(string \<times> approval_request) list"

definition approval_upsert :: "approval_table \<Rightarrow> approval_request \<Rightarrow> approval_table" where
  "approval_upsert tb q = insert_or_replace (aq_approval_id q) q tb"

definition valid_request :: "approval_request \<Rightarrow> bool" where
  "valid_request q \<longleftrightarrow> aq_action q \<in> set approval_actions \<and> aq_state q \<in> set approval_states \<and>
     aq_risk q \<in> set approval_risks"

text \<open>\<open>_request_from_row\<close>: building the model validates the literals.\<close>

definition request_from_row :: "approval_request \<Rightarrow> approval_error + approval_request" where
  "request_from_row q = (if valid_request q then Inr q else Inl ApprovalValidationError)"

definition create_request :: "(string \<Rightarrow> string) \<Rightarrow> approval_table \<Rightarrow> time \<Rightarrow> string \<Rightarrow> string \<Rightarrow> string \<Rightarrow> string \<Rightarrow> string \<Rightarrow> metadata \<Rightarrow>
    (approval_error + approval_request) \<times> approval_table" where
  "create_request sha256_hex tb now project_id action label details risk metadata =
     (let q = \<lparr>aq_approval_id = approval_id_for sha256_hex project_id action label details, aq_project_id = project_id,
           aq_action = action, aq_label = label, aq_details = details, aq_state = ''pending'', aq_risk = risk,
           aq_metadata = metadata, aq_created_at = now, aq_resolved_at = None, aq_resolved_by = [],
           aq_resolution_note = []\<rparr>
      in case request_from_row q of
           Inl e \<Rightarrow> (Inl e, tb)
         | Inr q' \<Rightarrow> (Inr q', approval_upsert tb q'))"

definition request_if_needed :: "(string \<Rightarrow> string) \<Rightarrow> approval_table \<Rightarrow> time \<Rightarrow> string \<Rightarrow> string \<Rightarrow> approval_evaluation \<Rightarrow>
    (approval_error + approval_request option) \<times> approval_table" where
  "request_if_needed sha256_hex tb now project_id label ev =
     (if \<not> ae_requires_approval ev then (Inr None, tb)
      else case create_request sha256_hex tb now project_id (ae_action ev) label (ae_reason ev) (ae_risk ev) (ae_metadata ev) of
             (Inl e, tb') \<Rightarrow> (Inl e, tb') | (Inr q, tb') \<Rightarrow> (Inr (Some q), tb'))"

definition get_request :: "approval_table \<Rightarrow> string \<Rightarrow> approval_error + approval_request option" where
  "get_request tb approval_id =
     (case map_of tb approval_id of
        None \<Rightarrow> Inr None
      | Some row \<Rightarrow> (case request_from_row row of Inl e \<Rightarrow> Inl e | Inr q \<Rightarrow> Inr (Some q)))"

text \<open>\<open>resolve\<close>; \<open>model_copy\<close> does not validate the new state.\<close>

definition resolve_request :: "approval_table \<Rightarrow> time \<Rightarrow> string \<Rightarrow> string \<Rightarrow> string \<Rightarrow> string \<Rightarrow>
    (approval_error + approval_request) \<times> approval_table" where
  "resolve_request tb now approval_id state resolved_by note =
     (case get_request tb approval_id of
        Inl e \<Rightarrow> (Inl e, tb)
      | Inr None \<Rightarrow> (Inl (UnknownApproval approval_id), tb)
      | Inr (Some existing) \<Rightarrow>
          let q = existing\<lparr>aq_state := state, aq_resolved_at := Some now, aq_resolved_by := resolved_by,
                aq_resolution_note := note\<rparr>
          in (Inr q, approval_upsert tb q))"

fun rows_to_requests :: "approval_request list \<Rightarrow> approval_error + approval_request list" where
  "rows_to_requests [] = Inr []"
| "rows_to_requests (r # rs) =
     (case request_from_row r of
        Inl e \<Rightarrow> Inl e
      | Inr q \<Rightarrow> (case rows_to_requests rs of Inl e \<Rightarrow> Inl e | Inr qs \<Rightarrow> Inr (q # qs)))"

definition list_requests :: "(approval_request list \<Rightarrow> approval_request list) \<Rightarrow> approval_table \<Rightarrow> string option \<Rightarrow> string option \<Rightarrow>
    approval_error + approval_request list" where
  "list_requests scan tb project_id state =
     rows_to_requests (sort_key (\<lambda>q. - aq_created_at q) (filter (\<lambda>q.
       (case project_id of None \<Rightarrow> True | Some p \<Rightarrow> aq_project_id q = p) \<and>
       (case state of None \<Rightarrow> True | Some s \<Rightarrow> aq_state q = s)) (scan (map snd tb))))"

section \<open>The policy is monotone\<close>

definition more_permissive :: "approval_policy \<Rightarrow> approval_policy \<Rightarrow> bool" where
  "more_permissive pol pol' \<longleftrightarrow>
     ap_max_dataset_download_gb pol \<le> ap_max_dataset_download_gb pol' \<and>
     ap_max_runtime_minutes pol \<le> ap_max_runtime_minutes pol' \<and>
     ap_max_gpu_cost_usd pol \<le> ap_max_gpu_cost_usd pol' \<and>
     (ap_allow_unofficial_repos pol \<longrightarrow> ap_allow_unofficial_repos pol') \<and>
     (ap_allow_network_during_build pol \<longrightarrow> ap_allow_network_during_build pol') \<and>
     (ap_allow_network_during_run pol \<longrightarrow> ap_allow_network_during_run pol') \<and>
     (ap_allow_external_data pol \<longrightarrow> ap_allow_external_data pol') \<and>
     (ap_require_unknown_license pol' \<longrightarrow> ap_require_unknown_license pol)"

lemma evaluate_action_mono:
  assumes "more_permissive pol pol'" "fst (evaluate_action pol' action f)"
  shows "fst (evaluate_action pol action f)"
proof -
  have m: "of_int (ap_max_runtime_minutes pol) \<le> (of_int (ap_max_runtime_minutes pol') :: real)"
    using assms(1) by (simp add: more_permissive_def)
  show ?thesis
    using assms m unfolding evaluate_action_def more_permissive_def Let_def by (simp split: if_splits)
qed

text \<open>
  Loosening the policy never makes an action need approval that did not need it before;
  and under every policy, however permissive, substituting a dataset, uploading artifacts and
  running untrusted code do need it, as does any action that uses external data while the
  policy disallows it.
\<close>

theorem approval_policy_monotone:
  assumes "more_permissive pol pol'" and "evaluate pol action f = Inr ev" and "evaluate pol' action f = Inr ev'"
  shows "(ae_requires_approval ev' \<longrightarrow> ae_requires_approval ev) \<and>
    (action \<in> {''substitute_dataset'', ''external_upload'', ''untrusted_code''} \<longrightarrow> ae_requires_approval ev') \<and>
    (af_external_data f \<and> \<not> ap_allow_external_data pol' \<longrightarrow> ae_requires_approval ev' \<and> ae_requires_approval ev)"
proof -
  have ev: "ae_requires_approval e \<longleftrightarrow> af_external_data f \<and> \<not> ap_allow_external_data p \<or> fst (evaluate_action p action f)"
    if "evaluate p action f = Inr e" for p e
    using that by (auto simp: evaluate_def Let_def split: prod.splits if_splits)
  have "fst (evaluate_action pol' action f)"
    if "action \<in> {''substitute_dataset'', ''external_upload'', ''untrusted_code''}"
    using that by (auto simp: evaluate_action_def)
  moreover have "\<not> ap_allow_external_data pol' \<longrightarrow> \<not> ap_allow_external_data pol"
    using assms(1) by (auto simp: more_permissive_def)
  ultimately show ?thesis
    using ev [OF assms(2)] ev [OF assms(3)] evaluate_action_mono [OF assms(1)] by blast
qed

section \<open>Requests and decisions\<close>

lemma create_request_Inr:
  assumes "create_request sha tb now pid action label details risk md = (Inr q, tb')"
  shows "tb' = insert_or_replace (approval_id_for sha pid action label details) q tb"
    "aq_approval_id q = approval_id_for sha pid action label details" "aq_state q = ''pending''"
    "aq_label q = label" "aq_details q = details" "aq_resolved_at q = None" "valid_request q"
  using assms by (auto simp: create_request_def request_from_row_def approval_upsert_def Let_def split: if_splits)

lemma get_request_insert:
  "get_request (insert_or_replace i q tb) j =
     (if j = i then (if valid_request q then Inr (Some q) else Inl ApprovalValidationError) else get_request tb j)"
  by (simp add: get_request_def request_from_row_def)

text \<open>
  A decision sticks to its request: after creating a request and resolving it with a valid
  state, \<open>get\<close> returns the request with that state, resolver, note and time and everything else as
  created; every other request reads as before.
\<close>

theorem resolution_recorded:
  assumes "create_request sha tb now pid action label details risk md = (Inr q, tb1)"
    and "state \<in> set approval_states"
  shows "\<exists>q' tb2. resolve_request tb1 now2 (aq_approval_id q) state who note = (Inr q', tb2) \<and>
    q' = q\<lparr>aq_state := state, aq_resolved_at := Some now2, aq_resolved_by := who, aq_resolution_note := note\<rparr> \<and>
    get_request tb2 (aq_approval_id q) = Inr (Some q') \<and>
    (\<forall>j. j \<noteq> aq_approval_id q \<longrightarrow> get_request tb2 j = get_request tb j)"
proof -
  note c = create_request_Inr [OF assms(1)]
  let ?q = "q\<lparr>aq_state := state, aq_resolved_at := Some now2, aq_resolved_by := who, aq_resolution_note := note\<rparr>"
  have g: "get_request tb1 (aq_approval_id q) = Inr (Some q)" by (simp add: c(1,2,7) get_request_insert)
  have v: "valid_request ?q" using c(7) assms(2) by (simp add: valid_request_def)
  have "resolve_request tb1 now2 (aq_approval_id q) state who note = (Inr ?q, insert_or_replace (aq_approval_id q) ?q tb1)"
    by (simp add: resolve_request_def g Let_def approval_upsert_def)
  then show ?thesis using v by (simp add: get_request_insert c(1,2))
qed

text \<open>
  Asking again discards the decision: creating a request with the same project, action, label
  and details as one that is already stored, whatever its state, replaces it by a pending one;
  the resolver and the note are gone.
\<close>

theorem recreating_discards_decision:
  assumes "get_request tb (approval_id_for sha pid action label details) = Inr (Some old)" and "aq_state old = ''approved''"
    and "create_request sha tb now pid action label details risk md = (Inr q, tb')"
  shows "get_request tb' (approval_id_for sha pid action label details) = Inr (Some q) \<and>
    aq_state q = ''pending'' \<and> aq_resolved_at q = None \<and> q \<noteq> old"
proof -
  note c = create_request_Inr [OF assms(3)]
  have "q \<noteq> old" using assms(2) c(3) by auto
  then show ?thesis using c by (simp add: get_request_insert)
qed

text \<open>
  The id does not separate label from details: two requests of one project and action whose
  labels and details differ only in where a colon falls have the same id for every hash
  function, so creating one deletes the other.
\<close>

theorem approval_ids_collide:
  assumes "create_request sha tb now pid action label (rest @ '':'' @ details) risk md = (Inr q1, tb1)"
    and "create_request sha tb1 now2 pid action (label @ '':'' @ rest) details risk md = (Inr q2, tb2)"
  shows "aq_approval_id q1 = aq_approval_id q2 \<and> aq_label q1 \<noteq> aq_label q2 \<and>
    get_request tb2 (aq_approval_id q1) = Inr (Some q2)"
proof -
  note c1 = create_request_Inr [OF assms(1)] and c2 = create_request_Inr [OF assms(2)]
  have "aq_approval_id q1 = aq_approval_id q2" unfolding c1(2) c2(2) by (simp add: approval_id_for_def)
  then show ?thesis using c1 c2 by (auto simp: get_request_insert)
qed

section \<open>Sample runs\<close>

definition no_facts :: action_facts where
  "no_facts = \<lparr>af_dataset_size_gb = Some 3, af_runtime_minutes = None, af_gpu_cost_usd = None,
     af_repo_trust_level = [], af_license_state = [], af_network_stage = [], af_assumption_risk = [],
     af_external_data = False, af_metadata = []\<rparr>"

theorem approval_policy_monotone_witness:
  "\<exists>ev. evaluate default_policy ''untrusted_code'' no_facts = Inr ev \<and> ae_requires_approval ev"
proof -
  have m: "more_permissive default_policy default_policy" by (simp add: more_permissive_def)
  obtain ev where ev: "evaluate default_policy ''untrusted_code'' no_facts = Inr ev"
    by (simp add: evaluate_def approval_actions_def Let_def case_prod_beta)
  from approval_policy_monotone [OF m ev ev] ev show ?thesis by auto
qed

definition sample_request :: "string \<Rightarrow> string \<Rightarrow> approval_request" where
  "sample_request label details = \<lparr>aq_approval_id = approval_id_for (\<lambda>s. s) ''p'' ''long_run'' label details,
     aq_project_id = ''p'', aq_action = ''long_run'', aq_label = label, aq_details = details, aq_state = ''pending'',
     aq_risk = ''high'', aq_metadata = [], aq_created_at = 1, aq_resolved_at = None, aq_resolved_by = [],
     aq_resolution_note = []\<rparr>"

lemma sample_create: "create_request (\<lambda>s. s) tb 1 ''p'' ''long_run'' label details ''high'' [] =
    (Inr (sample_request label details), insert_or_replace (approval_id_for (\<lambda>s. s) ''p'' ''long_run'' label details)
       (sample_request label details) tb)"
  by (simp add: create_request_def request_from_row_def valid_request_def approval_actions_def approval_states_def
      approval_risks_def approval_upsert_def sample_request_def Let_def)

theorem resolution_recorded_witness:
  "\<exists>q' tb2. resolve_request [(aq_approval_id (sample_request ''l'' ''d''), sample_request ''l'' ''d'')] 5
      (aq_approval_id (sample_request ''l'' ''d'')) ''approved'' ''ann'' [] = (Inr q', tb2) \<and> aq_state q' = ''approved''"
proof -
  have "''approved'' \<in> set approval_states" by (simp add: approval_states_def)
  from resolution_recorded [OF sample_create [of "[]" "''l''" "''d''"] this, of 5 "''ann''" "[]"]
  show ?thesis by (auto simp: insert_or_replace_def sample_request_def)
qed

theorem recreating_discards_decision_witness:
  "\<exists>q tb'. create_request (\<lambda>s. s) [(aq_approval_id (sample_request ''l'' ''d''), sample_request ''l'' ''d''\<lparr>aq_state := ''approved''\<rparr>)]
      1 ''p'' ''long_run'' ''l'' ''d'' ''high'' [] = (Inr q, tb') \<and>
     get_request tb' (aq_approval_id (sample_request ''l'' ''d'')) = Inr (Some q) \<and> aq_state q = ''pending''"
proof -
  let ?tb = "[(aq_approval_id (sample_request ''l'' ''d''), sample_request ''l'' ''d''\<lparr>aq_state := ''approved''\<rparr>)]"
  have i: "aq_approval_id (sample_request ''l'' ''d'') = approval_id_for (\<lambda>s. s) ''p'' ''long_run'' ''l'' ''d''"
    by (simp add: sample_request_def)
  have "get_request ?tb (approval_id_for (\<lambda>s. s) ''p'' ''long_run'' ''l'' ''d'') =
      Inr (Some (sample_request ''l'' ''d''\<lparr>aq_state := ''approved''\<rparr>))"
    by (simp add: get_request_def request_from_row_def valid_request_def approval_actions_def approval_states_def
        approval_risks_def sample_request_def)
  from recreating_discards_decision [OF this _ sample_create] sample_create [of ?tb "''l''" "''d''"]
  show ?thesis unfolding i by auto
qed

theorem approval_ids_collide_witness:
  "aq_approval_id (sample_request ''a'' (''b'' @ '':'' @ ''c'')) = aq_approval_id (sample_request (''a'' @ '':'' @ ''b'') ''c'')"
  using approval_ids_collide [OF sample_create [of "[]" "''a''" "''b'' @ '':'' @ ''c''"] sample_create] by simp

end
