(* ===== verification/Failures.thy ===== *)
theory Failures
  imports Prelude
begin

text \<open>
  The failure taxonomy and its classifier, \<^verbatim>\<open>src/backend/agents/resilience/failures.py\<close> and
  \<^verbatim>\<open>classify.py\<close>. A failure class is a constructor of \<open>failure_class\<close> with the fields the class
  adds; \<open>isinstance\<close> tests are the predicates below. A foreign exception is the record of what
  the classifier reads of it. Parsing a float and an e-mail date from a header, and the repr of
  a string, are arguments.
\<close>

datatype provider = Anthropic | Openai

fun provider_name :: "provider \<Rightarrow> string" where
  "provider_name Anthropic = ''anthropic''"
| "provider_name Openai = ''openai''"

section \<open>Failures\<close>

datatype failure_class =
    RuntimeFailure
  | TransientError
  | RateLimited "real option"
  | QuotaExhausted "time option"
  | TurnBudgetExhausted int
  | ToolBudgetExhausted int
  | WallClockExceeded int
  | FatalRuntimeFailure
  | AuthenticationError
  | GuardViolation
  | SchemaValidationError
  | BudgetExhausted

fun class_name :: "failure_class \<Rightarrow> string" where
  "class_name RuntimeFailure = ''RuntimeFailure''"
| "class_name TransientError = ''TransientError''"
| "class_name (RateLimited _) = ''RateLimited''"
| "class_name (QuotaExhausted _) = ''QuotaExhausted''"
| "class_name (TurnBudgetExhausted _) = ''TurnBudgetExhausted''"
| "class_name (ToolBudgetExhausted _) = ''ToolBudgetExhausted''"
| "class_name (WallClockExceeded _) = ''WallClockExceeded''"
| "class_name FatalRuntimeFailure = ''FatalRuntimeFailure''"
| "class_name AuthenticationError = ''AuthenticationError''"
| "class_name GuardViolation = ''GuardViolation''"
| "class_name SchemaValidationError = ''SchemaValidationError''"
| "class_name BudgetExhausted = ''BudgetExhausted''"

text \<open>\<open>isinstance(f, TurnBudgetExhausted)\<close>: the class and its two subclasses.\<close>

fun is_turn_budget :: "failure_class \<Rightarrow> bool" where
  "is_turn_budget (TurnBudgetExhausted _) = True"
| "is_turn_budget (ToolBudgetExhausted _) = True"
| "is_turn_budget (WallClockExceeded _) = True"
| "is_turn_budget _ = False"

fun limit_value :: "failure_class \<Rightarrow> int" where
  "limit_value (TurnBudgetExhausted n) = n"
| "limit_value (ToolBudgetExhausted n) = n"
| "limit_value (WallClockExceeded n) = n"
| "limit_value _ = 0"

text \<open>\<open>isinstance(f, FatalRuntimeFailure)\<close>.\<close>

fun is_fatal :: "failure_class \<Rightarrow> bool" where
  "is_fatal FatalRuntimeFailure = True"
| "is_fatal AuthenticationError = True"
| "is_fatal GuardViolation = True"
| "is_fatal SchemaValidationError = True"
| "is_fatal BudgetExhausted = True"
| "is_fatal _ = False"

record runtime_failure =
  rf_class :: failure_class
  rf_message :: string
  rf_provider :: "provider option"
  rf_agent_id :: string
  rf_elapsed_seconds :: real
  rf_partial_output :: string

definition make_failure :: "failure_class \<Rightarrow> string \<Rightarrow> provider option \<Rightarrow> string \<Rightarrow> real \<Rightarrow> string \<Rightarrow> runtime_failure" where
  "make_failure c message prov agent_id elapsed partial =
     \<lparr>rf_class = c, rf_message = (if message \<noteq> [] then message else class_name c), rf_provider = prov,
      rf_agent_id = agent_id, rf_elapsed_seconds = elapsed, rf_partial_output = partial\<rparr>"

section \<open>Exceptions that reach the classifier\<close>

datatype limit_kind = Turns | Tool_Calls | Wall_Clock

record agent_limit =
  al_agent_id :: string
  al_kind :: limit_kind
  al_limit_value :: int
  al_elapsed_seconds :: real
  al_partial_output :: string
  al_str :: string

datatype http_status = Status_Int int | Status_Unconvertible
datatype headers_value = Headers_Dict "(string \<times> string) list" | Headers_Unconvertible

text \<open>A foreign exception: its class name, \<open>str(exc)\<close>, the texts of its truthy attributes \<open>body\<close>,
  \<open>response\<close>, \<open>message\<close>, \<open>error\<close> in this order, its status codes and headers.\<close>

record foreign_exc =
  fx_class_name :: string
  fx_str :: string
  fx_attrs :: "string list"
  fx_status_code :: "http_status option"
  fx_response_status_code :: "http_status option"
  fx_headers :: "headers_value option"
  fx_response_headers :: "headers_value option"

datatype py_exc =
    Exc_Failure runtime_failure
  | Exc_Limit agent_limit
  | Exc_Guard string
  | Exc_Foreign foreign_exc

definition from_agent_limit :: "provider \<Rightarrow> agent_limit \<Rightarrow> runtime_failure" where
  "from_agent_limit prov l =
     make_failure (case al_kind l of
         Tool_Calls \<Rightarrow> ToolBudgetExhausted (al_limit_value l)
       | Wall_Clock \<Rightarrow> WallClockExceeded (al_limit_value l)
       | Turns \<Rightarrow> TurnBudgetExhausted (al_limit_value l))
       (al_str l) (Some prov) (al_agent_id l) (al_elapsed_seconds l) (al_partial_output l)"

definition from_guard_violation :: "provider \<Rightarrow> string \<Rightarrow> string \<Rightarrow> real \<Rightarrow> string \<Rightarrow> runtime_failure" where
  "from_guard_violation prov text agent_id elapsed partial =
     make_failure GuardViolation text (Some prov) agent_id elapsed partial"

section \<open>Reading an exception\<close>

fun join_lines :: "string list \<Rightarrow> string" where
  "join_lines [] = []"
| "join_lines [x] = x"
| "join_lines (x # xs) = x @ CHR 0x0A # join_lines xs"

definition failure_text :: "foreign_exc \<Rightarrow> string" where
  "failure_text x = py_lower (join_lines (fx_class_name x # fx_str x # fx_attrs x))"

definition status_code :: "foreign_exc \<Rightarrow> int option" where
  "status_code x =
     (case (case fx_status_code x of None \<Rightarrow> fx_response_status_code x | Some v \<Rightarrow> Some v) of
        Some (Status_Int n) \<Rightarrow> Some n
      | _ \<Rightarrow> None)"

definition headers_of :: "foreign_exc \<Rightarrow> (string \<times> string) list" where
  "headers_of x =
     (case (case fx_headers x of None \<Rightarrow> fx_response_headers x | Some h \<Rightarrow> Some h) of
        Some (Headers_Dict h) \<Rightarrow> h
      | _ \<Rightarrow> [])"

text \<open>The dict comprehension with lower-case keys: a later key replaces an earlier equal one.\<close>

definition header_get :: "foreign_exc \<Rightarrow> string \<Rightarrow> string option" where
  "header_get x key = map_of (rev (map (\<lambda>(k, v). (py_lower k, v)) (headers_of x))) key"

text \<open>\<open>a or b\<close> on optional texts.\<close>

definition or_else :: "string option \<Rightarrow> string option \<Rightarrow> string option" where
  "or_else a b = (case a of Some s \<Rightarrow> if s \<noteq> [] then a else b | None \<Rightarrow> b)"

definition retry_after_seconds :: "(string \<Rightarrow> real option) \<Rightarrow> (string \<Rightarrow> time option) \<Rightarrow> time \<Rightarrow> foreign_exc \<Rightarrow> real option" where
  "retry_after_seconds parse_float parse_date now x =
     (case or_else (header_get x ''retry-after'') (header_get x ''x-ratelimit-reset-seconds'') of
        None \<Rightarrow> None
      | Some raw \<Rightarrow>
          (case parse_float raw of
             Some f \<Rightarrow> Some (max 0 f)
           | None \<Rightarrow> (case parse_date raw of
                        Some t \<Rightarrow> Some (max 0 (real_of_int (t - now) / 1000000))
                      | None \<Rightarrow> None)))"

definition reset_time :: "(string \<Rightarrow> time option) \<Rightarrow> foreign_exc \<Rightarrow> time option" where
  "reset_time parse_date x =
     (case or_else (header_get x ''x-ratelimit-reset'') (header_get x ''anthropic-ratelimit-reset'') of
        None \<Rightarrow> None
      | Some raw \<Rightarrow> parse_date raw)"

text \<open>\<open>_TURN_LIMIT_RE\<close> at one point of the text, and its search. The text is lower case.\<close>

definition turn_limit_at :: "string \<Rightarrow> nat option" where
  "turn_limit_at s =
     (if prefix ''maximum number of turns'' s then
        (case dropWhile py_space (drop 23 s) of
           [] \<Rightarrow> None
         | c # rest \<Rightarrow>
             if c \<noteq> CHR ''('' then None
             else let digits = takeWhile py_digit rest in
               if digits \<noteq> [] \<and> prefix '')'' (drop (length digits) rest) then Some (nat_of_digits digits) else None)
      else None)"

fun turn_limit :: "string \<Rightarrow> nat option" where
  "turn_limit [] = turn_limit_at []"
| "turn_limit (c # cs) = (case turn_limit_at (c # cs) of Some n \<Rightarrow> Some n | None \<Rightarrow> turn_limit cs)"

text \<open>\<open>_STEP_LIMIT_RE.search\<close>: everything after \<open>step\<close> is optional in the expression.\<close>

definition step_limit :: "string \<Rightarrow> bool" where
  "step_limit text \<longleftrightarrow> py_in ''max step'' text \<or> py_in ''maximum step'' text \<or>
     py_in ''max number of step'' text \<or> py_in ''maximum number of step'' text"

definition claude_quota_phrases :: "string list" where
  "claude_quota_phrases = [''you'' @ CHR 0x27 # ''ve hit your limit'', ''you have hit your limit'',
     ''claude code returned an error result: success'']"

definition quota_phrases :: "string list" where
  "quota_phrases = [''insufficient_quota'', ''quota exceeded'', ''current quota'', ''billing'', ''credit balance'', ''usage limit'']"

definition transient_phrases :: "string list" where
  "transient_phrases = [''timeout'', ''timed out'', ''connection reset'', ''connection aborted'', ''temporary failure'',
     ''temporarily unavailable'', ''service unavailable'']"

definition any_phrase :: "string list \<Rightarrow> string \<Rightarrow> bool" where
  "any_phrase phrases text \<longleftrightarrow> list_ex (\<lambda>p. py_in p text) phrases"

section \<open>Classification\<close>

record header_parsers =
  hp_float :: "string \<Rightarrow> real option"
  hp_date :: "string \<Rightarrow> time option"
  hp_now :: time

definition anthropic_class :: "header_parsers \<Rightarrow> foreign_exc \<Rightarrow> failure_class" where
  "anthropic_class hp x =
     (let text = failure_text x; status = status_code x; cname = py_lower (fx_class_name x) in
      case turn_limit text of
        Some n \<Rightarrow> TurnBudgetExhausted (int n)
      | None \<Rightarrow>
          if py_in ''authentication'' cname \<or> status = Some 401 \<or> status = Some 403 then AuthenticationError
          else if any_phrase quota_phrases text then QuotaExhausted (reset_time (hp_date hp) x)
          else if any_phrase claude_quota_phrases text then QuotaExhausted (reset_time (hp_date hp) x)
          else if py_in ''ratelimit'' cname \<or> py_in ''rate_limit'' text \<or> status = Some 429 then
            (if any_phrase quota_phrases text then QuotaExhausted (reset_time (hp_date hp) x)
             else RateLimited (retry_after_seconds (hp_float hp) (hp_date hp) (hp_now hp) x))
          else if (case status of Some n \<Rightarrow> n \<ge> 500 | None \<Rightarrow> False) then TransientError
          else if any_phrase transient_phrases text then TransientError
          else TransientError)"

definition openai_class :: "header_parsers \<Rightarrow> foreign_exc \<Rightarrow> failure_class" where
  "openai_class hp x =
     (let text = failure_text x; status = status_code x; cname = py_lower (fx_class_name x) in
      if turn_limit text \<noteq> None \<or> step_limit text
      then TurnBudgetExhausted (case turn_limit text of Some n \<Rightarrow> int n | None \<Rightarrow> 0)
      else if py_in ''authentication'' cname \<or> status = Some 401 \<or> status = Some 403 then AuthenticationError
      else if any_phrase quota_phrases text then QuotaExhausted (reset_time (hp_date hp) x)
      else if py_in ''ratelimit'' cname \<or> py_in ''rate_limit'' text \<or> status = Some 429 then
        (if any_phrase quota_phrases text then QuotaExhausted (reset_time (hp_date hp) x)
         else RateLimited (retry_after_seconds (hp_float hp) (hp_date hp) (hp_now hp) x))
      else if py_in ''apiconnection'' cname \<or> py_in ''timeout'' cname then TransientError
      else if (case status of Some n \<Rightarrow> n \<ge> 500 | None \<Rightarrow> False) then TransientError
      else if any_phrase transient_phrases text then TransientError
      else TransientError)"

definition classify_anthropic :: "header_parsers \<Rightarrow> foreign_exc \<Rightarrow> string \<Rightarrow> real \<Rightarrow> string \<Rightarrow> runtime_failure" where
  "classify_anthropic hp x agent_id elapsed partial =
     make_failure (anthropic_class hp x) (fx_str x) (Some Anthropic) agent_id elapsed partial"

definition classify_openai :: "header_parsers \<Rightarrow> foreign_exc \<Rightarrow> string \<Rightarrow> real \<Rightarrow> string \<Rightarrow> runtime_failure" where
  "classify_openai hp x agent_id elapsed partial =
     make_failure (openai_class hp x) (fx_str x) (Some Openai) agent_id elapsed partial"

definition classify_failure :: "header_parsers \<Rightarrow> provider \<Rightarrow> py_exc \<Rightarrow> string \<Rightarrow> real \<Rightarrow> string \<Rightarrow> runtime_failure" where
  "classify_failure hp prov e agent_id elapsed partial =
     (case e of
        Exc_Failure f \<Rightarrow> f
      | Exc_Limit l \<Rightarrow> from_agent_limit prov l
      | Exc_Guard text \<Rightarrow> from_guard_violation prov text agent_id elapsed partial
      | Exc_Foreign x \<Rightarrow>
          if prov = Anthropic then classify_anthropic hp x agent_id elapsed partial
          else classify_openai hp x agent_id elapsed partial)"

section \<open>The two classifiers agree\<close>

text \<open>
  The provider decides only how two families of messages are read: unless the text has a
  Claude session-limit phrase or a step-limit phrase, the same exception gets the same failure
  class from both classifiers; and the provider-independent exceptions are never taken for
  something else.
\<close>

theorem classifiers_agree:
  assumes "\<not> any_phrase claude_quota_phrases (failure_text x)" and "\<not> step_limit (failure_text x)"
  shows "rf_class (classify_failure hp Anthropic (Exc_Foreign x) a t p) =
      rf_class (classify_failure hp Openai (Exc_Foreign x) a t p) \<and>
    (\<forall>prov l. is_turn_budget (rf_class (classify_failure hp prov (Exc_Limit l) a t p)) \<and>
       limit_value (rf_class (classify_failure hp prov (Exc_Limit l) a t p)) = al_limit_value l) \<and>
    (\<forall>prov g. is_fatal (rf_class (classify_failure hp prov (Exc_Guard g) a t p)))"
proof -
  have "anthropic_class hp x = openai_class hp x"
    using assms by (auto simp: anthropic_class_def openai_class_def Let_def split: option.splits)
  then show ?thesis
    by (auto simp: classify_failure_def classify_anthropic_def classify_openai_def make_failure_def
        from_agent_limit_def from_guard_violation_def split: limit_kind.split)
qed

definition quiet_parsers :: header_parsers where
  "quiet_parsers = \<lparr>hp_float = (\<lambda>_. None), hp_date = (\<lambda>_. None), hp_now = 0\<rparr>"

definition plain_exc :: "string \<Rightarrow> string \<Rightarrow> foreign_exc" where
  "plain_exc c s = \<lparr>fx_class_name = c, fx_str = s, fx_attrs = [], fx_status_code = None, fx_response_status_code = None,
     fx_headers = None, fx_response_headers = None\<rparr>"

theorem classifiers_agree_witness:
  "rf_class (classify_failure quiet_parsers Anthropic (Exc_Foreign (plain_exc ''E'' ''billing'')) [] 0 []) =
     rf_class (classify_failure quiet_parsers Openai (Exc_Foreign (plain_exc ''E'' ''billing'')) [] 0 [])"
proof -
  have "\<not> any_phrase claude_quota_phrases (failure_text (plain_exc ''E'' ''billing''))"
    "\<not> step_limit (failure_text (plain_exc ''E'' ''billing''))" by code_simp+
  from classifiers_agree [OF this] show ?thesis by blast
qed

end
