(* ===== verification/Provider_Health.thy ===== *)
theory Provider_Health
  imports Failures Call_Machine
begin

text \<open>
  Provider health and cooldowns, \<^verbatim>\<open>src/backend/agents/resilience/health.py\<close>. The monitor maps each
  provider to its state, a fresh state where the code would create one; every call that reads
  the clock gets the instant.
\<close>

record provider_health =
  ph_consecutive_quota_failures :: nat
  ph_consecutive_transient_failures :: nat
  ph_last_quota_failure_at :: "time option"
  ph_last_transient_failure_at :: "time option"
  ph_cooldown_until :: "time option"
  ph_dead_reason :: string

type_synonym health_monitor = "provider \<Rightarrow> provider_health"

definition fresh_health :: provider_health where
  "fresh_health = \<lparr>ph_consecutive_quota_failures = 0, ph_consecutive_transient_failures = 0,
     ph_last_quota_failure_at = None, ph_last_transient_failure_at = None, ph_cooldown_until = None, ph_dead_reason = []\<rparr>"

definition new_monitor :: health_monitor where
  "new_monitor = (\<lambda>_. fresh_health)"

definition record_success :: "health_monitor \<Rightarrow> provider \<Rightarrow> health_monitor" where
  "record_success m p = m(p := (m p)\<lparr>ph_consecutive_quota_failures := 0, ph_consecutive_transient_failures := 0,
     ph_cooldown_until := None\<rparr>)"

definition quota_failure :: "time \<Rightarrow> time option \<Rightarrow> provider_health \<Rightarrow> provider_health" where
  "quota_failure now resets_at s =
     (let s1 = s\<lparr>ph_consecutive_quota_failures := Suc (ph_consecutive_quota_failures s),
               ph_consecutive_transient_failures := 0, ph_last_quota_failure_at := Some now\<rparr>
      in case resets_at of
           Some t \<Rightarrow> s1\<lparr>ph_cooldown_until := Some t\<rparr>
         | None \<Rightarrow> if ph_consecutive_quota_failures s1 \<ge> 3 then s1\<lparr>ph_cooldown_until := Some (now + minutes 30)\<rparr> else s1)"

definition transient_failure :: "time \<Rightarrow> provider_health \<Rightarrow> provider_health" where
  "transient_failure now s =
     (let n0 = (case ph_last_transient_failure_at s of
            Some t \<Rightarrow> if now - t > seconds 60 then 0 else ph_consecutive_transient_failures s
          | None \<Rightarrow> ph_consecutive_transient_failures s);
          s1 = s\<lparr>ph_consecutive_transient_failures := Suc n0, ph_last_transient_failure_at := Some now\<rparr>
      in if Suc n0 \<ge> 5 then s1\<lparr>ph_cooldown_until := Some (now + minutes 5)\<rparr> else s1)"

definition record_failure :: "health_monitor \<Rightarrow> time \<Rightarrow> provider \<Rightarrow> failure_class \<Rightarrow> health_monitor" where
  "record_failure m now p f =
     (case f of
        QuotaExhausted resets_at \<Rightarrow> m(p := quota_failure now resets_at (m p))
      | TransientError \<Rightarrow> m(p := transient_failure now (m p))
      | _ \<Rightarrow> m)"

definition is_healthy :: "health_monitor \<Rightarrow> time \<Rightarrow> provider \<Rightarrow> bool" where
  "is_healthy m now p \<longleftrightarrow> ph_dead_reason (m p) = [] \<and>
     (case ph_cooldown_until (m p) of None \<Rightarrow> True | Some t \<Rightarrow> t \<le> now)"

text \<open>\<open>mark_dead\<close>; \<open>None\<close> is the \<open>ValueError\<close> for an empty reason.\<close>

definition mark_dead :: "health_monitor \<Rightarrow> provider \<Rightarrow> string \<Rightarrow> health_monitor option" where
  "mark_dead m p reason = (if reason = [] then None else Some (m(p := (m p)\<lparr>ph_dead_reason := reason\<rparr>)))"

definition is_dead :: "health_monitor \<Rightarrow> provider \<Rightarrow> bool" where
  "is_dead m p \<longleftrightarrow> ph_dead_reason (m p) \<noteq> []"

definition cooldown_remaining :: "health_monitor \<Rightarrow> time \<Rightarrow> provider \<Rightarrow> real" where
  "cooldown_remaining m now p =
     (case ph_cooldown_until (m p) of None \<Rightarrow> 0 | Some t \<Rightarrow> max 0 (real_of_int (t - now) / 1000000))"

datatype health_call =
    Success_Call provider
  | Failure_Call time provider failure_class
  | Dead_Call provider string

fun health_step :: "health_monitor \<Rightarrow> health_call \<Rightarrow> health_monitor" where
  "health_step m (Success_Call p) = record_success m p"
| "health_step m (Failure_Call now p f) = record_failure m now p f"
| "health_step m (Dead_Call p reason) = (case mark_dead m p reason of None \<Rightarrow> m | Some m' \<Rightarrow> m')"

definition health_run :: "health_monitor \<Rightarrow> health_call list \<Rightarrow> health_monitor" where
  "health_run m calls = foldl health_step m calls"

section \<open>Dead is for good\<close>

lemma dead_reason_kept:
  "ph_dead_reason (quota_failure now r s) = ph_dead_reason s"
  "ph_dead_reason (transient_failure now s) = ph_dead_reason s"
  by (simp_all add: quota_failure_def transient_failure_def Let_def split: option.split)

lemma record_failure_dead: "ph_dead_reason (record_failure m now p f q) = ph_dead_reason (m q)"
  by (cases f) (auto simp: record_failure_def dead_reason_kept)

lemma record_success_dead: "ph_dead_reason (record_success m p q) = ph_dead_reason (m q)"
  by (simp add: record_success_def)

lemma health_step_dead: "is_dead m p \<Longrightarrow> is_dead (health_step m c) p"
  by (cases c) (auto simp: is_dead_def record_success_dead record_failure_dead mark_dead_def)

interpretation dead_calls: call_machine health_step "\<lambda>_. True" "\<lambda>m. is_dead m p" for p
  by unfold_locales (rule health_step_dead)

text \<open>
  A provider marked dead stays excluded for the monitor's lifetime: after \<open>mark_dead\<close>, no
  sequence of successes, failures and further marks makes it healthy again, at any time; marking
  with an empty reason is refused.
\<close>

theorem dead_is_permanent:
  assumes "mark_dead m p reason = Some m'"
  shows "reason \<noteq> [] \<and> is_dead (health_run m' calls) p \<and> \<not> is_healthy (health_run m' calls) now p"
proof -
  have "is_dead (health_run n calls) p" if "is_dead n p" for n
    using that dead_calls.run_keeps [of n p calls] by (simp add: health_run_def list_all_iff)
  moreover have "reason \<noteq> []" "is_dead m' p" using assms by (auto simp: mark_dead_def is_dead_def split: if_splits)
  ultimately show ?thesis by (simp add: is_healthy_def is_dead_def)
qed

theorem dead_is_permanent_witness:
  "\<not> is_healthy (health_run (new_monitor(Openai := fresh_health\<lparr>ph_dead_reason := ''401''\<rparr>)) [Success_Call Openai]) 7 Openai"
proof -
  have "mark_dead new_monitor Openai ''401'' = Some (new_monitor(Openai := fresh_health\<lparr>ph_dead_reason := ''401''\<rparr>))"
    by (simp add: mark_dead_def new_monitor_def)
  from dead_is_permanent [OF this] show ?thesis by blast
qed

section \<open>Streaks of transient failures\<close>

definition transient_streak :: "provider_health \<Rightarrow> time list \<Rightarrow> provider_health" where
  "transient_streak s ts = foldl (\<lambda>s t. transient_failure t s) s ts"

lemma transient_streak_snoc: "transient_streak s (ts @ [t]) = transient_failure t (transient_streak s ts)"
  by (simp add: transient_streak_def)

lemma transient_streak_counts:
  assumes "ph_consecutive_transient_failures s = 0" "successively (\<lambda>a b. b - a \<le> seconds 60) ts" "ts \<noteq> []"
  shows "ph_consecutive_transient_failures (transient_streak s ts) = length ts \<and>
    ph_last_transient_failure_at (transient_streak s ts) = Some (last ts) \<and>
    ph_cooldown_until (transient_streak s ts) =
      (if length ts \<ge> 5 then Some (last ts + minutes 5) else ph_cooldown_until s)"
  using assms
proof (induction ts rule: rev_induct)
  case (snoc t ts)
  show ?case
  proof (cases "ts = []")
    case True
    with snoc.prems(1) show ?thesis
      by (simp add: transient_streak_def transient_failure_def Let_def split: option.split)
  next
    case False
    with snoc.prems have "successively (\<lambda>a b. b - a \<le> seconds 60) ts" "t - last ts \<le> seconds 60"
      by (auto simp: successively_append_iff)
    with snoc.IH snoc.prems(1) False show ?thesis
      by (simp add: transient_streak_snoc transient_failure_def Let_def)
  qed
qed simp

text \<open>
  A healthy provider is taken out exactly by a streak: after transient failures of one
  provider, each at most 60 seconds after the one before, it is unhealthy until five minutes
  after the last one if there were five or more of them, and healthy if there were fewer; other
  providers are not affected.
\<close>

theorem transient_streak_cooldown:
  assumes "m p = fresh_health" and "successively (\<lambda>a b. b - a \<le> seconds 60) ts" and "ts \<noteq> []"
  shows "(is_healthy (health_run m (map (\<lambda>t. Failure_Call t p TransientError) ts)) now p \<longleftrightarrow>
      length ts < 5 \<or> last ts + minutes 5 \<le> now) \<and>
    (\<forall>q. q \<noteq> p \<longrightarrow> health_run m (map (\<lambda>t. Failure_Call t p TransientError) ts) q = m q)"
proof -
  have run: "health_run n (map (\<lambda>t. Failure_Call t p TransientError) us) = n(p := transient_streak (n p) us)" for n us
    unfolding health_run_def transient_streak_def
    by (induction us arbitrary: n) (simp_all add: record_failure_def)
  have "ph_dead_reason (transient_streak s us) = ph_dead_reason s" for s us
    unfolding transient_streak_def by (induction us arbitrary: s) (simp_all add: dead_reason_kept)
  moreover have "ph_consecutive_transient_failures (m p) = 0" by (simp add: assms(1) fresh_health_def)
  note transient_streak_counts [OF this assms(2,3)]
  ultimately show ?thesis
    by (auto simp: run is_healthy_def assms(1) fresh_health_def)
qed

theorem transient_streak_cooldown_witness:
  "\<not> is_healthy (health_run new_monitor (map (\<lambda>t. Failure_Call t Openai TransientError) [0, 1, 2, 3, 4])) 5 Openai"
proof -
  have "successively (\<lambda>a b. b - a \<le> seconds 60) [0, 1, 2, 3, 4]" by (simp add: seconds_def)
  from transient_streak_cooldown [of new_monitor Openai, OF _ this, of 5] show ?thesis
    by (simp add: new_monitor_def minutes_def seconds_def)
qed

end
