(* ===== verification/Cost_Ledger.thy ===== *)
theory Cost_Ledger
  imports Failures Call_Machine
begin

text \<open>
  Pricing and the cost ledger, \<^verbatim>\<open>src/backend/agents/resilience/pricing.py\<close> and \<^verbatim>\<open>cost.py\<close>. Amounts are
  reals rounded as \<open>round(x, 8)\<close> rounds them. The ledger's file is a list of lines; \<open>render\<close> (the
  JSON text of a row) and \<open>parse\<close> (\<open>from_json(json.loads(line))\<close>, \<open>None\<close> where it raises) are
  arguments. The lock makes each call one step.
\<close>

section \<open>Pricing\<close>

record model_pricing =
  mp_input_per_1m :: real
  mp_output_per_1m :: real
  mp_cache_read_input_per_1m :: real
  mp_cache_creation_input_per_1m :: "real option"
  mp_reasoning_per_1m :: "real option"

definition claude_pricing :: "real \<Rightarrow> real \<Rightarrow> real \<Rightarrow> real \<Rightarrow> model_pricing" where
  "claude_pricing i out r c = \<lparr>mp_input_per_1m = i, mp_output_per_1m = out, mp_cache_read_input_per_1m = r,
     mp_cache_creation_input_per_1m = Some c, mp_reasoning_per_1m = None\<rparr>"

definition PRICING :: "(string \<times> model_pricing) list" where
  "PRICING = [
     (''claude-sonnet-4-5'', claude_pricing 3 15 (30 / 100) (375 / 100)),
     (''claude-sonnet-4-6'', claude_pricing 3 15 (30 / 100) (375 / 100)),
     (''claude-opus-4-7'', claude_pricing 15 75 (150 / 100) (1875 / 100)),
     (''gpt-4o'', \<lparr>mp_input_per_1m = 250 / 100, mp_output_per_1m = 10, mp_cache_read_input_per_1m = 0,
        mp_cache_creation_input_per_1m = None, mp_reasoning_per_1m = None\<rparr>),
     (''o4-mini'', \<lparr>mp_input_per_1m = 110 / 100, mp_output_per_1m = 440 / 100, mp_cache_read_input_per_1m = 0,
        mp_cache_creation_input_per_1m = None, mp_reasoning_per_1m = Some (440 / 100)\<rparr>),
     (''claude-oauth'', claude_pricing 0 0 0 0)]"

text \<open>The text behind the first dot, if there is one.\<close>

definition after_dot :: "string \<Rightarrow> string option" where
  "after_dot s = (if CHR ''.'' \<in> set s then Some (tl (dropWhile (\<lambda>c. c \<noteq> CHR ''.'') s)) else None)"

definition resolve_pricing :: "string \<Rightarrow> model_pricing option" where
  "resolve_pricing model =
     (case map_of PRICING model of
        Some e \<Rightarrow> Some e
      | None \<Rightarrow>
          (case find (\<lambda>(key, e). after_dot key = Some model) PRICING of
             Some (key, e) \<Rightarrow> Some e
           | None \<Rightarrow>
               (case after_dot model of
                  Some bare \<Rightarrow> map_of PRICING bare
                | None \<Rightarrow> None)))"

record usage =
  us_input_tokens :: int
  us_output_tokens :: int
  us_cache_read_input_tokens :: int
  us_cache_creation_input_tokens :: int
  us_reasoning_tokens :: int

definition round8 :: "real \<Rightarrow> real" where
  "round8 x = of_int (round_half_even (x * 10 ^ 8)) / 10 ^ 8"

definition raw_cost :: "model_pricing \<Rightarrow> usage \<Rightarrow> real" where
  "raw_cost p u =
     (let cache_creation_price = (case mp_cache_creation_input_per_1m p of Some c \<Rightarrow> c | None \<Rightarrow> mp_input_per_1m p);
          reasoning_price = (case mp_reasoning_per_1m p of Some c \<Rightarrow> c | None \<Rightarrow> mp_output_per_1m p)
      in (of_int (us_input_tokens u) * mp_input_per_1m p + of_int (us_output_tokens u) * mp_output_per_1m p
          + of_int (us_cache_read_input_tokens u) * mp_cache_read_input_per_1m p
          + of_int (us_cache_creation_input_tokens u) * cache_creation_price
          + of_int (us_reasoning_tokens u) * reasoning_price) / 1000000)"

definition estimate_cost_usd :: "string \<Rightarrow> usage \<Rightarrow> real option" where
  "estimate_cost_usd model u = map_option (\<lambda>p. round8 (raw_cost p u)) (resolve_pricing model)"

definition OAUTH_EQUIVALENT_MODEL :: "(string \<times> string) list" where
  "OAUTH_EQUIVALENT_MODEL = [(''claude-oauth'', ''claude-sonnet-4-6'')]"

definition equivalent_cost_usd :: "string \<Rightarrow> usage \<Rightarrow> real option" where
  "equivalent_cost_usd model u =
     (let bare = (case after_dot model of Some b \<Rightarrow> b | None \<Rightarrow> model) in
      case map_of OAUTH_EQUIVALENT_MODEL bare of
        Some m \<Rightarrow> estimate_cost_usd m u
      | None \<Rightarrow> estimate_cost_usd model u)"

section \<open>The ledger\<close>

record ledger_entry =
  le_timestamp :: time
  le_agent_id :: string
  le_attempt_index :: int
  le_provider :: provider
  le_model :: string
  le_usage :: usage
  le_estimated_usd :: "real option"
  le_outcome :: string
  le_iteration :: int

definition from_usage :: "time \<Rightarrow> string \<Rightarrow> int \<Rightarrow> provider \<Rightarrow> string \<Rightarrow> usage \<Rightarrow> string \<Rightarrow> int \<Rightarrow> ledger_entry" where
  "from_usage now agent_id attempt_index prov model u outcome iteration =
     \<lparr>le_timestamp = now, le_agent_id = agent_id, le_attempt_index = attempt_index, le_provider = prov, le_model = model,
      le_usage = u, le_estimated_usd = estimate_cost_usd model u, le_outcome = outcome, le_iteration = iteration\<rparr>"

text \<open>A ledger and the file at its path; \<open>cl_attached\<close> is \<open>path is not None\<close>.\<close>

record cost_ledger =
  cl_project_id :: string
  cl_entries :: "ledger_entry list"
  cl_attached :: bool
  cl_batch_size :: int
  cl_buffer :: "ledger_entry list"
  cl_seeded_len :: nat

type_synonym ledger_file = "string list"

definition make_ledger :: "string \<Rightarrow> ledger_entry list \<Rightarrow> bool \<Rightarrow> int \<Rightarrow> cost_ledger" where
  "make_ledger project_id entries attached batch_size =
     \<lparr>cl_project_id = project_id, cl_entries = entries, cl_attached = attached, cl_batch_size = batch_size,
      cl_buffer = [], cl_seeded_len = length entries\<rparr>"

definition flush_locked :: "(ledger_entry \<Rightarrow> string) \<Rightarrow> cost_ledger \<times> ledger_file \<Rightarrow> cost_ledger \<times> ledger_file" where
  "flush_locked render s =
     (let (l, file) = s in
      if cl_buffer l = [] \<or> \<not> cl_attached l then s
      else (l\<lparr>cl_buffer := []\<rparr>, file @ map render (cl_buffer l)))"

definition ledger_append :: "(ledger_entry \<Rightarrow> string) \<Rightarrow> cost_ledger \<times> ledger_file \<Rightarrow> ledger_entry \<Rightarrow> cost_ledger \<times> ledger_file" where
  "ledger_append render s e =
     (let (l, file) = s; l1 = l\<lparr>cl_entries := cl_entries l @ [e]\<rparr> in
      if cl_attached l1 then
        let l2 = l1\<lparr>cl_buffer := cl_buffer l1 @ [e]\<rparr> in
        if int (length (cl_buffer l2)) \<ge> cl_batch_size l2 then flush_locked render (l2, file) else (l2, file)
      else (l1, file))"

definition ledger_flush :: "(ledger_entry \<Rightarrow> string) \<Rightarrow> cost_ledger \<times> ledger_file \<Rightarrow> cost_ledger \<times> ledger_file" where
  "ledger_flush render s = flush_locked render s"

definition usd :: "ledger_entry \<Rightarrow> real" where
  "usd e = (case le_estimated_usd e of None \<Rightarrow> 0 | Some x \<Rightarrow> x)"

definition total_usd :: "cost_ledger \<Rightarrow> real" where
  "total_usd l = round8 (sum_list (map usd (cl_entries l)))"

definition session_entries :: "cost_ledger \<Rightarrow> ledger_entry list" where
  "session_entries l = drop (cl_seeded_len l) (cl_entries l)"

definition session_call_count :: "cost_ledger \<Rightarrow> string \<Rightarrow> nat" where
  "session_call_count l agent_id = length (filter (\<lambda>e. le_agent_id e = agent_id) (session_entries l))"

definition session_success_compatible_count :: "cost_ledger \<Rightarrow> string \<Rightarrow> nat" where
  "session_success_compatible_count l agent_id =
     length (filter (\<lambda>e. le_agent_id e = agent_id \<and> (le_outcome e = [] \<or> le_outcome e = ''ok'')) (session_entries l))"

definition session_partial_timeout_count :: "cost_ledger \<Rightarrow> string \<Rightarrow> nat" where
  "session_partial_timeout_count l agent_id =
     length (filter (\<lambda>e. le_agent_id e = agent_id \<and> le_outcome e = ''partial_timeout'') (session_entries l))"

record provider_totals =
  pt_attempts :: nat
  pt_input_tokens :: int
  pt_output_tokens :: int
  pt_reasoning_tokens :: int
  pt_estimated_usd :: real

definition zero_totals :: provider_totals where
  "zero_totals = \<lparr>pt_attempts = 0, pt_input_tokens = 0, pt_output_tokens = 0, pt_reasoning_tokens = 0, pt_estimated_usd = 0\<rparr>"

definition add_entry :: "ledger_entry \<Rightarrow> provider_totals \<Rightarrow> provider_totals" where
  "add_entry e t = \<lparr>pt_attempts = pt_attempts t + 1, pt_input_tokens = pt_input_tokens t + us_input_tokens (le_usage e),
     pt_output_tokens = pt_output_tokens t + us_output_tokens (le_usage e),
     pt_reasoning_tokens = pt_reasoning_tokens t + us_reasoning_tokens (le_usage e),
     pt_estimated_usd = pt_estimated_usd t + usd e\<rparr>"

fun totals_loop :: "ledger_entry list \<Rightarrow> (provider \<rightharpoonup> provider_totals) \<Rightarrow> (provider \<rightharpoonup> provider_totals)" where
  "totals_loop [] raw = raw"
| "totals_loop (e # es) raw =
     totals_loop es (raw(le_provider e \<mapsto> add_entry e (case raw (le_provider e) of None \<Rightarrow> zero_totals | Some t \<Rightarrow> t)))"

definition total_by_provider :: "cost_ledger \<Rightarrow> (provider \<rightharpoonup> provider_totals)" where
  "total_by_provider l = map_option (\<lambda>t. t\<lparr>pt_estimated_usd := round8 (pt_estimated_usd t)\<rparr>) \<circ> totals_loop (cl_entries l) Map.empty"

definition write_jsonl :: "(ledger_entry \<Rightarrow> string) \<Rightarrow> cost_ledger \<Rightarrow> ledger_file" where
  "write_jsonl render l = map render (cl_entries l)"

text \<open>\<open>load_jsonl\<close>: blank lines are skipped, and so are lines that do not parse.\<close>

definition load_jsonl :: "(string \<Rightarrow> ledger_entry option) \<Rightarrow> ledger_file option \<Rightarrow> string \<Rightarrow> bool \<Rightarrow> cost_ledger" where
  "load_jsonl parse file project_id attach_path =
     make_ledger project_id
       (case file of
          None \<Rightarrow> []
        | Some ls \<Rightarrow> List.map_filter (\<lambda>line. if py_strip line = [] then None else parse line) ls)
       attach_path 25"

section \<open>What the file holds\<close>

datatype ledger_call = Append_Call ledger_entry | Flush_Call

fun ledger_step :: "(ledger_entry \<Rightarrow> string) \<Rightarrow> cost_ledger \<times> ledger_file \<Rightarrow> ledger_call \<Rightarrow> cost_ledger \<times> ledger_file" where
  "ledger_step render s (Append_Call e) = ledger_append render s e"
| "ledger_step render s Flush_Call = ledger_flush render s"

definition ledger_run :: "(ledger_entry \<Rightarrow> string) \<Rightarrow> cost_ledger \<times> ledger_file \<Rightarrow> ledger_call list \<Rightarrow> cost_ledger \<times> ledger_file" where
  "ledger_run render s calls = foldl (ledger_step render) s calls"

fun appended :: "ledger_call list \<Rightarrow> ledger_entry list" where
  "appended [] = []"
| "appended (Append_Call e # cs) = e # appended cs"
| "appended (Flush_Call # cs) = appended cs"

lemma appended_append [simp]: "appended (xs @ ys) = appended xs @ appended ys"
  by (induction xs rule: appended.induct) simp_all

lemma appended_concat: "concat (map (\<lambda>c. appended [c]) cs) = appended cs"
  by (induction cs rule: appended.induct) simp_all

text \<open>A ledger that writes to a file: its buffer stays below the batch size.\<close>

definition buffered :: "int \<Rightarrow> cost_ledger \<times> ledger_file \<Rightarrow> bool" where
  "buffered n s \<longleftrightarrow> cl_attached (fst s) \<and> cl_batch_size (fst s) = n \<and> int (length (cl_buffer (fst s))) < n"

text \<open>The lines on disk and in the buffer.\<close>

definition pending_file :: "(ledger_entry \<Rightarrow> string) \<Rightarrow> cost_ledger \<times> ledger_file \<Rightarrow> string list" where
  "pending_file render s = snd s @ map render (cl_buffer (fst s))"

lemmas ledger_defs = ledger_append_def ledger_flush_def flush_locked_def Let_def

text \<open>File plus buffer is a log of the rendered entries, and the list of entries is a log of the
  entries, attached or not, behind a fixed number of seeded ones.\<close>

interpretation ledger_lines: logging_machine "ledger_step render" "\<lambda>_. True" "buffered n"
    "pending_file render" "\<lambda>c. map render (appended [c])" for render n
proof unfold_locales
  fix s c
  assume "buffered n s"
  then show "buffered n (ledger_step render s c)"
    by (cases c; cases s) (auto simp: buffered_def ledger_defs split: if_splits)
  assume "buffered n s"
  then show "pending_file render (ledger_step render s c) = pending_file render s @ map render (appended [c])"
    by (cases c; cases s) (auto simp: buffered_def pending_file_def ledger_defs split: if_splits)
qed

interpretation ledger_rows: logging_machine "ledger_step render" "\<lambda>_. True" "\<lambda>s. cl_seeded_len (fst s) = k"
    "cl_entries \<circ> fst" "\<lambda>c. appended [c]" for render k
proof unfold_locales
  fix s :: "cost_ledger \<times> ledger_file" and c
  assume "cl_seeded_len (fst s) = k"
  then show "cl_seeded_len (fst (ledger_step render s c)) = k"
    by (cases c; cases s) (auto simp: ledger_defs split: if_splits)
  show "(cl_entries \<circ> fst) (ledger_step render s c) = (cl_entries \<circ> fst) s @ appended [c]"
    by (cases c; cases s) (auto simp: ledger_defs split: if_splits)
qed

lemma ledger_run_lines:
  assumes "ledger_run render s calls = s'" "buffered n s"
  shows "buffered n s'" "pending_file render s' = pending_file render s @ map render (appended calls)"
proof -
  have "concat (map (\<lambda>c. map render (appended [c])) calls) = map render (concat (map (\<lambda>c. appended [c]) calls))"
    by (induction calls) simp_all
  then show "pending_file render s' = pending_file render s @ map render (appended calls)"
    using ledger_lines.run_view [of n s calls render] assms by (simp add: ledger_run_def list_all_iff appended_concat)
  show "buffered n s'"
    using ledger_lines.run_keeps [of n s calls render] assms by (simp add: ledger_run_def list_all_iff)
qed

lemma ledger_run_entries:
  assumes "ledger_run render s calls = s'"
  shows "cl_entries (fst s') = cl_entries (fst s) @ appended calls" "cl_seeded_len (fst s') = cl_seeded_len (fst s)"
  using ledger_rows.run_view [of s "cl_seeded_len (fst s)" calls render]
    ledger_rows.run_keeps [of s "cl_seeded_len (fst s)" calls render] assms
  by (simp_all add: ledger_run_def list_all_iff appended_concat)

text \<open>
  Batched writing loses nothing but an unflushed tail: after any sequence of appends and
  flushes on a ledger opened over a file, the file followed by the lines still in the buffer is
  the old file followed by the lines of all entries appended, in order and without repetition;
  the buffer is always shorter than the batch size (so a crash loses fewer rows than that), and
  it is empty right after a flush.
\<close>

theorem ledger_file_complete:
  assumes "ledger_run render (make_ledger project_id seeded True batch_size, file) calls = (l, file')" and "1 \<le> batch_size"
  shows "file' @ map render (cl_buffer l) = file @ map render (appended calls) \<and>
    int (length (cl_buffer l)) < batch_size \<and> cl_entries l = seeded @ appended calls \<and>
    snd (ledger_flush render (l, file')) = file @ map render (appended calls)"
proof -
  have b: "buffered batch_size (make_ledger project_id seeded True batch_size, file)"
    using assms(2) by (simp add: buffered_def make_ledger_def)
  have "file' @ map render (cl_buffer l) = file @ map render (appended calls) \<and>
    int (length (cl_buffer l)) < batch_size \<and> cl_entries l = seeded @ appended calls \<and> cl_attached l"
    using ledger_run_lines [OF assms(1) b] ledger_run_entries [OF assms(1)]
    by (simp add: buffered_def pending_file_def make_ledger_def)
  then show ?thesis by (auto simp: ledger_flush_def flush_locked_def)
qed

text \<open>
  Rows read from disk never count as calls of this session: whatever the file held when the
  ledger was loaded, the session counters of an agent count exactly the matching entries appended
  since, while the total and the per-provider attempts include the loaded rows.
\<close>

theorem session_counts_ignore_disk:
  assumes "ledger_run render (load_jsonl parse disk pid attach, file) calls = (l, file')"
  shows "session_call_count l a = length (filter (\<lambda>e. le_agent_id e = a) (appended calls)) \<and>
    session_success_compatible_count l a =
      length (filter (\<lambda>e. le_agent_id e = a \<and> (le_outcome e = [] \<or> le_outcome e = ''ok'')) (appended calls)) \<and>
    session_partial_timeout_count l a =
      length (filter (\<lambda>e. le_agent_id e = a \<and> le_outcome e = ''partial_timeout'') (appended calls)) \<and>
    total_usd l = round8 (sum_list (map usd (cl_entries (load_jsonl parse disk pid attach))) + sum_list (map usd (appended calls)))"
proof -
  let ?seeded = "cl_entries (load_jsonl parse disk pid attach)"
  have "cl_seeded_len (load_jsonl parse disk pid attach) = length ?seeded"
    by (simp add: load_jsonl_def make_ledger_def)
  then have "cl_entries l = ?seeded @ appended calls" "cl_seeded_len l = length ?seeded"
    using ledger_run_entries [OF assms] by simp_all
  then show ?thesis
    by (simp add: session_call_count_def session_success_compatible_count_def session_partial_timeout_count_def
        session_entries_def total_usd_def)
qed

text \<open>Writing a ledger and loading the file gives its entries back.\<close>

lemma load_write_jsonl:
  assumes "\<And>e. parse (render e) = Some e" "\<And>e. py_strip (render e) \<noteq> []"
  shows "cl_entries (load_jsonl parse (Some (write_jsonl render l)) pid attach) = cl_entries l"
proof -
  have "List.map_filter (\<lambda>line. if py_strip line = [] then None else parse line) (map render es) = es" for es
    by (induction es) (simp_all add: List.map_filter_simps assms)
  then show ?thesis by (simp add: load_jsonl_def make_ledger_def write_jsonl_def)
qed

section \<open>Totals per provider\<close>

lemma totals_loop_eq:
  "totals_loop es raw p = (if filter (\<lambda>e. le_provider e = p) es = [] then raw p
     else Some (fold add_entry (filter (\<lambda>e. le_provider e = p) es) (case raw p of None \<Rightarrow> zero_totals | Some t \<Rightarrow> t)))"
  by (induction es arbitrary: raw) auto

lemma fold_add_entry:
  "pt_attempts (fold add_entry es t) = pt_attempts t + length es \<and>
   pt_input_tokens (fold add_entry es t) = pt_input_tokens t + sum_list (map (us_input_tokens \<circ> le_usage) es) \<and>
   pt_output_tokens (fold add_entry es t) = pt_output_tokens t + sum_list (map (us_output_tokens \<circ> le_usage) es) \<and>
   pt_reasoning_tokens (fold add_entry es t) = pt_reasoning_tokens t + sum_list (map (us_reasoning_tokens \<circ> le_usage) es) \<and>
   pt_estimated_usd (fold add_entry es t) = pt_estimated_usd t + sum_list (map usd es)"
  by (induction es arbitrary: t) (simp_all add: add_entry_def)

text \<open>
  The per-provider totals are the sums over the provider's entries: a provider appears
  exactly when it has an entry, with its number of attempts, its token sums and its rounded cost.
\<close>

theorem totals_are_sums:
  assumes "es = filter (\<lambda>e. le_provider e = p) (cl_entries l)"
  shows "total_by_provider l p =
    (if es = [] then None
     else Some \<lparr>pt_attempts = length es, pt_input_tokens = sum_list (map (us_input_tokens \<circ> le_usage) es),
       pt_output_tokens = sum_list (map (us_output_tokens \<circ> le_usage) es),
       pt_reasoning_tokens = sum_list (map (us_reasoning_tokens \<circ> le_usage) es),
       pt_estimated_usd = round8 (sum_list (map usd es))\<rparr>)"
proof -
  have "t = \<lparr>pt_attempts = pt_attempts t, pt_input_tokens = pt_input_tokens t, pt_output_tokens = pt_output_tokens t,
      pt_reasoning_tokens = pt_reasoning_tokens t, pt_estimated_usd = pt_estimated_usd t\<rparr>" for t :: provider_totals by simp
  then show ?thesis
    using fold_add_entry [of es zero_totals]
    by (simp add: total_by_provider_def totals_loop_eq assms [symmetric] zero_totals_def)
qed

section \<open>Prices\<close>

lemma round8_mono: "x \<le> y \<Longrightarrow> round8 x \<le> round8 y"
  by (simp add: round8_def round_half_even_mono divide_right_mono)

lemma round8_zero [simp]: "round8 0 = 0"
  by (simp add: round8_def round_half_even_def)

definition pricing_ok :: "model_pricing \<Rightarrow> bool" where
  "pricing_ok p \<longleftrightarrow> 0 \<le> mp_input_per_1m p \<and> 0 \<le> mp_output_per_1m p \<and> 0 \<le> mp_cache_read_input_per_1m p \<and>
     (case mp_cache_creation_input_per_1m p of None \<Rightarrow> True | Some c \<Rightarrow> 0 \<le> c) \<and>
     (case mp_reasoning_per_1m p of None \<Rightarrow> True | Some c \<Rightarrow> 0 \<le> c)"

lemma PRICING_ok: "(m, p) \<in> set PRICING \<Longrightarrow> pricing_ok p \<and> after_dot m = None"
  by (auto simp: PRICING_def pricing_ok_def claude_pricing_def after_dot_def)

lemma resolve_pricing_ok: "resolve_pricing m = Some p \<Longrightarrow> pricing_ok p"
  using PRICING_ok by (fastforce simp: resolve_pricing_def find_Some_iff split: option.splits dest: map_of_SomeD nth_mem)

definition usage_le :: "usage \<Rightarrow> usage \<Rightarrow> bool" where
  "usage_le u v \<longleftrightarrow> us_input_tokens u \<le> us_input_tokens v \<and> us_output_tokens u \<le> us_output_tokens v \<and>
     us_cache_read_input_tokens u \<le> us_cache_read_input_tokens v \<and>
     us_cache_creation_input_tokens u \<le> us_cache_creation_input_tokens v \<and> us_reasoning_tokens u \<le> us_reasoning_tokens v"

lemma raw_cost_mono:
  assumes "pricing_ok p" "usage_le u v"
  shows "raw_cost p u \<le> raw_cost p v"
proof -
  have m: "of_int a * c \<le> of_int b * (c :: real)" if "a \<le> b" "0 \<le> c" for a b :: int and c
    using that by (simp add: mult_right_mono)
  show ?thesis
    using assms unfolding raw_cost_def Let_def pricing_ok_def usage_le_def
    by (intro divide_right_mono add_mono m) (auto split: option.splits)
qed

lemma after_dot_prefix: "CHR ''.'' \<notin> set p \<Longrightarrow> after_dot (p @ ''.'' @ m) = Some m"
  by (induction p) (auto simp: after_dot_def)

lemma resolve_prefixed:
  assumes "CHR ''.'' \<notin> set p" "map_of PRICING m = Some e"
  shows "resolve_pricing (p @ ''.'' @ m) = Some e"
proof -
  have "map_of PRICING (p @ ''.'' @ m) = None"
    using PRICING_ok after_dot_prefix [OF assms(1), of m] by (cases "map_of PRICING (p @ ''.'' @ m)") (auto dest!: map_of_SomeD)
  moreover have "find (\<lambda>(key, e). after_dot key = Some (p @ ''.'' @ m)) PRICING = None"
    using PRICING_ok by (fastforce simp: find_None_iff)
  ultimately show ?thesis using assms(2) using after_dot_prefix [OF assms(1), of m] by (simp add: resolve_pricing_def)
qed

text \<open>
  Costs are sane: a provider prefix on a priced model name does not change its price, using
  more tokens never costs less, no tokens cost nothing, and the subscription model is free while
  its equivalent cost is that of the paid model it stands for.
\<close>

theorem cost_estimates_sane:
  assumes "CHR ''.'' \<notin> set pre" and "map_of PRICING model = Some e" and "usage_le u v"
  shows "estimate_cost_usd (pre @ ''.'' @ model) u = estimate_cost_usd model u \<and>
    the (estimate_cost_usd model u) \<le> the (estimate_cost_usd model v) \<and>
    estimate_cost_usd model \<lparr>us_input_tokens = 0, us_output_tokens = 0, us_cache_read_input_tokens = 0,
      us_cache_creation_input_tokens = 0, us_reasoning_tokens = 0\<rparr> = Some 0 \<and>
    estimate_cost_usd ''claude-oauth'' u = Some 0 \<and>
    equivalent_cost_usd (pre @ ''.claude-oauth'') u = estimate_cost_usd ''claude-sonnet-4-6'' u"
proof -
  have r: "resolve_pricing model = Some e" using assms(2) by (simp add: resolve_pricing_def)
  have "estimate_cost_usd (pre @ ''.'' @ model) u = estimate_cost_usd model u"
    using resolve_prefixed [OF assms(1,2)] r by (simp add: estimate_cost_usd_def)
  moreover have "the (estimate_cost_usd model u) \<le> the (estimate_cost_usd model v)"
    using raw_cost_mono [OF resolve_pricing_ok [OF r] assms(3)] by (simp add: estimate_cost_usd_def r round8_mono)
  moreover have "estimate_cost_usd model \<lparr>us_input_tokens = 0, us_output_tokens = 0, us_cache_read_input_tokens = 0,
      us_cache_creation_input_tokens = 0, us_reasoning_tokens = 0\<rparr> = Some 0"
    by (simp add: estimate_cost_usd_def r raw_cost_def)
  moreover have "estimate_cost_usd ''claude-oauth'' u = Some 0"
    by (simp add: estimate_cost_usd_def resolve_pricing_def PRICING_def claude_pricing_def raw_cost_def)
  moreover have "equivalent_cost_usd (pre @ ''.claude-oauth'') u = estimate_cost_usd ''claude-sonnet-4-6'' u"
    using after_dot_prefix [OF assms(1), of "''claude-oauth''"] by (simp add: equivalent_cost_usd_def OAUTH_EQUIVALENT_MODEL_def)
  ultimately show ?thesis by blast
qed

section \<open>Sample runs\<close>

definition some_usage :: "int \<Rightarrow> usage" where
  "some_usage n = \<lparr>us_input_tokens = n, us_output_tokens = 0, us_cache_read_input_tokens = 0,
     us_cache_creation_input_tokens = 0, us_reasoning_tokens = 0\<rparr>"

definition some_entry :: "string \<Rightarrow> ledger_entry" where
  "some_entry outcome = from_usage 0 ''run_experiment'' 0 Openai ''gpt-4o'' (some_usage 10) outcome 1"

theorem cost_estimates_sane_witness:
  "estimate_cost_usd (''openai'' @ ''.'' @ ''gpt-4o'') (some_usage 5) = estimate_cost_usd ''gpt-4o'' (some_usage 5) \<and>
   the (estimate_cost_usd ''gpt-4o'' (some_usage 5)) \<le> the (estimate_cost_usd ''gpt-4o'' (some_usage 6))"
proof -
  obtain e where e: "map_of PRICING ''gpt-4o'' = Some e" by (simp add: PRICING_def)
  have "CHR ''.'' \<notin> set ''openai''" "usage_le (some_usage 5) (some_usage 6)" by (simp_all add: usage_le_def some_usage_def)
  from cost_estimates_sane [OF this(1) e this(2)] show ?thesis by blast
qed

theorem ledger_file_complete_witness:
  "snd (ledger_flush le_outcome (ledger_run le_outcome (make_ledger ''p'' [] True 2, [''old''])
      [Append_Call (some_entry ''ok''), Append_Call (some_entry ''failed''), Append_Call (some_entry ''raised'')]))
     = [''old'', ''ok'', ''failed'', ''raised'']"
proof -
  let ?calls = "[Append_Call (some_entry ''ok''), Append_Call (some_entry ''failed''), Append_Call (some_entry ''raised'')]"
  obtain l f where r: "ledger_run le_outcome (make_ledger ''p'' [] True 2, [''old'']) ?calls = (l, f)"
    by (cases "ledger_run le_outcome (make_ledger ''p'' [] True 2, [''old'']) ?calls")
  from ledger_file_complete [OF r] show ?thesis unfolding r by (simp add: some_entry_def from_usage_def)
qed

theorem session_counts_ignore_disk_witness:
  "session_call_count (fst (ledger_run le_outcome (load_jsonl (\<lambda>_. Some (some_entry ''ok'')) (Some [''forged'']) ''p'' True, [''forged''])
      [Append_Call (some_entry ''failed'')])) ''run_experiment'' = 1"
proof -
  let ?l = "load_jsonl (\<lambda>_. Some (some_entry ''ok'')) (Some [''forged'']) ''p'' True"
  obtain l f where r: "ledger_run le_outcome (?l, [''forged'']) [Append_Call (some_entry ''failed'')] = (l, f)"
    by (cases "ledger_run le_outcome (?l, [''forged'']) [Append_Call (some_entry ''failed'')]")
  from session_counts_ignore_disk [OF r, of "''run_experiment''"] show ?thesis
    unfolding r by (simp add: some_entry_def from_usage_def)
qed

theorem totals_are_sums_witness:
  "pt_attempts (the (total_by_provider (make_ledger ''p'' [some_entry [], some_entry []] False 25) Openai)) = 2"
  using totals_are_sums [of "[some_entry [], some_entry []]" Openai "make_ledger ''p'' [some_entry [], some_entry []] False 25"]
  by (simp add: make_ledger_def some_entry_def from_usage_def)

end
