(* ===== verification/Recovery_Policy.thy ===== *)
theory Recovery_Policy
  imports Provider_Health Cost_Ledger
begin

text \<open>
  Attempt state, recovery policies and the run budget: \<^verbatim>\<open>context.py\<close>, \<^verbatim>\<open>policy.py\<close> and \<^verbatim>\<open>budget.py\<close> of
  \<^verbatim>\<open>src/backend/agents/resilience/\<close>. A composite policy is the list of its members; a member is a
  constructor with the class's parameters. \<open>json_loads\<close> (\<open>None\<close> where it raises) and \<open>json_dumps\<close>
  are arguments.
\<close>

section \<open>Attempts\<close>

record attempt_record =
  atr_attempt_index :: int
  atr_provider :: provider
  atr_model :: string
  atr_started_at :: time
  atr_finished_at :: time
  atr_outcome :: string
  atr_failure_kind :: "string option"
  atr_usage :: usage
  atr_estimated_usd :: "real option"
  atr_decision_note :: string
  atr_next_provider :: "provider option"

record attempt_context =
  ac_agent_id :: string
  ac_base_prompt :: string
  ac_cwd :: string
  ac_attempts :: "attempt_record list"
  ac_partial_output_by_provider :: "provider \<rightharpoonup> string"

definition record_partial :: "attempt_context \<Rightarrow> provider \<Rightarrow> string \<Rightarrow> attempt_context" where
  "record_partial ctx prov output =
     (if py_strip output \<noteq> []
      then ctx\<lparr>ac_partial_output_by_provider := (ac_partial_output_by_provider ctx)(prov \<mapsto> output)\<rparr> else ctx)"

fun last_partial_loop :: "(provider \<rightharpoonup> string) \<Rightarrow> attempt_record list \<Rightarrow> string" where
  "last_partial_loop partials [] = []"
| "last_partial_loop partials (r # rs) =
     (let partial = (case partials (atr_provider r) of None \<Rightarrow> [] | Some s \<Rightarrow> s) in
      if py_strip partial \<noteq> [] then partial else last_partial_loop partials rs)"

definition latest_partial_output :: "attempt_context \<Rightarrow> string" where
  "latest_partial_output ctx = last_partial_loop (ac_partial_output_by_provider ctx) (rev (ac_attempts ctx))"

text \<open>The brace scan of \<open>_try_extract_json\<close>: how many characters up to the brace that closes the
  first one, from a state (depth, in a string, after a backslash).\<close>

fun brace_scan :: "nat \<Rightarrow> bool \<Rightarrow> bool \<Rightarrow> nat \<Rightarrow> string \<Rightarrow> nat option" where
  "brace_scan depth in_string escape n [] = None"
| "brace_scan depth in_string escape n (ch # rest) =
     (if in_string then
        (if escape then brace_scan depth True False (Suc n) rest
         else if ch = CHR 0x5C then brace_scan depth True True (Suc n) rest
         else if ch = CHR 0x22 then brace_scan depth False False (Suc n) rest
         else brace_scan depth True False (Suc n) rest)
      else if ch = CHR 0x22 then brace_scan depth True escape (Suc n) rest
      else if ch = CHR 0x7B then brace_scan (Suc depth) False escape (Suc n) rest
      else if ch = CHR 0x7D then
        (if depth = 1 then Some (Suc n) else brace_scan (depth - 1) False escape (Suc n) rest)
      else brace_scan depth False escape (Suc n) rest)"

definition try_extract_json :: "(string \<Rightarrow> 'j option) \<Rightarrow> string \<Rightarrow> 'j option" where
  "try_extract_json json_loads text =
     (case json_loads text of
        Some j \<Rightarrow> Some j
      | None \<Rightarrow>
          let from_brace = dropWhile (\<lambda>c. c \<noteq> CHR 0x7B) text in
          if from_brace = [] then None
          else (case brace_scan 0 False False 0 from_brace of
                  None \<Rightarrow> None
                | Some n \<Rightarrow> json_loads (take n from_brace)))"

definition compact_partial_output :: "(string \<Rightarrow> 'j option) \<Rightarrow> ('j \<Rightarrow> string) \<Rightarrow> nat \<Rightarrow> string \<Rightarrow> string" where
  "compact_partial_output json_loads json_dumps limit_chars text =
     (let raw = py_strip text in
      if raw = [] then []
      else let raw = (case try_extract_json json_loads raw of None \<Rightarrow> raw | Some j \<Rightarrow> json_dumps j) in
        if length raw \<le> limit_chars then raw
        else ''[truncated to last '' @ str_of_nat limit_chars @ '' chars]'' @ CHR 0x0A # drop (length raw - limit_chars) raw)"

definition continuation_prompt :: "(string \<Rightarrow> 'j option) \<Rightarrow> ('j \<Rightarrow> string) \<Rightarrow> attempt_context \<Rightarrow> string" where
  "continuation_prompt json_loads json_dumps ctx =
     (if ac_attempts ctx = [] then ac_base_prompt ctx
      else let prior_output = latest_partial_output ctx in
        if prior_output = [] then ac_base_prompt ctx
        else let prior = last (ac_attempts ctx);
                 partial = compact_partial_output json_loads json_dumps 8192 prior_output;
                 nl = [CHR 0x0A]
          in ''[FALLBACK CONTINUATION]'' @ nl @
             ''A previous attempt by '' @ provider_name (atr_provider prior) @
             '' produced the following partial output before failing with '' @
             (case atr_failure_kind prior of Some k \<Rightarrow> if k \<noteq> [] then k else ''unknown_failure'' | None \<Rightarrow> ''unknown_failure'') @
             '':'' @ nl @ ''---'' @ nl @ partial @ nl @ ''---'' @ nl @
             ''The on-disk workspace at '' @ ac_cwd ctx @ '' reflects any files the prior attempt wrote. '' @
             ''Use this as a starting point. Verify what is already on disk and complete the task without repeating finished work.'' @
             nl @ nl @ ''[ORIGINAL TASK]'' @ nl @ ac_base_prompt ctx)"

section \<open>Policies\<close>

datatype decision_action = Retry_Same | Fallback_To | Salvage_Partial | Fail_Action

record recovery_decision =
  rd_action :: decision_action
  rd_target_provider :: "provider option"
  rd_delay_seconds :: real
  rd_note :: string
  rd_bumped_max_turns :: "int option"

definition decision :: "decision_action \<Rightarrow> string \<Rightarrow> recovery_decision" where
  "decision a note = \<lparr>rd_action = a, rd_target_provider = None, rd_delay_seconds = 0, rd_note = note, rd_bumped_max_turns = None\<rparr>"

datatype recovery_policy =
    BackoffOnTransient int real real
  | BackoffOnRateLimit int real
  | RolloverOnQuota "provider list" bool
  | BumpOnTurnBudget real int
  | SalvageOnTurnBudget
  | SalvageOnWallClock
  | FailFast

definition failure_count :: "attempt_context \<Rightarrow> string \<Rightarrow> nat" where
  "failure_count ctx cls_name = length (filter (\<lambda>a. atr_failure_kind a = Some cls_name) (ac_attempts ctx))"

text \<open>The rest of the chain behind the current provider (the whole chain when it is not in it).\<close>

definition chain_after :: "provider list \<Rightarrow> provider \<Rightarrow> provider list" where
  "chain_after chain current = (if current \<in> set chain then tl (dropWhile (\<lambda>p. p \<noteq> current) chain) else chain)"

definition decide_rollover :: "health_monitor \<Rightarrow> time \<Rightarrow> provider list \<Rightarrow> bool \<Rightarrow> provider \<Rightarrow> recovery_decision" where
  "decide_rollover m now chain use_health current =
     (case find (\<lambda>p. \<not> use_health \<or> is_healthy m now p) (chain_after chain current) of
        Some p \<Rightarrow> (decision Fallback_To (provider_name current @ '' quota exhausted; falling back to '' @ provider_name p))
                    \<lparr>rd_target_provider := Some p\<rparr>
      | None \<Rightarrow> decision Fail_Action ''quota exhausted and no healthy fallback provider remains'')"

fun decide :: "health_monitor \<Rightarrow> time \<Rightarrow> recovery_policy \<Rightarrow> runtime_failure \<Rightarrow> attempt_context \<Rightarrow> recovery_decision option" where
  "decide m now (BackoffOnTransient max_retries initial_delay multiplier) f ctx =
     (if rf_class f \<noteq> TransientError then None
      else let seen = failure_count ctx ''TransientError'' in
        if int seen \<ge> max_retries then None
        else Some ((decision Retry_Same ''transient provider failure; retrying same provider'')
               \<lparr>rd_delay_seconds := initial_delay * multiplier ^ (seen - 1)\<rparr>))"
| "decide m now (BackoffOnRateLimit max_retries default_delay) f ctx =
     (case rf_class f of
        RateLimited retry_after \<Rightarrow>
          if int (failure_count ctx ''RateLimited'') \<ge> max_retries then None
          else Some ((decision Retry_Same ''short rate limit; retrying same provider'')
                 \<lparr>rd_delay_seconds := (case retry_after of Some s \<Rightarrow> if s \<noteq> 0 then s else default_delay | None \<Rightarrow> default_delay)\<rparr>)
      | _ \<Rightarrow> None)"
| "decide m now (RolloverOnQuota chain use_health) f ctx =
     (case rf_class f of
        QuotaExhausted _ \<Rightarrow> (case rf_provider f of None \<Rightarrow> None | Some current \<Rightarrow> Some (decide_rollover m now chain use_health current))
      | _ \<Rightarrow> None)"
| "decide m now (BumpOnTurnBudget factor max_attempts) f ctx =
     (if \<not> is_turn_budget (rf_class f) \<or> (\<exists>n. rf_class f = WallClockExceeded n) then None
      else if int (failure_count ctx ''TurnBudgetExhausted'') \<ge> max_attempts then None
      else let n = limit_value (rf_class f); bumped = max (n + 1) (py_int (of_int n * factor)) in
        Some ((decision Retry_Same (''turn cap hit; retrying with max_turns='' @ str_of_int bumped))
          \<lparr>rd_bumped_max_turns := Some bumped\<rparr>))"
| "decide m now SalvageOnTurnBudget f ctx =
     (if is_turn_budget (rf_class f) \<and> latest_partial_output ctx \<noteq> []
      then Some (decision Salvage_Partial ''turn/tool budget hit; partial output is available'') else None)"
| "decide m now SalvageOnWallClock f ctx =
     (if (\<exists>n. rf_class f = WallClockExceeded n) \<and> latest_partial_output ctx \<noteq> []
      then Some (decision Salvage_Partial ''wall-clock cap hit; partial output is available'') else None)"
| "decide m now FailFast f ctx = Some (decision Fail_Action (class_name (rf_class f)))"

text \<open>\<open>CompositePolicy.iter_decisions\<close>.\<close>

definition iter_decisions :: "health_monitor \<Rightarrow> time \<Rightarrow> recovery_policy list \<Rightarrow> runtime_failure \<Rightarrow> attempt_context \<Rightarrow>
    recovery_decision list" where
  "iter_decisions m now policies f ctx = List.map_filter (\<lambda>p. decide m now p f ctx) policies"

definition composite_decide :: "health_monitor \<Rightarrow> time \<Rightarrow> recovery_policy list \<Rightarrow> runtime_failure \<Rightarrow> attempt_context \<Rightarrow>
    recovery_decision option" where
  "composite_decide m now policies f ctx = (case iter_decisions m now policies f ctx of [] \<Rightarrow> None | d # _ \<Rightarrow> Some d)"

definition default_recovery_policy :: "provider list \<Rightarrow> recovery_policy list" where
  "default_recovery_policy chain = [BackoffOnTransient 2 1 2, BackoffOnRateLimit 1 5, SalvageOnTurnBudget, SalvageOnWallClock,
     BumpOnTurnBudget 2 2, RolloverOnQuota chain True, FailFast]"

section \<open>The run budget\<close>

record run_budget =
  rb_max_usd :: "real option"
  rb_max_wall_clock_seconds :: "real option"
  rb_max_pod_seconds :: "real option"
  rb_max_invocations_per_agent :: "(string \<times> int) list"
  rb_rlm_calls_remaining :: int
  rb_max_run_gpu_usd :: "real option"

definition budget_failure :: "string \<Rightarrow> string \<Rightarrow> real \<Rightarrow> runtime_failure" where
  "budget_failure message agent_id elapsed = make_failure BudgetExhausted message None agent_id elapsed []"

definition elapsed_since :: "time \<Rightarrow> time \<Rightarrow> real" where
  "elapsed_since started now = real_of_int (now - started) / 1000000"

text \<open>\<open>RunBudget.check\<close>; \<open>Some\<close> is the failure it raises.\<close>

definition budget_check :: "run_budget \<Rightarrow> cost_ledger \<Rightarrow> time \<Rightarrow> time \<Rightarrow> string \<Rightarrow> int \<Rightarrow> runtime_failure option" where
  "budget_check b ledger started_at now agent_id attempt_count =
     (if (case rb_max_usd b of None \<Rightarrow> False | Some mx \<Rightarrow> total_usd ledger \<ge> mx)
      then Some (budget_failure (''Run cost budget exhausted before invoking '' @ agent_id @ '': $'' @
             py_fixed 4 (total_usd ledger) @ '' >= $'' @ py_fixed 4 (the (rb_max_usd b))) agent_id 0)
      else if (case rb_max_wall_clock_seconds b of None \<Rightarrow> False | Some mx \<Rightarrow> elapsed_since started_at now \<ge> mx)
      then Some (budget_failure (''Run wall-clock budget exhausted before invoking '' @ agent_id @ '': '' @
             py_fixed 1 (elapsed_since started_at now) @ ''s >= '' @ py_fixed 1 (the (rb_max_wall_clock_seconds b)) @ ''s'')
             agent_id (elapsed_since started_at now))
      else (case map_of (rb_max_invocations_per_agent b) agent_id of
              None \<Rightarrow> None
            | Some mx \<Rightarrow>
                if attempt_count \<ge> mx
                then Some (budget_failure (''Invocation budget exhausted for '' @ agent_id @ '': '' @
                       str_of_int attempt_count @ '' >= '' @ str_of_int mx) agent_id 0)
                else None))"

definition check_pod_seconds :: "run_budget \<Rightarrow> time option \<Rightarrow> time \<Rightarrow> string \<Rightarrow> runtime_failure option" where
  "check_pod_seconds b pod_started_at now agent_id =
     (case (rb_max_pod_seconds b, pod_started_at) of
        (Some mx, Some started) \<Rightarrow>
          if elapsed_since started now \<ge> mx
          then Some (budget_failure (''Run pod-time budget exhausted before invoking '' @ agent_id @ '': '' @
                 py_fixed 1 (elapsed_since started now) @ ''s >= '' @ py_fixed 1 mx @ ''s'') agent_id (elapsed_since started now))
          else None
      | _ \<Rightarrow> None)"

definition check_run_gpu_usd :: "run_budget \<Rightarrow> real \<Rightarrow> string \<Rightarrow> runtime_failure option" where
  "check_run_gpu_usd b cumulative_pod_usd agent_id =
     (case rb_max_run_gpu_usd b of
        None \<Rightarrow> None
      | Some mx \<Rightarrow>
          if mx \<le> 0 then None
          else if cumulative_pod_usd \<ge> mx
          then Some (budget_failure (''Run pod-USD budget exhausted before invoking '' @ agent_id @ '': $'' @
                 py_fixed 4 cumulative_pod_usd @ '' >= $'' @ py_fixed 4 mx) agent_id 0)
          else None)"

end
