(* ===== verification/Resilience_Engine.thy ===== *)
theory Resilience_Engine
  imports Recovery_Policy
begin

text \<open>
  The resilient invocation loop, \<^verbatim>\<open>src/backend/agents/resilience/engine.py\<close>. What a provider's stream
  does on the \<open>k\<close>-th attempt is an argument: its events with the seconds elapsed, and how it ends.
  One iteration of the loop happens at one instant \<open>clock k\<close>. Printing, transcripts, telemetry and
  the summary file are left out; sleeping is the delay in the decision.
\<close>

section \<open>Streams\<close>

datatype stream_event =
    StreamText string
  | StreamToolCall string string
  | StreamUsage usage

datatype stream_end = Stream_Done real | Stream_Timeout real | Stream_Raised real py_exc

type_synonym agent_stream = "(real \<times> stream_event) list \<times> stream_end"

record runtime_spec =
  rs_model :: string
  rs_max_tool_calls :: "int option"

record agent_run_result =
  rr_output_text :: string
  rr_trace_text :: string
  rr_tool_calls :: "string list"
  rr_elapsed_seconds :: real

text \<open>What the runtimes, the clock and the settings of a run supply.\<close>

record engine_world =
  ew_runtime_provider :: "provider \<Rightarrow> provider"
  ew_stream :: "nat \<Rightarrow> provider \<Rightarrow> string \<Rightarrow> int option \<Rightarrow> agent_stream"
  ew_build_runtime_spec :: "provider \<Rightarrow> int option \<Rightarrow> runtime_spec"
  ew_clock :: "nat \<Rightarrow> time"
  ew_parsers :: header_parsers
  ew_render_limit :: "limit_kind \<Rightarrow> int \<Rightarrow> real \<Rightarrow> string \<Rightarrow> string"
  ew_json_loads :: "string \<Rightarrow> string option"
  ew_json_dumps :: "string \<Rightarrow> string"
  ew_render_entry :: "ledger_entry \<Rightarrow> string"
  ew_salvage_validator :: "(string \<Rightarrow> bool) option"
  ew_policy :: "recovery_policy list"
  ew_budget :: run_budget
  ew_run_started_at :: time
  ew_max_turns :: "int option"
  ew_wall_clock_seconds :: "real option"
  ew_max_total_attempts :: int
  ew_agent_id :: string
  ew_primary_provider :: provider

record stream_state =
  ss_collected_text :: "string list"
  ss_trace_lines :: "string list"
  ss_tool_calls :: "string list"
  ss_tool_call_count :: int
  ss_usage :: usage

definition zero_usage :: usage where
  "zero_usage = \<lparr>us_input_tokens = 0, us_output_tokens = 0, us_cache_read_input_tokens = 0,
     us_cache_creation_input_tokens = 0, us_reasoning_tokens = 0\<rparr>"

definition stream_start :: stream_state where
  "stream_start = \<lparr>ss_collected_text = [], ss_trace_lines = [], ss_tool_calls = [], ss_tool_call_count = 0, ss_usage = zero_usage\<rparr>"

text \<open>One event of the stream; \<open>None\<close> in the result is \<open>AgentLimitExceeded\<close> for the tool cap. A
  \<open>StreamToolCall\<close> carries its tool id and the text \<open>_tool_info\<close> makes of it.\<close>

definition consume_event :: "int option \<Rightarrow> stream_state \<Rightarrow> stream_event \<Rightarrow> stream_state option" where
  "consume_event max_tool_calls s e =
     (case e of
        StreamText t \<Rightarrow> Some (s\<lparr>ss_collected_text := ss_collected_text s @ [t], ss_trace_lines := ss_trace_lines s @ [t]\<rparr>)
      | StreamToolCall tool_id info \<Rightarrow>
          if (case max_tool_calls of None \<Rightarrow> False | Some mx \<Rightarrow> ss_tool_call_count s + 1 > mx) then None
          else Some (s\<lparr>ss_tool_call_count := ss_tool_call_count s + 1, ss_tool_calls := ss_tool_calls s @ [info],
                 ss_trace_lines := ss_trace_lines s @ [''tool: '' @ info]\<rparr>)
      | StreamUsage u \<Rightarrow> Some (s\<lparr>ss_usage := u\<rparr>))"

datatype consumed = Consumed stream_state | Tool_Cap stream_state real

fun consume_events :: "int option \<Rightarrow> stream_state \<Rightarrow> (real \<times> stream_event) list \<Rightarrow> consumed" where
  "consume_events mx s [] = Consumed s"
| "consume_events mx s ((t, e) # es) =
     (case consume_event mx s e of None \<Rightarrow> Tool_Cap s t | Some s' \<Rightarrow> consume_events mx s' es)"

definition agent_limit_exceeded :: "engine_world \<Rightarrow> limit_kind \<Rightarrow> int \<Rightarrow> real \<Rightarrow> string \<Rightarrow> py_exc" where
  "agent_limit_exceeded w kind limit elapsed partial =
     Exc_Limit \<lparr>al_agent_id = ew_agent_id w, al_kind = kind, al_limit_value = limit, al_elapsed_seconds = elapsed,
       al_partial_output = partial, al_str = ew_render_limit w kind limit elapsed partial\<rparr>"

section \<open>One attempt\<close>

record engine_state =
  en_context :: attempt_context
  en_health :: health_monitor
  en_ledger :: "cost_ledger \<times> ledger_file"
  en_provider :: provider
  en_turn_cap :: "int option"

definition append_attempt_records :: "engine_world \<Rightarrow> nat \<Rightarrow> engine_state \<Rightarrow> provider \<Rightarrow> runtime_spec \<Rightarrow> string \<Rightarrow> usage \<Rightarrow>
    string \<Rightarrow> runtime_failure option \<Rightarrow> engine_state" where
  "append_attempt_records w k s prov spec outcome u note failure =
     (let ctx = en_context s;
          entry = from_usage (ew_clock w k) (ac_agent_id ctx) (int (length (ac_attempts ctx))) prov (rs_model spec) u [] 0;
          rec = \<lparr>atr_attempt_index = int (length (ac_attempts ctx)), atr_provider = prov, atr_model = rs_model spec,
            atr_started_at = ew_clock w k, atr_finished_at = ew_clock w k, atr_outcome = outcome,
            atr_failure_kind = map_option (\<lambda>f. class_name (rf_class f)) failure, atr_usage = u,
            atr_estimated_usd = le_estimated_usd entry, atr_decision_note = note, atr_next_provider = None\<rparr>
      in s\<lparr>en_ledger := ledger_append (ew_render_entry w) (en_ledger s) entry,
           en_context := ctx\<lparr>ac_attempts := ac_attempts ctx @ [rec]\<rparr>\<rparr>)"

text \<open>How the stream of the attempt ended: the state of the collectors, and the result or the
  classified failure.\<close>

definition attempt_outcome :: "engine_world \<Rightarrow> provider \<Rightarrow> runtime_spec \<Rightarrow> agent_stream \<Rightarrow>
    stream_state \<times> (runtime_failure + agent_run_result)" where
  "attempt_outcome w prov spec strm =
     (let (events, ending) = strm;
          fail = (\<lambda>s elapsed e. (s, Inl (classify_failure (ew_parsers w) prov e (ew_agent_id w) elapsed (join_lines (ss_collected_text s)))))
      in case consume_events (rs_max_tool_calls spec) stream_start events of
           Tool_Cap s t \<Rightarrow> fail s t (agent_limit_exceeded w Tool_Calls (the (rs_max_tool_calls spec)) t (join_lines (ss_collected_text s)))
         | Consumed s \<Rightarrow>
             (case ending of
                Stream_Done t \<Rightarrow> (s, Inr \<lparr>rr_output_text = join_lines (ss_collected_text s),
                    rr_trace_text = join_lines (ss_trace_lines s), rr_tool_calls = ss_tool_calls s, rr_elapsed_seconds = t\<rparr>)
              | Stream_Timeout t \<Rightarrow> fail s t (agent_limit_exceeded w Wall_Clock
                    (py_int (case ew_wall_clock_seconds w of Some x \<Rightarrow> x | None \<Rightarrow> 0)) t (join_lines (ss_collected_text s)))
              | Stream_Raised t e \<Rightarrow> fail s t e))"

definition run_single_attempt :: "engine_world \<Rightarrow> nat \<Rightarrow> engine_state \<Rightarrow> string \<Rightarrow>
    (runtime_failure + agent_run_result) \<times> engine_state" where
  "run_single_attempt w k s prompt =
     (let prov = ew_runtime_provider w (en_provider s);
          spec = ew_build_runtime_spec w (en_provider s) (en_turn_cap s);
          (strm, res) = attempt_outcome w prov spec (ew_stream w k (en_provider s) prompt (en_turn_cap s))
      in case res of
           Inr r \<Rightarrow>
             (Inr r, append_attempt_records w k (s\<lparr>en_health := record_success (en_health s) prov\<rparr>) prov spec
                ''success'' (ss_usage strm) ''success'' None)
         | Inl f \<Rightarrow>
             let partial = (if rf_partial_output f \<noteq> [] then rf_partial_output f else join_lines (ss_collected_text strm));
                 s1 = s\<lparr>en_context := record_partial (en_context s) prov partial,
                        en_health := record_failure (en_health s) (ew_clock w k) prov (rf_class f)\<rparr>
             in (Inl f, append_attempt_records w k s1 prov spec ''failed'' (ss_usage strm)
                   (class_name (rf_class f) @ '': '' @ rf_message f) (Some f)))"

section \<open>The loop\<close>

definition mark_last_attempt :: "attempt_context \<Rightarrow> string \<Rightarrow> recovery_decision \<Rightarrow> attempt_context" where
  "mark_last_attempt ctx outcome d =
     (if ac_attempts ctx = [] then ctx
      else ctx\<lparr>ac_attempts := butlast (ac_attempts ctx) @ [(last (ac_attempts ctx))
        \<lparr>atr_outcome := outcome, atr_decision_note := rd_note d, atr_next_provider := rd_target_provider d\<rparr>]\<rparr>)"

definition salvage_is_valid :: "string \<Rightarrow> (string \<Rightarrow> bool) option \<Rightarrow> bool" where
  "salvage_is_valid text validator =
     (if py_strip text = [] then False else (case validator of Some v \<Rightarrow> v text | None \<Rightarrow> True))"

datatype handled = Returned agent_run_result | Raised runtime_failure | Continued

text \<open>The \<open>for\<close> loop over the policy's decisions.\<close>

fun apply_decisions :: "engine_world \<Rightarrow> runtime_failure \<Rightarrow> recovery_decision list \<Rightarrow> engine_state \<Rightarrow> handled \<times> engine_state" where
  "apply_decisions w f [] s = (Raised f, s)"
| "apply_decisions w f (d # ds) s =
     (case rd_action d of
        Salvage_Partial \<Rightarrow>
          (let partial = latest_partial_output (en_context s) in
           if partial \<noteq> [] \<and> salvage_is_valid partial (ew_salvage_validator w)
           then (Returned \<lparr>rr_output_text = partial, rr_trace_text = partial, rr_tool_calls = [],
                   rr_elapsed_seconds = rf_elapsed_seconds f\<rparr>,
                 s\<lparr>en_context := mark_last_attempt (en_context s) ''salvaged'' d\<rparr>)
           else apply_decisions w f ds s)
      | Retry_Same \<Rightarrow>
          (Continued, s\<lparr>en_turn_cap := (case rd_bumped_max_turns d of
             Some n \<Rightarrow> if n \<noteq> 0 then Some n else en_turn_cap s | None \<Rightarrow> en_turn_cap s)\<rparr>)
      | Fallback_To \<Rightarrow>
          (case rd_target_provider d of
             None \<Rightarrow> apply_decisions w f ds s
           | Some p \<Rightarrow> (Continued, s\<lparr>en_provider := p, en_turn_cap := ew_max_turns w,
                            en_context := mark_last_attempt (en_context s) ''fallback'' d\<rparr>))
      | Fail_Action \<Rightarrow> (Raised f, s\<lparr>en_context := mark_last_attempt (en_context s) ''failed'' d\<rparr>))"

text \<open>What follows a failed attempt.\<close>

definition after_failure :: "engine_world \<Rightarrow> nat \<Rightarrow> runtime_failure \<Rightarrow> engine_state \<Rightarrow> handled \<times> engine_state" where
  "after_failure w k f s =
     (if is_fatal (rf_class f) then
        (if rf_class f = AuthenticationError \<and> en_provider s \<noteq> ew_primary_provider w \<and>
            \<not> is_dead (en_health s) (ew_primary_provider w)
         then (Continued, s\<lparr>en_health := the (mark_dead (en_health s) (en_provider s) (''authentication: '' @ take 120 (rf_message f))),
                 en_context := mark_last_attempt (en_context s) ''provider_dead_skip'' (decision Fail_Action []),
                 en_provider := ew_primary_provider w, en_turn_cap := ew_max_turns w\<rparr>)
         else (Raised f, s))
      else apply_decisions w f (iter_decisions (en_health s) (ew_clock w k) (ew_policy w) f (en_context s)) s)"

text \<open>One pass of \<open>while True\<close>, and the loop.\<close>

definition engine_step :: "engine_world \<Rightarrow> engine_state \<Rightarrow> handled \<times> engine_state" where
  "engine_step w s =
     (let k = length (ac_attempts (en_context s)) in
      if int k \<ge> ew_max_total_attempts w
      then (Raised (make_failure RuntimeFailure (''Maximum provider attempts reached for '' @ ew_agent_id w)
              (Some (en_provider s)) (ew_agent_id w) 0 []), s)
      else case budget_check (ew_budget w) (fst (en_ledger s)) (ew_run_started_at w) (ew_clock w k) (ew_agent_id w) (int k) of
             Some f \<Rightarrow> (Raised f, s)
           | None \<Rightarrow>
               (case run_single_attempt w k s (continuation_prompt (ew_json_loads w) (ew_json_dumps w) (en_context s)) of
                  (Inr r, s') \<Rightarrow> (Returned r, s')
                | (Inl f, s') \<Rightarrow> after_failure w k f s'))"

lemma mark_last_attempt_length [simp]: "length (ac_attempts (mark_last_attempt ctx oc d)) = length (ac_attempts ctx)"
  by (cases "ac_attempts ctx" rule: rev_cases) (simp_all add: mark_last_attempt_def)

lemma apply_decisions_attempts:
  "length (ac_attempts (en_context (snd (apply_decisions w f ds s)))) = length (ac_attempts (en_context s))"
  by (induction ds arbitrary: s) (auto split: decision_action.split option.split simp: Let_def)

lemma append_attempt_records_attempts [simp]:
  "length (ac_attempts (en_context (append_attempt_records w k s prov spec oc u note fl))) = Suc (length (ac_attempts (en_context s)))"
  by (simp add: append_attempt_records_def Let_def)

lemma record_partial_attempts [simp]: "ac_attempts (record_partial ctx prov out) = ac_attempts ctx"
  by (simp add: record_partial_def)

lemma run_single_attempt_attempts:
  "length (ac_attempts (en_context (snd (run_single_attempt w k s prompt)))) = Suc (length (ac_attempts (en_context s)))"
  by (auto simp: run_single_attempt_def Let_def split: prod.split sum.split)

lemma after_failure_attempts:
  "length (ac_attempts (en_context (snd (after_failure w k f s)))) = length (ac_attempts (en_context s))"
  by (simp add: after_failure_def apply_decisions_attempts)

lemma engine_step_attempts:
  assumes "engine_step w s = (h, s')"
  shows "length (ac_attempts (en_context s')) =
    (if int (length (ac_attempts (en_context s))) \<ge> ew_max_total_attempts w \<or>
        budget_check (ew_budget w) (fst (en_ledger s)) (ew_run_started_at w) (ew_clock w (length (ac_attempts (en_context s))))
          (ew_agent_id w) (int (length (ac_attempts (en_context s)))) \<noteq> None
     then length (ac_attempts (en_context s)) else Suc (length (ac_attempts (en_context s))))"
proof -
  let ?prompt = "continuation_prompt (ew_json_loads w) (ew_json_dumps w) (en_context s)"
  obtain r s1 where r: "run_single_attempt w (length (ac_attempts (en_context s))) s ?prompt = (r, s1)" by fastforce
  have l: "length (ac_attempts (en_context s1)) = Suc (length (ac_attempts (en_context s)))"
    using run_single_attempt_attempts [of w "length (ac_attempts (en_context s))" s ?prompt] by (simp add: r)
  have "length (ac_attempts (en_context (snd (after_failure w k f s1)))) = Suc (length (ac_attempts (en_context s)))" for k f
    by (simp add: after_failure_attempts l)
  with assms r l show ?thesis
    by (auto simp: engine_step_def Let_def split: option.splits sum.splits if_splits) (metis snd_conv)+
qed

lemma engine_step_continues:
  assumes "engine_step w s = (Continued, s')"
  shows "int (length (ac_attempts (en_context s))) < ew_max_total_attempts w \<and>
    length (ac_attempts (en_context s')) = Suc (length (ac_attempts (en_context s)))"
proof -
  have "\<not> (int (length (ac_attempts (en_context s))) \<ge> ew_max_total_attempts w)"
    and "budget_check (ew_budget w) (fst (en_ledger s)) (ew_run_started_at w) (ew_clock w (length (ac_attempts (en_context s))))
          (ew_agent_id w) (int (length (ac_attempts (en_context s)))) = None"
    using assms by (auto simp: engine_step_def Let_def split: if_splits option.splits)
  with engine_step_attempts [OF assms] show ?thesis by simp
qed

function engine_loop :: "engine_world \<Rightarrow> engine_state \<Rightarrow> (runtime_failure + agent_run_result) \<times> engine_state" where
  "engine_loop w s =
     (case engine_step w s of
        (Returned r, s') \<Rightarrow> (Inr r, s')
      | (Raised f, s') \<Rightarrow> (Inl f, s')
      | (Continued, s') \<Rightarrow> engine_loop w s')"
  by pat_completeness auto
termination
  by (relation "measure (\<lambda>(w, s). nat (ew_max_total_attempts w - int (length (ac_attempts (en_context s)))))")
    (auto dest!: engine_step_continues [OF sym])

declare engine_loop.simps [simp del]

definition first_healthy :: "provider \<Rightarrow> provider list \<Rightarrow> health_monitor \<Rightarrow> time \<Rightarrow> provider" where
  "first_healthy primary chain m now =
     (if is_healthy m now primary then primary
      else case find (is_healthy m now) chain of Some p \<Rightarrow> p | None \<Rightarrow> primary)"

definition run_agent_with_resilience :: "engine_world \<Rightarrow> string \<Rightarrow> string \<Rightarrow> provider list \<Rightarrow> health_monitor \<Rightarrow>
    cost_ledger \<times> ledger_file \<Rightarrow> (runtime_failure + agent_run_result) \<times> engine_state" where
  "run_agent_with_resilience w base_prompt cwd chain health ledger =
     engine_loop w \<lparr>en_context = \<lparr>ac_agent_id = ew_agent_id w, ac_base_prompt = base_prompt, ac_cwd = cwd, ac_attempts = [],
         ac_partial_output_by_provider = Map.empty\<rparr>,
       en_health = health, en_ledger = ledger,
       en_provider = first_healthy (ew_primary_provider w) chain health (ew_clock w 0),
       en_turn_cap = ew_max_turns w\<rparr>"

section \<open>What every run satisfies\<close>

text \<open>Induction along the passes of the loop.\<close>

lemma engine_loop_induct [case_names Step]:
  assumes "\<And>s. (\<And>s'. engine_step w s = (Continued, s') \<Longrightarrow> P s') \<Longrightarrow> P s"
  shows "P s"
proof (induction "nat (ew_max_total_attempts w - int (length (ac_attempts (en_context s))))" arbitrary: s rule: less_induct)
  case less
  show ?case
  proof (rule assms)
    fix s' assume "engine_step w s = (Continued, s')"
    from engine_step_continues [OF this] show "P s'" by (intro less) simp
  qed
qed

text \<open>The attempt log and the ledger grow together.\<close>

definition books_agree :: "ledger_entry list \<Rightarrow> engine_state \<Rightarrow> bool" where
  "books_agree old s \<longleftrightarrow> (\<exists>new. cl_entries (fst (en_ledger s)) = old @ new \<and>
     map le_provider new = map atr_provider (ac_attempts (en_context s)) \<and>
     map le_attempt_index new = map int [0..<length (ac_attempts (en_context s))] \<and>
     map le_estimated_usd new = map atr_estimated_usd (ac_attempts (en_context s)))"

lemma ledger_append_entries: "cl_entries (fst (ledger_append render s e)) = cl_entries (fst s) @ [e]"
  by (simp add: ledger_append_def flush_locked_def Let_def split: prod.split)

lemma append_attempt_records_books:
  assumes "books_agree old s"
  shows "books_agree old (append_attempt_records w k s prov spec oc u note fl)"
proof -
  obtain new where new: "cl_entries (fst (en_ledger s)) = old @ new"
    "map le_provider new = map atr_provider (ac_attempts (en_context s))"
    "map le_attempt_index new = map int [0..<length (ac_attempts (en_context s))]"
    "map le_estimated_usd new = map atr_estimated_usd (ac_attempts (en_context s))"
    using assms by (auto simp: books_agree_def)
  let ?e = "from_usage (ew_clock w k) (ac_agent_id (en_context s)) (int (length (ac_attempts (en_context s)))) prov (rs_model spec) u [] 0"
  show ?thesis
    unfolding books_agree_def
    by (rule exI [of _ "new @ [?e]"]) (simp add: append_attempt_records_def Let_def ledger_append_entries new from_usage_def)
qed

lemma books_agree_cong:
  "books_agree old s \<Longrightarrow> en_ledger s' = en_ledger s \<Longrightarrow>
   map (\<lambda>a. (atr_provider a, atr_estimated_usd a)) (ac_attempts (en_context s')) =
     map (\<lambda>a. (atr_provider a, atr_estimated_usd a)) (ac_attempts (en_context s)) \<Longrightarrow> books_agree old s'"
proof -
  assume b: "books_agree old s" and l: "en_ledger s' = en_ledger s"
    and m: "map (\<lambda>a. (atr_provider a, atr_estimated_usd a)) (ac_attempts (en_context s')) =
      map (\<lambda>a. (atr_provider a, atr_estimated_usd a)) (ac_attempts (en_context s))"
  from arg_cong [OF m, of "map fst"] arg_cong [OF m, of "map snd"] arg_cong [OF m, of length]
  have "map atr_provider (ac_attempts (en_context s')) = map atr_provider (ac_attempts (en_context s))"
    "map atr_estimated_usd (ac_attempts (en_context s')) = map atr_estimated_usd (ac_attempts (en_context s))"
    "length (ac_attempts (en_context s')) = length (ac_attempts (en_context s))"
    by (simp_all add: comp_def)
  with b l show ?thesis by (simp add: books_agree_def)
qed

lemma mark_last_attempt_books [simp]:
  "map (\<lambda>a. (atr_provider a, atr_estimated_usd a)) (ac_attempts (mark_last_attempt ctx oc d)) =
   map (\<lambda>a. (atr_provider a, atr_estimated_usd a)) (ac_attempts ctx)"
  by (cases "ac_attempts ctx" rule: rev_cases) (simp_all add: mark_last_attempt_def)

lemma apply_decisions_books: "books_agree old s \<Longrightarrow> books_agree old (snd (apply_decisions w f ds s))"
proof (induction ds arbitrary: s)
  case (Cons d ds)
  then show ?case
    by (cases "rd_action d") (auto simp: Let_def split: option.split elim: books_agree_cong)
qed simp

lemma after_failure_books: "books_agree old s \<Longrightarrow> books_agree old (snd (after_failure w k f s))"
  by (auto simp: after_failure_def apply_decisions_books elim: books_agree_cong)

lemma run_single_attempt_books:
  assumes "books_agree old s" shows "books_agree old (snd (run_single_attempt w k s prompt))"
proof -
  have "books_agree old (s\<lparr>en_health := m\<rparr>)" "books_agree old (s\<lparr>en_context := record_partial (en_context s) p out, en_health := m\<rparr>)"
    for m p out using assms by (auto elim: books_agree_cong)
  then show ?thesis
    by (auto simp: run_single_attempt_def Let_def append_attempt_records_books split: prod.split sum.split)
qed

lemma engine_step_books:
  assumes "books_agree old s" shows "books_agree old (snd (engine_step w s))"
  using run_single_attempt_books [OF assms] after_failure_books assms
  by (auto simp: engine_step_def Let_def split: option.split sum.split prod.split) (metis snd_conv)+

lemma engine_loop_books:
  assumes "books_agree old s" "int (length (ac_attempts (en_context s))) \<le> max 0 (ew_max_total_attempts w)"
  shows "books_agree old (snd (engine_loop w s)) \<and>
    int (length (ac_attempts (en_context (snd (engine_loop w s))))) \<le> max 0 (ew_max_total_attempts w)"
  using assms
proof (induction s rule: engine_loop_induct [of w])
  case (Step s)
  obtain h s' where st: "engine_step w s = (h, s')" by fastforce
  have b: "books_agree old s'" using engine_step_books [OF Step.prems(1), of w] by (simp add: st)
  have n: "int (length (ac_attempts (en_context s'))) \<le> max 0 (ew_max_total_attempts w)"
    using engine_step_attempts [OF st] Step.prems(2) by (auto split: if_splits)
  show ?case
  proof (cases h)
    case Continued
    with Step.IH [OF _ b n] st show ?thesis by (simp add: engine_loop.simps [of w s])
  qed (use b n st in \<open>simp_all add: engine_loop.simps [of w s]\<close>)
qed

text \<open>
  C3. A run always ends, after at most \<open>max_total_attempts\<close> attempts, whatever the providers and
  the policy do; and its books balance: each attempt has exactly one ledger entry, of the same
  provider and cost, numbered from 0, behind the entries the ledger had before.
\<close>

theorem run_bounded_and_accounted:
  assumes "run_agent_with_resilience w base_prompt cwd chain health ledger = (res, s)"
  shows "int (length (ac_attempts (en_context s))) \<le> max 0 (ew_max_total_attempts w) \<and>
    (\<exists>new. cl_entries (fst (en_ledger s)) = cl_entries (fst ledger) @ new \<and>
       map le_provider new = map atr_provider (ac_attempts (en_context s)) \<and>
       map le_attempt_index new = map int [0..<length (ac_attempts (en_context s))] \<and>
       map le_estimated_usd new = map atr_estimated_usd (ac_attempts (en_context s)))"
proof -
  let ?s = "\<lparr>en_context = \<lparr>ac_agent_id = ew_agent_id w, ac_base_prompt = base_prompt, ac_cwd = cwd, ac_attempts = [],
      ac_partial_output_by_provider = Map.empty\<rparr>, en_health = health, en_ledger = ledger,
      en_provider = first_healthy (ew_primary_provider w) chain health (ew_clock w 0), en_turn_cap = ew_max_turns w\<rparr>"
  have "books_agree (cl_entries (fst ledger)) ?s" by (simp add: books_agree_def)
  from engine_loop_books [OF this, of w] assms show ?thesis
    by (simp add: run_agent_with_resilience_def books_agree_def)
qed

section \<open>What a run returns and raises\<close>

definition explained :: "engine_world \<Rightarrow> runtime_failure + agent_run_result \<Rightarrow> engine_state \<Rightarrow> bool" where
  "explained w res s \<longleftrightarrow>
     (case res of
        Inr r \<Rightarrow> ac_attempts (en_context s) \<noteq> [] \<and>
          (atr_outcome (last (ac_attempts (en_context s))) = ''success'' \<and> atr_failure_kind (last (ac_attempts (en_context s))) = None \<or>
           atr_outcome (last (ac_attempts (en_context s))) = ''salvaged'' \<and> salvage_is_valid (rr_output_text r) (ew_salvage_validator w))
      | Inl f \<Rightarrow>
          rf_class f = BudgetExhausted \<or>
          rf_class f = RuntimeFailure \<and> int (length (ac_attempts (en_context s))) \<ge> ew_max_total_attempts w \<or>
          ac_attempts (en_context s) \<noteq> [] \<and>
          atr_failure_kind (last (ac_attempts (en_context s))) = Some (class_name (rf_class f)))"

lemma run_single_attempt_last:
  assumes "run_single_attempt w k s prompt = (res, s')"
  shows "ac_attempts (en_context s') \<noteq> [] \<and>
    (case res of
       Inr r \<Rightarrow> atr_outcome (last (ac_attempts (en_context s'))) = ''success'' \<and> atr_failure_kind (last (ac_attempts (en_context s'))) = None
     | Inl f \<Rightarrow> atr_failure_kind (last (ac_attempts (en_context s'))) = Some (class_name (rf_class f)))"
  using assms by (auto simp: run_single_attempt_def append_attempt_records_def Let_def split: prod.splits sum.splits)

lemma mark_last_attempt_last:
  "ac_attempts ctx \<noteq> [] \<Longrightarrow> ac_attempts (mark_last_attempt ctx oc d) \<noteq> [] \<and>
   atr_outcome (last (ac_attempts (mark_last_attempt ctx oc d))) = oc \<and>
   atr_failure_kind (last (ac_attempts (mark_last_attempt ctx oc d))) = atr_failure_kind (last (ac_attempts ctx))"
  by (simp add: mark_last_attempt_def)

lemma apply_decisions_explained:
  assumes "apply_decisions w f ds s = (h, s')" "ac_attempts (en_context s) \<noteq> []"
    "atr_failure_kind (last (ac_attempts (en_context s))) = Some (class_name (rf_class f))"
  shows "(\<forall>r. h = Returned r \<longrightarrow> explained w (Inr r) s') \<and> (\<forall>g. h = Raised g \<longrightarrow> explained w (Inl g) s')"
  using assms
proof (induction ds arbitrary: s)
  case (Cons d ds)
  then show ?case
    by (cases "rd_action d")
      (auto simp: Let_def explained_def mark_last_attempt_last split: option.splits if_splits)
qed (auto simp: explained_def)

lemma engine_step_explained:
  assumes "engine_step w s = (h, s')"
  shows "(\<forall>r. h = Returned r \<longrightarrow> explained w (Inr r) s') \<and> (\<forall>g. h = Raised g \<longrightarrow> explained w (Inl g) s')"
proof -
  let ?k = "length (ac_attempts (en_context s))"
  let ?prompt = "continuation_prompt (ew_json_loads w) (ew_json_dumps w) (en_context s)"
  let ?b = "budget_check (ew_budget w) (fst (en_ledger s)) (ew_run_started_at w) (ew_clock w ?k) (ew_agent_id w) (int ?k)"
  consider (max) "int ?k \<ge> ew_max_total_attempts w" | (budget) f where "int ?k < ew_max_total_attempts w" "?b = Some f"
    | (run) "int ?k < ew_max_total_attempts w" "?b = None" by (cases ?b) fastforce+
  then show ?thesis
  proof cases
    case max
    with assms show ?thesis by (auto simp: engine_step_def Let_def explained_def make_failure_def)
  next
    case budget
    then have "rf_class f = BudgetExhausted"
      by (auto simp: budget_check_def budget_failure_def make_failure_def split: if_splits option.splits)
    with budget assms show ?thesis by (auto simp: engine_step_def Let_def explained_def)
  next
    case run
    obtain res s1 where r: "run_single_attempt w ?k s ?prompt = (res, s1)" by fastforce
    note last = run_single_attempt_last [OF r]
    show ?thesis
    proof (cases res)
      case (Inr a)
      with run r assms last show ?thesis by (auto simp: engine_step_def Let_def explained_def)
    next
      case (Inl f)
      then have st: "after_failure w ?k f s1 = (h, s')" using run r assms by (simp add: engine_step_def Let_def)
      show ?thesis
      proof (cases "is_fatal (rf_class f)")
        case True
        with st last Inl show ?thesis by (auto simp: after_failure_def explained_def split: if_splits)
      next
        case False
        then have "apply_decisions w f (iter_decisions (en_health s1) (ew_clock w ?k) (ew_policy w) f (en_context s1)) s1 = (h, s')"
          using st by (simp add: after_failure_def)
        from apply_decisions_explained [OF this] last Inl show ?thesis by simp
      qed
    qed
  qed
qed

lemma engine_loop_explained: "engine_loop w s = (res, s') \<Longrightarrow> explained w res s'"
proof (induction s rule: engine_loop_induct [of w])
  case (Step s)
  obtain h s1 where st: "engine_step w s = (h, s1)" by fastforce
  note e = engine_step_explained [OF st]
  show ?case
  proof (cases h)
    case Continued
    with Step st show ?thesis by (simp add: engine_loop.simps [of w s])
  qed (use e st Step.prems in \<open>simp_all add: engine_loop.simps [of w s]\<close>)
qed

text \<open>
  C23. The outcome of a run is accounted for: a returned result comes from a last attempt that
  succeeded, or was salvaged from partial output that is not blank and passes the validator; a
  raised failure is an exhausted budget, the attempt limit, or the classified failure of the last
  attempt, never an older one.
\<close>

theorem run_outcome_explained:
  assumes "run_agent_with_resilience w base_prompt cwd chain health ledger = (res, s)"
  shows "case res of
      Inr r \<Rightarrow> ac_attempts (en_context s) \<noteq> [] \<and>
        (atr_outcome (last (ac_attempts (en_context s))) = ''success'' \<and> atr_failure_kind (last (ac_attempts (en_context s))) = None \<or>
         atr_outcome (last (ac_attempts (en_context s))) = ''salvaged'' \<and> py_strip (rr_output_text r) \<noteq> [] \<and>
         (case ew_salvage_validator w of None \<Rightarrow> True | Some v \<Rightarrow> v (rr_output_text r)))
    | Inl f \<Rightarrow>
        rf_class f = BudgetExhausted \<or>
        rf_class f = RuntimeFailure \<and> int (length (ac_attempts (en_context s))) \<ge> ew_max_total_attempts w \<or>
        ac_attempts (en_context s) \<noteq> [] \<and>
        atr_failure_kind (last (ac_attempts (en_context s))) = Some (class_name (rf_class f))"
proof -
  have e: "explained w res s"
    using engine_loop_explained assms by (auto simp: run_agent_with_resilience_def)
  show ?thesis
  proof (cases res)
    case (Inr r)
    then show ?thesis using e by (cases "py_strip (rr_output_text r) = []") (simp_all add: explained_def salvage_is_valid_def)
  qed (use e in \<open>simp add: explained_def\<close>)
qed

section \<open>Retries that do not happen\<close>

lemma failure_count_pos:
  assumes "ac_attempts ctx \<noteq> []" "atr_failure_kind (last (ac_attempts ctx)) = Some c"
  shows "1 \<le> failure_count ctx c"
  using assms by (cases "ac_attempts ctx" rule: rev_cases) (simp_all add: failure_count_def)

text \<open>
  Under the default policy a rate limit is never retried: the attempt is on record when the
  policy counts, so the one retry that \<open>BackoffOnRateLimit(max_retries=1)\<close> promises is always used
  up, and the run raises at the first \<open>RateLimited\<close> failure.
\<close>

theorem rate_limit_never_retried:
  assumes "ew_policy w = default_recovery_policy chain"
    and "run_single_attempt w k s prompt = (Inl f, s')" and "rf_class f = RateLimited delay"
  shows "fst (after_failure w k f s') = Raised f"
proof -
  from run_single_attempt_last [OF assms(2)] assms(3)
  have "1 \<le> failure_count (en_context s') ''RateLimited''" by (intro failure_count_pos) simp_all
  then have "iter_decisions (en_health s') (ew_clock w k) (default_recovery_policy chain) f (en_context s') =
      [decision Fail_Action ''RateLimited'']"
    using assms(3) by (simp add: iter_decisions_def default_recovery_policy_def List.map_filter_simps)
  then show ?thesis
    using assms(1,3) by (simp add: after_failure_def decision_def)
qed

text \<open>A step-limit message of the OpenAI runtime carries its number in vain: the limit is read as 0
  and the retry gets a single turn.\<close>

lemma step_limit_retry_gets_one_turn:
  assumes "turn_limit (failure_text x) = None" "step_limit (failure_text x)"
    and "f = classify_failure hp Openai (Exc_Foreign x) agent_id elapsed partial"
    and "int (failure_count ctx ''TurnBudgetExhausted'') < max_attempts"
  shows "limit_value (rf_class f) = 0 \<and>
    (\<exists>d. decide m now (BumpOnTurnBudget factor max_attempts) f ctx = Some d \<and> rd_action d = Retry_Same \<and> rd_bumped_max_turns d = Some 1)"
proof -
  have "rf_class f = TurnBudgetExhausted 0"
    using assms(1-3) by (simp add: classify_failure_def classify_openai_def make_failure_def openai_class_def Let_def)
  with assms(4) show ?thesis by (simp add: decision_def py_int_def)
qed

text \<open>The turn-budget bump counts only failures of the class itself: tool-cap failures, which it also
  retries, are never counted.\<close>

lemma tool_cap_bump_unbounded:
  assumes "rf_class f = ToolBudgetExhausted n" "0 < max_attempts"
    and "\<forall>a \<in> set (ac_attempts ctx). atr_failure_kind a = Some ''ToolBudgetExhausted''"
  shows "\<exists>d. decide m now (BumpOnTurnBudget factor max_attempts) f ctx = Some d \<and> rd_action d = Retry_Same"
proof -
  have "failure_count ctx ''TurnBudgetExhausted'' = 0"
    using assms(3) by (auto simp: failure_count_def filter_empty_conv)
  with assms(1,2) show ?thesis by (simp add: decision_def Let_def)
qed

section \<open>Sample runs\<close>

definition sample_engine :: "(nat \<Rightarrow> agent_stream) \<Rightarrow> engine_world" where
  "sample_engine strm = \<lparr>ew_runtime_provider = (\<lambda>p. p), ew_stream = (\<lambda>k _ _ _. strm k),
     ew_build_runtime_spec = (\<lambda>_ _. \<lparr>rs_model = ''gpt-4o'', rs_max_tool_calls = None\<rparr>), ew_clock = (\<lambda>k. int k),
     ew_parsers = quiet_parsers, ew_render_limit = (\<lambda>_ _ _ _. ''limit''), ew_json_loads = (\<lambda>_. None), ew_json_dumps = (\<lambda>s. s),
     ew_render_entry = le_agent_id, ew_salvage_validator = None, ew_policy = default_recovery_policy [Anthropic, Openai],
     ew_budget = \<lparr>rb_max_usd = None, rb_max_wall_clock_seconds = None, rb_max_pod_seconds = None,
       rb_max_invocations_per_agent = [], rb_rlm_calls_remaining = 120, rb_max_run_gpu_usd = None\<rparr>,
     ew_run_started_at = 0, ew_max_turns = None, ew_wall_clock_seconds = None, ew_max_total_attempts = 3,
     ew_agent_id = ''coder'', ew_primary_provider = Anthropic\<rparr>"

definition good_stream :: agent_stream where
  "good_stream = ([(1, StreamText ''done'')], Stream_Done 2)"

definition limited_stream :: agent_stream where
  "limited_stream = ([], Stream_Raised 1 (Exc_Failure (make_failure (RateLimited None) [] (Some Anthropic) ''coder'' 1 [])))"

definition sample_run :: "(runtime_failure + agent_run_result) \<times> engine_state" where
  "sample_run = run_agent_with_resilience (sample_engine (\<lambda>_. good_stream)) ''task'' ''.'' [Anthropic, Openai] new_monitor
     (make_ledger ''p'' [] True 25, [])"

theorem run_bounded_and_accounted_witness:
  "int (length (ac_attempts (en_context (snd sample_run)))) \<le> 3"
  using run_bounded_and_accounted [of "sample_engine (\<lambda>_. good_stream)" "''task''" "''.''" "[Anthropic, Openai]" new_monitor
      "(make_ledger ''p'' [] True 25, [])" "fst sample_run" "snd sample_run"]
  by (simp add: sample_run_def) (simp add: sample_engine_def)

theorem run_outcome_explained_witness:
  "case fst sample_run of
     Inr r \<Rightarrow> ac_attempts (en_context (snd sample_run)) \<noteq> []
   | Inl f \<Rightarrow> rf_class f = BudgetExhausted \<or>
       rf_class f = RuntimeFailure \<and> int (length (ac_attempts (en_context (snd sample_run)))) \<ge> 3 \<or>
       ac_attempts (en_context (snd sample_run)) \<noteq> []"
proof -
  have "ew_max_total_attempts (sample_engine (\<lambda>_. good_stream)) = 3" by (simp add: sample_engine_def)
  with run_outcome_explained [of "sample_engine (\<lambda>_. good_stream)" "''task''" "''.''" "[Anthropic, Openai]" new_monitor
      "(make_ledger ''p'' [] True 25, [])" "fst sample_run" "snd sample_run"]
  show ?thesis by (auto simp: sample_run_def split: sum.splits)
qed

theorem rate_limit_never_retried_witness:
  "\<exists>f s'. run_single_attempt (sample_engine (\<lambda>_. limited_stream)) 0 (snd sample_run) ''task'' = (Inl f, s') \<and>
     fst (after_failure (sample_engine (\<lambda>_. limited_stream)) 0 f s') = Raised f"
proof -
  let ?w = "sample_engine (\<lambda>_. limited_stream)"
  let ?f = "make_failure (RateLimited None) [] (Some Anthropic) ''coder'' 1 []"
  obtain s' where r: "run_single_attempt ?w 0 (snd sample_run) ''task'' = (Inl ?f, s')"
    by (simp add: run_single_attempt_def attempt_outcome_def sample_engine_def limited_stream_def classify_failure_def Let_def)
  have "ew_policy ?w = default_recovery_policy [Anthropic, Openai]" by (simp add: sample_engine_def)
  from rate_limit_never_retried [OF this r] r show ?thesis by (auto simp: make_failure_def)
qed

end
