(* ===== verification/Gpu_Allocator.thy ===== *)
theory Gpu_Allocator
  imports Call_Machine
begin

text \<open>
  Leasing of the host's GPUs, \<^verbatim>\<open>src/backend/services/runtime/local_gpu_allocator.py\<close>: discovery from
  the texts \<^verbatim>\<open>nvidia-smi\<close> prints, the test which cards are free, and the lease table in a file.

  The table is the dict of the JSON file, in insertion order; \<open>None\<close> is an absent file. Every
  method holds the exclusive lock from the first read to the last write, so a call is one step.
  \<open>gpu_env\<close> is what a call meets: which process ids are alive, the two outputs (\<open>None\<close> where the
  command fails), the time, whether the file could be read and whether it could be written.
\<close>

section \<open>Texts\<close>

text \<open>\<open>str.splitlines\<close> and \<open>str.split\<close> with one character.\<close>

definition line_break :: "char \<Rightarrow> bool" where
  "line_break c \<longleftrightarrow> (let n = of_char c :: nat in (10 \<le> n \<and> n \<le> 13) \<or> (28 \<le> n \<and> n \<le> 30) \<or> n = 133)"

fun splitlines_from :: "string \<Rightarrow> string \<Rightarrow> string list" where
  "splitlines_from acc [] = (if acc = [] then [] else [rev acc])"
| "splitlines_from acc [c] = (if line_break c then [rev acc] else [rev (c # acc)])"
| "splitlines_from acc (c # d # cs) =
     (if line_break c then
        (if c = CHR 0x0D \<and> d = CHR 0x0A then rev acc # splitlines_from [] cs
         else rev acc # splitlines_from [] (d # cs))
      else splitlines_from (c # acc) (d # cs))"

definition py_splitlines :: "string \<Rightarrow> string list" where
  "py_splitlines s = splitlines_from [] s"

fun py_split_on :: "char \<Rightarrow> string \<Rightarrow> string list" where
  "py_split_on x [] = [[]]"
| "py_split_on x (c # cs) =
     (case py_split_on x cs of
        [] \<Rightarrow> [[]]
      | p # ps \<Rightarrow> if c = x then [] # p # ps else (c # p) # ps)"

text \<open>\<open>int\<close> of a text: surrounding space, a sign, digits with single underscores between them, and
  no more than the 4300 digits the interpreter converts.\<close>

fun digit_groups :: "string \<Rightarrow> bool" where
  "digit_groups [] = False"
| "digit_groups [c] = py_digit c"
| "digit_groups (c # d # cs) = (py_digit c \<and> (if d = CHR ''_'' then digit_groups cs else digit_groups (d # cs)))"

definition int_text :: "string \<Rightarrow> int option" where
  "int_text s =
     (let t = py_strip s;
          sign = (case t of c # _ \<Rightarrow> if c = CHR ''-'' then -1 else 1 | [] \<Rightarrow> 1);
          body = (case t of c # cs \<Rightarrow> if c = CHR ''-'' \<or> c = CHR ''+'' then cs else t | [] \<Rightarrow> t);
          digits = filter (\<lambda>c. c \<noteq> CHR ''_'') body
      in if digit_groups body \<and> length digits \<le> 4300 then Some (sign * int (nat_of_digits digits)) else None)"

section \<open>Discovery\<close>

record gpu_device =
  gd_index :: int
  gd_uuid :: string
  gd_memory_total_mb :: int
  gd_memory_used_mb :: int
  gd_ext_proc_count :: nat
  gd_proc_pids :: "int list"

text \<open>One line of the first query; \<open>None\<close> is a line that is skipped.\<close>

definition gpu_row :: "string \<Rightarrow> (int \<times> string \<times> int \<times> int) option" where
  "gpu_row raw =
     (let line = py_strip raw in
      if line = [] then None
      else case map py_strip (py_split_on CHR '','' line) of
        [a, uuid, b, c] \<Rightarrow>
          (case (int_text a, int_text b, int_text c) of
             (Some idx, Some mem_total, Some mem_used) \<Rightarrow> Some (idx, uuid, mem_total, mem_used)
           | _ \<Rightarrow> None)
      | _ \<Rightarrow> None)"

definition app_row :: "string \<Rightarrow> (string \<times> int) option" where
  "app_row raw =
     (let line = py_strip raw in
      if line = [] then None
      else case map py_strip (py_split_on CHR '','' line) of
        [uuid, p] \<Rightarrow> (case int_text p of Some pid \<Rightarrow> Some (uuid, pid) | None \<Rightarrow> None)
      | _ \<Rightarrow> None)"

text \<open>The set of process ids \<open>uuid_to_pids\<close> holds for a card, as the sorted tuple made of it.\<close>

definition pids_on :: "(string \<times> int) list \<Rightarrow> string \<Rightarrow> int list" where
  "pids_on apps uuid = sort (remdups (map snd (filter (\<lambda>a. fst a = uuid) apps)))"

definition discover_gpus :: "string option \<Rightarrow> string option \<Rightarrow> gpu_device list" where
  "discover_gpus gpu_output app_output =
     (case gpu_output of
        None \<Rightarrow> []
      | Some out \<Rightarrow>
          (let devices_raw = List.map_filter gpu_row (py_splitlines out) in
           if devices_raw = [] then []
           else let apps = (case app_output of None \<Rightarrow> [] | Some t \<Rightarrow> List.map_filter app_row (py_splitlines t))
             in sort_key gd_index (map (\<lambda>(idx, uuid, mem_total, mem_used).
                  \<lparr>gd_index = idx, gd_uuid = uuid, gd_memory_total_mb = mem_total, gd_memory_used_mb = mem_used,
                   gd_ext_proc_count = length (pids_on apps uuid), gd_proc_pids = pids_on apps uuid\<rparr>) devices_raw)))"

definition foreign_on :: "int list \<Rightarrow> gpu_device \<Rightarrow> bool" where
  "foreign_on own d \<longleftrightarrow> (\<exists>p \<in> set (gd_proc_pids d). p \<notin> set own) \<or>
     gd_ext_proc_count d > length (remdups (gd_proc_pids d))"

definition free_devices :: "gpu_device list \<Rightarrow> int \<Rightarrow> int list \<Rightarrow> gpu_device list" where
  "free_devices devices free_mem_threshold_mb own_pids =
     filter (\<lambda>d. if foreign_on own_pids d then False
                 else if gd_proc_pids d \<noteq> [] then True
                 else gd_memory_used_mb d < free_mem_threshold_mb) devices"

section \<open>The lease file\<close>

record lease_entry =
  ln_pid :: int
  ln_gpu_uuids :: "string list"
  ln_gpu_indices :: "int list"
  ln_created_at :: time

record gpu_lease =
  gl_lease_id :: string
  gl_pid :: int
  gl_gpu_uuids :: "string list"
  gl_gpu_indices :: "int list"
  gl_created_at :: time

type_synonym lease_table = "(string \<times> lease_entry) list"

record gpu_env =
  ge_alive :: "int \<Rightarrow> bool"
  ge_gpu_output :: "string option"
  ge_app_output :: "string option"
  ge_now :: time
  ge_readable :: bool
  ge_writable :: bool

datatype alloc_error = SaveOSError | ZeroDivision

definition load_state :: "bool \<Rightarrow> lease_table option \<Rightarrow> lease_table" where
  "load_state readable fl = (case fl of None \<Rightarrow> [] | Some data \<Rightarrow> if readable then data else [])"

definition lease_from_dict :: "string \<Rightarrow> lease_entry \<Rightarrow> gpu_lease" where
  "lease_from_dict lease_id e = \<lparr>gl_lease_id = lease_id, gl_pid = ln_pid e, gl_gpu_uuids = ln_gpu_uuids e,
     gl_gpu_indices = ln_gpu_indices e, gl_created_at = ln_created_at e\<rparr>"

definition lease_to_dict :: "gpu_lease \<Rightarrow> lease_entry" where
  "lease_to_dict l = \<lparr>ln_pid = gl_pid l, ln_gpu_uuids = gl_gpu_uuids l, ln_gpu_indices = gl_gpu_indices l,
     ln_created_at = gl_created_at l\<rparr>"

definition reclaim_stale_inplace :: "(int \<Rightarrow> bool) \<Rightarrow> lease_table \<Rightarrow> string list \<times> lease_table" where
  "reclaim_stale_inplace alive state =
     (map fst (filter (\<lambda>(lid, e). \<not> alive (ln_pid e)) state), filter (\<lambda>(lid, e). alive (ln_pid e)) state)"

definition leased_uuids :: "lease_table \<Rightarrow> string list" where
  "leased_uuids state = concat (map (\<lambda>(lid, e). ln_gpu_uuids e) state)"

text \<open>The free cards that no lease of \<open>state\<close> names, in index order.\<close>

definition lease_candidates :: "gpu_env \<Rightarrow> int \<Rightarrow> int list \<Rightarrow> lease_table \<Rightarrow> gpu_device list" where
  "lease_candidates env threshold own_pids state =
     filter (\<lambda>d. gd_uuid d \<notin> set (leased_uuids state))
       (free_devices (discover_gpus (ge_gpu_output env) (ge_app_output env)) threshold own_pids)"

text \<open>The slice \<^verbatim>\<open>xs[:n]\<close>: a negative bound counts from the end.\<close>

definition py_take :: "int \<Rightarrow> 'a list \<Rightarrow> 'a list" where
  "py_take n xs = take (nat (if n < 0 then int (length xs) + n else n)) xs"

definition acquire :: "gpu_env \<Rightarrow> string \<Rightarrow> int \<Rightarrow> int \<Rightarrow> int \<Rightarrow> int list \<Rightarrow> lease_table option \<Rightarrow>
    (alloc_error + gpu_lease option) \<times> lease_table option" where
  "acquire env lease_id pid count threshold own_pids fl =
     (let state = snd (reclaim_stale_inplace (ge_alive env) (load_state (ge_readable env) fl)) in
      case map_of state lease_id of
        Some e \<Rightarrow> (Inr (Some (lease_from_dict lease_id e)), fl)
      | None \<Rightarrow>
          (let candidates = lease_candidates env threshold own_pids state in
           if int (length candidates) < count then (Inr None, fl)
           else let chosen = py_take count candidates;
                    lease = \<lparr>gl_lease_id = lease_id, gl_pid = pid, gl_gpu_uuids = map gd_uuid chosen,
                      gl_gpu_indices = map gd_index chosen, gl_created_at = ge_now env\<rparr>;
                    state' = state @ [(lease_id, lease_to_dict lease)]
                in if ge_writable env then (Inr (Some lease), Some state') else (Inl SaveOSError, fl)))"

definition release_lease :: "gpu_env \<Rightarrow> string \<Rightarrow> lease_table option \<Rightarrow>
    (alloc_error + unit) \<times> lease_table option" where
  "release_lease env lease_id fl =
     (let state = load_state (ge_readable env) fl in
      case map_of state lease_id of
        None \<Rightarrow> (Inr (), fl)
      | Some _ \<Rightarrow>
          if ge_writable env then (Inr (), Some (filter (\<lambda>(lid, e). lid \<noteq> lease_id) state))
          else (Inl SaveOSError, fl))"

definition reclaim_stale :: "gpu_env \<Rightarrow> lease_table option \<Rightarrow>
    (alloc_error + string list) \<times> lease_table option" where
  "reclaim_stale env fl =
     (let (reclaimed, state) = reclaim_stale_inplace (ge_alive env) (load_state (ge_readable env) fl) in
      if reclaimed = [] then (Inr [], fl)
      else if ge_writable env then (Inr reclaimed, Some state) else (Inl SaveOSError, fl))"

definition gpu_slots :: "gpu_env \<Rightarrow> int \<Rightarrow> int \<Rightarrow> int list \<Rightarrow> lease_table option \<Rightarrow> alloc_error + int" where
  "gpu_slots env count threshold own_pids fl =
     (let state = snd (reclaim_stale_inplace (ge_alive env) (load_state (ge_readable env) fl));
          available = lease_candidates env threshold own_pids state
      in if count = 0 then Inl ZeroDivision else Inr (max 0 (int (length available) div count)))"

definition active_leases :: "bool \<Rightarrow> lease_table option \<Rightarrow> gpu_lease list" where
  "active_leases readable fl = map (\<lambda>(lid, e). lease_from_dict lid e) (load_state readable fl)"

section \<open>Calls of any number of launchers\<close>

datatype alloc_call =
    Acquire_Lease gpu_env string int int int "int list"
  | Release_Lease gpu_env string
  | Reclaim_Leases gpu_env

fun alloc_step :: "lease_table option \<Rightarrow> alloc_call \<Rightarrow> lease_table option" where
  "alloc_step fl (Acquire_Lease env lid pid count thr own) = snd (acquire env lid pid count thr own fl)"
| "alloc_step fl (Release_Lease env lid) = snd (release_lease env lid fl)"
| "alloc_step fl (Reclaim_Leases env) = snd (reclaim_stale env fl)"

text \<open>The driver reports each card once.\<close>

definition uuids_unique :: "gpu_env \<Rightarrow> bool" where
  "uuids_unique env \<longleftrightarrow> distinct (map gd_uuid (discover_gpus (ge_gpu_output env) (ge_app_output env)))"

fun alloc_admissible :: "alloc_call \<Rightarrow> bool" where
  "alloc_admissible (Acquire_Lease env _ _ _ _ _) = uuids_unique env"
| "alloc_admissible _ = True"

text \<open>No card in two leases or twice in one, one entry per id, and parallel lists.\<close>

definition leases_ok :: "lease_table option \<Rightarrow> bool" where
  "leases_ok fl \<longleftrightarrow>
     (let state = (case fl of None \<Rightarrow> [] | Some s \<Rightarrow> s) in
      distinct (map fst state) \<and> distinct (leased_uuids state) \<and>
      list_all (\<lambda>x. length (ln_gpu_uuids (snd x)) = length (ln_gpu_indices (snd x))) state)"

section \<open>Exclusive leases\<close>

lemma leased_append [simp]: "leased_uuids (s @ t) = leased_uuids s @ leased_uuids t"
  by (simp add: leased_uuids_def)

lemma distinct_concat_filter: "distinct (concat (map f xs)) \<Longrightarrow> distinct (concat (map f (filter P xs)))"
  by (induction xs) auto

lemma leases_ok_filter:
  assumes "leases_ok fl"
  shows "leases_ok (Some (filter P (load_state readable fl)))"
  using assms distinct_concat_filter [of "\<lambda>(lid, e). ln_gpu_uuids e" _ P]
  by (cases fl) (auto simp: leases_ok_def load_state_def leased_uuids_def distinct_map_filter_table list_all_iff)

lemma free_devices_subset: "set (free_devices ds thr own) \<subseteq> set ds"
  by (auto simp: free_devices_def)

lemma distinct_candidates:
  assumes "uuids_unique env"
  shows "distinct (map gd_uuid (lease_candidates env thr own state))"
  using assms by (simp add: uuids_unique_def lease_candidates_def free_devices_def distinct_map_filter_table)

lemma py_take_mem: "x \<in> set (py_take n xs) \<Longrightarrow> x \<in> set xs"
  by (auto simp: py_take_def dest: in_set_takeD)

lemma distinct_py_take: "distinct (map f xs) \<Longrightarrow> distinct (map f (py_take n xs))"
  by (simp add: py_take_def take_map [symmetric])

lemma candidates_unleased: "d \<in> set (lease_candidates env thr own state) \<Longrightarrow> gd_uuid d \<notin> set (leased_uuids state)"
  by (simp add: lease_candidates_def)

text \<open>What an acquisition leaves: the old file, or the live leases and the new one.\<close>

lemma acquire_file:
  assumes "acquire env lid pid count thr own fl = (res, fl')"
  obtains (same) "fl' = fl"
  | (leased) chosen where "fl' = Some (snd (reclaim_stale_inplace (ge_alive env) (load_state (ge_readable env) fl)) @
      [(lid, \<lparr>ln_pid = pid, ln_gpu_uuids = map gd_uuid chosen, ln_gpu_indices = map gd_index chosen,
         ln_created_at = ge_now env\<rparr>)])"
      "map_of (snd (reclaim_stale_inplace (ge_alive env) (load_state (ge_readable env) fl))) lid = None"
      "chosen = py_take count (lease_candidates env thr own
         (snd (reclaim_stale_inplace (ge_alive env) (load_state (ge_readable env) fl))))"
  using assms by (auto simp: acquire_def Let_def lease_to_dict_def split: option.splits if_splits)

lemma acquire_ok:
  assumes "leases_ok fl" "uuids_unique env"
  shows "leases_ok (snd (acquire env lid pid count thr own fl))"
proof -
  obtain res fl' where r: "acquire env lid pid count thr own fl = (res, fl')" by (cases "acquire env lid pid count thr own fl")
  from r show ?thesis
  proof (cases rule: acquire_file)
    case same
    with assms(1) r show ?thesis by simp
  next
    case (leased chosen)
    let ?state = "snd (reclaim_stale_inplace (ge_alive env) (load_state (ge_readable env) fl))"
    have ok: "leases_ok (Some ?state)" using leases_ok_filter [OF assms(1)] by (simp add: reclaim_stale_inplace_def)
    have "distinct (map gd_uuid chosen)"
      unfolding leased(3) by (rule distinct_py_take [OF distinct_candidates [OF assms(2)]])
    moreover have "gd_uuid d \<notin> set (leased_uuids ?state)" if "d \<in> set chosen" for d
      using that unfolding leased(3) by (blast dest: py_take_mem candidates_unleased)
    moreover have "lid \<notin> fst ` set ?state" using leased(2) by (simp add: map_of_eq_None_iff)
    ultimately show ?thesis
      using ok r leased(1) by (auto simp: leases_ok_def leased_uuids_def)
  qed
qed

interpretation gpu_calls: call_machine alloc_step alloc_admissible leases_ok
proof unfold_locales
  fix fl c
  assume "leases_ok fl" "alloc_admissible c"
  then show "leases_ok (alloc_step fl c)"
    using leases_ok_filter [of fl]
    by (cases c) (auto simp: acquire_ok release_lease_def reclaim_stale_def reclaim_stale_inplace_def Let_def
        split: option.split)
qed

definition alloc_run :: "lease_table option \<Rightarrow> alloc_call list \<Rightarrow> lease_table option" where
  "alloc_run fl calls = foldl alloc_step fl calls"

lemma distinct_concat_share:
  assumes "distinct (concat (map f xs))" "x \<in> set xs" "y \<in> set xs" "u \<in> set (f x)" "u \<in> set (f y)"
  shows "x = y"
  using assms by (induction xs) auto


section \<open>What an acquisition returns\<close>

text \<open>Free for the caller, in terms of what was discovered.\<close>

definition usable :: "int \<Rightarrow> int list \<Rightarrow> lease_table \<Rightarrow> gpu_device \<Rightarrow> bool" where
  "usable thr own live d \<longleftrightarrow>
     (\<forall>p \<in> set (gd_proc_pids d). p \<in> set own) \<and> (gd_proc_pids d = [] \<longrightarrow> gd_memory_used_mb d < thr) \<and>
     (\<forall>(lid, e) \<in> set live. gd_uuid d \<notin> set (ln_gpu_uuids e))"

lemma discovered_shape:
  assumes "d \<in> set (discover_gpus g a)"
  obtains out where "g = Some out"
    "gd_proc_pids d = pids_on (case a of None \<Rightarrow> [] | Some t \<Rightarrow> List.map_filter app_row (py_splitlines t)) (gd_uuid d)"
    "gd_ext_proc_count d = length (gd_proc_pids d)" "distinct (gd_proc_pids d)"
  using assms by (auto simp: discover_gpus_def Let_def pids_on_def split: option.splits if_splits)

lemma foreign_discovered:
  assumes "d \<in> set (discover_gpus g a)"
  shows "foreign_on own d \<longleftrightarrow> (\<exists>p \<in> set (gd_proc_pids d). p \<notin> set own)"
  using assms by (rule discovered_shape) (simp add: foreign_on_def distinct_remdups_id)

lemma candidates_usable:
  "lease_candidates env thr own live = filter (usable thr own live) (discover_gpus (ge_gpu_output env) (ge_app_output env))"
  unfolding lease_candidates_def free_devices_def filter_filter
  by (rule filter_cong [OF refl]) (auto simp: foreign_discovered usable_def leased_uuids_def)

lemma sorted_discover: "sorted (map gd_index (discover_gpus g a))"
  by (auto simp: discover_gpus_def Let_def split: option.split)

lemma sorted_candidates: "sorted (map gd_index (lease_candidates env thr own live))"
  unfolding candidates_usable by (rule sorted_filter [OF sorted_discover])

text \<open>
  The outcome of \<open>acquire\<close> with a readable and writable file: a lease the id already holds with
  a live process is returned as it is; otherwise, when fewer than \<open>count\<close> cards are usable (no
  process of anyone else as far as discovery reports, low memory when idle, in no lease of a live
  process), \<open>None\<close> is returned and nothing is written, and else the \<open>count\<close> usable cards of lowest
  index become the lease, which is added to the leases of live processes. Leases of dead processes
  never block a card.
\<close>

theorem acquire_outcomes:
  assumes "ge_readable env" "ge_writable env" "0 \<le> count"
    and "live = filter (\<lambda>(l, e). ge_alive env (ln_pid e)) (case fl of None \<Rightarrow> [] | Some s \<Rightarrow> s)"
    and "avail = filter (usable thr own live) (discover_gpus (ge_gpu_output env) (ge_app_output env))"
  shows "acquire env lid pid count thr own fl =
      (case map_of live lid of
         Some e \<Rightarrow> (Inr (Some (lease_from_dict lid e)), fl)
       | None \<Rightarrow>
           if int (length avail) < count then (Inr None, fl)
           else let lease = \<lparr>gl_lease_id = lid, gl_pid = pid, gl_gpu_uuids = map gd_uuid (take (nat count) avail),
                  gl_gpu_indices = map gd_index (take (nat count) avail), gl_created_at = ge_now env\<rparr>
             in (Inr (Some lease), Some (live @ [(lid, lease_to_dict lease)]))) \<and>
    (\<forall>d \<in> set (take (nat count) avail). \<forall>d' \<in> set (drop (nat count) avail). gd_index d \<le> gd_index d')"
proof -
  have live: "snd (reclaim_stale_inplace (ge_alive env) (load_state (ge_readable env) fl)) = live"
    using assms(1) by (simp add: reclaim_stale_inplace_def load_state_def assms(4) split: option.split)
  have "sorted (map gd_index avail)" using sorted_candidates unfolding candidates_usable assms(5) .
  then have "sorted (map gd_index (take (nat count) avail) @ map gd_index (drop (nat count) avail))"
    by (metis append_take_drop_id map_append)
  moreover have "lease_candidates env thr own live = avail" by (simp add: candidates_usable assms(5))
  ultimately show ?thesis
    using assms(2,3) unfolding acquire_def live
    by (auto simp: sorted_append py_take_def Let_def split: option.split)
qed

text \<open>
  A new lease never names a card with somebody else's process: whenever \<open>acquire\<close> writes a lease
  and the process query answered, every process row it lists for one of the leased cards is a
  process of the caller (a reservation holder).
\<close>

theorem leased_cards_not_foreign:
  assumes "acquire env lid pid count thr own fl = (Inr (Some lease), fl')" and "fl' \<noteq> fl"
    and "ge_app_output env = Some t" "(u, p) \<in> set (List.map_filter app_row (py_splitlines t))"
    and "u \<in> set (gl_gpu_uuids lease)"
  shows "p \<in> set own"
  using assms(1)
proof (cases rule: acquire_file)
  case same
  with assms(2) show ?thesis by simp
next
  case (leased chosen)
  let ?live = "snd (reclaim_stale_inplace (ge_alive env) (load_state (ge_readable env) fl))"
  have "gl_gpu_uuids lease = map gd_uuid chosen"
    using assms(1) leased(2,3) by (auto simp: acquire_def Let_def split: if_splits)
  then obtain d where d: "d \<in> set chosen" "gd_uuid d = u" using assms(5) by auto
  then have c: "d \<in> set (lease_candidates env thr own ?live)" using py_take_mem unfolding leased(3) by fast
  then have "d \<in> set (discover_gpus (ge_gpu_output env) (ge_app_output env))" by (simp add: candidates_usable)
  then have "gd_proc_pids d = pids_on (List.map_filter app_row (py_splitlines t)) u"
    using assms(3) d(2) by (auto elim: discovered_shape)
  then have "p \<in> set (gd_proc_pids d)" using assms(4) by (force simp: pids_on_def)
  with c show ?thesis by (simp add: candidates_usable usable_def)
qed

text \<open>
  What discovery does not see: the count of processes is always the number of process ids
  it could read, so the guard of \<open>free_devices\<close> against processes without a readable id never
  fires, and when the process query fails every card counts as without processes, so each card
  below the memory threshold that no live process leases is usable, whoever computes on it.
\<close>

theorem unattributed_processes_unseen:
  assumes "d \<in> set (discover_gpus g a)"
  shows "gd_ext_proc_count d = length (remdups (gd_proc_pids d)) \<and>
    (a = None \<longrightarrow> (usable thr own live d \<longleftrightarrow>
       gd_memory_used_mb d < thr \<and> (\<forall>(lid, e) \<in> set live. gd_uuid d \<notin> set (ln_gpu_uuids e))))"
  using assms by (rule discovered_shape) (auto simp: distinct_remdups_id usable_def pids_on_def)

section \<open>Concrete runs\<close>

definition smi_text :: string where
  "smi_text = ''1, GPU-b, 100, 10'' @ CHR 0x0A # ''0, GPU-a, 100, 10'' @ CHR 0x0A # []"

definition sample_gpu_env :: gpu_env where
  "sample_gpu_env = \<lparr>ge_alive = (\<lambda>p. p < 100), ge_gpu_output = Some smi_text,
     ge_app_output = Some (''GPU-a, 7''), ge_now = 0, ge_readable = True, ge_writable = True\<rparr>"

definition sample_alloc_calls :: "alloc_call list" where
  "sample_alloc_calls = [Acquire_Lease sample_gpu_env ''r1'' 5 1 1024 [], Acquire_Lease sample_gpu_env ''r2'' 6 1 1024 [7],
     Acquire_Lease sample_gpu_env ''r3'' 8 1 1024 [7]]"

definition sample_lease_entry :: "int \<Rightarrow> string \<Rightarrow> int \<Rightarrow> lease_entry" where
  "sample_lease_entry pid u i = \<lparr>ln_pid = pid, ln_gpu_uuids = [u], ln_gpu_indices = [i], ln_created_at = 0\<rparr>"

lemma sample_alloc_run:
  "alloc_run None sample_alloc_calls =
     Some [(''r1'', sample_lease_entry 5 ''GPU-b'' 1), (''r2'', sample_lease_entry 6 ''GPU-a'' 0)] \<and>
   map gd_uuid (discover_gpus (ge_gpu_output sample_gpu_env) (ge_app_output sample_gpu_env)) = [''GPU-a'', ''GPU-b'']"
  by code_simp


definition sample_live :: lease_table where
  "sample_live = [(''r1'', sample_lease_entry 5 ''GPU-b'' 1)]"

lemma sample_avail:
  "map gd_uuid (filter (usable 1024 [7] sample_live) (discover_gpus (ge_gpu_output sample_gpu_env) (ge_app_output sample_gpu_env))) = [''GPU-a'']"
  by code_simp

theorem acquire_outcomes_witness:
  "\<exists>lease fl. acquire sample_gpu_env ''r2'' 6 1 1024 [7] (Some sample_live) = (Inr (Some lease), fl) \<and>
     gl_gpu_uuids lease = [''GPU-a'']"
proof -
  let ?avail = "filter (usable 1024 [7] sample_live) (discover_gpus (ge_gpu_output sample_gpu_env) (ge_app_output sample_gpu_env))"
  have "sample_live = filter (\<lambda>(l, e). ge_alive sample_gpu_env (ln_pid e)) (case Some sample_live of None \<Rightarrow> [] | Some s \<Rightarrow> s)"
    by (simp add: sample_live_def sample_gpu_env_def sample_lease_entry_def)
  note o = acquire_outcomes [OF _ _ _ this refl, of 1 "''r2''" 6 1024 "[7]"]
  have e: "ge_readable sample_gpu_env" "ge_writable sample_gpu_env" "map_of sample_live ''r2'' = None"
    by (simp_all add: sample_gpu_env_def sample_live_def)
  obtain d where "?avail = [d]" "gd_uuid d = ''GPU-a''"
    using sample_avail by (auto simp: map_eq_Cons_conv simp del: filter.simps)
  with o e show ?thesis by (simp add: Let_def)
qed

theorem leased_cards_not_foreign_witness:
  "\<exists>lease. acquire sample_gpu_env ''r2'' 6 1 1024 [7] (Some sample_live) =
     (Inr (Some lease), Some (sample_live @ [(''r2'', lease_to_dict lease)])) \<and> gl_gpu_uuids lease = [''GPU-a''] \<and> 7 \<in> set [7 :: int]"
proof -
  let ?lease = "\<lparr>gl_lease_id = ''r2'', gl_pid = 6, gl_gpu_uuids = [''GPU-a''], gl_gpu_indices = [0], gl_created_at = 0\<rparr>"
  have a: "acquire sample_gpu_env ''r2'' 6 1 1024 [7] (Some sample_live) =
      (Inr (Some ?lease), Some (sample_live @ [(''r2'', lease_to_dict ?lease)]))"
    "(''GPU-a'', 7) \<in> set (List.map_filter app_row (py_splitlines ''GPU-a, 7''))"
    by code_simp+
  have "7 \<in> set [7 :: int]"
    using leased_cards_not_foreign [OF a(1) _ _ a(2)] by (simp add: sample_gpu_env_def)
  with a(1) show ?thesis by auto
qed

theorem unattributed_processes_unseen_witness:
  "\<exists>d. gd_uuid d = ''GPU-a'' \<and> usable 1024 [] [] d"
proof -
  have "map gd_uuid (discover_gpus (Some smi_text) None) = [''GPU-a'', ''GPU-b''] \<and>
      map gd_memory_used_mb (discover_gpus (Some smi_text) None) = [10, 10]"
    by code_simp
  then obtain d z where "discover_gpus (Some smi_text) None = [d, z]" "gd_uuid d = ''GPU-a''" "gd_memory_used_mb d = 10"
    by (auto simp: map_eq_Cons_conv)
  with unattributed_processes_unseen [of d "Some smi_text" None 1024 "[]" "[]"] show ?thesis by auto
qed

end
