(* ===== verification/Gpu_Reservation.thy ===== *)
theory Gpu_Reservation
  imports Gpu_Allocator "HOL-Library.AList"
begin

text \<open>
  Reservation of free GPUs by parked holder processes,
  \<^verbatim>\<open>src/backend/services/runtime/gpu_reservation.py\<close>. The registry is the dict of its JSON file, in
  insertion order, \<open>None\<close> where there is no file; the empty text for no expiry is \<open>None\<close>. Every method
  holds the registry's lock, so a call is one step. \<open>ho_spawn k d\<close> is the \<open>k\<close>-th start of a holder
  within a call: its process id once it has held the card through the confirmation wait, or
  \<open>None\<close>. A call returns, beside its result and the file, the process ids it sent SIGTERM to.
\<close>

record hold_entry =
  hd_index :: int
  hd_pid :: int
  hd_hold_mib :: int
  hd_reserved_at :: time
  hd_expires_at :: "time option"

record gpu_reservation =
  gr_uuid :: string
  gr_index :: int
  gr_pid :: int
  gr_hold_mib :: int
  gr_reserved_at :: time
  gr_expires_at :: "time option"

type_synonym hold_table = "(string \<times> hold_entry) list"

record host_env =
  ho_gpu :: gpu_env
  ho_lease_file :: "lease_table option"
  ho_spawn :: "nat \<Rightarrow> gpu_device \<Rightarrow> int option"

datatype reservation_error = SelectorValueError | ReservationOSError | ReleaseKeyError string

definition hold_to_dict :: "gpu_reservation \<Rightarrow> hold_entry" where
  "hold_to_dict r = \<lparr>hd_index = gr_index r, hd_pid = gr_pid r, hd_hold_mib = gr_hold_mib r,
     hd_reserved_at = gr_reserved_at r, hd_expires_at = gr_expires_at r\<rparr>"

definition hold_to_res :: "string \<Rightarrow> hold_entry \<Rightarrow> gpu_reservation" where
  "hold_to_res uuid e = \<lparr>gr_uuid = uuid, gr_index = hd_index e, gr_pid = hd_pid e, gr_hold_mib = hd_hold_mib e,
     gr_reserved_at = hd_reserved_at e, gr_expires_at = hd_expires_at e\<rparr>"

definition load_registry :: "bool \<Rightarrow> hold_table option \<Rightarrow> hold_table" where
  "load_registry readable fl = (case fl of None \<Rightarrow> [] | Some data \<Rightarrow> if readable then data else [])"

definition hold_expired :: "time \<Rightarrow> hold_entry \<Rightarrow> bool" where
  "hold_expired now e = (case hd_expires_at e of None \<Rightarrow> False | Some t \<Rightarrow> t \<le> now)"

definition terminate_pid :: "int \<Rightarrow> int list" where
  "terminate_pid pid = (if pid \<le> 0 then [] else [pid])"

text \<open>\<open>_reap_inplace\<close>: dead holds are dropped, expired ones terminated and dropped.\<close>

fun reap_holds :: "(int \<Rightarrow> bool) \<Rightarrow> time \<Rightarrow> hold_table \<Rightarrow> string list \<times> int list \<times> hold_table" where
  "reap_holds alive now [] = ([], [], [])"
| "reap_holds alive now ((uuid, e) # rest) =
     (let (dropped, killed, state) = reap_holds alive now rest in
      if \<not> alive (hd_pid e) then (uuid # dropped, killed, state)
      else if hold_expired now e then (uuid # dropped, terminate_pid (hd_pid e) @ killed, state)
      else (dropped, killed, (uuid, e) # state))"

definition list_reservations :: "host_env \<Rightarrow> hold_table option \<Rightarrow>
    (reservation_error + gpu_reservation list) \<times> int list \<times> hold_table option" where
  "list_reservations h fl =
     (let g = ho_gpu h;
          (dropped, killed, state) = reap_holds (ge_alive g) (ge_now g) (load_registry (ge_readable g) fl);
          res = map (\<lambda>(u, e). hold_to_res u e) state
      in if dropped = [] then (Inr res, killed, fl)
         else if ge_writable g then (Inr res, killed, Some state)
         else (Inl ReservationOSError, killed, fl))"

definition holder_pids :: "host_env \<Rightarrow> hold_table option \<Rightarrow> reservation_error + int list" where
  "holder_pids h fl = (case fst (list_reservations h fl) of Inl e \<Rightarrow> Inl e | Inr rs \<Rightarrow> Inr (map gr_pid rs))"

definition reserved_uuids :: "host_env \<Rightarrow> hold_table option \<Rightarrow> reservation_error + string list" where
  "reserved_uuids h fl = (case fst (list_reservations h fl) of Inl e \<Rightarrow> Inl e | Inr rs \<Rightarrow> Inr (map gr_uuid rs))"

definition select_targets :: "gpu_device list \<Rightarrow> gpu_device list \<Rightarrow> int option \<Rightarrow> string list option \<Rightarrow> bool \<Rightarrow>
    string list \<Rightarrow> gpu_device list" where
  "select_targets free devices count uuids all_free already =
     (case uuids of
        Some us \<Rightarrow>
          List.map_filter (\<lambda>u. if u \<in> set already then None
                               else if u \<notin> set (map gd_uuid free) then None
                               else map_of (rev (map (\<lambda>d. (gd_uuid d, d)) devices)) u) us
      | None \<Rightarrow>
          if all_free then free
          else take (nat (max 0 (case count of None \<Rightarrow> 0 | Some n \<Rightarrow> n))) free)"

definition spawn_holder :: "host_env \<Rightarrow> nat \<Rightarrow> gpu_device \<Rightarrow> int \<Rightarrow> int \<Rightarrow> gpu_reservation option" where
  "spawn_holder h k dev hold_mib ttl_seconds =
     (case ho_spawn h k dev of
        None \<Rightarrow> None
      | Some pid \<Rightarrow> Some \<lparr>gr_uuid = gd_uuid dev, gr_index = gd_index dev, gr_pid = pid, gr_hold_mib = hold_mib,
          gr_reserved_at = ge_now (ho_gpu h),
          gr_expires_at = (if ttl_seconds \<le> 0 then None else Some (ge_now (ho_gpu h) + ttl_seconds * 1000000))\<rparr>)"

fun reserve_loop :: "host_env \<Rightarrow> nat \<Rightarrow> int \<Rightarrow> int \<Rightarrow> gpu_device list \<Rightarrow> hold_table \<Rightarrow>
    gpu_reservation list \<times> hold_table" where
  "reserve_loop h k hold_mib ttl_seconds [] state = ([], state)"
| "reserve_loop h k hold_mib ttl_seconds (d # ds) state =
     (case spawn_holder h k d hold_mib ttl_seconds of
        None \<Rightarrow> reserve_loop h (Suc k) hold_mib ttl_seconds ds state
      | Some res \<Rightarrow>
          (let (created, state') = reserve_loop h (Suc k) hold_mib ttl_seconds ds
             (AList.update (gr_uuid res) (hold_to_dict res) state)
           in (res # created, state')))"

text \<open>The cards \<open>reserve\<close> may take once the registry has been reaped to \<open>state\<close>.\<close>

definition reservable :: "host_env \<Rightarrow> hold_table \<Rightarrow> gpu_device list" where
  "reservable h state =
     filter (\<lambda>d. gd_uuid d \<notin> set (map fst state) \<and>
         gd_uuid d \<notin> set (leased_uuids (case ho_lease_file h of None \<Rightarrow> [] | Some t \<Rightarrow> t)))
       (free_devices (discover_gpus (ge_gpu_output (ho_gpu h)) (ge_app_output (ho_gpu h))) 1024
         (map (\<lambda>(u, e). hd_pid e) state))"

definition reserve :: "host_env \<Rightarrow> int option \<Rightarrow> string list option \<Rightarrow> bool \<Rightarrow> int \<Rightarrow> int \<Rightarrow> hold_table option \<Rightarrow>
    (reservation_error + gpu_reservation list) \<times> int list \<times> hold_table option" where
  "reserve h count uuids all_free hold_mib ttl_seconds fl =
     (if length (filter id [count \<noteq> None, uuids \<noteq> None, all_free]) \<noteq> 1 then (Inl SelectorValueError, [], fl)
      else let g = ho_gpu h;
               (dropped, killed, state) = reap_holds (ge_alive g) (ge_now g) (load_registry (ge_readable g) fl);
               targets = select_targets (reservable h state)
                 (discover_gpus (ge_gpu_output g) (ge_app_output g)) count uuids all_free (map fst state);
               (created, state') = reserve_loop h 0 hold_mib ttl_seconds targets state
           in if created = [] then (Inr [], killed, fl)
              else if ge_writable g then (Inr created, killed, Some state')
              else (Inl ReservationOSError, killed, fl))"

fun release_loop :: "string list \<Rightarrow> hold_table \<Rightarrow> int list \<times> (reservation_error + hold_table)" where
  "release_loop [] state = ([], Inr state)"
| "release_loop (u # us) state =
     (case map_of state u of
        None \<Rightarrow> ([], Inl (ReleaseKeyError u))
      | Some e \<Rightarrow> (let (killed, r) = release_loop us (AList.delete u state) in (terminate_pid (hd_pid e) @ killed, r)))"

definition release_holds :: "host_env \<Rightarrow> string list option \<Rightarrow> bool \<Rightarrow> hold_table option \<Rightarrow>
    (reservation_error + string list) \<times> int list \<times> hold_table option" where
  "release_holds h uuids all_holds fl =
     (if (uuids = None) = (\<not> all_holds) then (Inl SelectorValueError, [], fl)
      else let g = ho_gpu h;
               state = load_registry (ge_readable g) fl;
               targets = (if all_holds then map fst state
                          else filter (\<lambda>u. map_of state u \<noteq> None) (case uuids of None \<Rightarrow> [] | Some us \<Rightarrow> us))
           in case release_loop targets state of
                (killed, Inl e) \<Rightarrow> (Inl e, killed, fl)
              | (killed, Inr state') \<Rightarrow>
                  if ge_writable g then (Inr targets, killed, Some state') else (Inl ReservationOSError, killed, fl))"

section \<open>Reaping\<close>

lemma reap_holds_eq:
  "reap_holds alive now state =
     (map fst (filter (\<lambda>(u, e). \<not> alive (hd_pid e) \<or> hold_expired now e) state),
      concat (map (\<lambda>(u, e). terminate_pid (hd_pid e)) (filter (\<lambda>(u, e). alive (hd_pid e) \<and> hold_expired now e) state)),
      filter (\<lambda>(u, e). alive (hd_pid e) \<and> \<not> hold_expired now e) state)"
  by (induction alive now state rule: reap_holds.induct) auto

section \<open>The registry\<close>

datatype reservation_call =
    Reserve_Cards host_env "int option" "string list option" bool int int
  | Release_Cards host_env "string list option" bool
  | List_Cards host_env

fun reservation_step :: "hold_table option \<Rightarrow> reservation_call \<Rightarrow> hold_table option" where
  "reservation_step fl (Reserve_Cards h c us a mib ttl) = snd (snd (reserve h c us a mib ttl fl))"
| "reservation_step fl (Release_Cards h us a) = snd (snd (release_holds h us a fl))"
| "reservation_step fl (List_Cards h) = snd (snd (list_reservations h fl))"

definition holds_ok :: "hold_table option \<Rightarrow> bool" where
  "holds_ok fl \<longleftrightarrow> distinct (map fst (load_registry True fl))"

lemma load_registry_distinct: "holds_ok fl \<Longrightarrow> distinct (map fst (load_registry r fl))"
  by (simp add: holds_ok_def load_registry_def split: option.splits)

lemma reserve_loop_distinct:
  "distinct (map fst state) \<Longrightarrow> distinct (map fst (snd (reserve_loop h k mib ttl ds state)))"
  by (induction h k mib ttl ds state rule: reserve_loop.induct)
    (auto simp: distinct_update split: option.split prod.splits)

lemma release_loop_distinct:
  "distinct (map fst state) \<Longrightarrow> release_loop us state = (killed, Inr state') \<Longrightarrow> distinct (map fst state')"
  by (induction us state arbitrary: killed rule: release_loop.induct)
    (auto simp: distinct_delete split: option.splits prod.splits)

interpretation hold_calls: call_machine reservation_step "\<lambda>_. True" holds_ok
proof unfold_locales
  fix fl c
  assume ok: "holds_ok fl"
  note d = load_registry_distinct [OF ok]
  show "holds_ok (reservation_step fl c)"
  proof (cases c)
    case (Reserve_Cards h n us a mib ttl)
    have "distinct (map fst (snd (snd (reap_holds (ge_alive (ho_gpu h)) (ge_now (ho_gpu h)) (load_registry r fl)))))" for r
      using d by (simp add: reap_holds_eq distinct_map_filter_table)
    with ok show ?thesis
      using reserve_loop_distinct
      by (auto simp: Reserve_Cards reserve_def Let_def holds_ok_def load_registry_def split: prod.splits)
        (metis snd_conv)+
  next
    case (Release_Cards h us a)
    then show ?thesis
      using ok release_loop_distinct [OF d]
      by (auto simp: release_holds_def Let_def holds_ok_def load_registry_def split: prod.splits sum.splits)
  next
    case (List_Cards h)
    then show ?thesis
      using ok d by (auto simp: list_reservations_def Let_def holds_ok_def load_registry_def reap_holds_eq distinct_map_filter_table
          split: prod.splits option.splits)
  qed
qed

section \<open>What a reservation takes\<close>

lemma reservable_usable:
  "reservable h state = filter (\<lambda>d. gd_uuid d \<notin> fst ` set state \<and>
       usable 1024 (map (\<lambda>(u, e). hd_pid e) state) (case ho_lease_file h of None \<Rightarrow> [] | Some t \<Rightarrow> t) d)
     (discover_gpus (ge_gpu_output (ho_gpu h)) (ge_app_output (ho_gpu h)))"
  unfolding reservable_def free_devices_def filter_filter
  by (rule filter_cong [OF refl], cases "ho_lease_file h") (auto simp: foreign_discovered usable_def leased_uuids_def)

lemma device_by_uuid:
  assumes "distinct (map gd_uuid ds)" "d \<in> set ds"
  shows "map_of (rev (map (\<lambda>d. (gd_uuid d, d)) ds)) (gd_uuid d) = Some d"
proof -
  have "map fst (rev (map (\<lambda>d. (gd_uuid d, d)) ds)) = rev (map gd_uuid ds)" by (simp add: rev_map comp_def)
  then show ?thesis using assms by (intro map_of_is_SomeI) auto
qed

lemma target_reservable:
  assumes "distinct (map gd_uuid ds)" "set free \<subseteq> set ds" "d \<in> set (select_targets free ds count uuids all_free already)"
  shows "d \<in> set free"
proof (cases uuids)
  case None
  with assms(3) show ?thesis by (auto simp: select_targets_def dest: in_set_takeD split: if_splits)
next
  case (Some us)
  with assms(3) obtain u where u: "u \<in> set (map gd_uuid free)" "map_of (rev (map (\<lambda>d. (gd_uuid d, d)) ds)) u = Some d"
    by (fastforce simp: select_targets_def List.map_filter_def split: if_splits)
  then obtain d' where d': "d' \<in> set free" "gd_uuid d' = u" by auto
  with device_by_uuid [OF assms(1), of d'] assms(2) u(2) have "d' = d" by auto
  with d' show ?thesis by simp
qed

lemma reserve_loop_created:
  "r \<in> set (fst (reserve_loop h k mib ttl ds state)) \<Longrightarrow>
     \<exists>d \<in> set ds. gr_uuid r = gd_uuid d \<and> gr_index r = gd_index d \<and> gr_reserved_at r = ge_now (ho_gpu h) \<and>
       gr_expires_at r = (if ttl \<le> 0 then None else Some (ge_now (ho_gpu h) + ttl * 1000000))"
  by (induction h k mib ttl ds state rule: reserve_loop.induct)
    (auto simp: spawn_holder_def split: option.splits prod.splits)

lemma reserve_loop_length: "length (fst (reserve_loop h k mib ttl ds state)) \<le> length ds"
  by (induction h k mib ttl ds state rule: reserve_loop.induct)
    (auto split: option.split prod.splits intro: le_SucI)

lemma reserve_loop_others:
  "u \<notin> set (map gd_uuid ds) \<Longrightarrow> map_of (snd (reserve_loop h k mib ttl ds state)) u = map_of state u"
  by (induction h k mib ttl ds state rule: reserve_loop.induct)
    (auto simp: spawn_holder_def update_conv' split: option.splits prod.splits)

lemma reserve_loop_recorded:
  assumes "distinct (map gd_uuid ds)" "r \<in> set (fst (reserve_loop h k mib ttl ds state))"
  shows "map_of (snd (reserve_loop h k mib ttl ds state)) (gr_uuid r) = Some (hold_to_dict r)"
  using assms
proof (induction h k mib ttl ds state rule: reserve_loop.induct)
  case (2 h k mib ttl d ds state)
  show ?case
  proof (cases "spawn_holder h k d mib ttl")
    case None
    with 2 show ?thesis by simp
  next
    case (Some res)
    have u: "gr_uuid res = gd_uuid d" using Some by (auto simp: spawn_holder_def split: option.splits)
    show ?thesis
    proof (cases "r = res")
      case True
      let ?st = "AList.update (gd_uuid d) (hold_to_dict res) state"
      have "map_of (snd (reserve_loop h (Suc k) mib ttl ds ?st)) (gd_uuid d) = Some (hold_to_dict res)"
        using 2(3) reserve_loop_others [of "gd_uuid d" ds h "Suc k" mib ttl ?st] by (simp add: update_conv')
      with True Some u show ?thesis by (simp add: case_prod_beta)
    next
      case False
      with 2 Some show ?thesis by (auto split: prod.splits)
    qed
  qed
qed simp

text \<open>The parts of a reservation call that returns with new holds.\<close>

lemma reserve_created:
  assumes "reserve h count uuids all_free mib ttl fl = (Inr created, killed, fl')" "r \<in> set created"
    and "live = filter (\<lambda>(u, e). ge_alive (ho_gpu h) (hd_pid e) \<and> \<not> hold_expired (ge_now (ho_gpu h)) e)
      (load_registry (ge_readable (ho_gpu h)) fl)"
  obtains targets where
    "targets = select_targets (reservable h live) (discover_gpus (ge_gpu_output (ho_gpu h)) (ge_app_output (ho_gpu h)))
       count uuids all_free (map fst live)"
    "created = fst (reserve_loop h 0 mib ttl targets live)" "fl' = Some (snd (reserve_loop h 0 mib ttl targets live))"
    "length (filter id [count \<noteq> None, uuids \<noteq> None, all_free]) = 1"
  using assms(1,2) by (auto simp: reserve_def Let_def reap_holds_eq assms(3) split: if_splits prod.splits)

text \<open>
  A reservation only takes cards nobody uses: every reservation \<open>reserve\<close> creates is for a
  discovered card without any process but those of live holders of the registry, below the memory
  threshold when idle, in no lease of the lease file and in no live hold; all live holds stay as
  they are, and a reservation by count creates at most that many.
\<close>

theorem reserve_only_free_cards:
  assumes "reserve h count uuids all_free mib ttl fl = (Inr created, killed, fl')" "r \<in> set created"
    and "live = filter (\<lambda>(u, e). ge_alive (ho_gpu h) (hd_pid e) \<and> \<not> hold_expired (ge_now (ho_gpu h)) e)
      (load_registry (ge_readable (ho_gpu h)) fl)"
    and "uuids_unique (ho_gpu h)"
  shows "(\<exists>d \<in> set (discover_gpus (ge_gpu_output (ho_gpu h)) (ge_app_output (ho_gpu h))).
      gr_uuid r = gd_uuid d \<and> gr_index r = gd_index d \<and> gd_uuid d \<notin> fst ` set live \<and>
      usable 1024 (map (\<lambda>(u, e). hd_pid e) live) (case ho_lease_file h of None \<Rightarrow> [] | Some t \<Rightarrow> t) d) \<and>
    (\<forall>u \<in> fst ` set live. map_of (load_registry True fl') u = map_of live u) \<and>
    (\<forall>n. count = Some n \<longrightarrow> int (length created) \<le> max 0 n)"
  using assms(1,2,3)
proof (rule reserve_created)
  fix targets
  assume t: "targets = select_targets (reservable h live)
      (discover_gpus (ge_gpu_output (ho_gpu h)) (ge_app_output (ho_gpu h))) count uuids all_free (map fst live)"
    and c: "created = fst (reserve_loop h 0 mib ttl targets live)"
    and fl': "fl' = Some (snd (reserve_loop h 0 mib ttl targets live))"
    and one: "length (filter id [count \<noteq> None, uuids \<noteq> None, all_free]) = 1"
  let ?ds = "discover_gpus (ge_gpu_output (ho_gpu h)) (ge_app_output (ho_gpu h))"
  have "set (reservable h live) \<subseteq> set ?ds" by (auto simp: reservable_usable)
  then have free: "d \<in> set (reservable h live)" if "d \<in> set targets" for d
    using target_reservable [of ?ds] that assms(4) unfolding t uuids_unique_def by blast
  obtain d where "d \<in> set targets" "gr_uuid r = gd_uuid d" "gr_index r = gd_index d"
    using reserve_loop_created assms(2) unfolding c by blast
  moreover have "map_of (snd (reserve_loop h 0 mib ttl targets live)) u = map_of live u" if "u \<in> fst ` set live" for u
  proof (rule reserve_loop_others, rule notI)
    assume "u \<in> set (map gd_uuid targets)"
    then obtain d where "d \<in> set targets" "u = gd_uuid d" by auto
    with that free [of d] show False by (simp add: reservable_usable)
  qed
  moreover have "int (length created) \<le> max 0 n" if "count = Some n" for n
  proof -
    have "uuids = None" "\<not> all_free" using one that by (auto split: if_splits)
    then have "length targets \<le> nat (max 0 n)" using that by (simp add: t select_targets_def)
    then show ?thesis using reserve_loop_length [of h 0 mib ttl targets live] unfolding c by linarith
  qed
  ultimately show ?thesis
    using free [of d] by (auto simp: reservable_usable fl' load_registry_def)
qed

section \<open>The life of a hold\<close>

lemma distinct_map_filter_option:
  assumes "\<And>u v. u \<in> set us \<Longrightarrow> f u = Some v \<Longrightarrow> g v = u" "distinct us"
  shows "distinct (map g (List.map_filter f us))"
  using assms
proof (induction us)
  case (Cons u us)
  have "g v \<in> set us" if v: "v \<in> set (List.map_filter f us)" for v
  proof -
    obtain x where "x \<in> set us" "f x = Some v" using v by (auto simp: List.map_filter_def)
    with Cons.prems(1) [of x v] show ?thesis by simp
  qed
  with Cons show ?case by (auto simp: List.map_filter_simps split: option.split) metis
qed (simp add: List.map_filter_simps)

lemma targets_distinct:
  assumes "distinct (map gd_uuid ds)" "distinct (map gd_uuid free)" "\<And>us. uuids = Some us \<Longrightarrow> distinct us"
  shows "distinct (map gd_uuid (select_targets free ds count uuids all_free already))"
proof (cases uuids)
  case None
  with assms(2) show ?thesis by (simp add: select_targets_def take_map [symmetric])
next
  case (Some us)
  have by_id: "gd_uuid d = u" if "map_of (rev (map (\<lambda>d. (gd_uuid d, d)) ds)) u = Some d" for u d
    using map_of_SomeD [OF that] by auto
  show ?thesis
    unfolding select_targets_def Some option.case
    by (rule distinct_map_filter_option [OF _ assms(3) [OF Some]]) (auto dest: by_id split: if_splits)
qed

text \<open>What a call recorded is in the file it wrote.\<close>

lemma reserve_recorded:
  assumes "reserve h count uuids all_free mib ttl fl = (Inr created, killed, fl')" "r \<in> set created"
    and "uuids_unique (ho_gpu h)" "\<And>us. uuids = Some us \<Longrightarrow> distinct us"
  shows "map_of (load_registry True fl') (gr_uuid r) = Some (hold_to_dict r)"
  using assms(1,2) refl
proof (rule reserve_created)
  let ?live = "filter (\<lambda>(u, e). ge_alive (ho_gpu h) (hd_pid e) \<and> \<not> hold_expired (ge_now (ho_gpu h)) e)
      (load_registry (ge_readable (ho_gpu h)) fl)"
  fix targets
  assume t: "targets = select_targets (reservable h ?live)
      (discover_gpus (ge_gpu_output (ho_gpu h)) (ge_app_output (ho_gpu h))) count uuids all_free (map fst ?live)"
    and c: "created = fst (reserve_loop h 0 mib ttl targets ?live)"
    and fl': "fl' = Some (snd (reserve_loop h 0 mib ttl targets ?live))"
  have "distinct (map gd_uuid targets)"
    unfolding t using assms(3,4)
    by (intro targets_distinct) (simp_all add: uuids_unique_def reservable_usable distinct_map_filter_table)
  with assms(2) show ?thesis unfolding c fl' by (simp add: load_registry_def reserve_loop_recorded)
qed

lemma reserve_expiry:
  assumes "reserve h count uuids all_free mib ttl fl = (Inr created, killed, fl')" "r \<in> set created"
  shows "gr_expires_at r = (if ttl \<le> 0 then None else Some (ge_now (ho_gpu h) + ttl * 1000000))"
  using assms refl by (rule reserve_created) (use assms(2) reserve_loop_created in blast)

lemma hold_res_dict [simp]: "hold_to_res (gr_uuid r) (hold_to_dict r) = r"
  by (simp add: hold_to_res_def hold_to_dict_def)

text \<open>Listing a readable registry: what is returned, terminated and left.\<close>

lemma list_reservations_readable:
  assumes "ge_readable (ho_gpu h)" "list_reservations h fl = (Inr rs, killed, fl')"
  shows "rs = map (\<lambda>(u, e). hold_to_res u e)
      (filter (\<lambda>(u, e). ge_alive (ho_gpu h) (hd_pid e) \<and> \<not> hold_expired (ge_now (ho_gpu h)) e) (load_registry True fl))"
    "killed = concat (map (\<lambda>(u, e). terminate_pid (hd_pid e))
      (filter (\<lambda>(u, e). ge_alive (ho_gpu h) (hd_pid e) \<and> hold_expired (ge_now (ho_gpu h)) e) (load_registry True fl)))"
  using assms by (auto simp: list_reservations_def Let_def reap_holds_eq split: if_splits)

text \<open>
  A hold lives for its time to live and no longer: after \<open>reserve\<close> created a reservation (each
  card named once), a listing that finds its holder alive returns it exactly until
  \<open>ttl_seconds\<close> after the reservation (for ever when it is not positive); later it is dropped
  from what the listing returns and its holder is sent SIGTERM.
\<close>

theorem reservation_expires:
  assumes "holds_ok fl" and "reserve h count uuids all_free mib ttl fl = (Inr created, killed, fl')" "r \<in> set created"
    and "uuids_unique (ho_gpu h)" "\<And>us. uuids = Some us \<Longrightarrow> distinct us"
    and "ge_readable (ho_gpu h')" "ge_alive (ho_gpu h') (gr_pid r)" "0 < gr_pid r"
    and "list_reservations h' fl' = (Inr rs, killed', fl'')"
  shows "if ttl \<le> 0 \<or> ge_now (ho_gpu h') < ge_now (ho_gpu h) + ttl * 1000000 then r \<in> set rs
    else gr_uuid r \<notin> gr_uuid ` set rs \<and> gr_pid r \<in> set killed'"
proof -
  note rec = reserve_recorded [OF assms(2-5)]
  have mem: "(gr_uuid r, hold_to_dict r) \<in> set (load_registry True fl')" by (rule map_of_SomeD [OF rec])
  have "holds_ok fl'" using hold_calls.step_keeps [OF assms(1), of "Reserve_Cards h count uuids all_free mib ttl"] assms(2) by simp
  then have uniq: "e = hold_to_dict r" if "(gr_uuid r, e) \<in> set (load_registry True fl')" for e
    using eq_key_imp_eq_value [OF load_registry_distinct that mem] by simp
  have exp: "hold_expired (ge_now (ho_gpu h')) (hold_to_dict r) \<longleftrightarrow>
      \<not> (ttl \<le> 0 \<or> ge_now (ho_gpu h') < ge_now (ho_gpu h) + ttl * 1000000)"
    using reserve_expiry [OF assms(2,3)] by (auto simp: hold_expired_def hold_to_dict_def)
  have pid: "hd_pid (hold_to_dict r) = gr_pid r" by (simp add: hold_to_dict_def)
  note l = list_reservations_readable [OF assms(6,9)]
  show ?thesis
  proof (cases "hold_expired (ge_now (ho_gpu h')) (hold_to_dict r)")
    case False
    then have "hold_to_res (gr_uuid r) (hold_to_dict r) \<in> set rs"
      using mem assms(7) pid unfolding l(1) by force
    with False exp show ?thesis by simp
  next
    case True
    have "gr_uuid r \<notin> gr_uuid ` set rs"
      using True uniq unfolding l(1) by (auto simp: hold_to_res_def)
    moreover have "gr_pid r \<in> set killed'"
      using True mem assms(7,8) pid unfolding l(2) by (force simp: terminate_pid_def)
    ultimately show ?thesis using True exp by simp
  qed
qed

text \<open>
  A card named twice in one request gets two holders, of which the registry records only the
  second: the first keeps its card until its own time to live ends, and neither \<open>release\<close> nor
  reaping can reach it.
\<close>

theorem duplicate_request_leaks_holder:
  assumes "uuids_unique (ho_gpu h)" "ge_writable (ho_gpu h)"
    and "live = filter (\<lambda>(u, e). ge_alive (ho_gpu h) (hd_pid e) \<and> \<not> hold_expired (ge_now (ho_gpu h)) e)
      (load_registry (ge_readable (ho_gpu h)) fl)"
    and "d \<in> set (reservable h live)" "ho_spawn h 0 d = Some p1" "ho_spawn h 1 d = Some p2" "p1 \<noteq> p2"
    and "p1 \<notin> hd_pid ` snd ` set live"
  shows "\<exists>created killed state. reserve h None (Some [gd_uuid d, gd_uuid d]) False mib ttl fl = (Inr created, killed, Some state) \<and>
    map gr_pid created = [p1, p2] \<and> p1 \<notin> hd_pid ` snd ` set state"
proof -
  let ?ds = "discover_gpus (ge_gpu_output (ho_gpu h)) (ge_app_output (ho_gpu h))"
  have d: "d \<in> set ?ds" "gd_uuid d \<notin> set (map fst live)" using assms(4) by (auto simp: reservable_usable)
  have "map_of (rev (map (\<lambda>d. (gd_uuid d, d)) ?ds)) (gd_uuid d) = Some d"
    using assms(1) d(1) by (intro device_by_uuid) (simp_all add: uuids_unique_def)
  moreover have "gd_uuid d \<in> set (map gd_uuid (reservable h live))" using assms(4) by simp
  ultimately have t: "select_targets (reservable h live) ?ds None (Some [gd_uuid d, gd_uuid d]) False (map fst live) = [d, d]"
    using d(2) by (simp add: select_targets_def List.map_filter_simps)
  define e where "e p = \<lparr>hd_index = gd_index d, hd_pid = p, hd_hold_mib = mib, hd_reserved_at = ge_now (ho_gpu h),
      hd_expires_at = (if ttl \<le> 0 then None else Some (ge_now (ho_gpu h) + ttl * 1000000))\<rparr>" for p
  obtain created where c: "reserve_loop h 0 mib ttl [d, d] live =
      (created, AList.update (gd_uuid d) (e p2) (AList.update (gd_uuid d) (e p1) live))" "map gr_pid created = [p1, p2]"
    using assms(5,6) by (simp add: spawn_holder_def hold_to_dict_def e_def)
  let ?state = "AList.update (gd_uuid d) (e p2) (AList.update (gd_uuid d) (e p1) live)"
  have "AList.update (gd_uuid d) (e p) live = live @ [(gd_uuid d, e p)]" for p
    using d(2) by (induction live) auto
  moreover have "AList.update (gd_uuid d) (e p2) (live @ [(gd_uuid d, e p1)]) = live @ [(gd_uuid d, e p2)]"
    using d(2) by (induction live) auto
  ultimately have "?state = live @ [(gd_uuid d, e p2)]" by simp
  then have "p1 \<notin> hd_pid ` snd ` set ?state" using assms(7,8) by (auto simp: e_def)
  moreover have "created \<noteq> []" using c(2) by auto
  ultimately show ?thesis
    using c t assms(2) by (simp add: reserve_def Let_def reap_holds_eq assms(3) [symmetric])
qed

section \<open>Concrete runs\<close>

definition sample_host :: "time \<Rightarrow> host_env" where
  "sample_host now = \<lparr>ho_gpu = \<lparr>ge_alive = (\<lambda>p. p < 100), ge_gpu_output = Some smi_text, ge_app_output = Some [],
     ge_now = now, ge_readable = True, ge_writable = True\<rparr>, ho_lease_file = None,
     ho_spawn = (\<lambda>k d. Some (40 + int k))\<rparr>"

definition sample_reservation :: gpu_reservation where
  "sample_reservation = \<lparr>gr_uuid = ''GPU-a'', gr_index = 0, gr_pid = 40, gr_hold_mib = 256, gr_reserved_at = 0,
     gr_expires_at = Some 60000000\<rparr>"

definition sample_holds :: hold_table where
  "sample_holds = [(''GPU-a'', hold_to_dict sample_reservation)]"

lemma sample_reserve:
  "reserve (sample_host 0) (Some 1) None False 256 60 None = (Inr [sample_reservation], [], Some sample_holds) \<and>
   map gd_uuid (discover_gpus (ge_gpu_output (ho_gpu (sample_host 0))) (ge_app_output (ho_gpu (sample_host 0)))) = [''GPU-a'', ''GPU-b''] \<and>
   list_reservations (sample_host 5) (Some sample_holds) = (Inr [sample_reservation], [], Some sample_holds) \<and>
   list_reservations (sample_host 60000000) (Some sample_holds) = (Inr [], [40], Some [])"
  by code_simp

lemma sample_host_unique: "uuids_unique (ho_gpu (sample_host 0))"
  using sample_reserve by (simp add: uuids_unique_def)

theorem reserve_only_free_cards_witness:
  "\<exists>d \<in> set (discover_gpus (Some smi_text) (Some [])). gd_uuid d = ''GPU-a'' \<and> usable 1024 [] [] d"
  using reserve_only_free_cards [OF conjunct1 [OF sample_reserve] _ refl sample_host_unique, of sample_reservation]
  by (auto simp: sample_host_def sample_reservation_def load_registry_def)

theorem reservation_expires_witness:
  "\<exists>rs killed fl. list_reservations (sample_host 60000000) (Some sample_holds) = (Inr rs, killed, fl) \<and> 40 \<in> set killed"
proof -
  note l = conjunct2 [OF conjunct2 [OF conjunct2 [OF sample_reserve]]]
  have "holds_ok None" by (simp add: holds_ok_def load_registry_def)
  from reservation_expires [OF this conjunct1 [OF sample_reserve] _ sample_host_unique _ _ _ _ l, of sample_reservation]
  have "40 \<in> set [40 :: int]" by (simp add: sample_host_def sample_reservation_def)
  with l show ?thesis by auto
qed

theorem duplicate_request_leaks_holder_witness:
  "\<exists>created killed state. reserve (sample_host 0) None (Some [''GPU-a'', ''GPU-a'']) False 256 60 None =
     (Inr created, killed, Some state) \<and> map gr_pid created = [40, 41] \<and> 40 \<notin> hd_pid ` snd ` set state"
proof -
  have "map gd_uuid (reservable (sample_host 0) []) = [''GPU-a'', ''GPU-b'']" by code_simp
  then obtain d z where "reservable (sample_host 0) [] = [d, z]" "gd_uuid d = ''GPU-a''" by (auto simp: map_eq_Cons_conv)
  then have d: "d \<in> set (reservable (sample_host 0) [])" "gd_uuid d = ''GPU-a''" by simp_all
  show ?thesis
    using duplicate_request_leaks_holder [OF sample_host_unique _ _ d(1), of None 40 41 256 60] d(2)
    by (simp add: sample_host_def load_registry_def)
qed

end
