(* ===== verification/Sandbox.thy ===== *)
theory Sandbox
  imports Event_Store_Laws
begin

text \<open>
  Sandbox lifecycles, \<^verbatim>\<open>src/backend/services/runtime\<close>: the events (\<^verbatim>\<open>events.py\<close>), the aggregate
  (\<^verbatim>\<open>aggregate.py\<close>) and the application service (\<^verbatim>\<open>service.py\<close>), which works with an event store or,
  without one, with aggregates kept in memory.

  The backend is an argument: how each awaited call of it ends. While a command awaits the
  backend, other commands of the process and other processes may run (\<open>other1\<close>, on the service
  and the id generator), and between a load and an append other processes may write to the store
  (\<open>other0\<close>). An aggregate kept in memory is one shared object, so after the await the command
  sees what others did to it (\<open>current_aggregate\<close>); one replayed from the store is private.
  \<open>rw_fault k\<close> is where SQLite faults in the \<open>k\<close>-th append of a command.
\<close>

record sandbox_config =
  sc_project_id :: string
  sc_run_id :: string
  sc_json :: string

record sandbox =
  sb_sandbox_id :: string
  sb_image :: string
  sb_config :: sandbox_config

record exec_result =
  xr_command :: string
  xr_exit_code :: "int option"
  xr_stdout :: string
  xr_stderr :: string
  xr_duration_seconds :: real
  xr_timed_out :: bool
  xr_cause_kind :: "string option"

definition exec_succeeded :: "exec_result \<Rightarrow> bool" where
  "exec_succeeded r \<longleftrightarrow> xr_exit_code r = Some 0 \<and> \<not> xr_timed_out r \<and> xr_cause_kind r = None"

section \<open>Events and aggregate\<close>

datatype sandbox_payload =
    SandboxRequested string string string
  | SandboxCreated string string string string
  | SandboxFailed string string string string bool
  | CommandExecuted string string string string int real
  | CommandFailed string string string string "int option" real string string bool
  | SandboxDestroyed string string string
  | Foreign_Sandbox_Event event_class string

definition runtime_class :: "string \<Rightarrow> string \<Rightarrow> event_class" where
  "runtime_class name event_type = \<lparr>cls_module = ''backend.services.runtime.events'', cls_name = name,
     cls_event_type = event_type, cls_schema_version = 1\<rparr>"

fun sandbox_class_of :: "sandbox_payload \<Rightarrow> event_class" where
  "sandbox_class_of (SandboxRequested _ _ _) = runtime_class ''SandboxRequested'' ''sandbox_requested''"
| "sandbox_class_of (SandboxCreated _ _ _ _) = runtime_class ''SandboxCreated'' ''sandbox_created''"
| "sandbox_class_of (SandboxFailed _ _ _ _ _) = runtime_class ''SandboxFailed'' ''sandbox_failed''"
| "sandbox_class_of (CommandExecuted _ _ _ _ _ _) = runtime_class ''CommandExecuted'' ''command_executed''"
| "sandbox_class_of (CommandFailed _ _ _ _ _ _ _ _ _) = runtime_class ''CommandFailed'' ''command_failed''"
| "sandbox_class_of (SandboxDestroyed _ _ _) = runtime_class ''SandboxDestroyed'' ''sandbox_destroyed''"
| "sandbox_class_of (Foreign_Sandbox_Event cls _) = cls"

definition sandbox_event :: "sandbox_payload \<Rightarrow> sandbox_payload domain_event" where
  "sandbox_event p = \<lparr>de_class = sandbox_class_of p, de_payload = p\<rparr>"

datatype sandbox_state =
  SANDBOX_NEW | SANDBOX_REQUESTED | SANDBOX_CREATED | SANDBOX_RUNNING | SANDBOX_DESTROYED | SANDBOX_FAILED

record sandbox_aggregate =
  sa_project_id :: string
  sa_run_id :: string
  sa_state :: sandbox_state
  sa_sandbox_id :: string
  sa_version :: int

datatype sandbox_error =
    InvalidSandboxTransition sandbox_state string
  | SandboxCannotApply string
  | RuntimeKeyError string int
  | RuntimeStoreError store_error
  | RuntimeIntoError into_error
  | SandboxRuntimeError string string bool
  | BackendException

definition sandbox_empty :: "string \<Rightarrow> string \<Rightarrow> sandbox_aggregate" where
  "sandbox_empty project_id run_id = \<lparr>sa_project_id = project_id, sa_run_id = run_id, sa_state = SANDBOX_NEW,
     sa_sandbox_id = [], sa_version = 0\<rparr>"

definition handle_request :: "sandbox_aggregate \<Rightarrow> sandbox_config \<Rightarrow> sandbox_error + sandbox_payload list" where
  "handle_request agg config =
     (if sa_state agg \<noteq> SANDBOX_NEW then Inl (InvalidSandboxTransition (sa_state agg) ''request'')
      else Inr [SandboxRequested (sa_project_id agg) (sa_run_id agg) (sc_json config)])"

definition handle_created :: "sandbox_aggregate \<Rightarrow> string \<Rightarrow> string \<Rightarrow> sandbox_error + sandbox_payload list" where
  "handle_created agg sandbox_id img =
     (if sa_state agg \<noteq> SANDBOX_REQUESTED then Inl (InvalidSandboxTransition (sa_state agg) ''created'')
      else Inr [SandboxCreated (sa_project_id agg) (sa_run_id agg) sandbox_id img])"

definition handle_failed :: "sandbox_aggregate \<Rightarrow> string \<Rightarrow> string \<Rightarrow> bool \<Rightarrow> sandbox_error + sandbox_payload list" where
  "handle_failed agg cause_kind message retryable =
     (if sa_state agg = SANDBOX_DESTROYED then Inl (InvalidSandboxTransition (sa_state agg) ''failed'')
      else Inr [SandboxFailed (sa_project_id agg) (sa_run_id agg) cause_kind message retryable])"

definition failure_message :: "exec_result \<Rightarrow> string" where
  "failure_message r =
     (if xr_stderr r \<noteq> [] then xr_stderr r
      else if xr_stdout r \<noteq> [] then xr_stdout r
      else ''Command exited '' @ (case xr_exit_code r of None \<Rightarrow> ''None'' | Some n \<Rightarrow> str_of_int n))"

definition handle_command_result :: "sandbox_aggregate \<Rightarrow> exec_result \<Rightarrow> sandbox_error + sandbox_payload list" where
  "handle_command_result agg r =
     (if sa_state agg \<noteq> SANDBOX_CREATED \<and> sa_state agg \<noteq> SANDBOX_RUNNING
      then Inl (InvalidSandboxTransition (sa_state agg) ''command_result'')
      else if exec_succeeded r
      then Inr [CommandExecuted (sa_project_id agg) (sa_run_id agg) (sa_sandbox_id agg) (xr_command r)
                  (case xr_exit_code r of None \<Rightarrow> 0 | Some n \<Rightarrow> n) (xr_duration_seconds r)]
      else Inr [CommandFailed (sa_project_id agg) (sa_run_id agg) (sa_sandbox_id agg) (xr_command r)
                  (xr_exit_code r) (xr_duration_seconds r)
                  (case xr_cause_kind r of None \<Rightarrow> ''command_failed'' | Some k \<Rightarrow> k)
                  (failure_message r) (xr_timed_out r)])"

definition handle_destroyed :: "sandbox_aggregate \<Rightarrow> sandbox_payload list" where
  "handle_destroyed agg =
     (if sa_state agg = SANDBOX_DESTROYED then []
      else [SandboxDestroyed (sa_project_id agg) (sa_run_id agg) (sa_sandbox_id agg)])"

definition sandbox_apply :: "sandbox_aggregate \<Rightarrow> sandbox_payload \<Rightarrow> sandbox_error + sandbox_aggregate" where
  "sandbox_apply agg p =
     (case p of
        SandboxRequested _ _ _ \<Rightarrow> Inr (agg\<lparr>sa_state := SANDBOX_REQUESTED, sa_version := sa_version agg + 1\<rparr>)
      | SandboxCreated _ _ sid _ \<Rightarrow>
          Inr (agg\<lparr>sa_state := SANDBOX_CREATED, sa_sandbox_id := sid, sa_version := sa_version agg + 1\<rparr>)
      | CommandExecuted _ _ _ _ _ _ \<Rightarrow> Inr (agg\<lparr>sa_state := SANDBOX_RUNNING, sa_version := sa_version agg + 1\<rparr>)
      | CommandFailed _ _ _ _ _ _ _ _ _ \<Rightarrow> Inr (agg\<lparr>sa_state := SANDBOX_RUNNING, sa_version := sa_version agg + 1\<rparr>)
      | SandboxDestroyed _ _ _ \<Rightarrow> Inr (agg\<lparr>sa_state := SANDBOX_DESTROYED, sa_version := sa_version agg + 1\<rparr>)
      | SandboxFailed _ _ _ _ _ \<Rightarrow> Inr (agg\<lparr>sa_state := SANDBOX_FAILED, sa_version := sa_version agg + 1\<rparr>)
      | Foreign_Sandbox_Event cls _ \<Rightarrow> Inl (SandboxCannotApply (cls_name cls)))"

text \<open>\<open>apply_all\<close> changes the aggregate up to the event it cannot apply.\<close>

fun sandbox_apply_all :: "sandbox_aggregate \<Rightarrow> sandbox_payload list \<Rightarrow> sandbox_error option \<times> sandbox_aggregate" where
  "sandbox_apply_all agg [] = (None, agg)"
| "sandbox_apply_all agg (p # ps) =
     (case sandbox_apply agg p of Inl e \<Rightarrow> (Some e, agg) | Inr agg' \<Rightarrow> sandbox_apply_all agg' ps)"

section \<open>The application service\<close>

type_synonym sandbox_store = "sandbox_payload event_store"

record runtime_service =
  rt_store :: "sandbox_store option"
  rt_memory :: "((string \<times> string) \<times> sandbox_aggregate) list"

record runtime_world =
  rw_registry :: registry
  rw_validate :: "event_class \<Rightarrow> sandbox_payload \<Rightarrow> bool"
  rw_fault :: "nat \<Rightarrow> nat \<Rightarrow> bool"
  rw_draws :: "nat \<Rightarrow> nat \<Rightarrow> int \<times> int"
  rw_now :: time
  rw_correlation_id :: "string option"

definition runtime_aggregate_id :: "string \<Rightarrow> string \<Rightarrow> string" where
  "runtime_aggregate_id project_id run_id = project_id @ '':runtime:'' @ run_id"

definition runtime_correlation :: "runtime_world \<Rightarrow> ulid_state \<Rightarrow> string \<times> ulid_state" where
  "runtime_correlation w us =
     (case rw_correlation_id w of
        Some c \<Rightarrow> if c \<noteq> [] then (c, us) else new_correlation_id us (fst (rw_draws w 0 0)) (snd (rw_draws w 0 0))
      | None \<Rightarrow> new_correlation_id us (fst (rw_draws w 0 0)) (snd (rw_draws w 0 0)))"

fun sandbox_replay :: "runtime_world \<Rightarrow> sandbox_aggregate \<Rightarrow> sandbox_payload event_row list \<Rightarrow>
    sandbox_error + sandbox_aggregate" where
  "sandbox_replay w agg [] = Inr agg"
| "sandbox_replay w agg (r # rs) =
     (case row_to_stored (rw_registry w) (rw_validate w) r of
        Inl e \<Rightarrow> Inl (RuntimeStoreError e)
      | Inr stored \<Rightarrow>
          (case resolve_event_class (rw_registry w) (se_event_type stored) (se_schema_version stored) of
             None \<Rightarrow> Inl (RuntimeKeyError (se_event_type stored) (se_schema_version stored))
           | Some cls \<Rightarrow>
               (case into (rw_validate w) stored cls of
                  Inl e \<Rightarrow> Inl (RuntimeIntoError e)
                | Inr ev \<Rightarrow>
                    (case sandbox_apply agg (de_payload ev) of
                       Inl e \<Rightarrow> Inl e
                     | Inr agg' \<Rightarrow> sandbox_replay w agg' rs))))"

definition load_sandbox :: "runtime_world \<Rightarrow> runtime_service \<Rightarrow> string \<Rightarrow> string \<Rightarrow>
    (sandbox_error + sandbox_aggregate) \<times> runtime_service" where
  "load_sandbox w sv project_id run_id =
     (let agg = sandbox_empty project_id run_id in
      case rt_store sv of
        None \<Rightarrow>
          (case map_of (rt_memory sv) (project_id, run_id) of
             Some a \<Rightarrow> (Inr a, sv)
           | None \<Rightarrow> (Inr agg, sv\<lparr>rt_memory := rt_memory sv @ [((project_id, run_id), agg)]\<rparr>))
      | Some st \<Rightarrow> (sandbox_replay w agg (load_rows st (runtime_aggregate_id project_id run_id) 0), sv))"

fun runtime_envelopes :: "runtime_world \<Rightarrow> ulid_state \<Rightarrow> nat \<Rightarrow> nat \<Rightarrow> string \<Rightarrow> 'e list \<Rightarrow>
    event_envelope list \<times> ulid_state" where
  "runtime_envelopes w us k i cid [] = ([], us)"
| "runtime_envelopes w us k i cid (e # es) =
     (let (env, us1) = make_envelope us (rw_draws w k i) (rw_draws w k i) (rw_now w) ''runtime.service'' (Some cid) None 1;
          (envs, us2) = runtime_envelopes w us1 k (Suc i) cid es
      in (env # envs, us2))"

text \<open>\<open>_append\<close>. In memory the aggregate is the shared object of its key.\<close>

definition runtime_append :: "runtime_world \<Rightarrow> ulid_state \<Rightarrow> nat \<Rightarrow> runtime_service \<Rightarrow> sandbox_aggregate \<Rightarrow>
    sandbox_payload list \<Rightarrow> string \<Rightarrow> sandbox_error option \<times> sandbox_aggregate \<times> runtime_service \<times> ulid_state" where
  "runtime_append w us k sv agg events cid =
     (if events = [] then (None, agg, sv, us)
      else case rt_store sv of
        None \<Rightarrow>
          (let (err, agg') = sandbox_apply_all agg events
           in (err, agg', sv\<lparr>rt_memory := map (\<lambda>(key, a).
                 (key, if key = (sa_project_id agg, sa_run_id agg) then agg' else a)) (rt_memory sv)\<rparr>, us))
      | Some st \<Rightarrow>
          (let (envs, us') = runtime_envelopes w us k 1 cid events
           in case append_events (rw_validate w) (rw_fault w k) st
                     (runtime_aggregate_id (sa_project_id agg) (sa_run_id agg)) ''runtime''
                     (map sandbox_event events) (sa_version agg) envs of
                (Inl e, st') \<Rightarrow> (Some (RuntimeStoreError e), agg, sv\<lparr>rt_store := Some st'\<rparr>, us')
              | (Inr _, st') \<Rightarrow>
                  (let (err, agg') = sandbox_apply_all agg events
                   in (err, agg', sv\<lparr>rt_store := Some st'\<rparr>, us'))))"

definition current_aggregate :: "runtime_service \<Rightarrow> sandbox_aggregate \<Rightarrow> sandbox_aggregate" where
  "current_aggregate sv agg =
     (case rt_store sv of
        Some _ \<Rightarrow> agg
      | None \<Rightarrow> (case map_of (rt_memory sv) (sa_project_id agg, sa_run_id agg) of None \<Rightarrow> agg | Some a \<Rightarrow> a))"

datatype create_outcome =
    Create_Ok sandbox
  | Create_Failed string string bool
  | Create_Raised

type_synonym store_others = "sandbox_store \<Rightarrow> sandbox_store"
type_synonym service_others = "runtime_service \<times> ulid_state \<Rightarrow> runtime_service \<times> ulid_state"

definition others_write :: "store_others \<Rightarrow> runtime_service \<Rightarrow> runtime_service" where
  "others_write other0 sv = sv\<lparr>rt_store := map_option other0 (rt_store sv)\<rparr>"

text \<open>What follows the awaited backend call of \<open>create_sandbox\<close>.\<close>

definition create_finish :: "runtime_world \<Rightarrow> ulid_state \<Rightarrow> runtime_service \<Rightarrow> sandbox_aggregate \<Rightarrow> string \<Rightarrow>
    create_outcome \<Rightarrow> (sandbox_error + sandbox) \<times> runtime_service \<times> ulid_state" where
  "create_finish w us sv agg cid outcome =
     (case outcome of
        Create_Raised \<Rightarrow> (Inl BackendException, sv, us)
      | Create_Failed kind message retryable \<Rightarrow>
          (case handle_failed agg kind message retryable of
             Inl e \<Rightarrow> (Inl e, sv, us)
           | Inr events \<Rightarrow>
               (case runtime_append w us 2 sv agg events cid of
                  (Some e, _, sv', us') \<Rightarrow> (Inl e, sv', us')
                | (None, _, sv', us') \<Rightarrow> (Inl (SandboxRuntimeError kind message retryable), sv', us')))
      | Create_Ok sandbox \<Rightarrow>
          (case handle_created agg (sb_sandbox_id sandbox) (sb_image sandbox) of
             Inl e \<Rightarrow> (Inl e, sv, us)
           | Inr events \<Rightarrow>
               (case runtime_append w us 2 sv agg events cid of
                  (Some e, _, sv', us') \<Rightarrow> (Inl e, sv', us')
                | (None, _, sv', us') \<Rightarrow> (Inr sandbox, sv', us'))))"

definition create_sandbox :: "runtime_world \<Rightarrow> store_others \<Rightarrow> service_others \<Rightarrow> ulid_state \<Rightarrow> runtime_service \<Rightarrow>
    sandbox_config \<Rightarrow> create_outcome \<Rightarrow> (sandbox_error + sandbox) \<times> runtime_service \<times> ulid_state" where
  "create_sandbox w other0 other1 us sv config outcome =
     (let (cid, us0) = runtime_correlation w us;
          (loaded, sv0) = load_sandbox w sv (sc_project_id config) (sc_run_id config)
      in case loaded of
           Inl e \<Rightarrow> (Inl e, sv0, us0)
         | Inr agg \<Rightarrow>
             (case handle_request agg config of
                Inl e \<Rightarrow> (Inl e, sv0, us0)
              | Inr events \<Rightarrow>
                  (case runtime_append w us0 1 (others_write other0 sv0) agg events cid of
                     (Some e, _, sv1, us1) \<Rightarrow> (Inl e, sv1, us1)
                   | (None, agg1, sv1, us1) \<Rightarrow>
                       (let (sv2, us2) = other1 (sv1, us1)
                        in create_finish w us2 sv2 (current_aggregate sv2 agg1) cid outcome))))"

definition execute_command :: "runtime_world \<Rightarrow> store_others \<Rightarrow> service_others \<Rightarrow> ulid_state \<Rightarrow> runtime_service \<Rightarrow>
    sandbox \<Rightarrow> exec_result option \<Rightarrow> (sandbox_error + exec_result) \<times> runtime_service \<times> ulid_state" where
  "execute_command w other0 other1 us sv sb outcome =
     (let (cid, us0) = runtime_correlation w us;
          (sv1, us1) = other1 (sv, us0)
      in case outcome of
           None \<Rightarrow> (Inl BackendException, sv1, us1)
         | Some result \<Rightarrow>
             (case load_sandbox w sv1 (sc_project_id (sb_config sb)) (sc_run_id (sb_config sb)) of
                (Inl e, sv2) \<Rightarrow> (Inl e, sv2, us1)
              | (Inr agg, sv2) \<Rightarrow>
                  (case handle_command_result agg result of
                     Inl e \<Rightarrow> (Inl e, sv2, us1)
                   | Inr events \<Rightarrow>
                       (case runtime_append w us1 1 (others_write other0 sv2) agg events cid of
                          (Some e, _, sv3, us3) \<Rightarrow> (Inl e, sv3, us3)
                        | (None, _, sv3, us3) \<Rightarrow> (Inr result, sv3, us3)))))"

text \<open>\<open>destroy\<close>: the \<open>finally\<close> block runs whether or not the backend raised, and its own exception
  replaces the backend's.\<close>

definition destroy_sandbox :: "runtime_world \<Rightarrow> store_others \<Rightarrow> service_others \<Rightarrow> ulid_state \<Rightarrow> runtime_service \<Rightarrow>
    sandbox \<Rightarrow> bool \<Rightarrow> (sandbox_error + unit) \<times> runtime_service \<times> ulid_state" where
  "destroy_sandbox w other0 other1 us sv sb backend_raised =
     (let (cid, us0) = runtime_correlation w us;
          (sv1, us1) = other1 (sv, us0)
      in case load_sandbox w sv1 (sc_project_id (sb_config sb)) (sc_run_id (sb_config sb)) of
           (Inl e, sv2) \<Rightarrow> (Inl e, sv2, us1)
         | (Inr agg, sv2) \<Rightarrow>
             (case runtime_append w us1 1 (others_write other0 sv2) agg (handle_destroyed agg) cid of
                (Some e, _, sv3, us3) \<Rightarrow> (Inl e, sv3, us3)
              | (None, _, sv3, us3) \<Rightarrow> (if backend_raised then Inl BackendException else Inr (), sv3, us3)))"

definition probe_alive :: "(unit + bool) \<Rightarrow> bool" where
  "probe_alive backend = (case backend of Inl _ \<Rightarrow> False | Inr b \<Rightarrow> b)"

definition soft_recover :: "(unit + bool) \<Rightarrow> bool" where
  "soft_recover backend = (case backend of Inl _ \<Rightarrow> False | Inr b \<Rightarrow> b)"

section \<open>The life of a sandbox, abstractly\<close>

fun sandbox_next :: "sandbox_state \<Rightarrow> sandbox_payload \<Rightarrow> sandbox_state option" where
  "sandbox_next s (SandboxRequested _ _ _) = (if s = SANDBOX_NEW then Some SANDBOX_REQUESTED else None)"
| "sandbox_next s (SandboxCreated _ _ _ _) = (if s = SANDBOX_REQUESTED then Some SANDBOX_CREATED else None)"
| "sandbox_next s (CommandExecuted _ _ _ _ _ _) =
     (if s = SANDBOX_CREATED \<or> s = SANDBOX_RUNNING then Some SANDBOX_RUNNING else None)"
| "sandbox_next s (CommandFailed _ _ _ _ _ _ _ _ _) =
     (if s = SANDBOX_CREATED \<or> s = SANDBOX_RUNNING then Some SANDBOX_RUNNING else None)"
| "sandbox_next s (SandboxFailed _ _ _ _ _) = (if s = SANDBOX_DESTROYED then None else Some SANDBOX_FAILED)"
| "sandbox_next s (SandboxDestroyed _ _ _) = (if s = SANDBOX_DESTROYED then None else Some SANDBOX_DESTROYED)"
| "sandbox_next s (Foreign_Sandbox_Event _ _) = None"

abbreviation sandbox_delta :: "sandbox_state \<Rightarrow> sandbox_payload fact \<Rightarrow> sandbox_state option" where
  "sandbox_delta \<equiv> \<lambda>s (ty, ver, p, env).
     if ty = cls_event_type (sandbox_class_of p) \<and> ver = cls_schema_version (sandbox_class_of p) then sandbox_next s p else None"

text \<open>The state the stream of a sandbox stands for, \<open>None\<close> when the stream is not a path of the
  machine.\<close>

definition sandbox_life :: "sandbox_store \<Rightarrow> string \<Rightarrow> sandbox_state option" where
  "sandbox_life st a = run_path sandbox_delta SANDBOX_NEW (stream st a)"

interpretation sandbox_log: lifecycle_log store_wf stream get_aggregate_version "write_batch validate" batch_facts
    sandbox_delta SANDBOX_NEW
  for validate :: "event_class \<Rightarrow> sandbox_payload \<Rightarrow> bool"
  by unfold_locales

text \<open>What the service relies on: its event classes are registered, and Pydantic accepts an instance's
  own JSON.\<close>

definition runtime_ready :: "runtime_world \<Rightarrow> bool" where
  "runtime_ready w \<longleftrightarrow> (\<forall>p. (\<exists>c x. p = Foreign_Sandbox_Event c x) \<or>
     resolve_event_class (rw_registry w) (cls_event_type (sandbox_class_of p)) (cls_schema_version (sandbox_class_of p))
       = Some (sandbox_class_of p) \<and> rw_validate w (sandbox_class_of p) p)"

text \<open>The aggregate is what the stream says.\<close>

definition agg_matches :: "sandbox_store \<Rightarrow> sandbox_aggregate \<Rightarrow> bool" where
  "agg_matches st agg \<longleftrightarrow>
     (let a = runtime_aggregate_id (sa_project_id agg) (sa_run_id agg) in
      store_wf st \<and> sandbox_life st a = Some (sa_state agg) \<and> sa_version agg = get_aggregate_version st a)"

lemma sandbox_apply_next:
  assumes "sandbox_next (sa_state agg) p = Some s"
  obtains agg' where "sandbox_apply agg p = Inr agg'" "sa_state agg' = s" "sa_version agg' = sa_version agg + 1"
    "sa_project_id agg' = sa_project_id agg" "sa_run_id agg' = sa_run_id agg"
  using assms by (cases p) (auto simp: sandbox_apply_def split: if_splits)

lemma sandbox_replay_path:
  assumes "runtime_ready w" "run_path sandbox_delta (sa_state agg) (map row_fact rows) = Some s"
  shows "\<exists>agg'. sandbox_replay w agg rows = Inr agg' \<and> sa_state agg' = s \<and>
    sa_version agg' = sa_version agg + int (length rows) \<and>
    sa_project_id agg' = sa_project_id agg \<and> sa_run_id agg' = sa_run_id agg"
  using assms(2)
proof (induction rows arbitrary: agg)
  case (Cons r rows)
  let ?p = "er_payload r"
  from Cons.prems obtain t where ty: "er_event_type r = cls_event_type (sandbox_class_of ?p)"
      "er_schema_version r = cls_schema_version (sandbox_class_of ?p)"
    and t: "sandbox_next (sa_state agg) ?p = Some t" "run_path sandbox_delta t (map row_fact rows) = Some s"
    by (auto simp: row_fact_def [abs_def] split: option.splits if_splits)
  from t(1) have "\<nexists>c x. ?p = Foreign_Sandbox_Event c x" by auto
  with assms(1) have reg: "resolve_event_class (rw_registry w) (cls_event_type (sandbox_class_of ?p))
      (cls_schema_version (sandbox_class_of ?p)) = Some (sandbox_class_of ?p)" "rw_validate w (sandbox_class_of ?p) ?p"
    unfolding runtime_ready_def by blast+
  obtain agg' where a: "sandbox_apply agg ?p = Inr agg'" "sa_state agg' = t" "sa_version agg' = sa_version agg + 1"
    "sa_project_id agg' = sa_project_id agg" "sa_run_id agg' = sa_run_id agg"
    using sandbox_apply_next [OF t(1)] by metis
  show ?case
    using Cons.IH [of agg'] t(2) a by (simp add: row_to_stored_def Let_def ty reg into_def add.assoc)
qed simp

lemma load_sandbox_matches:
  assumes "runtime_ready w" "rt_store sv = Some st" "store_wf st"
    and "sandbox_life st (runtime_aggregate_id pid rid) = Some s"
  obtains agg where "load_sandbox w sv pid rid = (Inr agg, sv)" "agg_matches st agg"
    "sa_project_id agg = pid" "sa_run_id agg = rid" "sa_state agg = s"
proof -
  let ?a = "runtime_aggregate_id pid rid"
  have "run_path sandbox_delta (sa_state (sandbox_empty pid rid)) (map row_fact (agg_rows st ?a)) = Some s"
    using assms(4) by (simp add: sandbox_life_def stream_def sandbox_empty_def)
  from sandbox_replay_path [OF assms(1) this] obtain agg where
    "sandbox_replay w (sandbox_empty pid rid) (agg_rows st ?a) = Inr agg" "sa_state agg = s"
    "sa_version agg = int (length (agg_rows st ?a))" "sa_project_id agg = pid" "sa_run_id agg = rid"
    by (auto simp: sandbox_empty_def)
  then show thesis
    using that [of agg] assms
    by (simp add: load_sandbox_def Let_def load_rows_wf agg_matches_def version_eq_length)
qed

lemma handlers_next:
  "handle_request agg c = Inr ps \<Longrightarrow> \<exists>p. ps = [p] \<and> sandbox_next (sa_state agg) p \<noteq> None"
  "handle_created agg i m = Inr ps \<Longrightarrow> \<exists>p. ps = [p] \<and> sandbox_next (sa_state agg) p \<noteq> None"
  "handle_failed agg k t r = Inr ps \<Longrightarrow> \<exists>p. ps = [p] \<and> sandbox_next (sa_state agg) p \<noteq> None"
  "handle_command_result agg x = Inr ps \<Longrightarrow> \<exists>p. ps = [p] \<and> sandbox_next (sa_state agg) p \<noteq> None"
  by (auto simp: handle_request_def handle_created_def handle_failed_def handle_command_result_def split: if_splits)

lemma runtime_envelopes_length: "length (fst (runtime_envelopes w us k i cid es)) = length es"
proof (induction es arbitrary: us i)
  case (Cons e es)
  obtain env us1 where "make_envelope us (rw_draws w k i) (rw_draws w k i) (rw_now w) ''runtime.service'' (Some cid) None 1
      = (env, us1)" by fastforce
  with Cons.IH [of us1 "Suc i"] show ?case by (auto split: prod.splits)
qed simp

text \<open>The ids the \<open>k\<close>-th append of a command draws are not in the store yet.\<close>

definition runtime_ids_fresh :: "runtime_world \<Rightarrow> ulid_state \<Rightarrow> nat \<Rightarrow> string \<Rightarrow> sandbox_store \<Rightarrow> bool" where
  "runtime_ids_fresh w us k cid st \<longleftrightarrow>
     existing_rows st (map env_event_id (fst (runtime_envelopes w us k 1 cid [()]))) = []"

lemma runtime_envelopes_cong:
  "length es = length es' \<Longrightarrow> runtime_envelopes w us k i cid es = runtime_envelopes w us k i cid es'"
  by (induction es es' arbitrary: us i rule: list_induct2) (auto split: prod.splits)

text \<open>One append of a command whose aggregate matches \<open>st0\<close>, after others extended the store.\<close>

lemma runtime_append_cases:
  assumes m: "agg_matches st0 agg" and g: "store_grows (rw_validate w) st0 st" and s: "rt_store sv = Some st"
    and n: "sandbox_next (sa_state agg) p = Some q"
    and a: "a = runtime_aggregate_id (sa_project_id agg) (sa_run_id agg)"
    and ap: "runtime_append w us k sv agg [p] cid = (err, agg', sv', us')"
  obtains (raised) e where "err = Some e" "sv' = sv"
  | (replayed) "err = None" "rt_store sv' = Some st" "\<not> runtime_ids_fresh w us k cid st"
  | (added) st' env where "err = None" "rt_store sv' = Some st'" "agg_matches st' agg'" "sa_state agg' = q"
      "sandbox_life st' a = Some q" "store_grows (rw_validate w) st st'"
      "stream st' = (stream st)(a := stream st0 a @ [event_fact (sandbox_event p, env)])"
      "sa_project_id agg' = sa_project_id agg" "sa_run_id agg' = sa_run_id agg"
proof -
  obtain envs us1 where e: "runtime_envelopes w us k 1 cid [p] = (envs, us1)" by fastforce
  have len: "length envs = 1" using runtime_envelopes_length [of w us k 1 cid "[p]"] unfolding e by simp
  then obtain env where env: "envs = [env]" by (auto simp: length_Suc_conv)
  obtain res st' where r: "append_events (rw_validate w) (rw_fault w k) st a ''runtime'' [sandbox_event p]
      (sa_version agg) envs = (res, st')" by fastforce
  obtain agg1 where g1: "sandbox_apply agg p = Inr agg1" "sa_state agg1 = q" "sa_version agg1 = sa_version agg + 1"
    "sa_project_id agg1 = sa_project_id agg" "sa_run_id agg1 = sa_run_id agg"
    using sandbox_apply_next [OF n] by metis
  have ap': "(err, agg', sv', us') = (case res of
      Inl e \<Rightarrow> (Some (RuntimeStoreError e), agg, sv\<lparr>rt_store := Some st'\<rparr>, us1)
    | Inr _ \<Rightarrow> (None, agg1, sv\<lparr>rt_store := Some st'\<rparr>, us1))"
    using ap s r g1(1) by (simp add: runtime_append_def e [simplified One_nat_def] a del: runtime_envelopes.simps split: sum.splits)
  have wf: "store_wf st0" and v: "sa_version agg = get_aggregate_version st0 a"
    and life: "sandbox_life st0 a = Some (sa_state agg)"
    using m by (simp_all add: agg_matches_def Let_def a)
  from wf g v r show thesis
  proof (cases rule: snapshot_append_cases)
    case (raised e)
    with ap' s that(1) show ?thesis by simp
  next
    case (replayed ar)
    have "\<not> runtime_ids_fresh w us k cid st"
      using replayed(3) runtime_envelopes_cong [of "[()]" "[p]" w us k 1 cid] e by (simp add: runtime_ids_fresh_def)
    with ap' replayed that(2) show ?thesis by simp
  next
    case (added ar)
    have st': "stream st' = (stream st)(a := stream st0 a @ [event_fact (sandbox_event p, env)])"
      using added(5) by (simp add: env)
    have l: "sandbox_life st' a = Some q"
      using life n unfolding sandbox_life_def st'
      by (simp add: run_path_append event_fact_def sandbox_event_def)
    have "agg_matches st' agg1"
      using added(2,6) l g1 v by (simp add: agg_matches_def Let_def a)
    with ap' added(1,7) st' l g1 that(3) show ?thesis by simp
  qed
qed

section \<open>Commands\<close>

datatype runtime_command =
    CreateSandbox sandbox_config create_outcome
  | ExecuteCommand sandbox "exec_result option"
  | DestroySandbox sandbox bool

fun runtime_target :: "runtime_command \<Rightarrow> string" where
  "runtime_target (CreateSandbox c _) = runtime_aggregate_id (sc_project_id c) (sc_run_id c)"
| "runtime_target (ExecuteCommand sb _) = runtime_aggregate_id (sc_project_id (sb_config sb)) (sc_run_id (sb_config sb))"
| "runtime_target (DestroySandbox sb _) = runtime_aggregate_id (sc_project_id (sb_config sb)) (sc_run_id (sb_config sb))"

fun run_runtime :: "runtime_world \<Rightarrow> store_others \<Rightarrow> service_others \<Rightarrow> ulid_state \<Rightarrow> runtime_service \<Rightarrow>
    runtime_command \<Rightarrow> runtime_service" where
  "run_runtime w other0 other1 us sv (CreateSandbox c out) = fst (snd (create_sandbox w other0 other1 us sv c out))"
| "run_runtime w other0 other1 us sv (ExecuteCommand sb out) = fst (snd (execute_command w other0 other1 us sv sb out))"
| "run_runtime w other0 other1 us sv (DestroySandbox sb b) = fst (snd (destroy_sandbox w other0 other1 us sv sb b))"

text \<open>A well-formed store in which the aggregate's stream is a path, and one that grew out of \<open>st\<close>.\<close>

definition sandbox_ok :: "string \<Rightarrow> sandbox_store \<Rightarrow> bool" where
  "sandbox_ok a st \<longleftrightarrow> store_wf st \<and> sandbox_life st a \<noteq> None"

definition sandbox_grown :: "runtime_world \<Rightarrow> string \<Rightarrow> sandbox_store \<Rightarrow> runtime_service \<Rightarrow> bool" where
  "sandbox_grown w a st sv \<longleftrightarrow>
     (\<exists>st'. rt_store sv = Some st' \<and> store_grows (rw_validate w) st st' \<and> sandbox_ok a st')"

text \<open>What the other writers guarantee: they only add to the log and keep the aggregate's stream a
  path.\<close>

definition others_ok :: "runtime_world \<Rightarrow> string \<Rightarrow> store_others \<Rightarrow> service_others \<Rightarrow> bool" where
  "others_ok w a other0 other1 \<longleftrightarrow>
     (\<forall>st. sandbox_ok a st \<longrightarrow> store_grows (rw_validate w) st (other0 st) \<and> sandbox_ok a (other0 st)) \<and>
     (\<forall>sv us st. rt_store sv = Some st \<longrightarrow> sandbox_ok a st \<longrightarrow> sandbox_grown w a st (fst (other1 (sv, us))))"

lemma sandbox_grown_trans:
  "store_grows (rw_validate w) r s \<Longrightarrow> sandbox_grown w a s sv \<Longrightarrow> sandbox_grown w a r sv"
  unfolding sandbox_grown_def using store_grows_trans by blast

lemma append_grown:
  assumes "agg_matches st0 agg" "store_grows (rw_validate w) st0 st" "rt_store sv = Some st"
    and "ps = [] \<or> (\<exists>p. ps = [p] \<and> sandbox_next (sa_state agg) p \<noteq> None)"
    and "a = runtime_aggregate_id (sa_project_id agg) (sa_run_id agg)" "sandbox_ok a st"
    and "runtime_append w us k sv agg ps cid = (err, agg', sv', us')"
  shows "sandbox_grown w a st sv'"
proof (cases "ps = []")
  case True
  with assms(3,6,7) show ?thesis by (simp add: runtime_append_def sandbox_grown_def)
next
  case False
  with assms(4) obtain p q where p: "ps = [p]" "sandbox_next (sa_state agg) p = Some q" by auto
  from assms(1-3) p(2) assms(5) assms(7) [unfolded p(1)] show ?thesis
  proof (cases rule: runtime_append_cases)
    case (added st' env)
    have "store_wf st'" using added(3) by (simp add: agg_matches_def Let_def)
    with added show ?thesis by (simp add: sandbox_grown_def sandbox_ok_def)
  qed (use assms(3,6) in \<open>simp_all add: sandbox_grown_def\<close>)
qed

lemma append_grown_state:
  assumes "agg_matches st0 agg" "store_grows (rw_validate w) st0 st" "rt_store sv = Some st"
    and "ps = [] \<or> (\<exists>p. ps = [p] \<and> sandbox_next (sa_state agg) p \<noteq> None)"
    and "a = runtime_aggregate_id (sa_project_id agg) (sa_run_id agg)" "sandbox_ok a st"
  shows "sandbox_grown w a st (fst (snd (snd (runtime_append w us k sv agg ps cid))))"
proof -
  obtain err agg' sv' us' where "runtime_append w us k sv agg ps cid = (err, agg', sv', us')" by (metis surj_pair)
  with append_grown [OF assms this] show ?thesis by simp
qed

lemma create_finish_grown:
  assumes "agg_matches st0 agg" "store_grows (rw_validate w) st0 st" "rt_store sv = Some st"
    and "a = runtime_aggregate_id (sa_project_id agg) (sa_run_id agg)" "sandbox_ok a st"
    and "create_finish w us sv agg cid outcome = (res, sv', us')"
  shows "sandbox_grown w a st sv'"
proof -
  have same: "sandbox_grown w a st sv" using assms(3,5) by (simp add: sandbox_grown_def)
  have ap: "sandbox_grown w a st (fst (snd (snd (runtime_append w us 2 sv agg ps cid))))"
    if "\<exists>p. ps = [p] \<and> sandbox_next (sa_state agg) p \<noteq> None" for ps
    using that by (intro append_grown_state [OF assms(1-3) _ assms(4,5)]) simp
  show ?thesis
  proof (cases outcome)
    case (Create_Ok sb)
    show ?thesis
    proof (cases "handle_created agg (sb_sandbox_id sb) (sb_image sb)")
      case (Inr ps)
      with ap [OF handlers_next(2) [OF Inr]] assms(6) Create_Ok show ?thesis
        by (auto simp: create_finish_def split: prod.splits option.splits)
    qed (use assms(6) same Create_Ok in \<open>simp add: create_finish_def\<close>)
  next
    case (Create_Failed kind msg retry)
    show ?thesis
    proof (cases "handle_failed agg kind msg retry")
      case (Inr ps)
      with ap [OF handlers_next(3) [OF Inr]] assms(6) Create_Failed show ?thesis
        by (auto simp: create_finish_def split: prod.splits option.splits)
    qed (use assms(6) same Create_Failed in \<open>simp add: create_finish_def\<close>)
  qed (use assms(6) same in \<open>simp add: create_finish_def\<close>)
qed

text \<open>A command that loads, decides and appends once.\<close>

lemma load_append_grown:
  assumes ready: "runtime_ready w" and s: "rt_store sv = Some st" and ok: "sandbox_ok a st"
    and a: "a = runtime_aggregate_id pid rid" and o: "others_ok w a other0 other1"
  obtains agg where "load_sandbox w sv pid rid = (Inr agg, sv)"
    "\<And>ps us k cid. ps = [] \<or> (\<exists>p. ps = [p] \<and> sandbox_next (sa_state agg) p \<noteq> None) \<Longrightarrow>
       sandbox_grown w a st (fst (snd (snd (runtime_append w us k (others_write other0 sv) agg ps cid))))"
    "agg_matches st agg" "sa_project_id agg = pid" "sa_run_id agg = rid"
proof -
  obtain q where q: "sandbox_life st (runtime_aggregate_id pid rid) = Some q" "store_wf st"
    using ok by (auto simp: sandbox_ok_def a)
  obtain agg where agg: "load_sandbox w sv pid rid = (Inr agg, sv)" "agg_matches st agg"
    "sa_project_id agg = pid" "sa_run_id agg = rid"
    using load_sandbox_matches [OF ready s q(2,1)] by metis
  have g: "store_grows (rw_validate w) st (other0 st)" "sandbox_ok a (other0 st)" "rt_store (others_write other0 sv) = Some (other0 st)"
    using o ok s by (simp_all add: others_ok_def others_write_def)
  have "sandbox_grown w a st (fst (snd (snd (runtime_append w us k (others_write other0 sv) agg ps cid))))"
    if "ps = [] \<or> (\<exists>p. ps = [p] \<and> sandbox_next (sa_state agg) p \<noteq> None)" for ps us k cid
    using agg(3,4) a by (intro sandbox_grown_trans [OF g(1)] append_grown_state [OF agg(2) g(1,3) that _ g(2)]) simp
  with agg that show thesis by blast
qed

lemma execute_grown:
  assumes "runtime_ready w" "rt_store sv = Some st" "sandbox_ok a st" "others_ok w a other0 other1"
    and "a = runtime_target (ExecuteCommand sb out)"
  shows "sandbox_grown w a st (run_runtime w other0 other1 us sv (ExecuteCommand sb out))"
proof -
  obtain cid us0 where c: "runtime_correlation w us = (cid, us0)" by fastforce
  obtain sv1 us1 where o: "other1 (sv, us0) = (sv1, us1)" by fastforce
  have g: "sandbox_grown w a st sv1" using assms(2-4) o unfolding others_ok_def by (metis fst_conv)
  then obtain st1 where st1: "rt_store sv1 = Some st1" "store_grows (rw_validate w) st st1" "sandbox_ok a st1"
    by (auto simp: sandbox_grown_def)
  obtain agg where agg: "load_sandbox w sv1 (sc_project_id (sb_config sb)) (sc_run_id (sb_config sb)) = (Inr agg, sv1)"
    and ap: "\<And>ps us k cid. ps = [] \<or> (\<exists>p. ps = [p] \<and> sandbox_next (sa_state agg) p \<noteq> None) \<Longrightarrow>
       sandbox_grown w a st1 (fst (snd (snd (runtime_append w us k (others_write other0 sv1) agg ps cid))))"
    using load_append_grown [OF assms(1) st1(1,3) _ assms(4)] assms(5) by (metis runtime_target.simps(2))
  show ?thesis
  proof (cases out)
    case (Some r)
    show ?thesis
    proof (cases "handle_command_result agg r")
      case (Inr ps)
      have "sandbox_grown w a st (fst (snd (snd (runtime_append w us1 1 (others_write other0 sv1) agg ps cid))))"
        using ap handlers_next(4) [OF Inr] sandbox_grown_trans [OF st1(2)] by blast
      with Inr Some c o agg show ?thesis
        by (auto simp: execute_command_def split: prod.splits option.splits)
    qed (use g Some c o agg in \<open>simp add: execute_command_def\<close>)
  qed (use g c o in \<open>simp add: execute_command_def\<close>)
qed

lemma destroy_grown:
  assumes "runtime_ready w" "rt_store sv = Some st" "sandbox_ok a st" "others_ok w a other0 other1"
    and "a = runtime_target (DestroySandbox sb b)"
  shows "sandbox_grown w a st (run_runtime w other0 other1 us sv (DestroySandbox sb b))"
proof -
  obtain cid us0 where c: "runtime_correlation w us = (cid, us0)" by fastforce
  obtain sv1 us1 where o: "other1 (sv, us0) = (sv1, us1)" by fastforce
  have "sandbox_grown w a st sv1" using assms(2-4) o unfolding others_ok_def by (metis fst_conv)
  then obtain st1 where st1: "rt_store sv1 = Some st1" "store_grows (rw_validate w) st st1" "sandbox_ok a st1"
    by (auto simp: sandbox_grown_def)
  obtain agg where agg: "load_sandbox w sv1 (sc_project_id (sb_config sb)) (sc_run_id (sb_config sb)) = (Inr agg, sv1)"
    and ap: "\<And>ps us k cid. ps = [] \<or> (\<exists>p. ps = [p] \<and> sandbox_next (sa_state agg) p \<noteq> None) \<Longrightarrow>
       sandbox_grown w a st1 (fst (snd (snd (runtime_append w us k (others_write other0 sv1) agg ps cid))))"
    using load_append_grown [OF assms(1) st1(1,3) _ assms(4)] assms(5) by (metis runtime_target.simps(3))
  have "handle_destroyed agg = [] \<or> (\<exists>p. handle_destroyed agg = [p] \<and> sandbox_next (sa_state agg) p \<noteq> None)"
    by (simp add: handle_destroyed_def)
  then have "sandbox_grown w a st (fst (snd (snd (runtime_append w us1 1 (others_write other0 sv1) agg (handle_destroyed agg) cid))))"
    using ap sandbox_grown_trans [OF st1(2)] by blast
  with c o agg show ?thesis by (auto simp: destroy_sandbox_def split: prod.splits option.splits)
qed

lemma create_grown:
  assumes ready: "runtime_ready w" and s: "rt_store sv = Some st" and ok: "sandbox_ok a st"
    and o: "others_ok w a other0 other1" and a: "a = runtime_target (CreateSandbox config out)"
    and c: "runtime_correlation w us = (cid, us0)" and fresh: "runtime_ids_fresh w us0 1 cid (other0 st)"
  shows "sandbox_grown w a st (run_runtime w other0 other1 us sv (CreateSandbox config out))"
proof -
  obtain agg where agg: "load_sandbox w sv (sc_project_id config) (sc_run_id config) = (Inr agg, sv)" "agg_matches st agg"
    "sa_project_id agg = sc_project_id config" "sa_run_id agg = sc_run_id config"
    using load_append_grown [OF ready s ok _ o] a by (metis runtime_target.simps(1))
  have a': "a = runtime_aggregate_id (sa_project_id agg) (sa_run_id agg)" by (simp add: a agg(3,4))
  have same: "sandbox_grown w a st sv" using s ok by (simp add: sandbox_grown_def)
  have g: "store_grows (rw_validate w) st (other0 st)" "sandbox_ok a (other0 st)" "rt_store (others_write other0 sv) = Some (other0 st)"
    using o ok s by (simp_all add: others_ok_def others_write_def)
  show ?thesis
  proof (cases "handle_request agg config")
    case (Inl e)
    with same c agg(1) show ?thesis by (simp add: create_sandbox_def)
  next
    case (Inr ps)
    then obtain p q where p: "ps = [p]" "sandbox_next (sa_state agg) p = Some q" using handlers_next(1) [OF Inr] by auto
    obtain err agg1 sv1 us1 where ap: "runtime_append w us0 1 (others_write other0 sv) agg [p] cid = (err, agg1, sv1, us1)"
      by (metis surj_pair)
    from agg(2) g(1,3) p(2) a' ap show ?thesis
    proof (cases rule: runtime_append_cases)
      case (raised e)
      then have "sandbox_grown w a st sv1" using g by (simp add: sandbox_grown_def)
      with raised c agg(1) Inr p(1) ap show ?thesis by (simp add: create_sandbox_def)
    next
      case replayed
      with fresh show ?thesis by simp
    next
      case (added st1 env)
      have ok1: "sandbox_ok a st1" using added(3,5) by (simp add: sandbox_ok_def agg_matches_def Let_def)
      obtain sv2 us2 where o2: "other1 (sv1, us1) = (sv2, us2)" by fastforce
      have "sandbox_grown w a st1 sv2" using o added(2) ok1 o2 unfolding others_ok_def by (metis fst_conv)
      then obtain st2 where st2: "rt_store sv2 = Some st2" "store_grows (rw_validate w) st1 st2" "sandbox_ok a st2"
        by (auto simp: sandbox_grown_def)
      obtain res sv3 us3 where f: "create_finish w us2 sv2 agg1 cid out = (res, sv3, us3)" by (metis surj_pair)
      have "sandbox_grown w a st2 sv3"
        using create_finish_grown [OF added(3) st2(2,1) _ st2(3) f] a' added(8,9) by simp
      then have "sandbox_grown w a st sv3"
        using sandbox_grown_trans g(1) added(6) st2(2) by blast
      with added(1) c agg(1) Inr p(1) ap o2 f st2(1) show ?thesis
        by (simp add: create_sandbox_def current_aggregate_def)
    qed
  qed
qed

text \<open>
  C6. Whatever the interleaving, the stream of a sandbox stays a path of its state machine: requested
  once, then created, then any number of commands, failing at any point before its end, and nothing
  after \<open>SandboxDestroyed\<close>. A command of the service that runs over a store, while other writers that
  keep to the machine themselves run during every await of the backend and between load and
  append, only adds to the log and keeps the machine on every outcome, error outcomes included; on
  a destroyed sandbox no interleaving adds an event.
\<close>

theorem sandbox_lifecycle_kept:
  assumes "runtime_ready w" "rt_store sv = Some st" "sandbox_ok a st" "a = runtime_target cmd" "others_ok w a other0 other1"
    and "runtime_ids_fresh w (snd (runtime_correlation w us)) 1 (fst (runtime_correlation w us)) (other0 st)"
  shows "\<exists>st'. rt_store (run_runtime w other0 other1 us sv cmd) = Some st' \<and>
    store_grows (rw_validate w) st st' \<and> sandbox_ok a st' \<and>
    (sandbox_life st a = Some SANDBOX_DESTROYED \<longrightarrow> stream st' a = stream st a)"
proof -
  have "sandbox_grown w a st (run_runtime w other0 other1 us sv cmd)"
  proof (cases cmd)
    case (CreateSandbox config out)
    with assms(4) have t: "a = runtime_target (CreateSandbox config out)" by simp
    show ?thesis
      unfolding CreateSandbox
      by (rule create_grown [OF assms(1-3,5) t surjective_pairing assms(6)])
  next
    case (ExecuteCommand sb out)
    with execute_grown [OF assms(1-3,5)] assms(4) show ?thesis by simp
  next
    case (DestroySandbox sb b)
    with destroy_grown [OF assms(1-3,5)] assms(4) show ?thesis by simp
  qed
  then obtain st' where st': "rt_store (run_runtime w other0 other1 us sv cmd) = Some st'"
    "store_grows (rw_validate w) st st'" "sandbox_ok a st'"
    by (auto simp: sandbox_grown_def)
  have "stream st' a = stream st a" if "sandbox_life st a = Some SANDBOX_DESTROYED"
  proof (rule sandbox_log.final_state_closed [of st "rw_validate w" st' a SANDBOX_DESTROYED])
    show "store_wf st" using assms(3) by (simp add: sandbox_ok_def)
    show "(\<lambda>s s'. \<exists>a b v. write_batch (rw_validate w) s a b v = Some s')\<^sup>*\<^sup>* st st'"
      using st'(2) by (simp add: store_grows_def)
    show "sandbox_delta SANDBOX_DESTROYED f = None" for f
    proof -
      obtain ty ver p env where "f = (ty, ver, p, env)" by (cases f)
      then show ?thesis by (cases p) simp_all
    qed
  qed (use that st'(3) in \<open>simp_all add: sandbox_life_def sandbox_ok_def\<close>)
  with st' show ?thesis by blast
qed

section \<open>Destroying\<close>

lemma runtime_append_succeeds:
  assumes m: "agg_matches st agg" and s: "rt_store sv = Some st" and nf: "\<And>j. \<not> rw_fault w k j"
    and fresh: "runtime_ids_fresh w us k cid st" and val: "rw_validate w (sandbox_class_of p) p"
    and ty: "cls_event_type (sandbox_class_of p) \<noteq> []" and n: "sandbox_next (sa_state agg) p = Some q"
    and ap: "runtime_append w us k sv agg [p] cid = (err, agg', sv', us')"
  shows "err = None"
proof -
  let ?a = "runtime_aggregate_id (sa_project_id agg) (sa_run_id agg)"
  obtain envs us1 where e: "runtime_envelopes w us k 1 cid [p] = (envs, us1)" by fastforce
  have e': "runtime_envelopes w us k 1 cid [()] = (envs, us1)"
    using runtime_envelopes_cong [of "[()]" "[p]" w us k 1 cid] e by simp
  have len: "length envs = 1" using runtime_envelopes_length [of w us k 1 cid "[p]"] unfolding e by simp
  have "existing_rows st (map env_event_id envs) = []" using fresh unfolding runtime_ids_fresh_def e' by simp
  moreover have "store_wf st" "sa_version agg = get_aggregate_version st ?a" using m by (simp_all add: agg_matches_def Let_def)
  moreover have "revalidate (rw_validate w) [sandbox_event p] = None" using val ty by (simp add: sandbox_event_def)
  ultimately obtain ar st' where "append_events (rw_validate w) (rw_fault w k) st ?a ''runtime'' [sandbox_event p] (sa_version agg) envs
      = (Inr ar, st')"
    using append_fresh_accepted [of st "rw_fault w k" envs "[sandbox_event p]" "rw_validate w" "sa_version agg" ?a "''runtime''"] nf len
    by (auto simp: length_Suc_conv)
  moreover obtain agg1 where "sandbox_apply agg p = Inr agg1" using sandbox_apply_next [OF n] by metis
  ultimately show ?thesis
    using ap s by (simp add: runtime_append_def e [simplified One_nat_def] del: runtime_envelopes.simps)
qed

text \<open>
  \<open>destroy\<close> is recorded whatever the backend does, and once: alone on a working store, it ends
  with the backend's exception or normally, and the sandbox's stream ends in
  \<open>SandboxDestroyed\<close>, which is added exactly when the sandbox was not destroyed before; a second
  \<open>destroy\<close> ends the same way and leaves service and store as they are.
\<close>

theorem destroy_recorded_once:
  assumes "runtime_ready w" "rt_store sv = Some st" "store_wf st" "\<And>k j. \<not> rw_fault w k j"
    and "a = runtime_aggregate_id (sc_project_id (sb_config sb)) (sc_run_id (sb_config sb))" "sandbox_life st a = Some q"
    and "runtime_ids_fresh w (snd (runtime_correlation w us)) 1 (fst (runtime_correlation w us)) st"
  shows "\<exists>sv' us' st'. destroy_sandbox w id id us sv sb raised = (if raised then Inl BackendException else Inr (), sv', us') \<and>
    rt_store sv' = Some st' \<and> sandbox_life st' a = Some SANDBOX_DESTROYED \<and>
    length (stream st' a) = length (stream st a) + (if q = SANDBOX_DESTROYED then 0 else 1) \<and>
    (\<exists>us''. destroy_sandbox w id id us2 sv' sb raised2 = (if raised2 then Inl BackendException else Inr (), sv', us''))"
proof -
  obtain cid us0 where c: "runtime_correlation w us = (cid, us0)" by fastforce
  obtain cid2 us02 where c2: "runtime_correlation w us2 = (cid2, us02)" by fastforce
  have idem: "destroy_sandbox w id id u s sb b = (if b then Inl BackendException else Inr (), s, snd (runtime_correlation w u))"
    if s: "rt_store s = Some t" and t: "store_wf t" "sandbox_life t a = Some SANDBOX_DESTROYED" for s t u b
  proof -
    obtain agg where "load_sandbox w s (sc_project_id (sb_config sb)) (sc_run_id (sb_config sb)) = (Inr agg, s)"
      "sa_state agg = SANDBOX_DESTROYED"
      using load_sandbox_matches [OF assms(1) s t(1) t(2) [unfolded assms(5)]] by metis
    with s show ?thesis
      by (auto simp: destroy_sandbox_def handle_destroyed_def runtime_append_def others_write_def option.map_id split: prod.splits)
  qed
  show ?thesis
  proof (cases "q = SANDBOX_DESTROYED")
    case True
    with idem [OF assms(2,3)] assms(2,6) show ?thesis by auto
  next
    case False
    obtain agg where agg: "load_sandbox w sv (sc_project_id (sb_config sb)) (sc_run_id (sb_config sb)) = (Inr agg, sv)"
      "agg_matches st agg" "sa_state agg = q" "sa_project_id agg = sc_project_id (sb_config sb)" "sa_run_id agg = sc_run_id (sb_config sb)"
      using load_sandbox_matches [OF assms(1-3) assms(6) [unfolded assms(5)]] by metis
    let ?p = "SandboxDestroyed (sa_project_id agg) (sa_run_id agg) (sa_sandbox_id agg)"
    have hd: "handle_destroyed agg = [?p]" using False agg(3) by (simp add: handle_destroyed_def)
    obtain err agg' sv' us' where ap: "runtime_append w us0 1 sv agg [?p] cid = (err, agg', sv', us')" by (metis surj_pair)
    have val: "rw_validate w (sandbox_class_of ?p) ?p" using assms(1) unfolding runtime_ready_def by blast
    have n: "sandbox_next (sa_state agg) ?p = Some SANDBOX_DESTROYED" using False agg(3) by simp
    have fr: "runtime_ids_fresh w us0 1 cid st" using assms(7) c by simp
    have "err = None"
      by (rule runtime_append_succeeds [OF agg(2) assms(2,4) fr val _ n ap]) (simp add: runtime_class_def)
    have a: "a = runtime_aggregate_id (sa_project_id agg) (sa_run_id agg)" by (simp add: assms(5) agg(4,5))
    from agg(2) store_grows_refl assms(2) n a ap show ?thesis
    proof (cases rule: runtime_append_cases)
      case (raised e)
      with \<open>err = None\<close> show ?thesis by simp
    next
      case replayed
      with fr show ?thesis by simp
    next
      case (added st' env)
      have "store_wf st'" using added(3) by (simp add: agg_matches_def Let_def)
      note second = idem [OF added(2) this added(5)]
      have "destroy_sandbox w id id us sv sb raised = (if raised then Inl BackendException else Inr (), sv', us')"
        using added(1) c agg(1) ap hd by (simp add: destroy_sandbox_def others_write_def option.map_id)
      then show ?thesis using added second False by (auto simp del: length_stream)
    qed
  qed
qed

section \<open>Concrete runs\<close>

definition sample_classes :: "event_class list" where
  "sample_classes = map sandbox_class_of [SandboxRequested [] [] [], SandboxCreated [] [] [] [], SandboxFailed [] [] [] [] False,
     CommandExecuted [] [] [] [] 0 0, CommandFailed [] [] [] [] None 0 [] [] False, SandboxDestroyed [] [] []]"

definition sample_runtime_world :: runtime_world where
  "sample_runtime_world = \<lparr>rw_registry = map (\<lambda>c. ((cls_event_type c, cls_schema_version c), c)) sample_classes,
     rw_validate = (\<lambda>_ _. True), rw_fault = (\<lambda>_ _. False), rw_draws = (\<lambda>_ _. (1, 1)), rw_now = 0, rw_correlation_id = None\<rparr>"

definition sample_service_store :: runtime_service where
  "sample_service_store = \<lparr>rt_store = Some empty_store, rt_memory = []\<rparr>"

definition sample_sandbox :: sandbox where
  "sample_sandbox = \<lparr>sb_sandbox_id = ''s'', sb_image = ''i'', sb_config = \<lparr>sc_project_id = ''p'', sc_run_id = ''r'', sc_json = []\<rparr>\<rparr>"

lemma sample_runtime_ready: "runtime_ready sample_runtime_world"
  unfolding runtime_ready_def
proof
  fix p
  show "(\<exists>c x. p = Foreign_Sandbox_Event c x) \<or>
      resolve_event_class (rw_registry sample_runtime_world) (cls_event_type (sandbox_class_of p)) (cls_schema_version (sandbox_class_of p))
        = Some (sandbox_class_of p) \<and> rw_validate sample_runtime_world (sandbox_class_of p) p"
    by (cases p) (simp_all add: sample_runtime_world_def sample_classes_def resolve_event_class_def runtime_class_def)
qed

lemma sample_empty_life: "store_wf (empty_store :: sandbox_store)" "sandbox_life empty_store a = Some SANDBOX_NEW"
  "runtime_ids_fresh w us k cid empty_store" "sandbox_ok a empty_store"
  by (simp_all add: store_wf_empty sandbox_life_def stream_def agg_rows_def runtime_ids_fresh_def existing_rows_def sandbox_ok_def)
    (simp_all add: empty_store_def)

theorem sandbox_lifecycle_kept_witness:
  "\<exists>st'. rt_store (run_runtime sample_runtime_world id id \<lparr>last_ulid_ts = 0, last_ulid_rnd = 0\<rparr> sample_service_store
      (CreateSandbox (sb_config sample_sandbox) (Create_Ok sample_sandbox))) = Some st' \<and> sandbox_ok ''p:runtime:r'' st'"
proof -
  have o: "others_ok sample_runtime_world a id id" for a by (simp add: others_ok_def sandbox_grown_def)
  have s: "rt_store sample_service_store = Some empty_store" by (simp add: sample_service_store_def)
  have t: "''p:runtime:r'' = runtime_target (CreateSandbox (sb_config sample_sandbox) (Create_Ok sample_sandbox))"
    by (simp add: sample_sandbox_def runtime_aggregate_id_def)
  show ?thesis
    using sandbox_lifecycle_kept [OF sample_runtime_ready s sample_empty_life(4) t o, of "\<lparr>last_ulid_ts = 0, last_ulid_rnd = 0\<rparr>"]
      sample_empty_life(3) by auto
qed

theorem destroy_recorded_once_witness:
  "\<exists>sv us st. destroy_sandbox sample_runtime_world id id \<lparr>last_ulid_ts = 0, last_ulid_rnd = 0\<rparr> sample_service_store sample_sandbox True =
     (Inl BackendException, sv, us) \<and> rt_store sv = Some st \<and> length (stream st ''p:runtime:r'') = 1"
proof -
  have s: "rt_store sample_service_store = Some empty_store" by (simp add: sample_service_store_def)
  have f: "\<not> rw_fault sample_runtime_world k j" for k j by (simp add: sample_runtime_world_def)
  have t: "''p:runtime:r'' = runtime_aggregate_id (sc_project_id (sb_config sample_sandbox)) (sc_run_id (sb_config sample_sandbox))"
    by (simp add: sample_sandbox_def runtime_aggregate_id_def)
  show ?thesis
    using destroy_recorded_once [OF sample_runtime_ready s sample_empty_life(1) f t sample_empty_life(2,3), of
        "\<lparr>last_ulid_ts = 0, last_ulid_rnd = 0\<rparr>" True "\<lparr>last_ulid_ts = 0, last_ulid_rnd = 0\<rparr>" True]
    by (auto simp: stream_def agg_rows_def) (simp add: empty_store_def)
qed

end
