(* ===== verification/Gpu_Resolver.thy ===== *)
theory Gpu_Resolver
  imports Prelude "HOL-Library.Product_Lexorder"
begin

text \<open>
  Choosing a GPU for a paper: the catalog, \<^verbatim>\<open>src/backend/services/runtime/gpu_catalog.py\<close>, the resolver,
  \<^verbatim>\<open>src/backend/services/runtime/gpu_resolver.py\<close>, and the mode that a host can honour,
  \<^verbatim>\<open>src/backend/services/runtime/gpu_resolution.py\<close>. The plan is the Pydantic model of
  \<^verbatim>\<open>src/backend/agents/schemas.py\<close>; a value outside the bounds its fields declare raises.

  Prices are real numbers; the time stamp of a plan and the wording of the errors are left out: an error
  carries the numbers its message shows.
\<close>

section \<open>Catalog\<close>

record gpu_sku =
  sku_runpod_id :: string
  sku_short_name :: string
  sku_vram_gb :: int
  sku_cloud_type :: string
  sku_usd_per_hr :: real
  sku_aliases :: "string list"
  sku_provider :: string
  sku_gpu_count :: int

definition sku :: "string \<Rightarrow> string \<Rightarrow> int \<Rightarrow> string \<Rightarrow> real \<Rightarrow> string list \<Rightarrow> string \<Rightarrow> int \<Rightarrow> gpu_sku" where
  "sku i n v t p al pr k =
     \<lparr>sku_runpod_id = i, sku_short_name = n, sku_vram_gb = v, sku_cloud_type = t, sku_usd_per_hr = p,
      sku_aliases = al, sku_provider = pr, sku_gpu_count = k\<rparr>"

definition effective_vram_gb :: "gpu_sku \<Rightarrow> int" where
  "effective_vram_gb s = sku_vram_gb s * sku_gpu_count s"

definition CATALOG :: "gpu_sku list" where
  "CATALOG =
     [sku ''NVIDIA GeForce RTX 4090'' ''rtx4090'' 24 ''COMMUNITY'' (34 / 100)
        [''rtx 4090'', ''geforce 4090'', ''rtx4090'', ''4090''] ''runpod'' 1,
      sku ''NVIDIA RTX A5000'' ''a5000'' 24 ''COMMUNITY'' (36 / 100) [''a5000'', ''rtx a5000''] ''runpod'' 1,
      sku ''NVIDIA A100 40GB PCIe'' ''a100_40'' 40 ''COMMUNITY'' (119 / 100)
        [''a100 40'', ''a100 40gb'', ''a100-40'', ''a100 40 gb''] ''runpod'' 1,
      sku ''NVIDIA RTX A6000'' ''a6000'' 48 ''COMMUNITY'' (49 / 100) [''a6000'', ''rtx a6000''] ''runpod'' 1,
      sku ''NVIDIA L40S'' ''l40s'' 48 ''COMMUNITY'' (86 / 100) [''l40s'', ''l40 s''] ''runpod'' 1,
      sku ''NVIDIA A100 80GB PCIe'' ''a100_80'' 80 ''COMMUNITY'' (189 / 100)
        [''a100 80'', ''a100 80gb'', ''a100-80'', ''a100''] ''runpod'' 1,
      sku ''NVIDIA H100 80GB HBM3'' ''h100_80'' 80 ''COMMUNITY'' (439 / 100)
        [''h100'', ''h100 80'', ''h100 80gb'', ''h100-80''] ''runpod'' 1,
      sku ''NVIDIA H200'' ''h200'' 141 ''SECURE'' (799 / 100) [''h200''] ''runpod'' 1,
      sku ''Standard_NV36ads_A10_v5'' ''azure_a10_24'' 24 ''ONDEMAND'' (120 / 100) [''a10'', ''a10 24''] ''azure'' 1,
      sku ''Standard_NC24ads_A100_v4'' ''azure_a100_80'' 80 ''ONDEMAND'' (367 / 100) [''a100 80'', ''a100''] ''azure'' 1,
      sku ''Standard_NC48ads_A100_v4'' ''azure_a100_80x2'' 80 ''ONDEMAND'' (735 / 100) [''2x a100''] ''azure'' 2,
      sku ''Standard_NC96ads_A100_v4'' ''azure_a100_80x4'' 80 ''ONDEMAND'' (1469 / 100) [''4x a100''] ''azure'' 4,
      sku ''Standard_ND96asr_v4'' ''azure_a100_40x8'' 40 ''ONDEMAND'' (2720 / 100) [''8x a100 40'', ''nd96''] ''azure'' 8,
      sku ''a2-highgpu-1g'' ''gcp_a100_40'' 40 ''ONDEMAND'' (293 / 100) [''a100 40'', ''a100 40gb'', ''a100-40''] ''gcp'' 1,
      sku ''a2-highgpu-2g'' ''gcp_a100_40x2'' 40 ''ONDEMAND'' (586 / 100) [''2x a100'', ''2x a100 40''] ''gcp'' 2,
      sku ''a2-highgpu-4g'' ''gcp_a100_40x4'' 40 ''ONDEMAND'' (1172 / 100) [''4x a100'', ''4x a100 40''] ''gcp'' 4,
      sku ''a2-highgpu-8g'' ''gcp_a100_40x8'' 40 ''ONDEMAND'' (2344 / 100) [''8x a100'', ''8x a100 40''] ''gcp'' 8,
      sku ''a2-ultragpu-1g'' ''gcp_a100_80'' 80 ''ONDEMAND'' (393 / 100) [''a100 80'', ''a100 80gb'', ''a100''] ''gcp'' 1,
      sku ''a2-ultragpu-2g'' ''gcp_a100_80x2'' 80 ''ONDEMAND'' (786 / 100) [''2x a100 80''] ''gcp'' 2,
      sku ''a2-ultragpu-4g'' ''gcp_a100_80x4'' 80 ''ONDEMAND'' (1572 / 100) [''4x a100 80''] ''gcp'' 4,
      sku ''a2-ultragpu-8g'' ''gcp_a100_80x8'' 80 ''ONDEMAND'' (3144 / 100) [''8x a100 80''] ''gcp'' 8,
      sku ''g2-standard-8'' ''gcp_l4_24'' 24 ''ONDEMAND'' (85 / 100) [''l4'', ''l4 24'', ''nvidia l4''] ''gcp'' 1,
      sku ''a3-highgpu-1g'' ''gcp_h100_80'' 80 ''ONDEMAND'' (1106 / 100)
        [''h100'', ''h100 80'', ''h100 80gb'', ''h100-80''] ''gcp'' 1,
      sku ''a3-highgpu-8g'' ''gcp_h100_80x8'' 80 ''ONDEMAND'' (8849 / 100)
        [''8x h100'', ''8x h100 80'', ''a3-highgpu-8g''] ''gcp'' 8]"

definition usd_cap :: "real option \<Rightarrow> real option" where
  "usd_cap c = (case c of None \<Rightarrow> None | Some x \<Rightarrow> if x > 0 then Some x else None)"

definition within_cap :: "real option \<Rightarrow> gpu_sku \<Rightarrow> bool" where
  "within_cap c s = (case usd_cap c of None \<Rightarrow> True | Some x \<Rightarrow> sku_usd_per_hr s \<le> x)"

definition ladder_key :: "gpu_sku \<Rightarrow> int \<times> real" where
  "ladder_key s = (effective_vram_gb s, sku_usd_per_hr s)"

definition find_ladder :: "int \<Rightarrow> real option \<Rightarrow> string list \<Rightarrow> string \<Rightarrow> gpu_sku list" where
  "find_ladder min_vram_gb max_usd cloud_types provider =
     sort_key ladder_key (filter (\<lambda>s. sku_provider s = provider \<and> sku_vram_gb s \<ge> min_vram_gb
       \<and> sku_cloud_type s \<in> set cloud_types \<and> within_cap max_usd s) CATALOG)"

text \<open>The loop over the aliases keeps the first of the longest that occur.\<close>

fun best_alias :: "string \<Rightarrow> (string \<times> gpu_sku) list \<Rightarrow> (nat \<times> gpu_sku) option \<Rightarrow> (nat \<times> gpu_sku) option" where
  "best_alias needle [] best = best"
| "best_alias needle ((al, s) # rest) best =
     best_alias needle rest
       (if py_in al needle
        then (case best of None \<Rightarrow> Some (length al, s) | Some b \<Rightarrow> if length al > fst b then Some (length al, s) else best)
        else best)"

definition find_by_alias :: "string \<Rightarrow> string \<Rightarrow> gpu_sku option" where
  "find_by_alias phrase provider =
     map_option snd (best_alias (py_lower phrase)
       (concat (map (\<lambda>s. map (\<lambda>al. (al, s)) (sku_aliases s)) (filter (\<lambda>s. sku_provider s = provider) CATALOG))) None)"

section \<open>Plans\<close>

record gpu_requirements =
  rq_estimated_vram_gb :: "int option"
  rq_paper_gpu_count :: "int option"
  rq_confidence :: real

record gpu_plan =
  gp_runpod_id :: string
  gp_short_name :: string
  gp_vram_gb :: int
  gp_gpu_count :: int
  gp_cloud_type :: string
  gp_sku_usd_per_hr :: real
  gp_total_usd_per_hr :: real
  gp_container_disk_gb :: int
  gp_volume_gb :: int
  gp_source :: string
  gp_requirements :: gpu_requirements
  gp_ladder_remaining :: "string list"

datatype resolution_error =
    Cap_Too_Low int gpu_sku
  | No_Such_Vram int int
  | Unknown_Sku string string
  | Plan_Validation_Error

text \<open>\<open>round(x, 4)\<close>.\<close>

definition plan_valid :: "gpu_plan \<Rightarrow> bool" where
  "plan_valid p \<longleftrightarrow> 1 \<le> gp_vram_gb p \<and> 1 \<le> gp_gpu_count p \<and> gp_gpu_count p \<le> 8 \<and>
     gp_cloud_type p \<in> set [''COMMUNITY'', ''SECURE'', ''ONDEMAND''] \<and> 0 \<le> gp_sku_usd_per_hr p \<and>
     0 \<le> gp_total_usd_per_hr p \<and> 1 \<le> gp_container_disk_gb p \<and> 1 \<le> gp_volume_gb p"

definition build_plan ::
    "gpu_sku \<Rightarrow> int \<Rightarrow> string \<Rightarrow> gpu_requirements \<Rightarrow> string list \<Rightarrow> resolution_error + gpu_plan" where
  "build_plan s gpu_count source req ladder =
     (let p = \<lparr>gp_runpod_id = sku_runpod_id s, gp_short_name = sku_short_name s, gp_vram_gb = sku_vram_gb s,
               gp_gpu_count = gpu_count, gp_cloud_type = sku_cloud_type s, gp_sku_usd_per_hr = sku_usd_per_hr s,
               gp_total_usd_per_hr = round4 (sku_usd_per_hr s * of_int gpu_count),
               gp_container_disk_gb = max 50 (sku_vram_gb s), gp_volume_gb = max 20 (sku_vram_gb s div 4),
               gp_source = source, gp_requirements = req, gp_ladder_remaining = ladder\<rparr>
      in if plan_valid p then Inr p else Inl Plan_Validation_Error)"

section \<open>Resolution\<close>

definition CONFIDENCE_FLOOR :: real where "CONFIDENCE_FLOOR = 4 / 10"

definition by_short_name :: "string \<Rightarrow> string \<Rightarrow> resolution_error + gpu_sku" where
  "by_short_name short_name provider =
     (case find (\<lambda>s. sku_short_name s = short_name \<and> sku_provider s = provider) CATALOG of
        Some s \<Rightarrow> Inr s
      | None \<Rightarrow> Inl (Unknown_Sku short_name provider))"

definition largest :: "int list \<Rightarrow> int" where
  "largest xs = (if xs = [] then 0 else Max (set xs))"

definition largest_vram :: "string list \<Rightarrow> int" where
  "largest_vram cloud_types = largest (map sku_vram_gb (filter (\<lambda>s. sku_cloud_type s \<in> set cloud_types) CATALOG))"

definition largest_provisioned_vram :: "string \<Rightarrow> bool \<Rightarrow> int" where
  "largest_provisioned_vram provider force_single =
     largest (map effective_vram_gb (filter (\<lambda>s. sku_provider s = provider \<and> (\<not> force_single \<or> sku_gpu_count s = 1)) CATALOG))"

definition provisioned_ladder :: "string \<Rightarrow> int \<Rightarrow> real option \<Rightarrow> bool \<Rightarrow> string list option \<Rightarrow> gpu_sku list" where
  "provisioned_ladder provider min_effective_vram max_usd force_single provisioned =
     sort_key ladder_key (filter (\<lambda>s. sku_provider s = provider \<and> sku_cloud_type s = ''ONDEMAND''
       \<and> effective_vram_gb s \<ge> min_effective_vram \<and> (\<not> force_single \<or> sku_gpu_count s = 1) \<and> within_cap max_usd s
       \<and> (case provisioned of None \<Rightarrow> True | Some names \<Rightarrow> sku_short_name s \<in> set names)) CATALOG)"

definition cheaper :: "gpu_sku \<Rightarrow> gpu_sku \<Rightarrow> gpu_sku" where
  "cheaper s t = (if (sku_usd_per_hr t, sku_short_name t) < (sku_usd_per_hr s, sku_short_name s) then t else s)"

definition provisioned_default_sku :: "string \<Rightarrow> string \<Rightarrow> string list option \<Rightarrow> resolution_error + gpu_sku" where
  "provisioned_default_sku provider fallback_short_name provisioned =
     (let names = (case provisioned of None \<Rightarrow> [] | Some ns \<Rightarrow> ns);
          candidates = List.map_filter (\<lambda>n. case by_short_name n provider of Inr s \<Rightarrow> Some s | Inl e \<Rightarrow> None) names
      in case candidates of
           [] \<Rightarrow> by_short_name fallback_short_name provider
         | s # ss \<Rightarrow> Inr (foldl cheaper s ss))"

definition unusable :: "gpu_requirements \<Rightarrow> bool" where
  "unusable req \<longleftrightarrow> rq_estimated_vram_gb req = None \<or> rq_confidence req < CONFIDENCE_FLOOR"

definition needed_vram :: "gpu_requirements \<Rightarrow> real \<Rightarrow> int" where
  "needed_vram req headroom = \<lceil>of_int (the (rq_estimated_vram_gb req)) * max headroom 1\<rceil>"

definition runpod_count :: "gpu_requirements \<Rightarrow> bool \<Rightarrow> real option \<Rightarrow> gpu_sku \<Rightarrow> int" where
  "runpod_count req force_single max_usd pick =
     (if force_single then 1
      else let paper_count = max 1 (case rq_paper_gpu_count req of None \<Rightarrow> 1 | Some n \<Rightarrow> if n = 0 then 1 else n)
           in min paper_count
                (case usd_cap max_usd of None \<Rightarrow> paper_count | Some c \<Rightarrow> max 1 \<lfloor>c / sku_usd_per_hr pick\<rfloor>))"

definition resolve_runpod ::
    "gpu_requirements \<Rightarrow> bool \<Rightarrow> bool \<Rightarrow> real option \<Rightarrow> real \<Rightarrow> string list \<Rightarrow> resolution_error + gpu_plan" where
  "resolve_runpod req dynamic force_single max_usd headroom cloud_types =
     (if \<not> dynamic then
        case by_short_name ''rtx4090'' ''runpod'' of
          Inl e \<Rightarrow> Inl e
        | Inr s \<Rightarrow> build_plan s 1 ''informational'' req []
      else if unusable req then
        case by_short_name ''rtx4090'' ''runpod'' of
          Inl e \<Rightarrow> Inl e
        | Inr s \<Rightarrow> build_plan s 1 ''fallback'' req
            (filter (\<lambda>n. n \<noteq> sku_short_name s) (map sku_short_name (find_ladder (sku_vram_gb s) None cloud_types ''runpod'')))
      else
        let needed = needed_vram req headroom in
        case find_ladder needed max_usd cloud_types ''runpod'' of
          [] \<Rightarrow>
            (case find_ladder needed None cloud_types ''runpod'' of
               cheapest # _ \<Rightarrow> Inl (Cap_Too_Low needed cheapest)
             | [] \<Rightarrow> Inl (No_Such_Vram needed (largest_vram cloud_types)))
        | pick # rest \<Rightarrow>
            build_plan pick (runpod_count req force_single max_usd pick) ''paper'' req (map sku_short_name rest))"

definition resolve_provisioned_cloud ::
    "gpu_requirements \<Rightarrow> string \<Rightarrow> string \<Rightarrow> bool \<Rightarrow> bool \<Rightarrow> real option \<Rightarrow> real \<Rightarrow> string list option
       \<Rightarrow> resolution_error + gpu_plan" where
  "resolve_provisioned_cloud req provider fallback_short_name dynamic force_single max_usd headroom provisioned =
     (if \<not> dynamic then
        case by_short_name fallback_short_name provider of
          Inl e \<Rightarrow> Inl e
        | Inr s \<Rightarrow> build_plan s (sku_gpu_count s) ''informational'' req []
      else if unusable req then
        case provisioned_default_sku provider fallback_short_name provisioned of
          Inl e \<Rightarrow> Inl e
        | Inr s \<Rightarrow> build_plan s (sku_gpu_count s) ''fallback'' req
            (filter (\<lambda>n. n \<noteq> sku_short_name s) (map sku_short_name
               (provisioned_ladder provider (sku_vram_gb s * sku_gpu_count s) None force_single provisioned)))
      else
        let needed = needed_vram req headroom in
        case provisioned_ladder provider needed max_usd force_single provisioned of
          [] \<Rightarrow>
            (case provisioned_ladder provider needed None force_single provisioned of
               cheapest # _ \<Rightarrow> Inl (Cap_Too_Low needed cheapest)
             | [] \<Rightarrow> Inl (No_Such_Vram needed (largest_provisioned_vram provider force_single)))
        | pick # rest \<Rightarrow>
            build_plan pick (if force_single then 1 else sku_gpu_count pick) ''paper'' req (map sku_short_name rest))"

definition resolve_gpu ::
    "gpu_requirements \<Rightarrow> bool \<Rightarrow> bool \<Rightarrow> real option \<Rightarrow> real \<Rightarrow> string list \<Rightarrow> string \<Rightarrow> string list option
       \<Rightarrow> resolution_error + gpu_plan" where
  "resolve_gpu req dynamic force_single max_usd headroom cloud_types provider provisioned =
     (if provider = ''azure'' \<or> provider = ''gcp'' then
        resolve_provisioned_cloud req provider (if provider = ''azure'' then ''azure_a10_24'' else ''gcp_a100_40'')
          dynamic force_single max_usd headroom provisioned
      else resolve_runpod req dynamic force_single max_usd headroom cloud_types)"

section \<open>Modes\<close>

definition gpu_passthrough_modes :: "string list" where
  "gpu_passthrough_modes = [''prefer'', ''max'']"

definition is_gpu_passthrough_mode :: "string option \<Rightarrow> bool" where
  "is_gpu_passthrough_mode mode \<longleftrightarrow> py_lower (case mode of None \<Rightarrow> [] | Some m \<Rightarrow> m) \<in> set gpu_passthrough_modes"

text \<open>The output of \<^verbatim>\<open>nvidia-smi -L\<close>; \<open>None\<close> where it fails or exits with an error.\<close>

definition probe_nvidia_smi :: "string option \<Rightarrow> bool" where
  "probe_nvidia_smi out =
     (case out of None \<Rightarrow> False | Some t \<Rightarrow> py_strip t \<noteq> [] \<and> prefix ''GPU '' (py_strip t))"

definition effective_gpu_mode :: "bool \<Rightarrow> string option \<Rightarrow> string" where
  "effective_gpu_mode host_gpu requested =
     (let canonical = py_lower (case requested of None \<Rightarrow> ''auto'' | Some m \<Rightarrow> if m = [] then ''auto'' else m)
      in if canonical \<in> set gpu_passthrough_modes \<and> \<not> host_gpu then ''auto'' else canonical)"

definition select_torch_index_url :: "bool \<Rightarrow> string option \<Rightarrow> string option" where
  "select_torch_index_url host_gpu mode =
     (if is_gpu_passthrough_mode (Some (effective_gpu_mode host_gpu mode)) then None
      else Some ''https://download.pytorch.org/whl/cpu'')"

section \<open>Facts of the catalog\<close>

lemma catalog_plannable:
  "list_all (\<lambda>s. 1 \<le> sku_vram_gb s \<and> 0 < sku_usd_per_hr s \<and> 1 \<le> sku_gpu_count s \<and> sku_gpu_count s \<le> 8 \<and>
     sku_cloud_type s \<in> set [''COMMUNITY'', ''SECURE'', ''ONDEMAND'']) CATALOG"
  by (simp add: CATALOG_def sku_def)

lemma catalog_names_distinct: "distinct (map sku_short_name CATALOG)"
  by code_simp

lemma catalog_fallbacks:
  "\<exists>s. by_short_name ''rtx4090'' ''runpod'' = Inr s" "\<exists>s. by_short_name ''azure_a10_24'' ''azure'' = Inr s"
  "\<exists>s. by_short_name ''gcp_a100_40'' ''gcp'' = Inr s"
  by (simp_all add: by_short_name_def CATALOG_def sku_def)

lemma round4_nonneg: "0 \<le> x \<Longrightarrow> 0 \<le> round4 x"
  using round_half_even_mono [of 0 "x * 10000"] by (simp add: round4_def round_half_even_def)

text \<open>A plan for a row of the catalog is refused only for its number of cards.\<close>

lemma build_plan_cases:
  assumes "s \<in> set CATALOG" "1 \<le> k"
  shows "build_plan s k src req l =
    (if k \<le> 8 then Inr \<lparr>gp_runpod_id = sku_runpod_id s, gp_short_name = sku_short_name s, gp_vram_gb = sku_vram_gb s,
               gp_gpu_count = k, gp_cloud_type = sku_cloud_type s, gp_sku_usd_per_hr = sku_usd_per_hr s,
               gp_total_usd_per_hr = round4 (sku_usd_per_hr s * of_int k),
               gp_container_disk_gb = max 50 (sku_vram_gb s), gp_volume_gb = max 20 (sku_vram_gb s div 4),
               gp_source = src, gp_requirements = req, gp_ladder_remaining = l\<rparr>
     else Inl Plan_Validation_Error)"
proof -
  have "1 \<le> sku_vram_gb s" "0 < sku_usd_per_hr s" "sku_cloud_type s \<in> set [''COMMUNITY'', ''SECURE'', ''ONDEMAND'']"
    using catalog_plannable assms(1) by (auto simp: list_all_iff)
  moreover from this assms(2) have "0 \<le> round4 (sku_usd_per_hr s * of_int k)" by (simp add: round4_nonneg)
  ultimately show ?thesis using assms(2) by (simp add: build_plan_def plan_valid_def Let_def le_max_iff_disj)
qed

section \<open>What a resolution promises\<close>

text \<open>The rows that satisfy a request: on the clouds with node pools by the capacity of the whole
  machine, elsewhere by that of one card.\<close>

definition feasible ::
    "gpu_requirements \<Rightarrow> bool \<Rightarrow> real option \<Rightarrow> real \<Rightarrow> string list \<Rightarrow> string \<Rightarrow> string list option \<Rightarrow> gpu_sku \<Rightarrow> bool" where
  "feasible req force_single cap headroom cloud_types provider provisioned s \<longleftrightarrow>
     s \<in> set CATALOG \<and> within_cap cap s \<and>
     (if provider = ''azure'' \<or> provider = ''gcp'' then
        sku_provider s = provider \<and> sku_cloud_type s = ''ONDEMAND'' \<and> effective_vram_gb s \<ge> needed_vram req headroom \<and>
        (\<not> force_single \<or> sku_gpu_count s = 1) \<and> (case provisioned of None \<Rightarrow> True | Some ns \<Rightarrow> sku_short_name s \<in> set ns)
      else sku_provider s = ''runpod'' \<and> sku_cloud_type s \<in> set cloud_types \<and> sku_vram_gb s \<ge> needed_vram req headroom)"

definition plan_count :: "gpu_requirements \<Rightarrow> bool \<Rightarrow> real option \<Rightarrow> string \<Rightarrow> gpu_sku \<Rightarrow> int" where
  "plan_count req force_single cap provider s =
     (if provider = ''azure'' \<or> provider = ''gcp'' then (if force_single then 1 else sku_gpu_count s)
      else runpod_count req force_single cap s)"

definition request_ladder ::
    "gpu_requirements \<Rightarrow> bool \<Rightarrow> real option \<Rightarrow> real \<Rightarrow> string list \<Rightarrow> string \<Rightarrow> string list option \<Rightarrow> gpu_sku list" where
  "request_ladder req fs cap h cts pr pv =
     (if pr = ''azure'' \<or> pr = ''gcp'' then provisioned_ladder pr (needed_vram req h) cap fs pv
      else find_ladder (needed_vram req h) cap cts ''runpod'')"

lemma request_ladder_spec:
  "set (request_ladder req fs cap h cts pr pv) = {s. feasible req fs cap h cts pr pv s}"
  "sorted (map ladder_key (request_ladder req fs cap h cts pr pv))"
  "distinct (map sku_short_name (request_ladder req fs cap h cts pr pv))"
proof -
  show "set (request_ladder req fs cap h cts pr pv) = {s. feasible req fs cap h cts pr pv s}"
    by (auto simp: request_ladder_def feasible_def provisioned_ladder_def find_ladder_def)
  show "sorted (map ladder_key (request_ladder req fs cap h cts pr pv))"
    by (simp add: request_ladder_def provisioned_ladder_def find_ladder_def)
  have "inj_on sku_short_name (set CATALOG)" "distinct CATALOG"
    using catalog_names_distinct by (auto simp: distinct_map)
  then show "distinct (map sku_short_name (request_ladder req fs cap h cts pr pv))"
    by (auto simp: request_ladder_def provisioned_ladder_def find_ladder_def distinct_map intro: inj_on_subset)
qed

lemma runpod_count_pos: "1 \<le> runpod_count req fs cap s"
  by (simp add: runpod_count_def Let_def split: option.split)

lemma plan_count_pos: "s \<in> set CATALOG \<Longrightarrow> 1 \<le> plan_count req fs cap pr s"
  using catalog_plannable runpod_count_pos by (auto simp: plan_count_def list_all_iff)

lemma resolve_usable:
  assumes "\<not> unusable req"
  shows "resolve_gpu req True fs cap h cts pr pv =
    (case request_ladder req fs cap h cts pr pv of
       [] \<Rightarrow>
         (case request_ladder req fs None h cts pr pv of
            cheapest # _ \<Rightarrow> Inl (Cap_Too_Low (needed_vram req h) cheapest)
          | [] \<Rightarrow> Inl (No_Such_Vram (needed_vram req h)
              (if pr = ''azure'' \<or> pr = ''gcp'' then largest_provisioned_vram pr fs else largest_vram cts)))
     | pick # rest \<Rightarrow> build_plan pick (plan_count req fs cap pr pick) ''paper'' req (map sku_short_name rest))"
  using assms
  by (auto simp: resolve_gpu_def resolve_runpod_def resolve_provisioned_cloud_def request_ladder_def plan_count_def Let_def
      split: list.split)


text \<open>A request of the concrete examples: an estimate in GB, the number of cards of the paper.\<close>

definition request :: "int option \<Rightarrow> int option \<Rightarrow> gpu_requirements" where
  "request vram cards = \<lparr>rq_estimated_vram_gb = vram, rq_paper_gpu_count = cards, rq_confidence = 9 / 10\<rparr>"

lemma request_usable: "\<not> unusable (request (Some v) k)"
  by (simp add: request_def unusable_def CONFIDENCE_FLOOR_def)


text \<open>On RunPod the rate of all cards together stays inside the cap.\<close>

theorem runpod_total_within_cap:
  assumes "resolve_runpod req True fs (Some c) h cts = Inr p" "0 < c" "\<not> unusable req"
  shows "gp_sku_usd_per_hr p * of_int (gp_gpu_count p) \<le> c"
proof -
  let ?l = "find_ladder (needed_vram req h) (Some c) cts ''runpod''"
  from assms obtain s rest where l: "?l = s # rest"
    and bp: "build_plan s (runpod_count req fs (Some c) s) ''paper'' req (map sku_short_name rest) = Inr p"
    by (auto simp: resolve_runpod_def Let_def split: list.splits)
  from l have "s \<in> set ?l" by simp
  with \<open>0 < c\<close> have s: "s \<in> set CATALOG" and rate: "sku_usd_per_hr s \<le> c"
    by (auto simp: find_ladder_def within_cap_def usd_cap_def)
  then have pos: "0 < sku_usd_per_hr s" using catalog_plannable by (auto simp: list_all_iff)
  with rate have one: "1 \<le> \<lfloor>c / sku_usd_per_hr s\<rfloor>" by (simp add: le_floor_iff)
  with \<open>0 < c\<close> have "runpod_count req fs (Some c) s \<le> \<lfloor>c / sku_usd_per_hr s\<rfloor>"
    by (simp add: runpod_count_def usd_cap_def Let_def)
  then have "of_int (runpod_count req fs (Some c) s) \<le> c / sku_usd_per_hr s" by (simp add: le_floor_iff)
  with pos have "sku_usd_per_hr s * of_int (runpod_count req fs (Some c) s) \<le> c"
    by (simp add: pos_le_divide_eq mult.commute)
  moreover from bp have "gp_sku_usd_per_hr p = sku_usd_per_hr s" "gp_gpu_count p = runpod_count req fs (Some c) s"
    by (auto simp: build_plan_cases [OF s runpod_count_pos] split: if_splits)
  ultimately show ?thesis by simp
qed

theorem runpod_total_within_cap_witness:
  "\<exists>p. resolve_runpod (request (Some 20) (Some 4)) True False (Some 1) 1 [''COMMUNITY''] = Inr p \<and>
     gp_gpu_count p = 2 \<and> gp_sku_usd_per_hr p * of_int (gp_gpu_count p) \<le> 1"
proof -
  have "map_sum id gp_gpu_count (resolve_runpod (request (Some 20) (Some 4)) True False (Some 1) 1 [''COMMUNITY'']) = Inr 2"
    by code_simp
  then obtain p where "resolve_runpod (request (Some 20) (Some 4)) True False (Some 1) 1 [''COMMUNITY''] = Inr p"
    "gp_gpu_count p = 2" by (auto simp: map_sum_def split: sum.splits)
  with runpod_total_within_cap [of "request (Some 20) (Some 4)" False 1 1 "[''COMMUNITY'']" p] request_usable
  show ?thesis by auto
qed

section \<open>Aliases\<close>

definition provider_aliases :: "string \<Rightarrow> (string \<times> gpu_sku) list" where
  "provider_aliases provider =
     concat (map (\<lambda>s. map (\<lambda>al. (al, s)) (sku_aliases s)) (filter (\<lambda>s. sku_provider s = provider) CATALOG))"

lemma find_by_alias_eq:
  "find_by_alias phrase provider = map_option snd (best_alias (py_lower phrase) (provider_aliases provider) None)"
  by (simp add: find_by_alias_def provider_aliases_def)

lemma best_alias_spec:
  "best_alias needle al best = Some (n, s) \<Longrightarrow>
     (best = Some (n, s) \<or> (\<exists>a. (a, s) \<in> set al \<and> py_in a needle \<and> length a = n)) \<and>
     (\<forall>b. best = Some b \<longrightarrow> fst b \<le> n) \<and> list_all (\<lambda>e. py_in (fst e) needle \<longrightarrow> length (fst e) \<le> n) al"
proof (induction needle al best rule: best_alias.induct)
  case (2 needle a t rest best)
  from 2(1) [OF 2(2) [unfolded best_alias.simps]] show ?case
    by (cases best) (auto split: if_splits)
qed simp

lemma best_alias_None: "best_alias needle al best = None \<Longrightarrow> best = None \<and> list_all (\<lambda>e. \<not> py_in (fst e) needle) al"
  by (induction needle al best rule: best_alias.induct) (auto split: if_splits option.splits)

text \<open>A phrase is resolved to a row of the provider one of whose aliases it contains, with no longer alias
  of that provider in it; to nothing exactly when it contains none.\<close>

theorem alias_longest_match:
  "case find_by_alias phrase provider of
     Some s \<Rightarrow> (\<exists>a. (a, s) \<in> set (provider_aliases provider) \<and> py_in a (py_lower phrase) \<and>
        list_all (\<lambda>e. py_in (fst e) (py_lower phrase) \<longrightarrow> length (fst e) \<le> length a) (provider_aliases provider))
   | None \<Rightarrow> list_all (\<lambda>e. \<not> py_in (fst e) (py_lower phrase)) (provider_aliases provider)"
proof (cases "best_alias (py_lower phrase) (provider_aliases provider) None")
  case None
  with best_alias_None [OF None] show ?thesis by (simp add: find_by_alias_eq)
next
  case (Some ns)
  with best_alias_spec [of "py_lower phrase" "provider_aliases provider" None "fst ns" "snd ns"]
  show ?thesis by (auto simp: find_by_alias_eq)
qed

theorem alias_longest_match_witness:
  "map_option sku_short_name (find_by_alias ''8 x A100 40GB'' ''runpod'') = Some ''a100_40'' \<and>
   find_by_alias ''TPU v4'' ''runpod'' = None \<and>
   list_all (\<lambda>e. \<not> py_in (fst e) (py_lower ''TPU v4'')) (provider_aliases ''runpod'')"
proof -
  have none: "find_by_alias ''TPU v4'' ''runpod'' = None" by code_simp
  have "map_option sku_short_name (find_by_alias ''8 x A100 40GB'' ''runpod'') = Some ''a100_40''" by code_simp
  with none alias_longest_match [of "''TPU v4''" "''runpod''"] show ?thesis by simp
qed

section \<open>Where the code departs from its comments\<close>

text \<open>The row that is picked is not the cheapest that satisfies the request, and the error names
  a row that is not the cheapest: for 30 GB on RunPod the answer is the 40 GB card at 1.19 although a
  card with 48 GB costs 0.49, and with a cap of 0.40 the same card is reported.\<close>

theorem smallest_is_not_cheapest:
  "\<exists>p t. resolve_gpu (request (Some 30) None) True True None 1 [''COMMUNITY''] ''runpod'' None = Inr p \<and>
     feasible (request (Some 30) None) True None 1 [''COMMUNITY''] ''runpod'' None t \<and> sku_usd_per_hr t < gp_sku_usd_per_hr p / 2"
proof -
  let ?a6000 = "sku ''NVIDIA RTX A6000'' ''a6000'' 48 ''COMMUNITY'' (49 / 100) [''a6000'', ''rtx a6000''] ''runpod'' 1"
  have "map_sum id gp_sku_usd_per_hr (resolve_gpu (request (Some 30) None) True True None 1 [''COMMUNITY''] ''runpod'' None)
      = Inr (119 / 100)" by code_simp
  then obtain p where p: "resolve_gpu (request (Some 30) None) True True None 1 [''COMMUNITY''] ''runpod'' None = Inr p"
    "gp_sku_usd_per_hr p = 119 / 100" by (auto simp: map_sum_def split: sum.splits)
  have "feasible (request (Some 30) None) True None 1 [''COMMUNITY''] ''runpod'' None ?a6000"
    by (simp add: feasible_def within_cap_def usd_cap_def needed_vram_def request_def CATALOG_def sku_def)
  with p show ?thesis by (intro exI [of _ p] exI [of _ ?a6000]) (simp add: sku_def)
qed

text \<open>On a cloud with node pools a request for one card falls back to a machine with four, and the
  total rate multiplies the rate of the whole machine by its cards.\<close>

theorem provisioned_fallback_ignores_single_gpu:
  "\<exists>p. resolve_gpu (request None None) True True None 1 [''ONDEMAND''] ''azure'' (Some [''azure_a100_80x4'']) = Inr p \<and>
     gp_gpu_count p = 4"
proof -
  have "map_sum id gp_gpu_count (resolve_gpu (request None None) True True None 1 [''ONDEMAND''] ''azure''
     (Some [''azure_a100_80x4''])) = Inr 4" by code_simp
  then show ?thesis by (auto simp: map_sum_def split: sum.splits)
qed

theorem machine_rate_multiplied:
  "\<exists>p s. resolve_gpu (request (Some 300) None) True False None 1 [''ONDEMAND''] ''gcp'' None = Inr p \<and> s \<in> set CATALOG \<and>
     sku_short_name s = gp_short_name p \<and> sku_usd_per_hr s = 1572 / 100 \<and> gp_total_usd_per_hr p = 6288 / 100"
proof -
  let ?s = "sku ''a2-ultragpu-4g'' ''gcp_a100_80x4'' 80 ''ONDEMAND'' (1572 / 100) [''4x a100 80''] ''gcp'' 4"
  have "map_sum id (\<lambda>p. (gp_short_name p, gp_total_usd_per_hr p))
      (resolve_gpu (request (Some 300) None) True False None 1 [''ONDEMAND''] ''gcp'' None)
      = Inr (''gcp_a100_80x4'', 6288 / 100)" by code_simp
  then obtain p where p: "resolve_gpu (request (Some 300) None) True False None 1 [''ONDEMAND''] ''gcp'' None = Inr p"
    "gp_short_name p = ''gcp_a100_80x4''" "gp_total_usd_per_hr p = 6288 / 100"
    by (auto simp: map_sum_def split: sum.splits)
  have "?s \<in> set CATALOG" by (simp add: CATALOG_def)
  with p show ?thesis by (intro exI [of _ p] exI [of _ ?s]) (simp add: sku_def)
qed

text \<open>More than eight cards of a paper are not a resolution error but fail the validation of the plan.\<close>

lemma many_cards_fail_validation:
  "resolve_gpu (request (Some 20) (Some 16)) True False None 1 [''COMMUNITY''] ''runpod'' None = Inl Plan_Validation_Error"
  by code_simp

section \<open>Modes\<close>

text \<open>The CUDA wheel is installed exactly where a container will see a card.\<close>

theorem cuda_wheel_iff_passthrough:
  "select_torch_index_url host_gpu mode = None \<longleftrightarrow> host_gpu \<and> is_gpu_passthrough_mode mode"
proof -
  have idem: "py_lower_char (py_lower_char c) = py_lower_char c" for c
    by (auto simp: py_lower_char_def Let_def)
  have low: "py_lower (py_lower t) = py_lower t" for t by (simp add: py_lower_def idem comp_def)
  have "py_lower ''auto'' = ''auto''" "py_lower [] = []" by code_simp+
  with low show ?thesis
    by (cases mode) (auto simp: select_torch_index_url_def is_gpu_passthrough_mode_def effective_gpu_mode_def Let_def
        gpu_passthrough_modes_def)
qed

end
