(* ===== verification/Cell_Scheduler.thy ===== *)
theory Cell_Scheduler
  imports Gpu_Allocator
begin

text \<open>
  What the runners of a training matrix share, \<^verbatim>\<open>src/backend/agents/rlm/cell_scheduler.py\<close>, and the
  pure helpers of \<^verbatim>\<open>src/backend/agents/rlm/gpu_cell_runner.py\<close>: results and manifests of cells, the
  resume predicate, budgets and deadlines, the number of cards a cell asks for, the signatures of an
  out-of-memory failure, the evidence that a cell used its card, and the environment of the child.

  A JSON file is what \<open>json.loads\<close> makes of it, absent, or not parsable; a dict is an association
  list; \<open>env\<close> is \<open>os.environ\<close>; \<open>now\<close> is what \<open>time.monotonic()\<close> returns, in seconds. Numbers in
  JSON are finite.
\<close>

section \<open>Values\<close>

datatype json =
    JNull | JBool bool | JInt int | JFloat real | JStr string
  | JList "json list" | JDict "(string \<times> json) list"

datatype json_file = No_File | Bad_File | Json_File json

type_synonym environ = "string \<Rightarrow> string option"

definition environ_get :: "environ \<Rightarrow> string \<Rightarrow> string \<Rightarrow> string" where
  "environ_get env name dflt = (case env name of Some v \<Rightarrow> v | None \<Rightarrow> dflt)"

definition STATUS_OK :: string where "STATUS_OK = ''ok''"

definition STATUS_OOM_FAILED :: string where "STATUS_OOM_FAILED = ''oom_failed''"

definition STATUS_SKIPPED :: string where "STATUS_SKIPPED = ''skipped''"

definition STATUS_ERROR :: string where "STATUS_ERROR = ''error''"

definition STATUS_TIMEOUT :: string where "STATUS_TIMEOUT = ''timeout''"

definition STATUS_TRAINING_DIVERGED :: string where "STATUS_TRAINING_DIVERGED = ''training_diverged''"

record cell_result =
  cr_cell_id :: string
  cr_status :: string
  cr_metrics :: "json option"
  cr_gpu :: string
  cr_retries :: nat
  cr_error :: "string option"

text \<open>The value \<open>None\<close> in a dict is \<open>JNull\<close>.\<close>

definition json_opt :: "json option \<Rightarrow> json" where
  "json_opt v = (case v of None \<Rightarrow> JNull | Some j \<Rightarrow> j)"

definition str_opt :: "string option \<Rightarrow> json" where
  "str_opt v = (case v of None \<Rightarrow> JNull | Some s \<Rightarrow> JStr s)"

definition cell_to_dict :: "cell_result \<Rightarrow> (string \<times> json) list" where
  "cell_to_dict r =
     [(''status'', JStr (cr_status r)), (''metrics'', json_opt (cr_metrics r)), (''gpu'', JStr (cr_gpu r)),
      (''retries'', JInt (int (cr_retries r))), (''error'', str_opt (cr_error r))]"

section \<open>Manifests and resume\<close>

fun first_number :: "(string \<times> json) list \<Rightarrow> string list \<Rightarrow> json option" where
  "first_number m [] = None"
| "first_number m (key # keys) =
     (case map_of m key of
        Some (JInt i) \<Rightarrow> Some (JInt i)
      | Some (JFloat x) \<Rightarrow> Some (JFloat x)
      | _ \<Rightarrow> first_number m keys)"

definition headline_metric :: "json option \<Rightarrow> json option" where
  "headline_metric metrics =
     (case metrics of
        Some (JDict m) \<Rightarrow> first_number m [''metric'', ''reward_mean'', ''accuracy'']
      | _ \<Rightarrow> None)"

definition load_cell_manifest :: "json_file \<Rightarrow> (string \<times> json) list option" where
  "load_cell_manifest mf = (case mf of Json_File (JDict d) \<Rightarrow> Some d | _ \<Rightarrow> None)"

definition load_metrics :: "json_file \<Rightarrow> json option" where
  "load_metrics mf = (case mf of Json_File j \<Rightarrow> Some j | _ \<Rightarrow> None)"

definition should_skip_cell ::
    "string \<Rightarrow> json_file \<Rightarrow> (string \<times> string) list \<Rightarrow> string list \<Rightarrow> bool" where
  "should_skip_cell cell_id manifest_file fingerprints force_cells =
     (if cell_id \<in> set force_cells then False
      else case map_of fingerprints cell_id of
        None \<Rightarrow> False
      | Some current_fp \<Rightarrow>
          if current_fp = [] then False
          else case load_cell_manifest manifest_file of
            None \<Rightarrow> False
          | Some manifest \<Rightarrow>
              if manifest = [] \<or> map_of manifest ''status'' \<noteq> Some (JStr STATUS_OK) then False
              else map_of manifest ''fingerprint'' = Some (JStr current_fp))"

definition cell_manifest ::
    "string \<Rightarrow> string \<Rightarrow> string option \<Rightarrow> json option \<Rightarrow> nat \<Rightarrow> string option \<Rightarrow> (string \<times> json) list" where
  "cell_manifest cell_id status fingerprint metrics retries now_iso =
     [(''cell_id'', JStr cell_id), (''status'', JStr status), (''fingerprint'', str_opt fingerprint),
      (''metric'', json_opt (headline_metric metrics)), (''retries'', JInt (int retries))]
     @ (case now_iso of None \<Rightarrow> [] | Some t \<Rightarrow> [(''completed_at'', JStr t)])"

text \<open>The file after the write; a failed write raises \<open>OSError\<close>, which is swallowed, and leaves the
  file as it was.\<close>

definition write_cell_manifest ::
    "bool \<Rightarrow> json_file \<Rightarrow> string \<Rightarrow> string \<Rightarrow> string option \<Rightarrow> json option \<Rightarrow> nat \<Rightarrow> string option \<Rightarrow> json_file" where
  "write_cell_manifest writable old cell_id status fingerprint metrics retries now_iso =
     (if writable then Json_File (JDict (cell_manifest cell_id status fingerprint metrics retries now_iso))
      else old)"

definition is_resume_armed :: "environ \<Rightarrow> bool" where
  "is_resume_armed env \<longleftrightarrow> py_strip (environ_get env ''OPENRESEARCH_RESUME_CELLS'' []) \<noteq> []"

section \<open>Budgets and deadlines\<close>

definition cap_overall_budget :: "real option \<Rightarrow> real option \<Rightarrow> real \<Rightarrow> real \<Rightarrow> real option" where
  "cap_overall_budget overall_timeout_s remaining_run_s reserve_s floor_s =
     (case remaining_run_s of
        None \<Rightarrow> overall_timeout_s
      | Some remaining \<Rightarrow>
          if remaining \<le> 0 then overall_timeout_s
          else let budget = max (remaining - reserve_s) (min (remaining * (1 / 2)) floor_s) in
            case overall_timeout_s of
              None \<Rightarrow> Some budget
            | Some t \<Rightarrow> if t \<le> 0 then Some budget else Some (min t budget))"

definition deadline_from_timeout :: "real \<Rightarrow> real option \<Rightarrow> real option" where
  "deadline_from_timeout now timeout_s =
     (case timeout_s of None \<Rightarrow> None | Some t \<Rightarrow> if t > 0 then Some (now + t) else None)"

definition clamp_cell_timeout :: "real \<Rightarrow> real option \<Rightarrow> real option \<Rightarrow> real option" where
  "clamp_cell_timeout now per_cell_timeout_s overall_deadline =
     (case overall_deadline of
        None \<Rightarrow> per_cell_timeout_s
      | Some d \<Rightarrow>
          (case per_cell_timeout_s of
             None \<Rightarrow> Some (max 1 (d - now))
           | Some t \<Rightarrow> Some (max 1 (min t (d - now)))))"

section \<open>Cards\<close>

text \<open>\<open>int(raw)\<close>; \<open>None\<close> is a \<open>TypeError\<close> or a \<open>ValueError\<close>.\<close>

definition int_of_json :: "json \<Rightarrow> int option" where
  "int_of_json j =
     (case j of
        JInt i \<Rightarrow> Some i
      | JBool b \<Rightarrow> Some (if b then 1 else 0)
      | JFloat x \<Rightarrow> Some (py_int x)
      | JStr s \<Rightarrow> int_text s
      | _ \<Rightarrow> None)"

definition cell_gpu_count :: "json option \<Rightarrow> nat \<Rightarrow> nat \<Rightarrow> nat" where
  "cell_gpu_count raw default_per_cell total_gpus =
     (let k = (case raw of
                 None \<Rightarrow> int default_per_cell
               | Some j \<Rightarrow> (case int_of_json j of Some i \<Rightarrow> i | None \<Rightarrow> int default_per_cell))
      in nat (max 1 (min k (max 1 (int total_gpus)))))"

text \<open>\<open>cvd.upper()\<close>, as far as a comparison with ASCII texts without \<^verbatim>\<open>SS\<close> can tell.\<close>

definition upper_ascii :: "string \<Rightarrow> string" where
  "upper_ascii s =
     map (\<lambda>c. let n = of_char c :: nat in if 97 \<le> n \<and> n \<le> 122 then char_of (n - 32) else c) s"

definition discover_visible_gpus :: "environ \<Rightarrow> string option \<Rightarrow> string list" where
  "discover_visible_gpus env smi_output =
     (let cvd = py_strip (environ_get env ''CUDA_VISIBLE_DEVICES'' []);
          ids = (if cvd \<noteq> [] \<and> upper_ascii cvd \<notin> {[], ''NODEVFILES'', ''-1''}
                 then filter (\<lambda>t. t \<noteq> []) (map py_strip (py_split_on CHR '','' cvd)) else [])
      in if ids \<noteq> [] then ids
         else case smi_output of
           None \<Rightarrow> [''0'']
         | Some out \<Rightarrow>
             (let smi_ids = filter (\<lambda>t. t \<noteq> []) (map py_strip (py_splitlines out))
              in if smi_ids \<noteq> [] then smi_ids else [''0'']))"

section \<open>Failure signatures and evidence\<close>

definition OOM_SIGNATURES :: "string list" where
  "OOM_SIGNATURES =
     [''CUDA out of memory'', ''CUDA error: out of memory'', ''OutOfMemoryError'', ''out of memory'']"

definition OOM_SIGNATURES_EXTRA :: "string list" where
  "OOM_SIGNATURES_EXTRA =
     [''CUBLAS_STATUS_ALLOC_FAILED'', ''CUDNN_STATUS_ALLOC_FAILED'', ''cudaErrorMemoryAllocation'',
      ''torch.cuda.OutOfMemoryError'', ''failed to allocate'', ''tried to allocate'']"

definition flag_on :: "string \<Rightarrow> bool" where
  "flag_on v \<longleftrightarrow> py_lower (py_strip v) \<in> set [''1'', ''true'', ''yes'', ''on'']"

definition oom_enforce_enabled :: "environ \<Rightarrow> bool" where
  "oom_enforce_enabled env = flag_on (environ_get env ''OPENRESEARCH_OOM_ENFORCE'' [])"

definition is_oom :: "environ \<Rightarrow> string \<Rightarrow> bool" where
  "is_oom env output =
     (if list_ex (\<lambda>sig. py_in sig output) OOM_SIGNATURES then True
      else oom_enforce_enabled env \<and> list_ex (\<lambda>sig. py_in sig output) OOM_SIGNATURES_EXTRA)"

definition antifab_guard_enabled :: "environ \<Rightarrow> bool" where
  "antifab_guard_enabled env \<longleftrightarrow>
     py_strip (environ_get env ''OPENRESEARCH_ANTIFAB_GUARD'' ''1'') \<notin> set [''0'', ''false'', ''off'', ''no'']"

text \<open>\<open>min_vram\<close> is the value of \<open>_antifab_min_vram_gb()\<close>.\<close>

definition vram_evidence_verdict :: "environ \<Rightarrow> real \<Rightarrow> real option \<Rightarrow> bool \<Rightarrow> bool" where
  "vram_evidence_verdict env min_vram peak_vram_gb claims_gpu_training =
     (if \<not> antifab_guard_enabled env then False
      else case peak_vram_gb of
        None \<Rightarrow> False
      | Some peak \<Rightarrow> if \<not> claims_gpu_training then False else peak < min_vram)"

text \<open>The net peak of a cell, from the reading before the launch and the readings while it ran.\<close>

definition peak_vram_gb :: "real option \<Rightarrow> real list \<Rightarrow> real option" where
  "peak_vram_gb baseline readings =
     (case baseline of
        None \<Rightarrow> None
      | Some b \<Rightarrow> if length readings \<ge> 2 then Some (max 0 (Max (set readings) - b) / 1024) else None)"

text \<open>The search for the pattern of a model id: two characters of its class on both sides of a slash.\<close>

definition model_id_char :: "char \<Rightarrow> bool" where
  "model_id_char c \<longleftrightarrow>
     (let n = of_char c :: nat in (65 \<le> n \<and> n \<le> 90) \<or> (97 \<le> n \<and> n \<le> 122) \<or> (48 \<le> n \<and> n \<le> 57)
        \<or> c = CHR ''.'' \<or> c = CHR ''_'' \<or> c = CHR ''-'')"

fun model_id_search :: "string \<Rightarrow> bool" where
  "model_id_search (a # b # c # d # e # s) =
     ((model_id_char a \<and> model_id_char b \<and> c = CHR ''/'' \<and> model_id_char d \<and> model_id_char e)
      \<or> model_id_search (b # c # d # e # s))"
| "model_id_search _ = False"

fun scan_metrics_for_gpu_claim :: "nat \<Rightarrow> json \<Rightarrow> bool" where
  "scan_metrics_for_gpu_claim depth j =
     (if depth > 6 then False
      else case j of
        JDict items \<Rightarrow>
          list_ex (\<lambda>(key, val).
             let ks = py_lower (py_strip key) in
             (ks = ''device'' \<and> (case val of JStr v \<Rightarrow> py_lower (py_strip v) \<in> set [''cuda'', ''gpu''] | _ \<Rightarrow> False))
             \<or> (py_in ''model'' ks \<and> (case val of JStr v \<Rightarrow> model_id_search v | _ \<Rightarrow> False))
             \<or> scan_metrics_for_gpu_claim (depth + 1) val) items
      | JList vs \<Rightarrow> list_ex (scan_metrics_for_gpu_claim (depth + 1)) vs
      | _ \<Rightarrow> False)"

definition metrics_claim_gpu_training :: "json \<Rightarrow> bool" where
  "metrics_claim_gpu_training metrics = scan_metrics_for_gpu_claim 0 metrics"

section \<open>The child's environment\<close>

text \<open>A scale of the ladder with the text \<open>str\<close> makes of it.\<close>

definition OOM_BATCH_SCALES :: "(real \<times> string) list" where
  "OOM_BATCH_SCALES = [(1 / 2, ''0.5''), (1 / 4, ''0.25'')]"

definition retry_scale :: "nat \<Rightarrow> (real \<times> string) option" where
  "retry_scale retry_idx =
     (if retry_idx > 0 \<and> retry_idx - 1 < length OOM_BATCH_SCALES
      then Some (OOM_BATCH_SCALES ! (retry_idx - 1)) else None)"

definition inject_oom_memcap :: "bool \<Rightarrow> string \<Rightarrow> real \<times> string \<Rightarrow> environ \<Rightarrow> environ" where
  "inject_oom_memcap shim_written shim_root fraction child_env =
     (if shim_written then
        child_env(''OPENRESEARCH_CELL_MEM_FRACTION'' \<mapsto>
                    (if fst fraction < 1 / 20 then ''0.05'' else if fst fraction > 1 then ''1.0'' else snd fraction),
                  ''PYTHONPATH'' \<mapsto> shim_root @ ''/_oom_shim'' @ '':'' @ environ_get child_env ''PYTHONPATH'' [])
      else child_env)"

definition cell_child_env ::
    "environ \<Rightarrow> string \<Rightarrow> string \<Rightarrow> string \<Rightarrow> string \<Rightarrow> (real \<times> string) option \<Rightarrow> bool \<Rightarrow> bool \<Rightarrow> environ" where
  "cell_child_env env interp_bin gpu_id output_dir cell_json batch_scale grad_checkpoint shim_written =
     (let env1 = (if interp_bin \<noteq> [] then env(''PATH'' \<mapsto> interp_bin @ '':'' @ environ_get env ''PATH'' []) else env);
          env2 = env1(''CUDA_VISIBLE_DEVICES'' \<mapsto> gpu_id,
                      ''PYTORCH_CUDA_ALLOC_CONF'' \<mapsto> ''expandable_segments:True'',
                      ''OPENRESEARCH_CELL_OUTPUT_DIR'' \<mapsto> output_dir,
                      ''OPENRESEARCH_CELL_PARAMS'' \<mapsto> cell_json,
                      ''OPENRESEARCH_CELL_CHECKPOINT_DIR'' \<mapsto> output_dir @ ''/checkpoints'',
                      ''OPENRESEARCH_CELL_CHECKPOINT_INTERVAL_S'' \<mapsto>
                        environ_get env ''OPENRESEARCH_CELL_CHECKPOINT_INTERVAL_S'' ''600'')
      in case batch_scale of
           Some scale \<Rightarrow>
             (let env3 = env2(''OPENRESEARCH_CELL_BATCH_SCALE'' \<mapsto> snd scale,
                              ''OPENRESEARCH_CELL_GRAD_CHECKPOINT'' \<mapsto> (if grad_checkpoint then ''1'' else ''0''))
              in if oom_enforce_enabled env then inject_oom_memcap shim_written output_dir scale env3 else env3)
         | None \<Rightarrow> env2(''OPENRESEARCH_CELL_BATCH_SCALE'' := None, ''OPENRESEARCH_CELL_GRAD_CHECKPOINT'' := None))"

section \<open>Resume\<close>

lemma load_written_manifest [simp]:
  "load_cell_manifest (write_cell_manifest True old i st fp m r t) = Some (cell_manifest i st fp m r t)"
  by (simp add: load_cell_manifest_def write_cell_manifest_def)

lemma map_of_cell_manifest [simp]:
  "map_of (cell_manifest i st fp m r t) ''status'' = Some (JStr st)"
  "map_of (cell_manifest i st fp m r t) ''fingerprint'' = Some (str_opt fp)"
  "cell_manifest i st fp m r t \<noteq> []"
  by (simp_all add: cell_manifest_def)

lemma str_opt_eq_JStr [simp]: "str_opt fp = JStr s \<longleftrightarrow> fp = Some s"
  by (simp add: str_opt_def split: option.split)

text \<open>What one run writes decides what the next one reuses: a cell whose manifest was written
  is skipped by a later armed run exactly when it ended ok, had a fingerprint that is not empty, the
  later run computes the same one, and the cell is not forced.\<close>

theorem written_manifest_decides_skip:
  "should_skip_cell i (write_cell_manifest True old i status fp metrics retries now_iso) fingerprints force
     \<longleftrightarrow> i \<notin> set force \<and> status = STATUS_OK \<and> fp \<noteq> None \<and> fp \<noteq> Some [] \<and> map_of fingerprints i = fp"
  by (auto simp: should_skip_cell_def split: option.split)

lemma skip_needs_ok_manifest:
  assumes "should_skip_cell i mf fps force"
  obtains d fp where "mf = Json_File (JDict d)" "map_of d ''status'' = Some (JStr STATUS_OK)"
    "map_of fps i = Some fp" "map_of d ''fingerprint'' = Some (JStr fp)" "fp \<noteq> []" "i \<notin> set force"
  using assms
  by (auto simp: should_skip_cell_def load_cell_manifest_def
      split: if_splits option.splits json_file.splits json.splits)

section \<open>Bounds\<close>

lemma cell_gpu_count_pos [simp]: "0 < cell_gpu_count raw n m"
  by (simp add: cell_gpu_count_def Let_def)

lemma cell_gpu_count_le: "0 < m \<Longrightarrow> cell_gpu_count raw n m \<le> m"
  by (simp add: cell_gpu_count_def Let_def)

lemma discover_visible_gpus_nonempty: "discover_visible_gpus env smi \<noteq> []"
  by (simp add: discover_visible_gpus_def Let_def split: option.split)

text \<open>The budget of a matrix stays inside the time the run has left, and is at least the floor or
  half of that time unless the caller asked for less.\<close>

theorem budget_inside_run:
  assumes "0 < remaining" "0 \<le> reserve" "0 < floor_s" "cap_overall_budget overall (Some remaining) reserve floor_s = Some b"
  shows "b \<le> remaining \<and> 0 < b \<and>
     (b < min (remaining / 2) floor_s \<longrightarrow> overall = Some b)"
  using assms by (auto simp: cap_overall_budget_def Let_def min_def max_def split: option.splits if_splits)

theorem budget_inside_run_witness:
  "cap_overall_budget (Some 9000) (Some 3000) 2700 900 = Some 900 \<and> (900 :: real) \<le> 3000"
  using budget_inside_run [of 3000 2700 900 "Some 9000" 900]
  by (simp add: cap_overall_budget_def Let_def)

text \<open>A cell that is started at \<open>now\<close> may run for at least a second and past the deadline of the
  matrix by less than the one second of the lower bound.\<close>

theorem clamped_cell_near_deadline:
  assumes "clamp_cell_timeout now per_cell (Some d) = Some t" "now \<le> d"
  shows "1 \<le> t \<and> now + t \<le> d + 1"
  using assms by (auto simp: clamp_cell_timeout_def split: option.splits)

theorem clamped_cell_near_deadline_witness:
  "clamp_cell_timeout 10 (Some 600) (Some (21 / 2)) = Some 1 \<and> 10 + 1 \<le> 21 / 2 + (1 :: real)"
  using clamped_cell_near_deadline [of 10 "Some 600" "21 / 2" 1]
  by (simp add: clamp_cell_timeout_def)

section \<open>The ladder of retries\<close>

lemma child_env_pinned:
  "cell_child_env env b gpu out js scale g w ''CUDA_VISIBLE_DEVICES'' = Some gpu"
  by (simp add: cell_child_env_def inject_oom_memcap_def Let_def split: option.split)

text \<open>The first two retries run with half and with a quarter of the batch and with gradient
  checkpointing; every later retry has neither, as the first attempt.\<close>

theorem retry_mitigations:
  "cell_child_env env b gpu out js (retry_scale r) (0 < r) w ''OPENRESEARCH_CELL_BATCH_SCALE'' =
       (if r = 1 then Some ''0.5'' else if r = 2 then Some ''0.25'' else None) \<and>
   cell_child_env env b gpu out js (retry_scale r) (0 < r) w ''OPENRESEARCH_CELL_GRAD_CHECKPOINT'' =
       (if r = 1 \<or> r = 2 then Some ''1'' else None)"
proof -
  consider "r = 0" | "r = 1" | "r = 2" | "r > 2" by linarith
  then show ?thesis
    by cases (simp_all add: cell_child_env_def retry_scale_def OOM_BATCH_SCALES_def inject_oom_memcap_def Let_def)
qed

end
