(* ===== verification/Dead_Training.thy ===== *)
theory Dead_Training
  imports Cell_Scheduler
begin

text \<open>
  The detector of training that does not learn, \<^verbatim>\<open>src/backend/agents/rlm/dead_training_guard.py\<close>:
  reading a loss from a line of the log, the state the detector keeps over the readings, and when it
  reports. Floats are real numbers; a decimal text at or above the midpoint between the largest
  binary64 number and \<open>2 ^ 1024\<close> is infinite. The report is the numbers it prints; its wording and the
  remark about random guessing are left out.
\<close>

section \<open>Reading a loss\<close>

text \<open>The class \<^verbatim>\<open>\w\<close> below code point 256.\<close>

definition word_char :: "char \<Rightarrow> bool" where
  "word_char c \<longleftrightarrow>
     (let n = of_char c :: nat in (48 \<le> n \<and> n \<le> 57) \<or> (65 \<le> n \<and> n \<le> 90) \<or> (97 \<le> n \<and> n \<le> 122) \<or> n = 95
        \<or> n \<in> {170, 178, 179, 181, 185, 186, 188, 189, 190} \<or> (192 \<le> n \<and> n \<noteq> 215 \<and> n \<noteq> 247))"

definition eat :: "string \<Rightarrow> string \<Rightarrow> string option" where
  "eat p s = (if prefix p s then Some (drop (length p) s) else None)"

definition eat_one_of :: "string \<Rightarrow> string \<Rightarrow> (string \<times> string)" where
  "eat_one_of cs s = (case s of c # t \<Rightarrow> if c \<in> set cs then ([c], t) else ([], s) | [] \<Rightarrow> ([], s))"

definition exponent_text :: "string \<Rightarrow> string" where
  "exponent_text s =
     (let (e, t) = eat_one_of ''eE'' s; (sg, u) = eat_one_of ''+-'' t; ds = takeWhile py_digit u
      in if e \<noteq> [] \<and> ds \<noteq> [] then e @ sg @ ds else [])"

definition fraction_text :: "string \<Rightarrow> string" where
  "fraction_text s =
     (case s of c # t \<Rightarrow> if c = CHR ''.'' \<and> takeWhile py_digit t \<noteq> [] then c # takeWhile py_digit t else []
      | [] \<Rightarrow> [])"

text \<open>The captured group, a decimal number at the start of \<open>s\<close>: sign, digits, fraction, exponent.\<close>

definition number_at :: "string \<Rightarrow> (string \<times> string \<times> string \<times> string) option" where
  "number_at s =
     (let (sg, t) = eat_one_of ''+-'' s; ds = takeWhile py_digit t; u = dropWhile py_digit t;
          fr = fraction_text u; ex = exponent_text (drop (length fr) u)
      in if ds = [] then None else Some (sg, ds, fr, ex))"

definition loss_after_word :: "string \<Rightarrow> (string \<times> string \<times> string \<times> string) option" where
  "loss_after_word s =
     (let (sep, t) = eat_one_of ''=:'' (dropWhile py_space s)
      in if sep = [] then None else number_at (dropWhile py_space t))"

definition match_train_loss :: "string \<Rightarrow> (string \<times> string \<times> string \<times> string) option" where
  "match_train_loss s =
     (case eat ''train'' s of
        None \<Rightarrow> None
      | Some t \<Rightarrow> (case eat ''loss'' (snd (eat_one_of ''_ '' t)) of None \<Rightarrow> None | Some u \<Rightarrow> loss_after_word u))"

definition match_loss :: "string \<Rightarrow> (string \<times> string \<times> string \<times> string) option" where
  "match_loss s = (case eat ''loss'' s of None \<Rightarrow> None | Some u \<Rightarrow> loss_after_word u)"

text \<open>\<open>re.search\<close> behind \<^verbatim>\<open>(?<![\w])\<close>: the first position whose predecessor is not a word character
  and where the pattern matches.\<close>

fun search_from :: "(string \<Rightarrow> 'm option) \<Rightarrow> bool \<Rightarrow> string \<Rightarrow> 'm option" where
  "search_from m prev_word [] = (if prev_word then None else m [])"
| "search_from m prev_word (c # cs) =
     (case (if prev_word then None else m (c # cs)) of
        Some r \<Rightarrow> Some r
      | None \<Rightarrow> search_from m (word_char c) cs)"

definition signed_digits :: "string \<Rightarrow> int" where
  "signed_digits s =
     (case s of
        c # t \<Rightarrow> if c = CHR ''-'' then - int (nat_of_digits t)
                 else if c = CHR ''+'' then int (nat_of_digits t) else int (nat_of_digits s)
      | [] \<Rightarrow> 0)"

definition decimal_value :: "string \<times> string \<times> string \<times> string \<Rightarrow> real" where
  "decimal_value d =
     (case d of (sg, ds, fr, ex) \<Rightarrow>
        let m = real (nat_of_digits (ds @ drop 1 fr)) / 10 ^ (length fr - 1);
            e = signed_digits (drop 1 ex);
            v = (if e \<ge> 0 then m * 10 ^ nat e else m / 10 ^ nat (- e))
        in if sg = ''-'' then - v else v)"

definition float_finite :: "real \<Rightarrow> bool" where
  "float_finite v \<longleftrightarrow> \<bar>v\<bar> < 2 ^ 1024 - 2 ^ 970"

definition extract_loss :: "string \<Rightarrow> real option" where
  "extract_loss line =
     (case (case search_from match_train_loss False line of
              Some d \<Rightarrow> Some d
            | None \<Rightarrow> search_from match_loss False line) of
        None \<Rightarrow> None
      | Some d \<Rightarrow> if float_finite (decimal_value d) then Some (decimal_value d) else None)"

section \<open>The detector\<close>

record dead_detector =
  dt_window :: nat
  dt_flat_eps :: real
  dt_min_loss :: real
  dt_descent_frac :: real
  dt_recent :: "real list"
  dt_first :: "real option"
  dt_best :: "real option"
  dt_n_seen :: nat

record dead_diag =
  dd_value :: real
  dd_window :: nat
  dd_first :: real
  dd_best :: real

text \<open>\<open>dt_best\<close> is \<open>None\<close> for the initial infinity.\<close>

definition new_detector :: "int \<Rightarrow> real \<Rightarrow> real \<Rightarrow> real \<Rightarrow> dead_detector" where
  "new_detector window flat_eps min_loss descent_frac =
     \<lparr>dt_window = nat (max window 2), dt_flat_eps = flat_eps, dt_min_loss = min_loss,
      dt_descent_frac = descent_frac, dt_recent = [], dt_first = None, dt_best = None, dt_n_seen = 0\<rparr>"

text \<open>\<open>deque(maxlen=n).append\<close>.\<close>

definition deque_append :: "nat \<Rightarrow> 'a list \<Rightarrow> 'a \<Rightarrow> 'a list" where
  "deque_append n xs x = (let ys = xs @ [x] in drop (length ys - n) ys)"

definition observe_loss :: "dead_detector \<Rightarrow> real \<Rightarrow> dead_diag option \<times> dead_detector" where
  "observe_loss d loss =
     (let first = (case dt_first d of None \<Rightarrow> loss | Some f \<Rightarrow> f);
          best = (case dt_best d of None \<Rightarrow> loss | Some b \<Rightarrow> min b loss);
          recent = deque_append (dt_window d) (dt_recent d) loss;
          d' = d\<lparr>dt_first := Some first, dt_best := Some best, dt_recent := recent, dt_n_seen := dt_n_seen d + 1\<rparr>
      in if length recent < dt_window d then (None, d')
         else
           let hi = Max (set recent); lo = Min (set recent); value = last recent;
               flat = hi - lo < dt_flat_eps d;
               high = value \<ge> dt_min_loss d;
               no_descent = best \<ge> dt_descent_frac d * first
           in if flat \<and> high \<and> no_descent
              then (Some \<lparr>dd_value = value, dd_window = dt_window d, dd_first = first, dd_best = best\<rparr>, d')
              else (None, d'))"

definition observe :: "dead_detector \<Rightarrow> string \<Rightarrow> dead_diag option \<times> dead_detector" where
  "observe d line = (case extract_loss line of None \<Rightarrow> (None, d) | Some loss \<Rightarrow> observe_loss d loss)"

definition DEAD_MARKER :: string where
  "DEAD_MARKER = ''[gpu_cell_runner] DEAD-TRAINING early-stop''"

definition is_dead_training :: "string \<Rightarrow> bool" where
  "is_dead_training output = py_in DEAD_MARKER output"

definition dead_guard_enabled :: "environ \<Rightarrow> bool" where
  "dead_guard_enabled env = flag_on (environ_get env ''OPENRESEARCH_DEAD_LOSS_EARLYSTOP'' [])"

text \<open>The reader thread of a cell: the captured chunks, and whether it killed the process group.\<close>

fun read_stream :: "string \<Rightarrow> (dead_diag \<Rightarrow> string) \<Rightarrow> dead_detector option \<Rightarrow> string list \<Rightarrow> string list \<times> bool" where
  "read_stream cell_id render det [] = ([], False)"
| "read_stream cell_id render det (line # rest) =
     (case det of
        None \<Rightarrow> (case read_stream cell_id render None rest of (cs, k) \<Rightarrow> (line # cs, k))
      | Some d \<Rightarrow>
          (case observe d line of
             (Some diag, d') \<Rightarrow>
               ([line, [CHR 0x0A] @ DEAD_MARKER @ '' cell='' @ cell_id @ '': '' @ render diag @ [CHR 0x0A]], True)
           | (None, d') \<Rightarrow> (case read_stream cell_id render (Some d') rest of (cs, k) \<Rightarrow> (line # cs, k))))"

section \<open>What the detector reports\<close>

text \<open>The state after a list of readings, and the readings of a list of lines.\<close>

definition fed :: "dead_detector \<Rightarrow> real list \<Rightarrow> dead_detector" where
  "fed d xs = foldl (\<lambda>d x. snd (observe_loss d x)) d xs"

definition losses :: "string list \<Rightarrow> real list" where
  "losses ls = List.map_filter extract_loss ls"

text \<open>The signature, over the whole history of readings.\<close>

definition stuck :: "dead_detector \<Rightarrow> real list \<Rightarrow> bool" where
  "stuck d xs \<longleftrightarrow>
     (let w = drop (length xs - dt_window d) xs in
      dt_window d \<le> length xs \<and> Max (set w) - Min (set w) < dt_flat_eps d \<and>
      last xs \<ge> dt_min_loss d \<and> Min (set xs) \<ge> dt_descent_frac d * hd xs)"

definition saw :: "dead_detector \<Rightarrow> dead_detector \<Rightarrow> real list \<Rightarrow> bool" where
  "saw d0 d xs \<longleftrightarrow>
     dt_window d = dt_window d0 \<and> dt_flat_eps d = dt_flat_eps d0 \<and> dt_min_loss d = dt_min_loss d0 \<and>
     dt_descent_frac d = dt_descent_frac d0 \<and> dt_recent d = drop (length xs - dt_window d0) xs \<and>
     dt_first d = (if xs = [] then None else Some (hd xs)) \<and>
     dt_best d = (if xs = [] then None else Some (Min (set xs)))"

lemma saw_new: "saw (new_detector w e m f) (new_detector w e m f) []"
  by (simp add: saw_def new_detector_def)

lemma deque_append_suffix:
  "deque_append n (drop (length xs - n) xs) x = drop (length (xs @ [x]) - n) (xs @ [x])"
  by (cases "n \<le> length xs") (auto simp: deque_append_def Let_def Suc_diff_le)

lemma observe_loss_saw: "saw d0 d xs \<Longrightarrow> saw d0 (snd (observe_loss d x)) (xs @ [x])"
  by (auto simp: saw_def observe_loss_def Let_def deque_append_suffix min.commute split: option.split)

lemma observe_loss_stuck:
  assumes "saw d0 d xs" "0 < dt_window d0"
  shows "fst (observe_loss d x) \<noteq> None \<longleftrightarrow> stuck d0 (xs @ [x])"
  using assms
  by (auto simp: saw_def observe_loss_def stuck_def Let_def deque_append_suffix min.commute last_drop)

lemma fed_saw: "saw d0 d xs \<Longrightarrow> saw d0 (fed d ys) (xs @ ys)"
proof (induction ys arbitrary: d xs)
  case (Cons y ys)
  from Cons.IH [OF observe_loss_saw [OF Cons.prems]] show ?case by (simp add: fed_def)
qed (simp add: fed_def)

lemma window_pos [simp]: "0 < dt_window (new_detector w e m f)"
  by (simp add: new_detector_def)

text \<open>The detector keeps only a window, the first and the best reading, and reports exactly when the
  whole history shows the signature.\<close>

lemma detector_reports_stuck:
  "fst (observe_loss (fed (new_detector w e m f) xs) x) \<noteq> None
     \<longleftrightarrow> stuck (new_detector w e m f) (xs @ [x])"
  using observe_loss_stuck [OF fed_saw [OF saw_new]] by simp

section \<open>The reader\<close>

lemma losses_Cons: "losses (l # ls) = (case extract_loss l of None \<Rightarrow> losses ls | Some x \<Rightarrow> x # losses ls)"
  by (simp add: losses_def List.map_filter_simps split: option.split)

lemma ex_take_Cons:
  "(\<exists>k. 0 < k \<and> k \<le> length (y # ys) \<and> P (take k (y # ys)))
     \<longleftrightarrow> P [y] \<or> (\<exists>k. 0 < k \<and> k \<le> length ys \<and> P (y # take k ys))"
  (is "?L \<longleftrightarrow> ?R")
proof
  assume ?L
  then obtain k where "0 < k" "k \<le> length (y # ys)" "P (take k (y # ys))" by blast
  then show ?R by (cases k; cases "k - 1 = 0") auto
next
  assume ?R
  then show ?L
  proof
    assume "P [y]"
    then show ?L by (intro exI [of _ 1]) simp
  next
    assume "\<exists>k. 0 < k \<and> k \<le> length ys \<and> P (y # take k ys)"
    then obtain k where "0 < k" "k \<le> length ys" "P (y # take k ys)" by blast
    then show ?L by (intro exI [of _ "Suc k"]) simp
  qed
qed

lemma read_stream_killed_from:
  assumes "saw d0 d xs" "0 < dt_window d0"
  shows "snd (read_stream i render (Some d) lines)
     \<longleftrightarrow> (\<exists>k. 0 < k \<and> k \<le> length (losses lines) \<and> stuck d0 (xs @ take k (losses lines)))"
  using assms(1)
proof (induction lines arbitrary: d xs)
  case Nil
  then show ?case by (simp add: losses_def List.map_filter_simps)
next
  case (Cons l ls)
  show ?case
  proof (cases "extract_loss l")
    case None
    with Cons.IH [OF Cons.prems] show ?thesis by (simp add: observe_def losses_Cons case_prod_beta)
  next
    case (Some x)
    note seen = observe_loss_saw [OF Cons.prems, of x]
    have "snd (read_stream i render (Some d) (l # ls))
        \<longleftrightarrow> stuck d0 (xs @ [x]) \<or> snd (read_stream i render (Some (snd (observe_loss d x))) ls)"
      using observe_loss_stuck [OF Cons.prems assms(2), of x]
      by (auto simp: observe_def Some split: prod.split option.split)
    also have "\<dots> \<longleftrightarrow> stuck d0 (xs @ [x]) \<or>
        (\<exists>k. 0 < k \<and> k \<le> length (losses ls) \<and> stuck d0 (xs @ x # take k (losses ls)))"
      using Cons.IH [OF seen] by simp
    also have "\<dots> \<longleftrightarrow> (\<exists>k. 0 < k \<and> k \<le> length (losses (l # ls)) \<and> stuck d0 (xs @ take k (losses (l # ls))))"
      using ex_take_Cons [of x "losses ls" "\<lambda>ys. stuck d0 (xs @ ys)"] by (simp add: losses_Cons Some)
    finally show ?thesis .
  qed
qed

text \<open>C25. A cell is killed as dead exactly when some prefix of the losses it logs shows the signature, over
  everything logged before: in particular never before a window of readings, and never once a reading
  has fallen below the given fraction of the first.\<close>

theorem killed_iff_stuck_prefix:
  "snd (read_stream cell_id render (Some (new_detector w e m f)) lines)
     \<longleftrightarrow> (\<exists>k. 0 < k \<and> k \<le> length (losses lines) \<and> stuck (new_detector w e m f) (take k (losses lines)))"
  using read_stream_killed_from [OF saw_new window_pos] by simp

text \<open>The kill is seen by the classification of the output.\<close>

lemma killed_is_marked:
  "snd (read_stream i render det lines) \<Longrightarrow> is_dead_training (concat (fst (read_stream i render det lines)))"
proof (induction lines arbitrary: det)
  case (Cons l ls)
  have ext: "is_dead_training (a @ b)" if "is_dead_training b" for a b
    using py_in_extend [of DEAD_MARKER b a "[]"] that by (simp add: is_dead_training_def)
  have mark: "is_dead_training (a @ DEAD_MARKER @ b)" for a b
    by (auto simp: is_dead_training_def py_in_sublist)
  show ?case
  proof (cases det)
    case None
    with Cons show ?thesis by (auto simp: case_prod_beta intro: ext)
  next
    case (Some d)
    obtain r d' where o: "observe d l = (r, d')" by (metis surj_pair)
    show ?thesis
    proof (cases r)
      case None
      with Cons o Some show ?thesis by (auto simp: case_prod_beta intro: ext)
    next
      case (Some diag)
      then show ?thesis
        using o \<open>det = Some d\<close> mark [of "l @ [CHR 0x0A]"] by simp
    qed
  qed
qed simp

text \<open>A later reading takes a diagnosis back: the report is not made on every line after the first.\<close>

lemma diagnosis_not_sticky:
  "\<exists>d. fst (observe_loss d 2) \<noteq> None \<and> fst (observe_loss (snd (observe_loss d 2)) 1) = None"
proof -
  let ?d = "new_detector 2 (1 / 1000) (1 / 5) (9 / 10)"
  have "fst (observe_loss (fed ?d [2]) 2) \<noteq> None" "fst (observe_loss (fed ?d [2, 2]) 1) = None"
    using detector_reports_stuck [of 2 "1 / 1000" "1 / 5" "9 / 10" "[2]" 2]
      detector_reports_stuck [of 2 "1 / 1000" "1 / 5" "9 / 10" "[2, 2]" 1]
    by (simp_all add: stuck_def new_detector_def)
  then show ?thesis by (intro exI [of _ "fed ?d [2]"]) (simp add: fed_def)
qed

end
