(* ===== verification/Cell_Pool.thy ===== *)
theory Cell_Pool
  imports Dead_Training "HOL-Library.Multiset"
begin

text \<open>
  The pool scheduler of a training matrix, \<open>run_matrix\<close> of
  \<^verbatim>\<open>src/backend/agents/rlm/gpu_cell_runner.py\<close>: worker threads that take cells from a queue, wait for
  cards, run an attempt and record what came of it.

  A state holds what the threads share (the queue, the free cards, the results, the manifests on
  disk) and, per thread, where its loop stands. One move is the code between two points where another
  thread can be seen: taking from the queue, the checks in front of the launch, the atomic acquire, the
  end of the attempt with the release, the bookkeeping behind it, the start of a new thread. Moves of
  the threads interleave freely; a move carries what the environment gave: the clock, the files, the
  outcome of the attempt. The main thread is the number of workers it still has to start; its join loop ends
  when every thread has ended. Starting a thread does not fail. An em dash in a message is written
  as a hyphen.
\<close>

section \<open>State\<close>

record pool_cell =
  pc_id :: "string option"
  pc_obj :: nat
  pc_gpus :: "json option"

definition cell_id_of :: "pool_cell \<Rightarrow> string" where
  "cell_id_of c = (case pc_id c of Some i \<Rightarrow> i | None \<Rightarrow> ''cell_'' @ str_of_nat (pc_obj c))"

record matrix_cfg =
  mc_gpus :: "string list"
  mc_gpus_per_cell :: nat
  mc_max_oom_retries :: int
  mc_deadline :: "real option"
  mc_env :: environ
  mc_min_vram :: real
  mc_fingerprints :: "(string \<times> string) list"
  mc_force :: "string list"
  mc_now_iso :: "string option"

record cell_attempt =
  at_returncode :: int
  at_output :: string
  at_baseline_mib :: "real option"
  at_vram_mib :: "real list"

datatype worker =
    Loop_Top
  | Taken pool_cell nat
  | Waiting pool_cell nat nat
  | Running pool_cell nat "string list"
  | Ended pool_cell nat "string list" cell_attempt
  | Spawning
  | Exited
  | Died pool_cell

record cell_pool =
  cp_queue :: "(pool_cell \<times> nat) list"
  cp_free :: "string list"
  cp_workers :: "worker list"
  cp_to_spawn :: nat
  cp_results :: "(string \<times> cell_result) list"
  cp_extras :: "(string \<times> (real option \<times> bool)) list"
  cp_manifests :: "string \<Rightarrow> json_file"

text \<open>What a move of a worker meets: the clock, \<^verbatim>\<open>metrics.json\<close> of its cell, how the attempt ended
  (\<open>None\<close>: it raised), whether the manifest can be written.\<close>

record worker_obs =
  wo_now :: real
  wo_metrics :: json_file
  wo_attempt :: "cell_attempt option"
  wo_writable :: bool

section \<open>Start\<close>

definition resolve_gpus :: "string list option \<Rightarrow> string list \<Rightarrow> string list" where
  "resolve_gpus gpus discovered =
     (let resolved = (case gpus of Some g \<Rightarrow> g | None \<Rightarrow> discovered) in if resolved = [] then [''0''] else resolved)"

definition worker_count :: "int option \<Rightarrow> nat \<Rightarrow> nat" where
  "worker_count max_parallel total_gpus =
     nat (max 1 (min (case max_parallel of Some m \<Rightarrow> m | None \<Rightarrow> int total_gpus) (int total_gpus)))"

definition init_pool :: "matrix_cfg \<Rightarrow> int option \<Rightarrow> (string \<Rightarrow> json_file) \<Rightarrow> pool_cell list \<Rightarrow> cell_pool" where
  "init_pool cfg max_parallel manifests cells =
     \<lparr>cp_queue = map (\<lambda>c. (c, 0)) cells, cp_free = mc_gpus cfg, cp_workers = [],
      cp_to_spawn = worker_count max_parallel (length (mc_gpus cfg)), cp_results = [], cp_extras = [],
      cp_manifests = manifests\<rparr>"

section \<open>One worker\<close>

definition set_worker :: "nat \<Rightarrow> worker \<Rightarrow> cell_pool \<Rightarrow> cell_pool" where
  "set_worker i w s = s\<lparr>cp_workers := (cp_workers s)[i := w]\<rparr>"

definition store_result :: "cell_result \<Rightarrow> cell_pool \<Rightarrow> cell_pool" where
  "store_result r s = s\<lparr>cp_results := AList.update (cr_cell_id r) r (cp_results s)\<rparr>"

definition store_manifest :: "matrix_cfg \<Rightarrow> worker_obs \<Rightarrow> cell_result \<Rightarrow> cell_pool \<Rightarrow> cell_pool" where
  "store_manifest cfg obs r s =
     s\<lparr>cp_manifests := (cp_manifests s)(cr_cell_id r :=
         write_cell_manifest (wo_writable obs) (cp_manifests s (cr_cell_id r)) (cr_cell_id r) (cr_status r)
           (map_of (mc_fingerprints cfg) (cr_cell_id r)) (cr_metrics r) (cr_retries r) (mc_now_iso cfg))\<rparr>"

definition past_deadline :: "matrix_cfg \<Rightarrow> real \<Rightarrow> bool" where
  "past_deadline cfg now = (case mc_deadline cfg of None \<Rightarrow> False | Some d \<Rightarrow> now \<ge> d)"

fun join_commas :: "string list \<Rightarrow> string" where
  "join_commas [] = []"
| "join_commas [x] = x"
| "join_commas (x # y # ys) = x @ '','' @ join_commas (y # ys)"

text \<open>In front of the launch: the resume filter, the deadline, the number of cards.\<close>

definition before_launch :: "matrix_cfg \<Rightarrow> worker_obs \<Rightarrow> nat \<Rightarrow> pool_cell \<Rightarrow> nat \<Rightarrow> cell_pool \<Rightarrow> cell_pool" where
  "before_launch cfg obs i c retry_idx s =
     (let cell_id = cell_id_of c in
      if is_resume_armed (mc_env cfg) \<and> retry_idx = 0
         \<and> should_skip_cell cell_id (cp_manifests s cell_id) (mc_fingerprints cfg) (mc_force cfg)
      then set_worker i Loop_Top (store_result
             \<lparr>cr_cell_id = cell_id, cr_status = STATUS_SKIPPED, cr_metrics = load_metrics (wo_metrics obs),
              cr_gpu = ''skipped'', cr_retries = 0, cr_error = None\<rparr> s)
      else if past_deadline cfg (wo_now obs)
      then let r = \<lparr>cr_cell_id = cell_id, cr_status = STATUS_TIMEOUT, cr_metrics = load_metrics (wo_metrics obs),
                    cr_gpu = ''unassigned'', cr_retries = retry_idx,
                    cr_error = Some ''overall matrix timeout - cell not launched''\<rparr>
           in set_worker i Loop_Top (store_manifest cfg obs r (store_result r s))
      else set_worker i
             (Waiting c retry_idx (cell_gpu_count (pc_gpus c) (max 1 (mc_gpus_per_cell cfg)) (length (mc_gpus cfg)))) s)"

text \<open>\<open>free_gpus.pop()\<close>, \<open>k\<close> times.\<close>

definition acquire_gpus :: "nat \<Rightarrow> string list \<Rightarrow> (string list \<times> string list) option" where
  "acquire_gpus k free =
     (if length free < k then None else Some (take k (rev free), take (length free - k) free))"

definition fabrication_error :: "real \<Rightarrow> real \<Rightarrow> string" where
  "fabrication_error peak min_vram =
     ''fabrication_suspected: peak VRAM '' @ py_fixed 3 peak @ '' GiB < threshold '' @ py_fixed 3 min_vram
     @ '' GiB - stub model detected, not a real LLM training run''"

definition attempt_peak :: "matrix_cfg \<Rightarrow> cell_attempt \<Rightarrow> real option" where
  "attempt_peak cfg a =
     (if antifab_guard_enabled (mc_env cfg) then peak_vram_gb (at_baseline_mib a) (at_vram_mib a) else None)"

text \<open>The last 2000 characters of the output, or a text where there is none.\<close>

definition error_snippet :: "string \<Rightarrow> string \<Rightarrow> string" where
  "error_snippet output dflt = (if output = [] then dflt else drop (length output - 2000) output)"

definition failure_status :: "matrix_cfg \<Rightarrow> bool \<Rightarrow> string \<Rightarrow> string" where
  "failure_status cfg deadline_hit output =
     (if deadline_hit then STATUS_TIMEOUT else if is_oom (mc_env cfg) output then STATUS_OOM_FAILED else STATUS_ERROR)"

definition failure_result ::
    "worker_obs \<Rightarrow> pool_cell \<Rightarrow> nat \<Rightarrow> string list \<Rightarrow> string \<Rightarrow> string \<Rightarrow> cell_result" where
  "failure_result obs c retry_idx assigned status err =
     \<lparr>cr_cell_id = cell_id_of c, cr_status = status, cr_metrics = load_metrics (wo_metrics obs),
      cr_gpu = join_commas assigned, cr_retries = retry_idx, cr_error = Some err\<rparr>"

definition success_result ::
    "matrix_cfg \<Rightarrow> worker_obs \<Rightarrow> pool_cell \<Rightarrow> nat \<Rightarrow> string list \<Rightarrow> real option \<Rightarrow> bool \<Rightarrow> cell_result" where
  "success_result cfg obs c retry_idx assigned peak fab =
     \<lparr>cr_cell_id = cell_id_of c, cr_status = (if fab then ''failed'' else STATUS_OK),
      cr_metrics = load_metrics (wo_metrics obs), cr_gpu = join_commas assigned, cr_retries = retry_idx,
      cr_error = (if fab then Some (fabrication_error (the peak) (mc_min_vram cfg)) else None)\<rparr>"

definition after_attempt ::
    "matrix_cfg \<Rightarrow> worker_obs \<Rightarrow> nat \<Rightarrow> pool_cell \<Rightarrow> nat \<Rightarrow> string list \<Rightarrow> cell_attempt \<Rightarrow> cell_pool \<Rightarrow> cell_pool" where
  "after_attempt cfg obs i c retry_idx assigned a s =
     (let output = at_output a; deadline_hit = past_deadline cfg (wo_now obs);
          failed = (\<lambda>status err.
            let r = failure_result obs c retry_idx assigned status err
            in set_worker i Loop_Top (store_manifest cfg obs r (store_result r s)))
      in if at_returncode a = 0 then
           let peak = attempt_peak cfg a;
               fab = vram_evidence_verdict (mc_env cfg) (mc_min_vram cfg) peak True;
               r = success_result cfg obs c retry_idx assigned peak fab
           in set_worker i Loop_Top (store_manifest cfg obs r
                ((store_result r s)\<lparr>cp_extras := AList.update (cell_id_of c) (peak, fab) (cp_extras s)\<rparr>))
         else if is_oom (mc_env cfg) output \<and> int retry_idx < mc_max_oom_retries cfg \<and> \<not> deadline_hit then
           set_worker i Spawning (s\<lparr>cp_queue := cp_queue s @ [(c, retry_idx + 1)]\<rparr>)
         else if is_dead_training output then
           failed STATUS_TRAINING_DIVERGED (error_snippet output ''training diverged'')
         else
           failed (failure_status cfg deadline_hit output)
             (error_snippet output (''exit code '' @ str_of_int (at_returncode a))))"

text \<open>\<open>None\<close>: the thread has ended, or is blocked in the acquire.\<close>

definition worker_step :: "matrix_cfg \<Rightarrow> nat \<Rightarrow> worker_obs \<Rightarrow> cell_pool \<Rightarrow> cell_pool option" where
  "worker_step cfg i obs s =
     (case cp_workers s ! i of
        Loop_Top \<Rightarrow>
          (case cp_queue s of
             [] \<Rightarrow> Some (set_worker i Exited s)
           | (c, retry_idx) # q \<Rightarrow> Some (set_worker i (Taken c retry_idx) (s\<lparr>cp_queue := q\<rparr>)))
      | Taken c retry_idx \<Rightarrow> Some (before_launch cfg obs i c retry_idx s)
      | Waiting c retry_idx k \<Rightarrow>
          (case acquire_gpus k (cp_free s) of
             None \<Rightarrow> None
           | Some (assigned, free) \<Rightarrow> Some (set_worker i (Running c retry_idx assigned) (s\<lparr>cp_free := free\<rparr>)))
      | Running c retry_idx assigned \<Rightarrow>
          Some (set_worker i (case wo_attempt obs of Some a \<Rightarrow> Ended c retry_idx assigned a | None \<Rightarrow> Died c)
                  (s\<lparr>cp_free := cp_free s @ assigned\<rparr>))
      | Ended c retry_idx assigned a \<Rightarrow> Some (after_attempt cfg obs i c retry_idx assigned a s)
      | Spawning \<Rightarrow> Some (s\<lparr>cp_workers := (cp_workers s)[i := Loop_Top] @ [Loop_Top]\<rparr>)
      | Exited \<Rightarrow> None
      | Died c \<Rightarrow> None)"

datatype pool_move = Main_Spawns | Worker_Moves nat worker_obs

definition pool_step :: "matrix_cfg \<Rightarrow> cell_pool \<Rightarrow> pool_move \<Rightarrow> cell_pool option" where
  "pool_step cfg s m =
     (case m of
        Main_Spawns \<Rightarrow>
          if cp_to_spawn s = 0 then None
          else Some (s\<lparr>cp_to_spawn := cp_to_spawn s - 1, cp_workers := cp_workers s @ [Loop_Top]\<rparr>)
      | Worker_Moves i obs \<Rightarrow> if i < length (cp_workers s) then worker_step cfg i obs s else None)"

section \<open>End\<close>

fun has_ended :: "worker \<Rightarrow> bool" where
  "has_ended Exited = True"
| "has_ended (Died c) = True"
| "has_ended _ = False"

definition pool_joined :: "cell_pool \<Rightarrow> bool" where
  "pool_joined s \<longleftrightarrow> cp_to_spawn s = 0 \<and> list_all has_ended (cp_workers s)"

definition missing_result :: "string \<Rightarrow> cell_result" where
  "missing_result cell_id =
     \<lparr>cr_cell_id = cell_id, cr_status = STATUS_ERROR, cr_metrics = None, cr_gpu = ''unknown'', cr_retries = 0,
      cr_error = Some ''worker exited without recording a result''\<rparr>"

definition fill_missing :: "pool_cell list \<Rightarrow> (string \<times> cell_result) list \<Rightarrow> (string \<times> cell_result) list" where
  "fill_missing cells results =
     foldl (\<lambda>res c. if cell_id_of c \<in> fst ` set res then res
                    else AList.update (cell_id_of c) (missing_result (cell_id_of c)) res) results cells"

definition extras_dict :: "real option \<times> bool \<Rightarrow> (string \<times> json) list" where
  "extras_dict e =
     [(''peak_vram_gb'', case fst e of None \<Rightarrow> JNull | Some x \<Rightarrow> JFloat x), (''fabrication_suspected'', JBool (snd e))]"

text \<open>What \<open>run_matrix\<close> returns once the threads have ended.\<close>

definition matrix_out :: "pool_cell list \<Rightarrow> cell_pool \<Rightarrow> (string \<times> (string \<times> json) list) list" where
  "matrix_out cells s =
     map (\<lambda>(cid, r). (cid, cell_to_dict r @ (case map_of (cp_extras s) cid of None \<Rightarrow> [] | Some e \<Rightarrow> extras_dict e)))
       (fill_missing cells (cp_results s))"

section \<open>The moves, abstractly\<close>

text \<open>What a move does to the queue, the cards, the threads and the results, with the outcome of the
  checks and of the attempt left open.\<close>

definition cell_cards :: "matrix_cfg \<Rightarrow> pool_cell \<Rightarrow> nat" where
  "cell_cards cfg c = cell_gpu_count (pc_gpus c) (max 1 (mc_gpus_per_cell cfg)) (length (mc_gpus cfg))"

definition WORKER_STATUSES :: "string set" where
  "WORKER_STATUSES =
     {STATUS_OK, ''failed'', STATUS_OOM_FAILED, STATUS_SKIPPED, STATUS_ERROR, STATUS_TIMEOUT, STATUS_TRAINING_DIVERGED}"

definition result_of :: "pool_cell \<Rightarrow> nat \<Rightarrow> cell_result \<Rightarrow> bool" where
  "result_of c n r \<longleftrightarrow> cr_cell_id r = cell_id_of c \<and> cr_retries r = n \<and> cr_status r \<in> WORKER_STATUSES"

inductive pool_rel :: "matrix_cfg \<Rightarrow> cell_pool \<Rightarrow> cell_pool \<Rightarrow> bool" for cfg s where
  Spawn: "0 < cp_to_spawn s \<Longrightarrow> cp_to_spawn s' = cp_to_spawn s - 1 \<Longrightarrow> cp_workers s' = cp_workers s @ [Loop_Top] \<Longrightarrow>
     cp_queue s' = cp_queue s \<Longrightarrow> cp_free s' = cp_free s \<Longrightarrow> cp_results s' = cp_results s \<Longrightarrow> pool_rel cfg s s'"
| Exit: "i < length (cp_workers s) \<Longrightarrow> cp_workers s ! i = Loop_Top \<Longrightarrow> cp_queue s = [] \<Longrightarrow> cp_queue s' = [] \<Longrightarrow>
     cp_workers s' = (cp_workers s)[i := Exited] \<Longrightarrow> cp_to_spawn s' = cp_to_spawn s \<Longrightarrow> cp_free s' = cp_free s \<Longrightarrow>
     cp_results s' = cp_results s \<Longrightarrow> pool_rel cfg s s'"
| Take: "i < length (cp_workers s) \<Longrightarrow> cp_workers s ! i = Loop_Top \<Longrightarrow> cp_queue s = (c, n) # cp_queue s' \<Longrightarrow>
     cp_workers s' = (cp_workers s)[i := Taken c n] \<Longrightarrow> cp_to_spawn s' = cp_to_spawn s \<Longrightarrow> cp_free s' = cp_free s \<Longrightarrow>
     cp_results s' = cp_results s \<Longrightarrow> pool_rel cfg s s'"
| Wait: "i < length (cp_workers s) \<Longrightarrow> cp_workers s ! i = Taken c n \<Longrightarrow>
     cp_workers s' = (cp_workers s)[i := Waiting c n (cell_cards cfg c)] \<Longrightarrow> cp_queue s' = cp_queue s \<Longrightarrow>
     cp_to_spawn s' = cp_to_spawn s \<Longrightarrow> cp_free s' = cp_free s \<Longrightarrow> cp_results s' = cp_results s \<Longrightarrow> pool_rel cfg s s'"
| Acquire: "i < length (cp_workers s) \<Longrightarrow> cp_workers s ! i = Waiting c n k \<Longrightarrow> length g = k \<Longrightarrow>
     mset (cp_free s) = mset (cp_free s') + mset g \<Longrightarrow>
     cp_workers s' = (cp_workers s)[i := Running c n g] \<Longrightarrow> cp_queue s' = cp_queue s \<Longrightarrow>
     cp_to_spawn s' = cp_to_spawn s \<Longrightarrow> cp_results s' = cp_results s \<Longrightarrow> pool_rel cfg s s'"
| End: "i < length (cp_workers s) \<Longrightarrow> cp_workers s ! i = Running c n g \<Longrightarrow> cp_free s' = cp_free s @ g \<Longrightarrow>
     cp_workers s' = (cp_workers s)[i := Ended c n g a] \<Longrightarrow> cp_queue s' = cp_queue s \<Longrightarrow>
     cp_to_spawn s' = cp_to_spawn s \<Longrightarrow> cp_results s' = cp_results s \<Longrightarrow> pool_rel cfg s s'"
| Die: "i < length (cp_workers s) \<Longrightarrow> cp_workers s ! i = Running c n g \<Longrightarrow> cp_free s' = cp_free s @ g \<Longrightarrow>
     cp_workers s' = (cp_workers s)[i := Died c] \<Longrightarrow> cp_queue s' = cp_queue s \<Longrightarrow>
     cp_to_spawn s' = cp_to_spawn s \<Longrightarrow> cp_results s' = cp_results s \<Longrightarrow> pool_rel cfg s s'"
| Record: "i < length (cp_workers s) \<Longrightarrow> cp_workers s ! i = Taken c n \<or> (\<exists>g a. cp_workers s ! i = Ended c n g a) \<Longrightarrow>
     result_of c n r \<Longrightarrow> cp_results s' = AList.update (cell_id_of c) r (cp_results s) \<Longrightarrow>
     cp_workers s' = (cp_workers s)[i := Loop_Top] \<Longrightarrow> cp_queue s' = cp_queue s \<Longrightarrow>
     cp_to_spawn s' = cp_to_spawn s \<Longrightarrow> cp_free s' = cp_free s \<Longrightarrow> pool_rel cfg s s'"
| Retry: "i < length (cp_workers s) \<Longrightarrow> cp_workers s ! i = Ended c n g a \<Longrightarrow> int n < mc_max_oom_retries cfg \<Longrightarrow>
     cp_queue s' = cp_queue s @ [(c, n + 1)] \<Longrightarrow> cp_workers s' = (cp_workers s)[i := Spawning] \<Longrightarrow>
     cp_to_spawn s' = cp_to_spawn s \<Longrightarrow> cp_free s' = cp_free s \<Longrightarrow> cp_results s' = cp_results s \<Longrightarrow> pool_rel cfg s s'"
| Fork: "i < length (cp_workers s) \<Longrightarrow> cp_workers s ! i = Spawning \<Longrightarrow>
     cp_workers s' = (cp_workers s)[i := Loop_Top] @ [Loop_Top] \<Longrightarrow> cp_queue s' = cp_queue s \<Longrightarrow>
     cp_to_spawn s' = cp_to_spawn s \<Longrightarrow> cp_free s' = cp_free s \<Longrightarrow> cp_results s' = cp_results s \<Longrightarrow> pool_rel cfg s s'"

lemma statuses_of_workers [simp]:
  "STATUS_OK \<in> WORKER_STATUSES" "STATUS_SKIPPED \<in> WORKER_STATUSES" "STATUS_TIMEOUT \<in> WORKER_STATUSES"
  "STATUS_TRAINING_DIVERGED \<in> WORKER_STATUSES" "failure_status cfg b t \<in> WORKER_STATUSES" "''failed'' \<in> WORKER_STATUSES"
  by (simp_all add: WORKER_STATUSES_def failure_status_def)

lemma set_worker_sel [simp]:
  "cp_workers (set_worker i w s) = (cp_workers s)[i := w]" "cp_queue (set_worker i w s) = cp_queue s"
  "cp_free (set_worker i w s) = cp_free s" "cp_to_spawn (set_worker i w s) = cp_to_spawn s"
  "cp_results (set_worker i w s) = cp_results s"
  by (simp_all add: set_worker_def)

lemma store_manifest_sel [simp]:
  "cp_workers (store_manifest cfg obs r s) = cp_workers s" "cp_queue (store_manifest cfg obs r s) = cp_queue s"
  "cp_free (store_manifest cfg obs r s) = cp_free s" "cp_to_spawn (store_manifest cfg obs r s) = cp_to_spawn s"
  "cp_results (store_manifest cfg obs r s) = cp_results s"
  by (simp_all add: store_manifest_def)

lemma store_result_sel [simp]:
  "cp_workers (store_result r s) = cp_workers s" "cp_queue (store_result r s) = cp_queue s"
  "cp_free (store_result r s) = cp_free s" "cp_to_spawn (store_result r s) = cp_to_spawn s"
  "cp_results (store_result r s) = AList.update (cr_cell_id r) r (cp_results s)"
  by (simp_all add: store_result_def)

lemma attempt_results [simp]:
  "result_of c n (success_result cfg obs c n g peak fab)"
  "st \<in> WORKER_STATUSES \<Longrightarrow> result_of c n (failure_result obs c n g st err)"
  "cr_cell_id (success_result cfg obs c n g peak fab) = cell_id_of c"
  "cr_cell_id (failure_result obs c n g st err) = cell_id_of c"
  by (simp_all add: result_of_def success_result_def failure_result_def)

lemma before_launch_rel:
  assumes "i < length (cp_workers s)" "cp_workers s ! i = Taken c n"
  shows "pool_rel cfg s (before_launch cfg obs i c n s)"
proof -
  consider (skip) "is_resume_armed (mc_env cfg) \<and> n = 0 \<and>
      should_skip_cell (cell_id_of c) (cp_manifests s (cell_id_of c)) (mc_fingerprints cfg) (mc_force cfg)"
    | (late) "\<not> (is_resume_armed (mc_env cfg) \<and> n = 0 \<and>
      should_skip_cell (cell_id_of c) (cp_manifests s (cell_id_of c)) (mc_fingerprints cfg) (mc_force cfg))"
      "past_deadline cfg (wo_now obs)"
    | (go) "\<not> (is_resume_armed (mc_env cfg) \<and> n = 0 \<and>
      should_skip_cell (cell_id_of c) (cp_manifests s (cell_id_of c)) (mc_fingerprints cfg) (mc_force cfg))"
      "\<not> past_deadline cfg (wo_now obs)" by blast
  then show ?thesis
  proof cases
    case skip
    with assms show ?thesis
      by (intro Record [where i = i and c = c and n = n and
            r = "\<lparr>cr_cell_id = cell_id_of c, cr_status = STATUS_SKIPPED, cr_metrics = load_metrics (wo_metrics obs),
                 cr_gpu = ''skipped'', cr_retries = 0, cr_error = None\<rparr>"])
        (simp_all add: before_launch_def Let_def result_of_def)
  next
    case late
    with assms show ?thesis
      by (intro Record [where i = i and c = c and n = n and
            r = "\<lparr>cr_cell_id = cell_id_of c, cr_status = STATUS_TIMEOUT, cr_metrics = load_metrics (wo_metrics obs),
                 cr_gpu = ''unassigned'', cr_retries = n,
                 cr_error = Some ''overall matrix timeout - cell not launched''\<rparr>"])
        (simp_all add: before_launch_def Let_def result_of_def del: de_Morgan_conj)
  next
    case go
    with assms show ?thesis
      by (intro Wait [where i = i and c = c and n = n])
        (simp_all add: before_launch_def Let_def cell_cards_def del: de_Morgan_conj)
  qed
qed

lemma after_attempt_rel:
  assumes "i < length (cp_workers s)" "cp_workers s ! i = Ended c n g a"
  shows "pool_rel cfg s (after_attempt cfg obs i c n g a s)"
proof -
  have rec: "pool_rel cfg s s'"
    if "cp_results s' = AList.update (cell_id_of c) r (cp_results s)" "cp_workers s' = (cp_workers s)[i := Loop_Top]"
      "cp_queue s' = cp_queue s" "cp_to_spawn s' = cp_to_spawn s" "cp_free s' = cp_free s" "result_of c n r" for s' r
    using assms that by (intro Record [where i = i and c = c and n = n and r = r]) auto
  consider (ok) "at_returncode a = 0"
    | (oom) "at_returncode a \<noteq> 0" "is_oom (mc_env cfg) (at_output a)" "int n < mc_max_oom_retries cfg"
        "\<not> past_deadline cfg (wo_now obs)"
    | (failed) "at_returncode a \<noteq> 0" "\<not> (is_oom (mc_env cfg) (at_output a) \<and> int n < mc_max_oom_retries cfg \<and>
        \<not> past_deadline cfg (wo_now obs))" by blast
  then show ?thesis
  proof cases
    case ok
    show ?thesis
      unfolding after_attempt_def Let_def if_P [OF ok]
      by (rule rec [where r = "success_result cfg obs c n g (attempt_peak cfg a)
            (vram_evidence_verdict (mc_env cfg) (mc_min_vram cfg) (attempt_peak cfg a) True)"]) simp_all
  next
    case oom
    with assms show ?thesis
      by (intro Retry [where i = i and c = c and n = n]) (simp_all add: after_attempt_def Let_def)
  next
    case failed
    show ?thesis
    proof (cases "is_dead_training (at_output a)")
      case True
      show ?thesis
        unfolding after_attempt_def Let_def if_not_P [OF failed(1)] if_not_P [OF failed(2)] if_P [OF True]
        by (rule rec [where r = "failure_result obs c n g STATUS_TRAINING_DIVERGED
              (error_snippet (at_output a) ''training diverged'')"]) simp_all
    next
      case False
      show ?thesis
        unfolding after_attempt_def Let_def if_not_P [OF failed(1)] if_not_P [OF failed(2)] if_not_P [OF False]
        by (rule rec [where r = "failure_result obs c n g
              (failure_status cfg (past_deadline cfg (wo_now obs)) (at_output a))
              (error_snippet (at_output a) (''exit code '' @ str_of_int (at_returncode a)))"]) simp_all
    qed
  qed
qed

lemma acquire_gpus_mset:
  "acquire_gpus k free = Some (g, free') \<Longrightarrow> length g = k \<and> mset free = mset free' + mset g"
proof -
  assume a: "acquire_gpus k free = Some (g, free')"
  then have k: "k \<le> length free" "g = rev (drop (length free - k) free)" "free' = take (length free - k) free"
    by (auto simp: acquire_gpus_def rev_drop split: if_splits)
  then have "mset free = mset (take (length free - k) free @ drop (length free - k) free)" by simp
  with k show ?thesis by (simp only: mset_append) simp
qed

text \<open>Every move of the code is one of the abstract moves.\<close>

lemma pool_step_rel:
  assumes "pool_step cfg s m = Some s'"
  shows "pool_rel cfg s s'"
proof (cases m)
  case Main_Spawns
  with assms show ?thesis by (auto simp: pool_step_def split: if_splits intro: Spawn)
next
  case (Worker_Moves i obs)
  with assms have i: "i < length (cp_workers s)" and st: "worker_step cfg i obs s = Some s'"
    by (auto simp: pool_step_def split: if_splits)
  show ?thesis
  proof (cases "cp_workers s ! i")
    case Loop_Top
    with i st show ?thesis
      by (cases "cp_queue s") (auto simp: worker_step_def intro: Exit Take)
  next
    case (Taken c n)
    with i st before_launch_rel show ?thesis by (auto simp: worker_step_def)
  next
    case (Waiting c n k)
    with st obtain g free where "acquire_gpus k (cp_free s) = Some (g, free)"
      "s' = set_worker i (Running c n g) (s\<lparr>cp_free := free\<rparr>)"
      by (auto simp: worker_step_def split: option.splits)
    with i Waiting acquire_gpus_mset show ?thesis
      by (intro Acquire [where i = i and c = c and n = n and k = k and g = g]) auto
  next
    case (Running c n g)
    with i st show ?thesis
      by (cases "wo_attempt obs") (auto simp: worker_step_def intro: Die End)
  next
    case (Ended c n g a)
    with i st after_attempt_rel show ?thesis by (auto simp: worker_step_def)
  next
    case Spawning
    with i st show ?thesis by (auto simp: worker_step_def intro: Fork)
  qed (use st in \<open>simp_all add: worker_step_def\<close>)
qed

section \<open>The invariant\<close>

fun held :: "worker \<Rightarrow> string list" where
  "held (Running c n g) = g"
| "held _ = []"

fun carries :: "pool_cell \<Rightarrow> worker \<Rightarrow> bool" where
  "carries c (Taken d n) = (d = c)"
| "carries c (Waiting d n k) = (d = c)"
| "carries c (Running d n g) = (d = c)"
| "carries c (Ended d n g a) = (d = c)"
| "carries c (Died d) = (d = c)"
| "carries c _ = False"

definition item_ok :: "matrix_cfg \<Rightarrow> pool_cell list \<Rightarrow> pool_cell \<times> nat \<Rightarrow> bool" where
  "item_ok cfg cells it \<longleftrightarrow> fst it \<in> set cells \<and> int (snd it) \<le> max 0 (mc_max_oom_retries cfg)"

fun worker_ok :: "matrix_cfg \<Rightarrow> pool_cell list \<Rightarrow> worker \<Rightarrow> bool" where
  "worker_ok cfg cells (Taken c n) = item_ok cfg cells (c, n)"
| "worker_ok cfg cells (Waiting c n k) = (item_ok cfg cells (c, n) \<and> k = cell_cards cfg c)"
| "worker_ok cfg cells (Running c n g) = (item_ok cfg cells (c, n) \<and> length g = cell_cards cfg c)"
| "worker_ok cfg cells (Ended c n g a) = (item_ok cfg cells (c, n) \<and> length g = cell_cards cfg c)"
| "worker_ok cfg cells (Died c) = (c \<in> set cells)"
| "worker_ok cfg cells _ = True"

definition result_ok :: "matrix_cfg \<Rightarrow> pool_cell list \<Rightarrow> string \<times> cell_result \<Rightarrow> bool" where
  "result_ok cfg cells kr \<longleftrightarrow>
     cr_cell_id (snd kr) = fst kr \<and> fst kr \<in> cell_id_of ` set cells \<and>
     int (cr_retries (snd kr)) \<le> max 0 (mc_max_oom_retries cfg) \<and> cr_status (snd kr) \<in> WORKER_STATUSES"

text \<open>Every card is free or held by one running attempt; a cell is queued, in the hands of a worker,
  or has a result; and somebody is left to empty the queue, unless a worker died.\<close>

definition cards_conserved :: "matrix_cfg \<Rightarrow> cell_pool \<Rightarrow> bool" where
  "cards_conserved cfg s \<longleftrightarrow> mset (cp_free s) + (\<Sum>w\<leftarrow>cp_workers s. mset (held w)) = mset (mc_gpus cfg)"

definition accounted :: "cell_pool \<Rightarrow> pool_cell \<Rightarrow> bool" where
  "accounted s c \<longleftrightarrow>
     c \<in> fst ` set (cp_queue s) \<or> list_ex (carries c) (cp_workers s) \<or> cell_id_of c \<in> fst ` set (cp_results s)"

definition watched :: "cell_pool \<Rightarrow> bool" where
  "watched s \<longleftrightarrow> cp_queue s = [] \<or> 0 < cp_to_spawn s \<or> list_ex (\<lambda>w. w \<noteq> Exited) (cp_workers s)"

definition pool_inv :: "matrix_cfg \<Rightarrow> pool_cell list \<Rightarrow> cell_pool \<Rightarrow> bool" where
  "pool_inv cfg cells s \<longleftrightarrow>
     mc_gpus cfg \<noteq> [] \<and> cards_conserved cfg s \<and> list_all (worker_ok cfg cells) (cp_workers s) \<and>
     list_all (item_ok cfg cells) (cp_queue s) \<and> list_all (result_ok cfg cells) (cp_results s) \<and>
     distinct (map fst (cp_results s)) \<and> list_all (accounted s) cells \<and> watched s"

lemma conserved_update:
  assumes "cards_conserved cfg s" "i < length (cp_workers s)" "cp_workers s' = (cp_workers s)[i := w]"
    and cards: "mset (cp_free s') + mset (held w) = mset (cp_free s) + mset (held (cp_workers s ! i))"
  shows "cards_conserved cfg s'"
proof -
  let ?sum = "\<lambda>ws. \<Sum>w\<leftarrow>ws. mset (held w)"
  have "?sum (cp_workers s') + mset (held (cp_workers s ! i)) = ?sum (cp_workers s) + mset (held w)"
    using sum_list_map_update [OF assms(2), of "\<lambda>w. mset (held w)" w] assms(3) by simp
  with cards have "mset (cp_free s') + ?sum (cp_workers s') = mset (cp_free s) + ?sum (cp_workers s)"
    by (rule add_swap_cancel)
  with assms(1) show ?thesis by (simp add: cards_conserved_def)
qed

lemma conserved_step:
  assumes "pool_rel cfg s s'" "cards_conserved cfg s"
  shows "cards_conserved cfg s'"
  using assms(1)
proof cases
  case (Record i c n r)
  show ?thesis by (rule conserved_update [OF assms(2) Record(1,5)]) (use Record in auto)
next
  case (Fork i)
  then have "cards_conserved cfg (s\<lparr>cp_workers := (cp_workers s)[i := Loop_Top]\<rparr>)"
    using conserved_update [OF assms(2) Fork(1), of _ Loop_Top] by simp
  with Fork show ?thesis by (simp add: cards_conserved_def)
next
  case Spawn
  with assms(2) show ?thesis by (simp add: cards_conserved_def)
qed (auto intro!: conserved_update [OF assms(2)])

lemma workers_step:
  assumes "pool_rel cfg s s'" "list_all (worker_ok cfg cells) (cp_workers s)" "list_all (item_ok cfg cells) (cp_queue s)"
  shows "list_all (worker_ok cfg cells) (cp_workers s') \<and> list_all (item_ok cfg cells) (cp_queue s')"
  using assms(1)
proof cases
  case (Retry i c n g a)
  with list_all_nth_D [OF assms(2)] have "worker_ok cfg cells (Ended c n g a)" by metis
  with Retry assms show ?thesis by (auto simp: item_ok_def)
next
  case (Wait i c n)
  with list_all_nth_D [OF assms(2)] have "worker_ok cfg cells (Taken c n)" by metis
  with Wait assms show ?thesis by auto
next
  case (Acquire i c n k g)
  with list_all_nth_D [OF assms(2)] have "worker_ok cfg cells (Waiting c n k)" by metis
  with Acquire assms show ?thesis by auto
next
  case (End i c n g a)
  with list_all_nth_D [OF assms(2)] have "worker_ok cfg cells (Running c n g)" by metis
  with End assms show ?thesis by auto
next
  case (Die i c n g)
  with list_all_nth_D [OF assms(2)] have "worker_ok cfg cells (Running c n g)" by metis
  with Die assms show ?thesis by (auto simp: item_ok_def)
qed (use assms(2,3) in auto)

lemma results_step:
  assumes "pool_rel cfg s s'" "list_all (worker_ok cfg cells) (cp_workers s)" "list_all (result_ok cfg cells) (cp_results s)"
  shows "list_all (result_ok cfg cells) (cp_results s')"
  using assms(1)
proof cases
  case (Record i c n r)
  have "item_ok cfg cells (c, n)"
    using list_all_nth_D [OF assms(2) Record(1)] Record(2) by auto
  with Record(3) have "result_ok cfg cells (cell_id_of c, r)"
    by (auto simp: result_ok_def result_of_def item_ok_def)
  with Record(4) assms(3) set_alist_update [of "cell_id_of c" r "cp_results s"] show ?thesis
    by (auto simp: list_all_iff)
qed (use assms(3) in simp_all)

lemma accounted_step:
  assumes "pool_rel cfg s s'" "accounted s d"
  shows "accounted s' d"
  using assms(1)
proof cases
  case (Record i c n r)
  then show ?thesis using assms(2)
    by (auto simp: accounted_def keys_alist_update list_ex_update list_ex_split [of i "cp_workers s"])
next
  case (Take i c n)
  then show ?thesis using assms(2)
    by (auto simp: accounted_def list_ex_update list_ex_split [of i "cp_workers s"])
qed (use assms(2) in \<open>auto simp: accounted_def list_ex_update list_ex_split [of _ "cp_workers s"]\<close>)

lemma watched_step:
  assumes "pool_rel cfg s s'" "watched s"
  shows "watched s'"
  using assms(1)
  by cases (use assms(2) in \<open>auto simp: watched_def list_ex_update\<close>)

lemma pool_rel_inv:
  assumes "pool_rel cfg s s'" "pool_inv cfg cells s"
  shows "pool_inv cfg cells s'"
proof -
  note inv = assms(2) [unfolded pool_inv_def]
  have "list_all (accounted s') cells"
    using inv accounted_step [OF assms(1)] by (auto simp: list_all_iff)
  moreover from assms(1) inv have "distinct (map fst (cp_results s'))"
    by cases (simp_all add: distinct_update)
  ultimately show ?thesis
    using inv conserved_step [OF assms(1)] workers_step [OF assms(1)] results_step [OF assms(1)] watched_step [OF assms(1)]
    by (simp add: pool_inv_def)
qed

lemma sum_held_init: "(\<Sum>x\<leftarrow>xs. {#}) = {#}"
  by (induction xs) auto

lemma pool_inv_init: "mc_gpus cfg \<noteq> [] \<Longrightarrow> pool_inv cfg cells (init_pool cfg mp mf cells)"
  by (auto simp: pool_inv_def init_pool_def cards_conserved_def item_ok_def accounted_def watched_def worker_count_def
      list_all_iff image_iff)

section \<open>Every run ends\<close>

definition item_weight :: "matrix_cfg \<Rightarrow> nat \<Rightarrow> nat" where
  "item_weight cfg n = 8 * (nat (mc_max_oom_retries cfg - int n) + 1)"

fun worker_weight :: "matrix_cfg \<Rightarrow> worker \<Rightarrow> nat" where
  "worker_weight cfg Loop_Top = 1"
| "worker_weight cfg (Taken c n) = item_weight cfg n"
| "worker_weight cfg (Waiting c n k) = item_weight cfg n - 1"
| "worker_weight cfg (Running c n g) = item_weight cfg n - 2"
| "worker_weight cfg (Ended c n g a) = item_weight cfg n - 3"
| "worker_weight cfg Spawning = 3"
| "worker_weight cfg _ = 0"

definition pool_rank :: "matrix_cfg \<Rightarrow> cell_pool \<Rightarrow> nat" where
  "pool_rank cfg s =
     2 * cp_to_spawn s + (\<Sum>it\<leftarrow>cp_queue s. item_weight cfg (snd it)) + (\<Sum>w\<leftarrow>cp_workers s. worker_weight cfg w)"

lemma item_weight_ge: "8 \<le> item_weight cfg n"
  by (simp add: item_weight_def)

lemma item_weight_retry: "int n < mc_max_oom_retries cfg \<Longrightarrow> item_weight cfg n = item_weight cfg (Suc n) + 8"
  by (simp add: item_weight_def)

lemma pool_rank_lowers:
  assumes "pool_rel cfg s s'"
  shows "pool_rank cfg s' < pool_rank cfg s"
  using assms
proof cases
  case (Record i c n r)
  then show ?thesis
    using sum_list_map_update [OF Record(1), of "worker_weight cfg" Loop_Top] item_weight_ge [of cfg n]
    by (auto simp: pool_rank_def)
next
  case (Exit i)
  then show ?thesis using sum_list_map_update [OF Exit(1), of "worker_weight cfg" Exited] by (simp add: pool_rank_def)
next
  case (Take i c n)
  then show ?thesis using sum_list_map_update [OF Take(1), of "worker_weight cfg" "Taken c n"] by (simp add: pool_rank_def)
next
  case (Wait i c n)
  then show ?thesis
    using sum_list_map_update [OF Wait(1), of "worker_weight cfg" "Waiting c n (cell_cards cfg c)"] item_weight_ge [of cfg n]
    by (simp add: pool_rank_def)
next
  case (Acquire i c n k g)
  then show ?thesis
    using sum_list_map_update [OF Acquire(1), of "worker_weight cfg" "Running c n g"] item_weight_ge [of cfg n]
    by (simp add: pool_rank_def)
next
  case (End i c n g a)
  then show ?thesis
    using sum_list_map_update [OF End(1), of "worker_weight cfg" "Ended c n g a"] item_weight_ge [of cfg n]
    by (simp add: pool_rank_def)
next
  case (Die i c n g)
  then show ?thesis
    using sum_list_map_update [OF Die(1), of "worker_weight cfg" "Died c"] item_weight_ge [of cfg n]
    by (simp add: pool_rank_def)
next
  case (Retry i c n g a)
  then show ?thesis
    using sum_list_map_update [OF Retry(1), of "worker_weight cfg" Spawning] item_weight_retry [OF Retry(3)]
      item_weight_ge [of cfg "Suc n"]
    by (simp add: pool_rank_def)
next
  case (Fork i)
  then show ?thesis using sum_list_map_update [OF Fork(1), of "worker_weight cfg" Loop_Top] by (simp add: pool_rank_def)
qed (simp add: pool_rank_def)

text \<open>A worker that has not ended can move, unless it waits for cards; and when all that are left
  wait, nobody holds a card, so all are free and none of them asked for more.\<close>

fun waits :: "worker \<Rightarrow> bool" where
  "waits (Waiting c n k) = True"
| "waits _ = False"

lemma worker_can_move:
  "i < length (cp_workers s) \<Longrightarrow> \<not> has_ended (cp_workers s ! i) \<Longrightarrow> \<not> waits (cp_workers s ! i) \<Longrightarrow>
     \<exists>s'. pool_step cfg s (Worker_Moves i obs) = Some s'"
  by (cases "cp_workers s ! i") (auto simp: pool_step_def worker_step_def split: list.split)

lemma waiting_can_move:
  assumes inv: "pool_inv cfg cells s" and i: "i < length (cp_workers s)" "cp_workers s ! i = Waiting c n k"
    and idle: "list_all (\<lambda>w. has_ended w \<or> waits w) (cp_workers s)"
  shows "\<exists>s'. pool_step cfg s (Worker_Moves i obs) = Some s'"
proof -
  have "mset (held w) = {#}" if "w \<in> set (cp_workers s)" for w
    using idle that by (cases w) (auto simp: list_all_iff)
  then have "(\<Sum>w\<leftarrow>cp_workers s. mset (held w)) = (\<Sum>w\<leftarrow>cp_workers s. {#})"
    by (metis (no_types, lifting) map_eq_conv)
  with inv have "mset (cp_free s) = mset (mc_gpus cfg)"
    by (simp add: pool_inv_def cards_conserved_def sum_held_init)
  then have "length (cp_free s) = length (mc_gpus cfg)" by (metis size_mset)
  moreover have "k = cell_cards cfg c"
    using inv list_all_nth_D [OF _ i(1), of "worker_ok cfg cells"] i(2) by (simp add: pool_inv_def)
  moreover have "cell_cards cfg c \<le> length (mc_gpus cfg)"
    using inv by (simp add: pool_inv_def cell_cards_def cell_gpu_count_le)
  ultimately show ?thesis using i by (simp add: pool_step_def worker_step_def acquire_gpus_def)
qed

lemma pool_has_move:
  assumes "pool_inv cfg cells s" "\<not> pool_joined s"
  shows "\<exists>m s'. pool_step cfg s m = Some s'"
proof (cases "cp_to_spawn s = 0")
  case False
  then show ?thesis by (intro exI [of _ Main_Spawns]) (simp add: pool_step_def)
next
  case True
  with assms(2) obtain i where i: "i < length (cp_workers s)" "\<not> has_ended (cp_workers s ! i)"
    by (auto simp: pool_joined_def list_all_length)
  show ?thesis
  proof (cases "list_all (\<lambda>w. has_ended w \<or> waits w) (cp_workers s)")
    case False
    then obtain j where "j < length (cp_workers s)" "\<not> has_ended (cp_workers s ! j)" "\<not> waits (cp_workers s ! j)"
      by (auto simp: list_all_length)
    with worker_can_move show ?thesis by blast
  next
    case True
    with i have "waits (cp_workers s ! i)" by (auto simp: list_all_length)
    then obtain c n k where "cp_workers s ! i = Waiting c n k" by (cases "cp_workers s ! i") auto
    with waiting_can_move [OF assms(1) i(1) _ True] show ?thesis by blast
  qed
qed

interpretation matrix: progress_system "pool_step cfg" "pool_inv cfg cells" pool_joined "pool_rank cfg"
  for cfg :: matrix_cfg and cells :: "pool_cell list"
  using pool_step_rel pool_rel_inv pool_rank_lowers pool_has_move by unfold_locales blast+

section \<open>What a run of the matrix promises\<close>

lemma run_inv_init:
  "mc_gpus cfg \<noteq> [] \<Longrightarrow> run_path (pool_step cfg) (init_pool cfg mp mf cells) ms = Some s \<Longrightarrow> pool_inv cfg cells s"
  by (rule matrix.run_inv [OF pool_inv_init])

lemma pool_rank_init:
  "pool_rank cfg (init_pool cfg mp mf cells) =
     2 * worker_count mp (length (mc_gpus cfg)) + 8 * (nat (mc_max_oom_retries cfg) + 1) * length cells"
  by (simp add: pool_rank_def init_pool_def item_weight_def comp_def sum_list_triv)

lemma mset_concat_held: "(\<Sum>w\<leftarrow>ws. mset (held w)) = mset (concat (map held ws))"
  by (induction ws) simp_all

lemma length_concat_ge: "list_all (\<lambda>x. f x \<noteq> []) (filter P xs) \<Longrightarrow> length (filter P xs) \<le> length (concat (map f xs))"
proof (induction xs)
  case (Cons x xs)
  then show ?case by (cases "f x") (auto split: if_splits)
qed simp

definition is_running :: "worker \<Rightarrow> bool" where
  "is_running w = (case w of Running c n g \<Rightarrow> True | _ \<Rightarrow> False)"

text \<open>The attempts of a small matrix: two cells on two cards with one worker, the first attempt
  of the first cell runs out of memory.\<close>

definition demo_cells :: "pool_cell list" where
  "demo_cells = [\<lparr>pc_id = Some ''a'', pc_obj = 1, pc_gpus = None\<rparr>, \<lparr>pc_id = Some ''b'', pc_obj = 2, pc_gpus = None\<rparr>]"

definition demo_cfg :: matrix_cfg where
  "demo_cfg = \<lparr>mc_gpus = [''0'', ''1''], mc_gpus_per_cell = 1, mc_max_oom_retries = 2, mc_deadline = None,
     mc_env = (\<lambda>_. None), mc_min_vram = 3 / 2, mc_fingerprints = [], mc_force = [], mc_now_iso = None\<rparr>"

definition demo_obs :: "cell_attempt option \<Rightarrow> worker_obs" where
  "demo_obs a = \<lparr>wo_now = 0, wo_metrics = No_File, wo_attempt = a, wo_writable = True\<rparr>"

definition demo_oom :: cell_attempt where
  "demo_oom = \<lparr>at_returncode = 1, at_output = ''CUDA out of memory'', at_baseline_mib = None, at_vram_mib = []\<rparr>"

definition demo_ok :: cell_attempt where
  "demo_ok = \<lparr>at_returncode = 0, at_output = [], at_baseline_mib = None, at_vram_mib = []\<rparr>"

definition demo_start :: cell_pool where
  "demo_start = init_pool demo_cfg (Some 1) (\<lambda>_. No_File) demo_cells"

definition demo_moves :: "pool_move list" where
  "demo_moves =
     [Main_Spawns] @ replicate 6 (Worker_Moves 0 (demo_obs (Some demo_oom)))
     @ replicate 11 (Worker_Moves 0 (demo_obs (Some demo_ok))) @ [Worker_Moves 1 (demo_obs None)]"

lemma demo_run:
  obtains s where "run_path (pool_step demo_cfg) (init_pool demo_cfg (Some 1) (\<lambda>_. No_File) demo_cells) demo_moves = Some s"
    "pool_joined s" "list_all (\<lambda>w. w = Exited) (cp_workers s)"
    "map (\<lambda>kr. (fst kr, cr_status (snd kr), cr_retries (snd kr))) (cp_results s) = [(''b'', ''ok'', 0), (''a'', ''ok'', 1)]"
proof -
  have "map_option (\<lambda>s. (pool_joined s, list_all (\<lambda>w. w = Exited) (cp_workers s),
        map (\<lambda>kr. (fst kr, cr_status (snd kr), cr_retries (snd kr))) (cp_results s)))
      (run_path (pool_step demo_cfg) demo_start demo_moves)
     = Some (True, True, [(''b'', ''ok'', 0), (''a'', ''ok'', 1)])"
    by code_simp
  with that show thesis by (auto simp: demo_start_def)
qed

lemma demo_gpus: "mc_gpus demo_cfg \<noteq> []" "distinct (mc_gpus demo_cfg)"
  by (simp_all add: demo_cfg_def)

text \<open>C7. Cards are never shared: at every moment of every interleaving each card of the pool is free or
  held by exactly one attempt, an attempt holds as many as its cell asked for, cut to the pool, and no
  more attempts run at a time than there are cards.\<close>

theorem matrix_cards_exclusive:
  assumes gpus: "mc_gpus cfg \<noteq> []" "distinct (mc_gpus cfg)"
    and run: "run_path (pool_step cfg) (init_pool cfg mp mf cells) ms = Some s"
  shows "distinct (cp_free s @ concat (map held (cp_workers s))) \<and>
     set (cp_free s @ concat (map held (cp_workers s))) = set (mc_gpus cfg) \<and>
     (\<forall>c n g. Running c n g \<in> set (cp_workers s) \<longrightarrow> length g = cell_cards cfg c) \<and>
     length (filter is_running (cp_workers s)) \<le> length (mc_gpus cfg)"
proof -
  note inv = run_inv_init [OF gpus(1) run, unfolded pool_inv_def cards_conserved_def]
  let ?all = "cp_free s @ concat (map held (cp_workers s))"
  have cards: "mset ?all = mset (mc_gpus cfg)" using inv by (simp add: mset_concat_held)
  have lens: "length g = cell_cards cfg c" if "Running c n g \<in> set (cp_workers s)" for c n g
    using inv that by (force simp: list_all_iff)
  have "held w \<noteq> []" if "w \<in> set (cp_workers s)" "is_running w" for w
  proof (cases w)
    case (Running c n g)
    with lens that cell_gpu_count_pos show ?thesis by (metis cell_cards_def held.simps(1) length_greater_0_conv)
  qed (use that in \<open>simp_all add: is_running_def\<close>)
  then have "list_all (\<lambda>w. held w \<noteq> []) (filter is_running (cp_workers s))" by (simp add: list_all_iff)
  then have "length (filter is_running (cp_workers s)) \<le> length ?all"
    using length_concat_ge [of held is_running "cp_workers s"] by simp
  with cards lens gpus(2) show ?thesis
    by (metis (no_types, lifting) mset_eq_imp_distinct_iff mset_eq_setD size_mset)
qed

theorem matrix_cards_exclusive_witness:
  "\<exists>s. run_path (pool_step demo_cfg) (init_pool demo_cfg (Some 1) (\<lambda>_. No_File) demo_cells) demo_moves = Some s \<and>
     distinct (cp_free s @ concat (map held (cp_workers s)))"
  using demo_run matrix_cards_exclusive [OF demo_gpus] by metis

text \<open>C8. Whatever the threads' interleaving, a run of the matrix makes a bounded number of moves; it can
  only stop with every thread ended, so no set of waiting workers blocks itself; and from
  every state it can be completed.\<close>

theorem matrix_runs_to_end:
  assumes "mc_gpus cfg \<noteq> []" "run_path (pool_step cfg) (init_pool cfg mp mf cells) ms = Some s"
  shows "length ms \<le> 2 * worker_count mp (length (mc_gpus cfg)) + 8 * (nat (mc_max_oom_retries cfg) + 1) * length cells \<and>
     ((\<forall>m. pool_step cfg s m = None) \<longrightarrow> pool_joined s) \<and>
     (\<exists>ms' s'. run_path (pool_step cfg) s ms' = Some s' \<and> pool_joined s')"
  using matrix.run_bounded [OF pool_inv_init [OF assms(1)] assms(2)]
    matrix.blocked_is_finished [OF run_inv_init [OF assms]] matrix.can_finish [OF run_inv_init [OF assms]]
  by (simp add: pool_rank_init)

theorem matrix_runs_to_end_witness:
  "\<exists>s. run_path (pool_step demo_cfg) (init_pool demo_cfg (Some 1) (\<lambda>_. No_File) demo_cells) demo_moves = Some s \<and>
     (\<exists>ms' s'. run_path (pool_step demo_cfg) s ms' = Some s' \<and> pool_joined s')"
  using demo_run matrix_runs_to_end [OF demo_gpus(1)] by metis

lemma keys_fill_missing: "fst ` set (fill_missing cells res) = fst ` set res \<union> cell_id_of ` set cells"
  unfolding fill_missing_def by (induction cells arbitrary: res) (auto simp: keys_alist_update)

lemma distinct_fill_missing: "distinct (map fst res) \<Longrightarrow> distinct (map fst (fill_missing cells res))"
  unfolding fill_missing_def by (induction cells arbitrary: res) (auto intro: distinct_update)

lemma fill_nothing_missing: "cell_id_of ` set cells \<subseteq> fst ` set res \<Longrightarrow> fill_missing cells res = res"
  unfolding fill_missing_def by (induction cells arbitrary: res) auto

lemma map_fst_matrix_out: "map fst (matrix_out cells s) = map fst (fill_missing cells (cp_results s))"
  by (simp add: matrix_out_def comp_def case_prod_beta)

lemma joined_results_complete:
  assumes inv: "pool_inv cfg cells s" and "pool_joined s" and alive: "list_all (\<lambda>w. \<forall>c. w \<noteq> Died c) (cp_workers s)"
  shows "cell_id_of ` set cells \<subseteq> fst ` set (cp_results s)"
proof -
  have ex: "w = Exited" if "w \<in> set (cp_workers s)" for w
    using assms(2) alive that by (cases w) (auto simp: pool_joined_def list_all_iff)
  with inv assms(2) have "cp_queue s = []"
    by (auto simp: pool_inv_def watched_def pool_joined_def list_ex_iff)
  moreover have "\<not> list_ex (carries c) (cp_workers s)" for c using ex by (fastforce simp: list_ex_iff)
  ultimately show ?thesis using inv by (auto simp: pool_inv_def accounted_def list_all_iff)
qed

text \<open>When the threads have ended, the answer has exactly one entry per cell id; if no worker died of an
  exception, every entry is the result a worker recorded, with one of the seven statuses and at
  most the allowed number of retries.\<close>

theorem matrix_answers_every_cell:
  assumes "mc_gpus cfg \<noteq> []" "run_path (pool_step cfg) (init_pool cfg mp mf cells) ms = Some s" "pool_joined s"
  shows "distinct (map fst (matrix_out cells s)) \<and> set (map fst (matrix_out cells s)) = cell_id_of ` set cells \<and>
     (list_all (\<lambda>w. \<forall>c. w \<noteq> Died c) (cp_workers s) \<longrightarrow>
        fill_missing cells (cp_results s) = cp_results s \<and>
        list_all (\<lambda>kr. int (cr_retries (snd kr)) \<le> max 0 (mc_max_oom_retries cfg) \<and>
                       cr_status (snd kr) \<in> WORKER_STATUSES) (cp_results s))"
proof -
  note inv = run_inv_init [OF assms(1,2)]
  then have res: "distinct (map fst (cp_results s))" "list_all (result_ok cfg cells) (cp_results s)"
    by (simp_all add: pool_inv_def)
  then have "fst ` set (cp_results s) \<subseteq> cell_id_of ` set cells" by (force simp: list_all_iff result_ok_def)
  then have "set (map fst (matrix_out cells s)) = cell_id_of ` set cells"
    unfolding map_fst_matrix_out by (auto simp: keys_fill_missing)
  moreover have "fill_missing cells (cp_results s) = cp_results s" if "list_all (\<lambda>w. \<forall>c. w \<noteq> Died c) (cp_workers s)"
    using joined_results_complete [OF inv assms(3) that] by (rule fill_nothing_missing)
  ultimately show ?thesis
    using res by (auto simp: map_fst_matrix_out distinct_fill_missing list_all_iff result_ok_def)
qed

theorem matrix_answers_every_cell_witness:
  "\<exists>s. run_path (pool_step demo_cfg) (init_pool demo_cfg (Some 1) (\<lambda>_. No_File) demo_cells) demo_moves = Some s \<and>
     set (map fst (matrix_out demo_cells s)) = {''a'', ''b''} \<and> fill_missing demo_cells (cp_results s) = cp_results s"
proof -
  obtain s where s: "run_path (pool_step demo_cfg) (init_pool demo_cfg (Some 1) (\<lambda>_. No_File) demo_cells) demo_moves = Some s"
    "pool_joined s" "list_all (\<lambda>w. w = Exited) (cp_workers s)" by (rule demo_run)
  then have "list_all (\<lambda>w. \<forall>c. w \<noteq> Died c) (cp_workers s)" by (auto simp: list_all_iff)
  moreover have "cell_id_of ` set demo_cells = {''a'', ''b''}" by (simp add: demo_cells_def cell_id_of_def)
  ultimately show ?thesis using s(1) matrix_answers_every_cell [OF demo_gpus(1) s(1,2)] by auto
qed

text \<open>The number of workers is not the bound on concurrency: a worker whose cell ran out of memory starts
  another worker and goes on itself, so with \<open>max_parallel = 1\<close> two attempts run at once.\<close>

theorem concurrency_exceeds_max_parallel:
  "\<exists>ms s. run_path (pool_step demo_cfg) (init_pool demo_cfg (Some 1) (\<lambda>_. No_File) demo_cells) ms = Some s
     \<and> length (filter is_running (cp_workers s)) = 2"
proof -
  let ?o = "demo_obs (Some demo_oom)"
  let ?ms = "Main_Spawns # map (\<lambda>i. Worker_Moves i ?o) [0, 0, 0, 0, 0, 0, 0, 0, 0, 1, 1, 1]"
  have "map_option (\<lambda>s. length (filter is_running (cp_workers s)))
     (run_path (pool_step demo_cfg) (init_pool demo_cfg (Some 1) (\<lambda>_. No_File) demo_cells) ?ms) = Some 2"
    by code_simp
  then show ?thesis by (metis (no_types, lifting) map_option_eq_Some)
qed

end
