(* ===== verification/Forced_Iteration.thy ===== *)
theory Forced_Iteration
  imports Cell_Scheduler
begin

text \<open>
  The policy that refuses a final answer, \<^verbatim>\<open>src/backend/agents/rlm/forced_iteration.py\<close>, with the stage
  helper \<^verbatim>\<open>src/backend/agents/rlm/root_progress.py\<close> and the callback \<^verbatim>\<open>run.py\<close> installs against
  degenerate loops.

  \<open>fip_cfg\<close> holds what is wired at construction, \<open>fip\<close> the fields that change, \<open>final_obs\<close>
  what the callables return while one call of \<open>FINAL_VAR\<close> is decided: the clock, the iteration, the
  rubric, the gates, the evidence fingerprint. The callables that the code does not guard return. A
  refusal is its kind with the numbers its message shows; the wording is left out. A missing callable
  and one that returns \<open>None\<close> are told apart only where the code does.
\<close>

section \<open>Stages\<close>

definition infer_required_stage :: "bool \<Rightarrow> bool \<Rightarrow> nat \<Rightarrow> nat \<Rightarrow> string" where
  "infer_required_stage code_path_exists env_built total_run_experiments total_verifications =
     (if \<not> code_path_exists then ''need_baseline''
      else if \<not> env_built then ''need_environment''
      else if total_run_experiments = 0 then ''need_experiment''
      else if total_verifications = 0 then ''need_verification''
      else ''can_finalize'')"

section \<open>State\<close>

definition WALL_CLOCK_FLOOR_S :: real where "WALL_CLOCK_FLOOR_S = 60"

definition MAX_REFUSALS_PER_RUN :: nat where "MAX_REFUSALS_PER_RUN = 16"

definition TERMINAL_FAILURE_CLASSES :: "string list" where
  "TERMINAL_FAILURE_CLASSES =
     [''oom_shrink_exhausted'', ''capacity_exhausted'', ''budget_exhausted'', ''root_degenerate_loop'', ''repair_exhausted'']"

definition FAILURE_OUTCOMES :: "string list" where
  "FAILURE_OUTCOMES = [''repairable'', ''partial_evidence'', ''fatal'']"

record fip_cfg =
  fc_min_iterations :: int
  fc_max_rlm_iterations :: "int option"
  fc_fix_first :: bool
  fc_repair_max :: int
  fc_noprogress_limit :: nat
  fc_claim_gate :: bool
  fc_degenerate_callback :: bool
  fc_degenerate_threshold :: int
  fc_env :: environ

record fip =
  fi_refusal_count :: nat
  fi_repair_iter_count :: nat
  fi_last_repair_failure_class :: "string option"
  fi_terminal_failure_class :: "string option"
  fi_last_repair_fingerprint :: "string option"
  fi_repair_noprogress_count :: nat
  fi_noprogress_refusals :: nat
  fi_last_refusal_signature :: "string option"
  fi_degenerate_fired :: bool
  fi_pending_code :: string
  fi_pending_signature :: "string option"
  fi_experiments_in_iteration :: "string list"
  fi_total_run_experiments :: nat

definition new_policy :: fip where
  "new_policy = \<lparr>fi_refusal_count = 0, fi_repair_iter_count = 0, fi_last_repair_failure_class = None,
     fi_terminal_failure_class = None, fi_last_repair_fingerprint = None, fi_repair_noprogress_count = 0,
     fi_noprogress_refusals = 0, fi_last_refusal_signature = None, fi_degenerate_fired = False,
     fi_pending_code = ''forced_iteration'', fi_pending_signature = None, fi_experiments_in_iteration = [],
     fi_total_run_experiments = 0\<rparr>"

record final_obs =
  fo_remaining :: "real option"
  fo_iteration :: "int option"
  fo_rubric :: "(real option \<times> real option) option"
  fo_honest :: "int option"
  fo_validator :: "(bool \<times> string) option"
  fo_claim :: "(bool \<times> string) option"
  fo_fingerprint :: "string option"
  fo_stage :: "string option"
  fo_aborts :: bool

datatype refusal =
    No_Experiment int "string option"
  | Validator_Veto string
  | Claim_Veto string
  | Repair_Floor string nat int
  | No_Rubric int int
  | Hard_No_Rubric int
  | Below_Target real real int int
  | No_Honest_Candidate real real
  | Hard_Below_Target real real
  | Two_Experiments string

datatype policy_error = Env_Value_Error

section \<open>Environment variables\<close>

definition isdigit_text :: "string \<Rightarrow> bool" where
  "isdigit_text s \<longleftrightarrow> s \<noteq> [] \<and> list_all (\<lambda>c. py_digit c \<or> (of_char c :: nat) \<in> {178, 179, 185}) s"

text \<open>\<open>int(raw) if raw.isdigit() and int(raw) > 0 else default\<close>; \<open>int\<close> refuses the superscripts
  that \<open>isdigit\<close> lets through.\<close>

definition positive_int_env :: "environ \<Rightarrow> string \<Rightarrow> 'd \<Rightarrow> (int \<Rightarrow> 'd) \<Rightarrow> policy_error + 'd" where
  "positive_int_env env name dflt mk =
     (let raw = py_strip (environ_get env name []) in
      if isdigit_text raw
      then case int_text raw of None \<Rightarrow> Inl Env_Value_Error | Some n \<Rightarrow> Inr (if n > 0 then mk n else dflt)
      else Inr dflt)"

definition default_degenerate_threshold :: "environ \<Rightarrow> policy_error + int" where
  "default_degenerate_threshold env = positive_int_env env ''OPENRESEARCH_DEGENERATE_REFUSAL_THRESHOLD'' 3 id"

definition default_repair_max :: "environ \<Rightarrow> policy_error + int" where
  "default_repair_max env = positive_int_env env ''OPENRESEARCH_REPAIR_MAX_ITERATIONS'' 4 id"

definition max_rlm_iterations :: "fip_cfg \<Rightarrow> policy_error + int option" where
  "max_rlm_iterations cfg =
     (case fc_max_rlm_iterations cfg of
        Some n \<Rightarrow> Inr (Some n)
      | None \<Rightarrow> positive_int_env (fc_env cfg) ''OPENRESEARCH_MAX_RLM_ITERATIONS'' None Some)"

definition min_repair_iterations :: "environ \<Rightarrow> policy_error + int" where
  "min_repair_iterations env =
     (case int_text (environ_get env ''OPENRESEARCH_MIN_REPAIR_ITERATIONS'' ''2'') of
        None \<Rightarrow> Inl Env_Value_Error
      | Some n \<Rightarrow> Inr n)"

definition floor_hard :: "environ \<Rightarrow> bool" where
  "floor_hard env \<longleftrightarrow> py_strip (environ_get env ''REPROLAB_FLOOR_HARD'' []) \<in> set [''1'', ''true'', ''yes'']"

section \<open>Repairs\<close>

definition record_repair_attempt :: "fip_cfg \<Rightarrow> string option \<Rightarrow> string \<Rightarrow> fip \<Rightarrow> fip" where
  "record_repair_attempt cfg fp failure_class s =
     (let s1 = s\<lparr>fi_repair_iter_count := fi_repair_iter_count s + 1\<rparr>;
          s2 = (if fc_fix_first cfg then
                  let same_class = (fi_last_repair_failure_class s1 = Some failure_class);
                      unchanged = (fp \<noteq> None \<and> fp = fi_last_repair_fingerprint s1);
                      s' = s1\<lparr>fi_repair_noprogress_count :=
                               (if same_class \<and> unchanged then fi_repair_noprogress_count s1 + 1 else 0),
                             fi_last_repair_fingerprint := fp\<rparr>
                  in if int (fi_repair_iter_count s') \<ge> fc_repair_max cfg
                        \<or> fi_repair_noprogress_count s' \<ge> fc_noprogress_limit cfg
                     then s'\<lparr>fi_terminal_failure_class := Some ''repair_exhausted''\<rparr> else s'
                else s1)
      in s2\<lparr>fi_last_repair_failure_class := Some failure_class\<rparr>)"

definition clear_repair_trigger :: "fip_cfg \<Rightarrow> fip \<Rightarrow> fip" where
  "clear_repair_trigger cfg s =
     (if \<not> fc_fix_first cfg then s
      else s\<lparr>fi_last_repair_failure_class := None, fi_repair_iter_count := 0, fi_repair_noprogress_count := 0,
             fi_last_repair_fingerprint := None\<rparr>)"

definition note_terminal_failure :: "string \<Rightarrow> fip \<Rightarrow> fip" where
  "note_terminal_failure failure_class s = s\<lparr>fi_terminal_failure_class := Some failure_class\<rparr>"

section \<open>Refusing\<close>

type_synonym fip_decision = "policy_error + refusal option \<times> fip"

definition accept :: "fip \<Rightarrow> fip_decision" where
  "accept s = Inr (None, s)"

definition refuse :: "string \<Rightarrow> refusal \<Rightarrow> fip \<Rightarrow> fip_decision" where
  "refuse signature r s = Inr (Some r, s\<lparr>fi_pending_signature := Some signature\<rparr>)"

definition refuse_coded :: "string \<Rightarrow> string \<Rightarrow> refusal \<Rightarrow> fip \<Rightarrow> fip_decision" where
  "refuse_coded code signature r s = refuse signature r (s\<lparr>fi_pending_code := code\<rparr>)"

definition build_repair_refusal :: "int \<Rightarrow> fip \<Rightarrow> fip_decision" where
  "build_repair_refusal min_repair s =
     refuse_coded ''forced_repair_iteration'' ''repair_floor''
       (Repair_Floor (case fi_last_repair_failure_class s of Some c \<Rightarrow> if c = [] then ''unknown'' else c | None \<Rightarrow> ''unknown'')
          (fi_repair_iter_count s) min_repair) s"

definition or_zero_iteration :: "final_obs \<Rightarrow> int" where
  "or_zero_iteration obs = (case fo_iteration obs of Some i \<Rightarrow> i | None \<Rightarrow> 0)"

definition terminal_class :: "fip \<Rightarrow> string option" where
  "terminal_class s =
     (case fi_terminal_failure_class s of
        Some c \<Rightarrow> if c = [] then fi_last_repair_failure_class s else Some c
      | None \<Rightarrow> fi_last_repair_failure_class s)"

definition is_terminal :: "fip \<Rightarrow> bool" where
  "is_terminal s \<longleftrightarrow> (case terminal_class s of Some c \<Rightarrow> c \<in> set TERMINAL_FAILURE_CLASSES | None \<Rightarrow> False)"

definition budget_reached :: "int option \<Rightarrow> final_obs \<Rightarrow> bool" where
  "budget_reached max_iter obs \<longleftrightarrow>
     (case (max_iter, fo_iteration obs) of (Some m, Some cur) \<Rightarrow> m > 0 \<and> cur \<ge> m | _ \<Rightarrow> False)"

text \<open>Whether a repair is still demanded.\<close>

definition repair_refuse :: "fip_cfg \<Rightarrow> int \<Rightarrow> fip \<Rightarrow> bool" where
  "repair_refuse cfg min_repair s \<longleftrightarrow>
     fi_last_repair_failure_class s \<noteq> None \<and>
     (min_repair > 0 \<and> int (fi_repair_iter_count s) < min_repair \<or>
      fc_fix_first cfg \<and> int (fi_repair_iter_count s) < fc_repair_max cfg \<and>
      fi_repair_noprogress_count s < fc_noprogress_limit cfg)"

text \<open>From the rubric on: checks 1 to 5.\<close>

definition rubric_decision :: "fip_cfg \<Rightarrow> final_obs \<Rightarrow> int \<Rightarrow> fip \<Rightarrow> fip_decision" where
  "rubric_decision cfg obs min_repair s =
     (let rr = repair_refuse cfg min_repair s; cur = or_zero_iteration obs; mi = fc_min_iterations cfg in
      if mi \<le> 0 then (if rr then build_repair_refusal min_repair s else accept s)
      else case (case fo_rubric obs of None \<Rightarrow> (None, None) | Some st \<Rightarrow> st) of
        (Some score, Some target) \<Rightarrow>
          if score \<ge> target then accept s
          else if cur < mi then refuse ''below_target'' (Below_Target score target cur mi) s
          else if fo_honest obs = Some 0 then refuse ''below_target'' (No_Honest_Candidate score target) s
          else if rr then build_repair_refusal min_repair s
          else if floor_hard (fc_env cfg) then refuse_coded ''floor_hard'' ''below_target'' (Hard_Below_Target score target) s
          else accept s
      | _ \<Rightarrow>
          if rr then build_repair_refusal min_repair s
          else if cur < mi then refuse ''no_rubric'' (No_Rubric cur mi) s
          else if floor_hard (fc_env cfg) then refuse_coded ''floor_hard'' ''no_rubric'' (Hard_No_Rubric cur) s
          else accept s)"

definition exhausted :: "fip \<Rightarrow> bool" where
  "exhausted s \<longleftrightarrow> fi_terminal_failure_class s = Some ''repair_exhausted''"

text \<open>A gate that vetoes: the repair is counted, and the veto holds unless that exhausted the repairs.\<close>

definition vetoed :: "fip_cfg \<Rightarrow> final_obs \<Rightarrow> string \<Rightarrow> refusal \<Rightarrow> fip \<Rightarrow> fip_decision" where
  "vetoed cfg obs failure_class r s =
     (let s' = record_repair_attempt cfg (fo_fingerprint obs) failure_class s in
      if exhausted s' then accept s' else refuse_coded ''forced_repair_iteration'' ''repair_floor'' r s')"

definition claim_gate_passed :: "fip_cfg \<Rightarrow> fip \<Rightarrow> fip" where
  "claim_gate_passed cfg s =
     (if fc_claim_gate cfg \<and> \<not> exhausted s \<and> fi_last_repair_failure_class s = Some ''report_claim''
      then clear_repair_trigger cfg s else s)"

definition gates_then_rubric :: "fip_cfg \<Rightarrow> final_obs \<Rightarrow> fip \<Rightarrow> fip_decision" where
  "gates_then_rubric cfg obs s =
     (case (if exhausted s then None else fo_validator obs) of
        Some (True, directive) \<Rightarrow> vetoed cfg obs ''validator_veto'' (Validator_Veto directive) s
      | _ \<Rightarrow>
          (case (if fc_claim_gate cfg \<and> \<not> exhausted s then fo_claim obs else None) of
             Some (True, directive) \<Rightarrow> vetoed cfg obs ''report_claim'' (Claim_Veto directive) s
           | _ \<Rightarrow>
               (case min_repair_iterations (fc_env cfg) of
                  Inl e \<Rightarrow> Inl e
                | Inr min_repair \<Rightarrow> rubric_decision cfg obs min_repair (claim_gate_passed cfg s))))"

definition near_wall_clock :: "final_obs \<Rightarrow> bool" where
  "near_wall_clock obs \<longleftrightarrow> (case fo_remaining obs of Some r \<Rightarrow> r \<le> WALL_CLOCK_FLOOR_S | None \<Rightarrow> False)"

definition should_refuse :: "fip_cfg \<Rightarrow> final_obs \<Rightarrow> fip \<Rightarrow> fip_decision" where
  "should_refuse cfg obs s0 =
     (let s = s0\<lparr>fi_pending_signature := None\<rparr> in
      if near_wall_clock obs then accept s
      else if is_terminal s then accept s
      else case max_rlm_iterations cfg of
        Inl e \<Rightarrow> Inl e
      | Inr max_iter \<Rightarrow>
          if budget_reached max_iter obs then accept (s\<lparr>fi_pending_code := ''iteration_budget_exceeded''\<rparr>)
          else if fi_refusal_count s \<ge> MAX_REFUSALS_PER_RUN then accept s
          else if fi_total_run_experiments s = 0
          then refuse ''no_experiment'' (No_Experiment (or_zero_iteration obs) (fo_stage obs)) s
          else gates_then_rubric cfg obs s)"

section \<open>Progress between refusals\<close>

definition record_state_change :: "fip \<Rightarrow> fip" where
  "record_state_change s =
     s\<lparr>fi_noprogress_refusals := 0, fi_last_refusal_signature := None, fi_degenerate_fired := False\<rparr>"

definition record_run_experiment :: "string \<Rightarrow> fip \<Rightarrow> fip" where
  "record_run_experiment outcome s =
     record_state_change (s\<lparr>fi_experiments_in_iteration := fi_experiments_in_iteration s @ [outcome],
                            fi_total_run_experiments := fi_total_run_experiments s + 1\<rparr>)"

definition on_iteration_advance :: "fip \<Rightarrow> fip" where
  "on_iteration_advance s = s\<lparr>fi_experiments_in_iteration := []\<rparr>"

text \<open>The callback against degenerate loops of \<^verbatim>\<open>run.py\<close>: it drives a step, marks the terminal
  stop, or leaves everything.\<close>

datatype degenerate_action = Drives_One_Step | Early_Abort | No_Action

definition degenerate_callback ::
    "bool \<Rightarrow> bool \<Rightarrow> string option \<Rightarrow> bool \<Rightarrow> real option \<Rightarrow> bool \<Rightarrow> degenerate_action" where
  "degenerate_callback autodrive_enabled oauth_root stage tools remaining already_terminal =
     (let near = (case remaining of Some r \<Rightarrow> r \<le> WALL_CLOCK_FLOOR_S | None \<Rightarrow> False) in
      if autodrive_enabled \<and> oauth_root
         \<and> stage \<in> set [Some ''need_baseline'', Some ''need_environment'', Some ''need_experiment''] \<and> tools
         \<and> \<not> near \<and> \<not> already_terminal
      then Drives_One_Step
      else if near then No_Action
      else if already_terminal then No_Action
      else Early_Abort)"

definition register_refusal :: "fip_cfg \<Rightarrow> final_obs \<Rightarrow> string \<Rightarrow> fip \<Rightarrow> fip" where
  "register_refusal cfg obs signature s =
     (if signature = ''repair_floor'' \<and> fc_fix_first cfg then s
      else
        let s1 = (if fi_last_refusal_signature s = Some signature
                  then s\<lparr>fi_noprogress_refusals := fi_noprogress_refusals s + 1\<rparr>
                  else s\<lparr>fi_last_refusal_signature := Some signature, fi_noprogress_refusals := 1\<rparr>)
        in if fc_degenerate_callback cfg \<and> \<not> fi_degenerate_fired s1
              \<and> int (fi_noprogress_refusals s1) \<ge> fc_degenerate_threshold cfg
           then let s2 = s1\<lparr>fi_degenerate_fired := True\<rparr>
                in if fo_aborts obs then note_terminal_failure ''root_degenerate_loop'' s2 else s2
           else s1)"

section \<open>The interceptor\<close>

definition should_refuse_final_var :: "fip \<Rightarrow> refusal option" where
  "should_refuse_final_var s =
     (if length (fi_experiments_in_iteration s) \<ge> 2 \<and> last (fi_experiments_in_iteration s) \<in> set FAILURE_OUTCOMES
      then Some (Two_Experiments (last (fi_experiments_in_iteration s))) else None)"

datatype final_out = Accepted | Blocked refusal | Escalated string nat "string option"

text \<open>What the root sees of a refusal that was registered.\<close>

definition refusal_out :: "fip_cfg \<Rightarrow> final_obs \<Rightarrow> string \<Rightarrow> refusal \<Rightarrow> fip \<Rightarrow> final_out" where
  "refusal_out cfg obs signature r s =
     (if int (fi_noprogress_refusals s) \<ge> fc_degenerate_threshold cfg
      then Escalated signature (fi_noprogress_refusals s) (fo_stage obs) else Blocked r)"

definition blocked :: "fip_cfg \<Rightarrow> final_obs \<Rightarrow> string \<Rightarrow> refusal \<Rightarrow> fip \<Rightarrow> final_out \<times> fip" where
  "blocked cfg obs signature r s =
     (let s' = register_refusal cfg obs signature (s\<lparr>fi_refusal_count := fi_refusal_count s + 1\<rparr>)
      in (refusal_out cfg obs signature r s', on_iteration_advance s'))"

definition final_var :: "fip_cfg \<Rightarrow> final_obs \<Rightarrow> fip \<Rightarrow> policy_error + final_out \<times> fip" where
  "final_var cfg obs s =
     (case should_refuse_final_var s of
        Some r \<Rightarrow> Inr (blocked cfg obs ''two_experiment_same_iteration'' r s)
      | None \<Rightarrow>
          (case should_refuse cfg obs s of
             Inl e \<Rightarrow> Inl e
           | Inr (None, s') \<Rightarrow> Inr (Accepted, s')
           | Inr (Some r, s') \<Rightarrow>
               Inr (blocked cfg obs (case fi_pending_signature s' of Some g \<Rightarrow> g | None \<Rightarrow> ''forced_iteration'') r s')))"

section \<open>A run of the root\<close>

text \<open>The calls that reach the policy, in the order they take effect. A \<open>FINAL_VAR\<close> whose decision raises
  changes nothing the later decisions read.\<close>

datatype policy_call =
    Final_Var final_obs | Repair_Attempt "string option" string | Clear_Repair | Terminal_Failure string
  | Ran_Experiment string | State_Changed | Turn_Starts

definition policy_step :: "fip_cfg \<Rightarrow> fip \<Rightarrow> policy_call \<Rightarrow> fip" where
  "policy_step cfg s c =
     (case c of
        Final_Var obs \<Rightarrow> (case final_var cfg obs s of Inl e \<Rightarrow> s | Inr (out, s') \<Rightarrow> s')
      | Repair_Attempt fp cls \<Rightarrow> record_repair_attempt cfg fp cls s
      | Clear_Repair \<Rightarrow> clear_repair_trigger cfg s
      | Terminal_Failure cls \<Rightarrow> note_terminal_failure cls s
      | Ran_Experiment outcome \<Rightarrow> record_run_experiment outcome s
      | State_Changed \<Rightarrow> record_state_change s
      | Turn_Starts \<Rightarrow> on_iteration_advance s)"

text \<open>The calls that \<open>should_refuse\<close> refuses.\<close>

definition refused_by_policy :: "fip_cfg \<Rightarrow> fip \<Rightarrow> policy_call \<Rightarrow> bool" where
  "refused_by_policy cfg s c =
     (case c of
        Final_Var obs \<Rightarrow>
          should_refuse_final_var s = None \<and>
          (case should_refuse cfg obs s of Inr (Some r, s') \<Rightarrow> True | _ \<Rightarrow> False)
      | _ \<Rightarrow> False)"

fun policy_refusals :: "fip_cfg \<Rightarrow> fip \<Rightarrow> policy_call list \<Rightarrow> nat" where
  "policy_refusals cfg s [] = 0"
| "policy_refusals cfg s (c # cs) =
     (if refused_by_policy cfg s c then 1 else 0) + policy_refusals cfg (policy_step cfg s c) cs"

lemma refusal_count_simps [simp]:
  "fi_refusal_count (record_repair_attempt cfg fp cls s) = fi_refusal_count s"
  "fi_refusal_count (clear_repair_trigger cfg s) = fi_refusal_count s"
  "fi_refusal_count (note_terminal_failure cls s) = fi_refusal_count s"
  "fi_refusal_count (record_state_change s) = fi_refusal_count s"
  "fi_refusal_count (record_run_experiment oc s) = fi_refusal_count s"
  "fi_refusal_count (on_iteration_advance s) = fi_refusal_count s"
  "fi_refusal_count (register_refusal cfg obs g s) = fi_refusal_count s"
  "fi_refusal_count (claim_gate_passed cfg s) = fi_refusal_count s"
  by (simp_all add: record_repair_attempt_def clear_repair_trigger_def note_terminal_failure_def record_state_change_def
      record_run_experiment_def on_iteration_advance_def register_refusal_def claim_gate_passed_def Let_def)

text \<open>A decision itself leaves the number of refusals alone.\<close>

definition counts :: "nat \<Rightarrow> fip_decision \<Rightarrow> bool" where
  "counts n d \<longleftrightarrow> (case d of Inl e \<Rightarrow> True | Inr rs \<Rightarrow> fi_refusal_count (snd rs) = n)"

lemma counts_simps [simp]:
  "counts n (accept s) \<longleftrightarrow> fi_refusal_count s = n"
  "counts n (refuse g r s) \<longleftrightarrow> fi_refusal_count s = n"
  "counts n (refuse_coded c g r s) \<longleftrightarrow> fi_refusal_count s = n"
  "counts n (build_repair_refusal m s) \<longleftrightarrow> fi_refusal_count s = n"
  "counts n (Inl e)"
  by (simp_all add: counts_def accept_def refuse_def refuse_coded_def build_repair_refusal_def)

lemma rubric_decision_counts [simp]: "counts n (rubric_decision cfg obs m s) \<longleftrightarrow> fi_refusal_count s = n"
  by (auto simp: rubric_decision_def Let_def split: option.split prod.split)

lemma vetoed_counts [simp]: "counts n (vetoed cfg obs cls r s) \<longleftrightarrow> fi_refusal_count s = n"
  by (simp add: vetoed_def Let_def)

lemma gates_count [simp]: "fi_refusal_count s = n \<Longrightarrow> counts n (gates_then_rubric cfg obs s)"
  by (simp add: gates_then_rubric_def split: option.split prod.split sum.split bool.split)

lemma should_refuse_counts: "counts (fi_refusal_count s) (should_refuse cfg obs s)"
  by (simp add: should_refuse_def Let_def split: sum.split)

lemma should_refuse_capped:
  "MAX_REFUSALS_PER_RUN \<le> fi_refusal_count s \<Longrightarrow> should_refuse cfg obs s \<noteq> Inr (Some r, s')"
  by (auto simp: should_refuse_def Let_def accept_def split: sum.split)

lemma blocked_count [simp]: "fi_refusal_count (snd (blocked cfg obs g r s)) = Suc (fi_refusal_count s)"
  by (simp add: blocked_def Let_def)

lemma blocked_counts: "blocked cfg obs g r s = (out, s') \<Longrightarrow> fi_refusal_count s' = Suc (fi_refusal_count s)"
  by (metis blocked_count snd_conv)

lemma refused_step:
  assumes "refused_by_policy cfg s c"
  shows "fi_refusal_count s < MAX_REFUSALS_PER_RUN \<and> fi_refusal_count (policy_step cfg s c) = Suc (fi_refusal_count s)"
proof -
  from assms obtain obs r s' where c: "c = Final_Var obs" "should_refuse_final_var s = None"
    and r: "should_refuse cfg obs s = Inr (Some r, s')"
    by (auto simp: refused_by_policy_def split: policy_call.splits sum.splits prod.splits option.splits)
  have "fi_refusal_count s' = fi_refusal_count s"
    using should_refuse_counts [of s cfg obs] r by (simp add: counts_def)
  moreover have "fi_refusal_count s < MAX_REFUSALS_PER_RUN"
    using should_refuse_capped r by (metis linorder_not_le)
  ultimately show ?thesis using c r
    by (simp add: policy_step_def final_var_def case_prod_beta)
qed

lemma step_count_mono: "fi_refusal_count s \<le> fi_refusal_count (policy_step cfg s c)"
proof (cases c)
  case (Final_Var obs)
  show ?thesis
    using should_refuse_counts [of s cfg obs] Final_Var
    by (auto simp: policy_step_def final_var_def counts_def dest: blocked_counts split: option.split sum.splits prod.split)
qed (simp_all add: policy_step_def)

lemma policy_refusals_left: "policy_refusals cfg s cs \<le> MAX_REFUSALS_PER_RUN - fi_refusal_count s"
proof (induction cs arbitrary: s)
  case (Cons c cs)
  show ?case
  proof (cases "refused_by_policy cfg s c")
    case True
    then have "policy_refusals cfg s (c # cs) = Suc (policy_refusals cfg (policy_step cfg s c) cs)" by simp
    with refused_step [OF True] Cons.IH [of "policy_step cfg s c"] show ?thesis by linarith
  next
    case False
    have "policy_refusals cfg s (c # cs) = policy_refusals cfg (policy_step cfg s c) cs" using False by simp
    also have "\<dots> \<le> MAX_REFUSALS_PER_RUN - fi_refusal_count s"
      using Cons.IH [of "policy_step cfg s c"] step_count_mono [of s cfg c] by linarith
    finally show ?thesis .
  qed
qed simp


text \<open>The check for two experiments in one turn comes before that bound, before the wall-clock floor and
  before the terminal stops: whatever the state, a final answer behind two experiments of the turn the last
  of which failed is refused.\<close>

theorem two_failures_always_refused:
  "\<exists>out s'. final_var cfg obs (record_run_experiment ''fatal'' (record_run_experiment oc s)) = Inr (out, s') \<and> out \<noteq> Accepted"
  by (simp add: final_var_def should_refuse_final_var_def record_run_experiment_def record_state_change_def
      FAILURE_OUTCOMES_def blocked_def refusal_out_def Let_def)

section \<open>When an answer is accepted\<close>

text \<open>One of the reasons to let a run end, whatever it has done.\<close>

definition must_end :: "fip_cfg \<Rightarrow> final_obs \<Rightarrow> fip \<Rightarrow> bool" where
  "must_end cfg obs s \<longleftrightarrow> near_wall_clock obs \<or> is_terminal s \<or>
     (\<exists>m. max_rlm_iterations cfg = Inr m \<and> budget_reached m obs) \<or> MAX_REFUSALS_PER_RUN \<le> fi_refusal_count s"

text \<open>The rubric lets the answer through: no rubric policy, the target reached, or the iteration floor
  reached and, below the target, a candidate tested and no hard floor.\<close>

definition rubric_earned :: "fip_cfg \<Rightarrow> final_obs \<Rightarrow> bool" where
  "rubric_earned cfg obs \<longleftrightarrow>
     fc_min_iterations cfg \<le> 0 \<or>
     (\<exists>score target. fo_rubric obs = Some (Some score, Some target) \<and> target \<le> score) \<or>
     (fc_min_iterations cfg \<le> or_zero_iteration obs \<and> \<not> floor_hard (fc_env cfg) \<and>
      ((\<exists>score target. fo_rubric obs = Some (Some score, Some target)) \<longrightarrow> fo_honest obs \<noteq> Some 0))"

lemma rubric_decision_accepts: "rubric_decision cfg obs m s = Inr (None, s') \<Longrightarrow> rubric_earned cfg obs"
  by (auto simp: rubric_decision_def rubric_earned_def Let_def accept_def refuse_def refuse_coded_def
      build_repair_refusal_def split: if_splits option.splits prod.splits)

lemma vetoed_accepts: "vetoed cfg obs cls r s = Inr (None, s') \<Longrightarrow> exhausted s'"
  by (auto simp: vetoed_def Let_def accept_def refuse_def refuse_coded_def split: if_splits)

lemma gates_accept:
  "gates_then_rubric cfg obs s = Inr (None, s') \<Longrightarrow> exhausted s' \<or> rubric_earned cfg obs"
  by (auto simp: gates_then_rubric_def dest: vetoed_accepts rubric_decision_accepts
      split: option.splits prod.splits sum.splits bool.splits)

lemma accepted_reason:
  assumes "final_var cfg obs s = Inr (Accepted, s')"
  shows "must_end cfg obs s \<or> (0 < fi_total_run_experiments s \<and> (rubric_earned cfg obs \<or> exhausted s'))"
proof -
  let ?t = "s\<lparr>fi_pending_signature := None\<rparr>"
  from assms have "should_refuse cfg obs s = Inr (None, s')"
    by (auto simp: final_var_def blocked_def refusal_out_def Let_def split: option.splits sum.splits prod.splits if_splits)
  moreover have "is_terminal ?t = is_terminal s"
    by (simp add: is_terminal_def terminal_class_def split: option.split)
  ultimately consider "must_end cfg obs s" | "0 < fi_total_run_experiments s" "gates_then_rubric cfg obs ?t = Inr (None, s')"
    by (auto simp: should_refuse_def Let_def must_end_def accept_def refuse_def split: if_splits sum.splits)
  then show ?thesis using gates_accept by cases blast+
qed

text \<open>C24. An answer is accepted only when the run must end, or an experiment was run and either the rubric
  let it through or this very veto of a gate used up the repairs.\<close>

theorem acceptance_explained:
  assumes "final_var cfg obs s = Inr (Accepted, s')"
  shows "must_end cfg obs s \<or> (0 < fi_total_run_experiments s \<and> (rubric_earned cfg obs \<or> exhausted s'))"
  by (rule accepted_reason [OF assms])

text \<open>A concrete policy for the examples: two iterations, fix-first repairs, the detector for loops.\<close>

definition demo_policy :: fip_cfg where
  "demo_policy = \<lparr>fc_min_iterations = 2, fc_max_rlm_iterations = Some 5, fc_fix_first = True, fc_repair_max = 4,
     fc_noprogress_limit = 2, fc_claim_gate = False, fc_degenerate_callback = True, fc_degenerate_threshold = 3,
     fc_env = (\<lambda>_. None)\<rparr>"

definition demo_final :: "real \<Rightarrow> final_obs" where
  "demo_final score = \<lparr>fo_remaining = Some 3600, fo_iteration = Some 1, fo_rubric = Some (Some score, Some (1 / 2)),
     fo_honest = None, fo_validator = None, fo_claim = None, fo_fingerprint = Some ''f'', fo_stage = None,
     fo_aborts = True\<rparr>"

theorem acceptance_explained_witness:
  "\<exists>s'. final_var demo_policy (demo_final (3 / 4)) (record_run_experiment ''success'' new_policy) = Inr (Accepted, s') \<and>
     (must_end demo_policy (demo_final (3 / 4)) (record_run_experiment ''success'' new_policy) \<or>
      (0 < fi_total_run_experiments (record_run_experiment ''success'' new_policy) \<and>
       (rubric_earned demo_policy (demo_final (3 / 4)) \<or> exhausted s')))"
proof -
  have "map_sum id fst (final_var demo_policy (demo_final (3 / 4)) (record_run_experiment ''success'' new_policy)) = Inr Accepted"
    by code_simp
  then obtain s' where "final_var demo_policy (demo_final (3 / 4)) (record_run_experiment ''success'' new_policy) = Inr (Accepted, s')"
    by (auto simp: map_sum_def split: sum.splits)
  with acceptance_explained show ?thesis by blast
qed

lemma terminal_accepted:
  assumes "should_refuse_final_var s = None" "is_terminal s"
  shows "\<exists>s'. final_var cfg obs s = Inr (Accepted, s')"
proof -
  have "is_terminal (s\<lparr>fi_pending_signature := None\<rparr>) = is_terminal s"
    by (simp add: is_terminal_def terminal_class_def split: option.split)
  with assms show ?thesis by (simp add: final_var_def should_refuse_def accept_def Let_def)
qed

lemma exhausted_terminal: "exhausted s \<Longrightarrow> is_terminal s"
  by (simp add: exhausted_def is_terminal_def terminal_class_def TERMINAL_FAILURE_CLASSES_def)

section \<open>Repairs end\<close>

definition repairs :: "fip_cfg \<Rightarrow> (string option \<times> string) list \<Rightarrow> fip \<Rightarrow> fip" where
  "repairs cfg rs s = foldl (\<lambda>s r. record_repair_attempt cfg (fst r) (snd r) s) s rs"

lemma record_repair_attempt_fields [simp]:
  "fi_repair_iter_count (record_repair_attempt cfg fp cls s) = Suc (fi_repair_iter_count s)"
  "fi_experiments_in_iteration (record_repair_attempt cfg fp cls s) = fi_experiments_in_iteration s"
  by (simp_all add: record_repair_attempt_def Let_def)

lemma repairs_fields:
  "fi_repair_iter_count (repairs cfg rs s) = fi_repair_iter_count s + length rs"
  "fi_experiments_in_iteration (repairs cfg rs s) = fi_experiments_in_iteration s"
  unfolding repairs_def by (induction rs arbitrary: s) simp_all

lemma last_repair_exhausts:
  assumes "fc_fix_first cfg" "fc_repair_max cfg \<le> int (fi_repair_iter_count s) + 1"
  shows "exhausted (record_repair_attempt cfg fp cls s)"
  using assms by (simp add: record_repair_attempt_def Let_def exhausted_def)

text \<open>With the fix-first loop, as many repairs as the ceiling allows end the loop: the next final answer is
  accepted, whatever the rubric and the gates say.\<close>

theorem repair_loop_ends:
  assumes "fc_fix_first cfg" "rs \<noteq> []" "fc_repair_max cfg \<le> int (length rs)" "should_refuse_final_var s = None"
  shows "\<exists>s'. final_var cfg obs (repairs cfg rs s) = Inr (Accepted, s')"
proof -
  obtain xs r where rs: "rs = xs @ [r]" using assms(2) by (cases rs rule: rev_cases) auto
  have "exhausted (record_repair_attempt cfg (fst r) (snd r) (repairs cfg xs s))"
    using assms(1,3) by (intro last_repair_exhausts) (simp_all add: repairs_fields rs)
  then have "exhausted (repairs cfg rs s)" by (simp add: repairs_def rs)
  moreover have "should_refuse_final_var (repairs cfg rs s) = None"
    using assms(4) by (simp only: should_refuse_final_var_def repairs_fields)
  ultimately show ?thesis by (blast intro: terminal_accepted exhausted_terminal)
qed

theorem repair_loop_ends_witness:
  "\<exists>s'. final_var demo_policy (demo_final 0) (repairs demo_policy (replicate 4 (None, ''code_error'')) new_policy) = Inr (Accepted, s')"
  by (rule repair_loop_ends) (simp_all add: demo_policy_def should_refuse_final_var_def new_policy_def)

section \<open>Degenerate loops end\<close>

definition refused_again :: "fip_cfg \<Rightarrow> string \<Rightarrow> (final_obs \<times> refusal) list \<Rightarrow> fip \<Rightarrow> fip" where
  "refused_again cfg g rs s = foldl (\<lambda>s r. snd (blocked cfg (fst r) g (snd r) s)) s rs"

definition looping :: "fip_cfg \<Rightarrow> string \<Rightarrow> nat \<Rightarrow> fip \<Rightarrow> bool" where
  "looping cfg g n s \<longleftrightarrow> fi_last_refusal_signature s = Some g \<and> fi_noprogress_refusals s = n \<and>
     fi_experiments_in_iteration s = [] \<and> (fi_degenerate_fired s \<longleftrightarrow> fc_degenerate_threshold cfg \<le> int n) \<and>
     (fi_degenerate_fired s \<longrightarrow> fi_terminal_failure_class s = Some ''root_degenerate_loop'')"

lemma looping_start:
  assumes "fc_degenerate_callback cfg" "\<not> (g = ''repair_floor'' \<and> fc_fix_first cfg)" "fo_aborts obs"
  shows "looping cfg g 1 (snd (blocked cfg obs g r (record_state_change s)))"
  using assms
  by (auto simp: looping_def blocked_def register_refusal_def record_state_change_def on_iteration_advance_def
      note_terminal_failure_def Let_def)

lemma looping_step:
  assumes "looping cfg g n s" "fc_degenerate_callback cfg" "\<not> (g = ''repair_floor'' \<and> fc_fix_first cfg)" "fo_aborts obs"
  shows "looping cfg g (Suc n) (snd (blocked cfg obs g r s))"
  using assms
  by (auto simp: looping_def blocked_def register_refusal_def on_iteration_advance_def note_terminal_failure_def Let_def)

lemma looping_run:
  assumes "fc_degenerate_callback cfg" "\<not> (g = ''repair_floor'' \<and> fc_fix_first cfg)"
    "list_all (\<lambda>r. fo_aborts (fst r)) rs" "rs \<noteq> []"
  shows "looping cfg g (length rs) (refused_again cfg g rs (record_state_change s))"
  using assms(3,4)
proof (induction rs rule: rev_induct)
  case (snoc r rs)
  show ?case
  proof (cases "rs = []")
    case True
    with snoc looping_start [OF assms(1,2)] show ?thesis by (simp add: refused_again_def)
  next
    case False
    with snoc have "looping cfg g (length rs) (refused_again cfg g rs (record_state_change s))" by simp
    with snoc looping_step [OF _ assms(1,2)] show ?thesis by (simp add: refused_again_def)
  qed
qed simp

text \<open>As many refusals of the same kind in a row as the threshold, with nothing done between
  them, mark the run as stuck when the callback aborts it, and the next final answer is accepted.\<close>

theorem degenerate_loop_released:
  assumes "fc_degenerate_callback cfg" "\<not> (g = ''repair_floor'' \<and> fc_fix_first cfg)"
    "list_all (\<lambda>r. fo_aborts (fst r)) rs" "rs \<noteq> []" "fc_degenerate_threshold cfg \<le> int (length rs)"
  shows "\<exists>s'. final_var cfg obs (refused_again cfg g rs (record_state_change s)) = Inr (Accepted, s')"
proof -
  let ?s = "refused_again cfg g rs (record_state_change s)"
  have "looping cfg g (length rs) ?s" by (rule looping_run) (use assms in auto)
  with assms(5) have "is_terminal ?s" "should_refuse_final_var ?s = None"
    by (auto simp: looping_def is_terminal_def terminal_class_def TERMINAL_FAILURE_CLASSES_def should_refuse_final_var_def)
  then show ?thesis by (blast intro: terminal_accepted)
qed

theorem degenerate_loop_released_witness:
  "\<exists>s'. final_var demo_policy (demo_final 0)
     (refused_again demo_policy ''no_experiment'' (replicate 3 (demo_final 0, No_Experiment 1 None))
        (record_state_change new_policy)) = Inr (Accepted, s')"
  by (rule degenerate_loop_released) (simp_all add: demo_policy_def demo_final_def list_all_iff)

end
