(* ===== verification/Best_Attempt.thy ===== *)
theory Best_Attempt
  imports Dead_Training
begin

text \<open>
  The rails against regression between attempts, \<^verbatim>\<open>src/backend/agents/rlm/best_attempt.py\<close>: the best
  prior attempt, the leaves it earned that the latest one lost, the champion of every leaf, and the
  target raised to the best score.

  A project is the list of its attempt directories with what their final report parses to. Python's
  \<open>str\<close> of a JSON value is the argument \<open>pystr\<close>. Infinite values, NaN and integers
  beyond the range of a float are outside the model: a text that spells one counts as not numeric. An exception is the \<open>Inl\<close> of a sum.
\<close>

section \<open>Numbers\<close>

text \<open>\<open>float\<close> of a text: surrounding space, sign, digits with single underscores between them, a
  fraction, an exponent; digits on at least one side of the point.\<close>

definition digits_opt :: "string \<Rightarrow> bool" where
  "digits_opt s \<longleftrightarrow> s = [] \<or> digit_groups s"

definition exponent_ok :: "string \<Rightarrow> bool" where
  "exponent_ok s = digit_groups (snd (eat_one_of ''+-'' s))"

definition no_underscore :: "string \<Rightarrow> string" where
  "no_underscore s = filter (\<lambda>c. c \<noteq> CHR ''_'') s"

definition float_text :: "string \<Rightarrow> real option" where
  "float_text s =
     (let (sg, t) = eat_one_of ''+-'' (py_strip s);
          mant = takeWhile (\<lambda>c. c \<notin> set ''eE'') t; ex = dropWhile (\<lambda>c. c \<notin> set ''eE'') t;
          ds = takeWhile (\<lambda>c. c \<noteq> CHR ''.'') mant; fr = dropWhile (\<lambda>c. c \<noteq> CHR ''.'') mant;
          d = (sg, no_underscore ds, no_underscore fr, no_underscore ex)
      in if digits_opt ds \<and> digits_opt (drop 1 fr) \<and> (ds \<noteq> [] \<or> drop 1 fr \<noteq> []) \<and> (ex = [] \<or> exponent_ok (drop 1 ex))
            \<and> float_finite (decimal_value d)
         then Some (decimal_value d) else None)"

definition float_of_json :: "json \<Rightarrow> real option" where
  "float_of_json j =
     (case j of
        JFloat x \<Rightarrow> Some x
      | JInt i \<Rightarrow> Some (of_int i)
      | JBool b \<Rightarrow> Some (if b then 1 else 0)
      | JStr s \<Rightarrow> float_text s
      | _ \<Rightarrow> None)"

text \<open>\<open>d.get(k)\<close>, with \<open>None\<close> and a missing key alike.\<close>

definition dict_get :: "(string \<times> json) list \<Rightarrow> string \<Rightarrow> json" where
  "dict_get d k = (case map_of d k of None \<Rightarrow> JNull | Some v \<Rightarrow> v)"

fun py_truthy :: "json \<Rightarrow> bool" where
  "py_truthy JNull = False"
| "py_truthy (JBool b) = b"
| "py_truthy (JInt i) = (i \<noteq> 0)"
| "py_truthy (JFloat x) = (x \<noteq> 0)"
| "py_truthy (JStr s) = (s \<noteq> [])"
| "py_truthy (JList l) = (l \<noteq> [])"
| "py_truthy (JDict d) = (d \<noteq> [])"

section \<open>Attempts\<close>

definition project_flag_on :: "environ \<Rightarrow> string \<Rightarrow> bool" where
  "project_flag_on env name \<longleftrightarrow>
     (let v = py_lower (py_strip (environ_get env name [])) in v \<noteq> [] \<and> v \<notin> set [''0'', ''false'', ''off''])"

definition read_report :: "json_file \<Rightarrow> json option" where
  "read_report f = (case f of Json_File j \<Rightarrow> Some j | _ \<Rightarrow> None)"

definition score_of :: "json option \<Rightarrow> real option" where
  "score_of report =
     (case report of
        Some (JDict d) \<Rightarrow>
          (let raw0 = (case dict_get d ''rubric'' of JDict r \<Rightarrow> dict_get r ''overall_score'' | _ \<Rightarrow> JNull);
               raw = (if raw0 = JNull then dict_get d ''overall_score'' else raw0)
           in if raw = JNull then None else float_of_json raw)
      | _ \<Rightarrow> None)"

type_synonym project_attempts = "(string \<times> json_file) list"

record scored_attempt =
  sa_dir :: string
  sa_score :: real
  sa_report :: json

text \<open>The loop of \<open>find_best_attempt\<close> and the list of \<open>_all_scored_attempts\<close>, in the order of the
  sorted directories; \<open>None\<close> is a missing \<^verbatim>\<open>attempts\<close> directory.\<close>

definition scored :: "string \<times> json_file \<Rightarrow> scored_attempt option" where
  "scored a =
     (case read_report (snd a) of
        None \<Rightarrow> None
      | Some r \<Rightarrow> (case score_of (Some r) of None \<Rightarrow> None | Some x \<Rightarrow> Some \<lparr>sa_dir = fst a, sa_score = x, sa_report = r\<rparr>))"

definition all_scored_attempts :: "project_attempts option \<Rightarrow> scored_attempt list" where
  "all_scored_attempts proj =
     (case proj of None \<Rightarrow> [] | Some as \<Rightarrow> List.map_filter scored (sort_key fst as))"

definition better :: "scored_attempt option \<Rightarrow> string \<times> json_file \<Rightarrow> scored_attempt option" where
  "better best a =
     (case scored a of
        None \<Rightarrow> best
      | Some x \<Rightarrow> (case best of None \<Rightarrow> Some x | Some b \<Rightarrow> if sa_score x > sa_score b then Some x else best))"

definition find_best_attempt :: "project_attempts option \<Rightarrow> scored_attempt option" where
  "find_best_attempt proj = (case proj of None \<Rightarrow> None | Some as \<Rightarrow> foldl better None (sort_key fst as))"

definition latest_scored_attempt :: "project_attempts option \<Rightarrow> scored_attempt option" where
  "latest_scored_attempt proj =
     (case proj of
        None \<Rightarrow> None
      | Some as \<Rightarrow> (case List.map_filter scored (rev (sort_key fst as)) of [] \<Rightarrow> None | x # _ \<Rightarrow> Some x))"

section \<open>Leaves\<close>

datatype report_error = Attribute_Error | Type_Error | Value_Error

text \<open>What a \<open>for\<close> loop iterates over; the elements of a text or of a dict are texts.\<close>

definition py_iter :: "json \<Rightarrow> report_error + json list" where
  "py_iter j =
     (case j of
        JList l \<Rightarrow> Inr l
      | JStr s \<Rightarrow> Inr (map (\<lambda>c. JStr [c]) s)
      | JDict d \<Rightarrow> Inr (map (\<lambda>kv. JStr (fst kv)) d)
      | _ \<Rightarrow> Inl Type_Error)"

definition leaf_entry :: "(json \<Rightarrow> string) \<Rightarrow> json \<Rightarrow> (string \<times> (string \<times> json) list) option" where
  "leaf_entry pystr j =
     (case j of
        JDict d \<Rightarrow> if dict_get d ''id'' \<noteq> JNull \<and> dict_get d ''score'' \<noteq> JNull then Some (pystr (dict_get d ''id''), d) else None
      | _ \<Rightarrow> None)"

definition dict_set :: "(string \<times> 'v) list \<Rightarrow> string \<times> 'v \<Rightarrow> (string \<times> 'v) list" where
  "dict_set d kv = AList.update (fst kv) (snd kv) d"

definition leaves :: "(json \<Rightarrow> string) \<Rightarrow> json \<Rightarrow> report_error + (string \<times> (string \<times> json) list) list" where
  "leaves pystr report =
     (case (if py_truthy report then report else JDict []) of
        JDict d \<Rightarrow>
          (case (if py_truthy (dict_get d ''rubric'') then dict_get d ''rubric'' else JDict []) of
             JDict rub \<Rightarrow>
               (let ls = dict_get rub ''leaf_scores'' in
                case py_iter (if py_truthy ls then ls else JList []) of
                  Inl e \<Rightarrow> Inl e
                | Inr js \<Rightarrow> Inr (foldl dict_set [] (List.map_filter (leaf_entry pystr) js)))
           | _ \<Rightarrow> Inl Attribute_Error)
      | _ \<Rightarrow> Inl Attribute_Error)"

record lost_leaf =
  ll_id :: string
  ll_best :: real
  ll_latest :: real
  ll_evidence :: string

definition evidence_text :: "(json \<Rightarrow> string) \<Rightarrow> nat \<Rightarrow> (string \<times> json) list \<Rightarrow> string" where
  "evidence_text pystr n leaf =
     (let j = dict_get leaf ''justification'' in take n (if py_truthy j then pystr j else []))"

definition lost_row ::
    "(json \<Rightarrow> string) \<Rightarrow> real \<Rightarrow> (string \<times> (string \<times> json) list) list \<Rightarrow> string \<times> (string \<times> json) list \<Rightarrow> lost_leaf option" where
  "lost_row pystr min_delta latest_leaves b =
     (case map_of latest_leaves (fst b) of
        None \<Rightarrow> None
      | Some lleaf \<Rightarrow>
          (case (float_of_json (dict_get (snd b) ''score''), float_of_json (dict_get lleaf ''score'')) of
             (Some x, Some y) \<Rightarrow>
               if x - y < min_delta then None
               else Some \<lparr>ll_id = fst b, ll_best = x, ll_latest = y, ll_evidence = evidence_text pystr 200 (snd b)\<rparr>
           | _ \<Rightarrow> None))"

definition leaf_regressions ::
    "(json \<Rightarrow> string) \<Rightarrow> json \<Rightarrow> json \<Rightarrow> nat \<Rightarrow> real \<Rightarrow> report_error + lost_leaf list" where
  "leaf_regressions pystr best_report latest_report top_n min_delta =
     (case leaves pystr best_report of
        Inl e \<Rightarrow> Inl e
      | Inr bl \<Rightarrow>
          (case leaves pystr latest_report of
             Inl e \<Rightarrow> Inl e
           | Inr ll \<Rightarrow> Inr (take top_n (sort_key (\<lambda>r. - (ll_best r - ll_latest r)) (List.map_filter (lost_row pystr min_delta ll) bl)))))"

record champion =
  ch_score :: real
  ch_evidence :: string
  ch_attempt :: string

definition crown ::
    "(json \<Rightarrow> string) \<Rightarrow> string \<Rightarrow> (string \<times> champion) list \<Rightarrow> string \<times> (string \<times> json) list \<Rightarrow> (string \<times> champion) list" where
  "crown pystr dir champs leaf =
     (case float_of_json (dict_get (snd leaf) ''score'') of
        None \<Rightarrow> champs
      | Some sc \<Rightarrow>
          if (case map_of champs (fst leaf) of None \<Rightarrow> True | Some cur \<Rightarrow> sc > ch_score cur)
          then dict_set champs (fst leaf, \<lparr>ch_score = sc, ch_evidence = evidence_text pystr 160 (snd leaf), ch_attempt = dir\<rparr>)
          else champs)"

fun champions_from ::
    "(json \<Rightarrow> string) \<Rightarrow> scored_attempt list \<Rightarrow> (string \<times> champion) list \<Rightarrow> report_error + (string \<times> champion) list" where
  "champions_from pystr [] champs = Inr champs"
| "champions_from pystr (a # as) champs =
     (case leaves pystr (sa_report a) of
        Inl e \<Rightarrow> Inl e
      | Inr ls \<Rightarrow> champions_from pystr as (foldl (crown pystr (sa_dir a)) champs ls))"

definition leaf_champions :: "(json \<Rightarrow> string) \<Rightarrow> project_attempts option \<Rightarrow> report_error + (string \<times> champion) list" where
  "leaf_champions pystr proj = champions_from pystr (all_scored_attempts proj) []"

definition champion_ceiling :: "(json \<Rightarrow> string) \<Rightarrow> project_attempts option \<Rightarrow> report_error + real option" where
  "champion_ceiling pystr proj =
     (case leaf_champions pystr proj of
        Inl e \<Rightarrow> Inl e
      | Inr champs \<Rightarrow>
          Inr (if champs = [] then None
               else Some (sum_list (map (\<lambda>kc. ch_score (snd kc)) champs) / of_nat (length champs))))"

section \<open>Target\<close>

definition floored_target :: "environ \<Rightarrow> project_attempts option \<Rightarrow> real option \<Rightarrow> real option" where
  "floored_target env proj target =
     (if \<not> project_flag_on env ''OPENRESEARCH_TARGET_BEST_FLOOR'' then target
      else case find_best_attempt proj of
        None \<Rightarrow> target
      | Some b \<Rightarrow>
          (case target of
             None \<Rightarrow> Some (sa_score b)
           | Some t \<Rightarrow> if sa_score b > t then Some (sa_score b) else target))"

section \<open>The best attempt\<close>

definition pick_better :: "scored_attempt option \<Rightarrow> scored_attempt \<Rightarrow> scored_attempt option" where
  "pick_better best x = (case best of None \<Rightarrow> Some x | Some b \<Rightarrow> if sa_score x > sa_score b then Some x else best)"

lemma foldl_better: "foldl better best as = foldl pick_better best (List.map_filter scored as)"
  by (induction as arbitrary: best) (auto simp: better_def pick_better_def List.map_filter_simps split: option.split)

lemma find_best_eq: "find_best_attempt proj = foldl pick_better None (all_scored_attempts proj)"
  by (cases proj) (simp_all add: find_best_attempt_def all_scored_attempts_def foldl_better)

definition first_best :: "scored_attempt list \<Rightarrow> scored_attempt option \<Rightarrow> bool" where
  "first_best xs best \<longleftrightarrow>
     (case best of
        None \<Rightarrow> xs = []
      | Some b \<Rightarrow> \<exists>pre post. xs = pre @ b # post \<and> list_all (\<lambda>a. sa_score a < sa_score b) pre \<and>
          list_all (\<lambda>a. sa_score a \<le> sa_score b) post)"

lemma first_bestI:
  "xs = pre @ b # post \<Longrightarrow> list_all (\<lambda>a. sa_score a < sa_score b) pre \<Longrightarrow> list_all (\<lambda>a. sa_score a \<le> sa_score b) post \<Longrightarrow>
     first_best xs (Some b)"
  unfolding first_best_def by (simp only: option.case) blast

lemma pick_better_first:
  assumes "first_best xs best"
  shows "first_best (xs @ [x]) (pick_better best x)"
proof (cases best)
  case None
  with assms show ?thesis
    by (auto simp: first_best_def [of _ None] pick_better_def intro: first_bestI [of _ "[]"])
next
  case (Some b)
  with assms obtain pre post where xs: "xs = pre @ b # post" and lt: "list_all (\<lambda>a. sa_score a < sa_score b) pre"
    and le: "list_all (\<lambda>a. sa_score a \<le> sa_score b) post"
    by (auto simp: first_best_def)
  show ?thesis
  proof (cases "sa_score x > sa_score b")
    case True
    with xs lt le have "list_all (\<lambda>a. sa_score a < sa_score x) xs" by (fastforce simp: list_all_iff)
    with Some True show ?thesis by (auto simp: pick_better_def intro: first_bestI [of _ xs _ "[]"])
  next
    case False
    with xs lt le Some show ?thesis by (auto simp: pick_better_def intro: first_bestI [of _ pre _ "post @ [x]"])
  qed
qed

lemma foldl_pick_better: "first_best xs best \<Longrightarrow> first_best (xs @ ys) (foldl pick_better best ys)"
proof (induction ys arbitrary: xs best)
  case (Cons y ys)
  from Cons.IH [OF pick_better_first [OF Cons.prems]] show ?case by simp
qed simp

text \<open>The best attempt is the first, in the order of the directories, of those with the highest score; there
  is none exactly when no attempt has a score.\<close>

theorem best_attempt_maximal:
  "case find_best_attempt proj of
     None \<Rightarrow> all_scored_attempts proj = []
   | Some b \<Rightarrow> \<exists>pre post. all_scored_attempts proj = pre @ b # post \<and> list_all (\<lambda>a. sa_score a < sa_score b) pre \<and>
       list_all (\<lambda>a. sa_score a \<le> sa_score b) post"
  using foldl_pick_better [of "[]" None "all_scored_attempts proj"]
  by (simp add: find_best_eq first_best_def)

lemma floored_target_eq:
  "floored_target env proj (Some t) =
     Some (if project_flag_on env ''OPENRESEARCH_TARGET_BEST_FLOOR''
           then Max (insert t (sa_score ` set (all_scored_attempts proj))) else t)"
proof -
  have fb: "first_best (all_scored_attempts proj) (find_best_attempt proj)"
    using foldl_pick_better [of "[]" None "all_scored_attempts proj"] by (simp add: find_best_eq first_best_def)
  show ?thesis
  proof (cases "find_best_attempt proj")
    case None
    with fb show ?thesis by (simp add: first_best_def floored_target_def)
  next
    case (Some b)
    with fb have "b \<in> set (all_scored_attempts proj)" "\<forall>a\<in>set (all_scored_attempts proj). sa_score a \<le> sa_score b"
      by (fastforce simp: first_best_def list_all_iff)+
    then have "Max (insert t (sa_score ` set (all_scored_attempts proj))) = max t (sa_score b)"
      by (intro Max_eqI) auto
    with Some show ?thesis by (auto simp: floored_target_def)
  qed
qed

text \<open>With the flag the target becomes the highest of the target and all scores of prior attempts:
  it is never lowered.\<close>

theorem floored_target_is_max:
  "floored_target env proj (Some t) =
     Some (if project_flag_on env ''OPENRESEARCH_TARGET_BEST_FLOOR''
           then Max (insert t (sa_score ` set (all_scored_attempts proj))) else t)"
  by (rule floored_target_eq)

section \<open>Champions\<close>

definition dominates :: "(string \<times> champion) list \<Rightarrow> string \<Rightarrow> real \<Rightarrow> bool" where
  "dominates champs k x \<longleftrightarrow> (\<exists>c. map_of champs k = Some c \<and> x \<le> ch_score c)"

lemma map_of_dict_set [simp]: "map_of (dict_set d kv) k = (if k = fst kv then Some (snd kv) else map_of d k)"
  by (simp add: dict_set_def update_conv')

lemma crown_keeps: "dominates champs k x \<Longrightarrow> dominates (crown pystr dir champs leaf) k x"
  by (auto simp: dominates_def crown_def split: option.splits)

lemma crown_covers:
  "float_of_json (dict_get (snd leaf) ''score'') = Some x \<Longrightarrow> dominates (crown pystr dir champs leaf) (fst leaf) x"
  by (auto simp: dominates_def crown_def split: option.splits)

lemma crowns_keep: "dominates champs k x \<Longrightarrow> dominates (foldl (crown pystr dir) champs ls) k x"
  by (induction ls arbitrary: champs) (simp_all add: crown_keeps)

lemma crowns_cover:
  "leaf \<in> set ls \<Longrightarrow> float_of_json (dict_get (snd leaf) ''score'') = Some x \<Longrightarrow>
     dominates (foldl (crown pystr dir) champs ls) (fst leaf) x"
proof (induction ls arbitrary: champs)
  case (Cons l ls)
  then show ?case by (cases "leaf = l") (simp_all add: crowns_keep crown_covers)
qed simp

lemma champions_keep: "champions_from pystr as champs = Inr champs' \<Longrightarrow> dominates champs k x \<Longrightarrow> dominates champs' k x"
  by (induction pystr as champs rule: champions_from.induct) (auto simp: crowns_keep split: sum.splits)

lemma champions_cover:
  "champions_from pystr as champs = Inr champs' \<Longrightarrow> a \<in> set as \<Longrightarrow> leaves pystr (sa_report a) = Inr ls \<Longrightarrow>
     leaf \<in> set ls \<Longrightarrow> float_of_json (dict_get (snd leaf) ''score'') = Some x \<Longrightarrow> dominates champs' (fst leaf) x"
proof (induction pystr as champs rule: champions_from.induct)
  case (2 pystr b bs champs)
  then obtain ls' where b: "leaves pystr (sa_report b) = Inr ls'"
    "champions_from pystr bs (foldl (crown pystr (sa_dir b)) champs ls') = Inr champs'"
    by (auto split: sum.splits)
  show ?case
  proof (cases "a = b")
    case True
    with 2 b have "dominates (foldl (crown pystr (sa_dir b)) champs ls') (fst leaf) x" by (simp add: crowns_cover)
    with champions_keep [OF b(2)] show ?thesis .
  next
    case False
    with 2 b show ?thesis by simp
  qed
qed simp

text \<open>Where a champion comes from.\<close>

definition earned :: "(json \<Rightarrow> string) \<Rightarrow> scored_attempt list \<Rightarrow> string \<times> champion \<Rightarrow> bool" where
  "earned pystr as kc \<longleftrightarrow>
     (\<exists>a ls leaf. a \<in> set as \<and> leaves pystr (sa_report a) = Inr ls \<and> leaf \<in> set ls \<and> fst leaf = fst kc \<and>
        sa_dir a = ch_attempt (snd kc) \<and> float_of_json (dict_get (snd leaf) ''score'') = Some (ch_score (snd kc)))"

lemma crown_earned:
  assumes "list_all (earned pystr as) champs" "a \<in> set as" "leaves pystr (sa_report a) = Inr ls" "leaf \<in> set ls"
  shows "list_all (earned pystr as) (crown pystr (sa_dir a) champs leaf)"
proof -
  have "list_all (earned pystr as) (dict_set champs (fst leaf, \<lparr>ch_score = x, ch_evidence = e, ch_attempt = sa_dir a\<rparr>))"
    if "float_of_json (dict_get (snd leaf) ''score'') = Some x" for x e
  proof -
    have "earned pystr as (fst leaf, \<lparr>ch_score = x, ch_evidence = e, ch_attempt = sa_dir a\<rparr>)"
      unfolding earned_def
      by (rule exI [of _ a], rule exI [of _ ls], rule exI [of _ leaf]) (use assms(2-4) that in simp)
    with assms(1) set_alist_update show ?thesis by (fastforce simp: dict_set_def list_all_iff)
  qed
  with assms(1) show ?thesis by (simp add: crown_def split: option.split)
qed

lemma crowns_earned:
  assumes "a \<in> set as" "leaves pystr (sa_report a) = Inr ls" "set ms \<subseteq> set ls"
  shows "list_all (earned pystr as) champs \<Longrightarrow> list_all (earned pystr as) (foldl (crown pystr (sa_dir a)) champs ms)"
  using assms(3)
proof (induction ms arbitrary: champs)
  case (Cons m ms)
  with crown_earned [OF Cons.prems(1) assms(1,2)] show ?case by simp
qed simp

lemma champions_earned:
  "champions_from pystr as champs = Inr champs' \<Longrightarrow> set as \<subseteq> set all \<Longrightarrow> list_all (earned pystr all) champs \<Longrightarrow>
     list_all (earned pystr all) champs'"
proof (induction pystr as champs rule: champions_from.induct)
  case (2 pystr a as champs)
  then obtain ls where ls: "leaves pystr (sa_report a) = Inr ls"
    "champions_from pystr as (foldl (crown pystr (sa_dir a)) champs ls) = Inr champs'"
    by (auto split: sum.splits)
  have "list_all (earned pystr all) (foldl (crown pystr (sa_dir a)) champs ls)"
    by (rule crowns_earned [OF _ ls(1) subset_refl]) (use 2 in auto)
  with 2(1) [OF ls] 2(3) show ?case by simp
qed simp

text \<open>Every champion is the score a named attempt earned on that leaf, and no scored attempt has a higher score on
  the leaf.\<close>

theorem champions_are_maximal:
  assumes "leaf_champions pystr proj = Inr champs" "a \<in> set (all_scored_attempts proj)"
    "leaves pystr (sa_report a) = Inr ls" "leaf \<in> set ls" "float_of_json (dict_get (snd leaf) ''score'') = Some x"
  shows "\<exists>c. map_of champs (fst leaf) = Some c \<and> x \<le> ch_score c \<and> earned pystr (all_scored_attempts proj) (fst leaf, c)"
proof -
  note champs = assms(1) [unfolded leaf_champions_def]
  obtain c where c: "map_of champs (fst leaf) = Some c" "x \<le> ch_score c"
    using champions_cover [OF champs assms(2-5)] by (auto simp: dominates_def)
  moreover have "list_all (earned pystr (all_scored_attempts proj)) champs"
    by (rule champions_earned [OF champs]) simp_all
  ultimately show ?thesis by (auto simp: list_all_iff dest: map_of_SomeD)
qed

text \<open>Two attempts on one leaf, for the examples.\<close>

definition demo_leaf :: "real \<Rightarrow> json" where
  "demo_leaf x = JDict [(''id'', JStr ''l''), (''score'', JFloat x)]"

definition demo_report :: "real \<Rightarrow> json" where
  "demo_report x = JDict [(''rubric'', JDict [(''overall_score'', JFloat x), (''leaf_scores'', JList [demo_leaf x])])]"

definition demo_project :: "project_attempts option" where
  "demo_project = Some [(''b'', Json_File (demo_report (1 / 4))), (''a'', Json_File (demo_report (3 / 4)))]"

definition demo_str :: "json \<Rightarrow> string" where
  "demo_str j = (case j of JStr t \<Rightarrow> t | _ \<Rightarrow> ''?'')"

lemma demo_leaves: "leaves demo_str (demo_report x) = Inr [(''l'', [(''id'', JStr ''l''), (''score'', JFloat x)])]"
  by (simp add: leaves_def demo_report_def demo_leaf_def demo_str_def dict_get_def leaf_entry_def py_iter_def
      List.map_filter_simps dict_set_def)

theorem champions_are_maximal_witness:
  "\<exists>champs c. leaf_champions demo_str demo_project = Inr champs \<and> map_of champs ''l'' = Some c \<and> 1 / 4 \<le> ch_score c \<and>
     ch_attempt c = ''a''"
proof -
  have a: "map_sum id (map (\<lambda>kc. (fst kc, ch_attempt (snd kc)))) (leaf_champions demo_str demo_project) = Inr [(''l'', ''a'')]"
    by code_simp
  then obtain champs where champs: "leaf_champions demo_str demo_project = Inr champs"
    "map (\<lambda>kc. (fst kc, ch_attempt (snd kc))) champs = [(''l'', ''a'')]"
    by (auto simp: map_sum_def split: sum.splits)
  have "all_scored_attempts demo_project =
     [\<lparr>sa_dir = ''a'', sa_score = 3 / 4, sa_report = demo_report (3 / 4)\<rparr>,
      \<lparr>sa_dir = ''b'', sa_score = 1 / 4, sa_report = demo_report (1 / 4)\<rparr>]"
    by code_simp
  then have mem: "\<lparr>sa_dir = ''b'', sa_score = 1 / 4, sa_report = demo_report (1 / 4)\<rparr> \<in> set (all_scored_attempts demo_project)"
    by simp
  obtain c where c: "map_of champs ''l'' = Some c" "1 / 4 \<le> ch_score c"
    using champions_are_maximal [OF champs(1) mem, of "[(''l'', [(''id'', JStr ''l''), (''score'', JFloat (1 / 4))])]"
        "(''l'', [(''id'', JStr ''l''), (''score'', JFloat (1 / 4))])" "1 / 4"]
    by (auto simp: demo_leaves dict_get_def float_of_json_def)
  moreover from champs(2) c(1) have "ch_attempt c = ''a''" by (auto dest: map_of_SomeD)
  ultimately show ?thesis using champs(1) by blast
qed

text \<open>A scored report whose rubric is not a dict makes the search for champions raise.\<close>

lemma champions_raise:
  "leaf_champions pystr (Some [(''a'', Json_File (JDict [(''overall_score'', JFloat (1 / 2)), (''rubric'', JList [JNull])]))])
     = Inl Attribute_Error"
  by (simp add: leaf_champions_def all_scored_attempts_def scored_def read_report_def score_of_def dict_get_def
      float_of_json_def leaves_def List.map_filter_simps)

section \<open>Lost leaves\<close>

lemma take_sorted_key: "sorted (map f xs) \<Longrightarrow> sorted (map f (take n xs))"
  by (metis sorted_wrt_take take_map)

text \<open>The list of lost leaves has at most the number of rows asked for, each a leaf of both reports that lost at
  least the given difference, the greatest loss first.\<close>

theorem lost_leaves_sound:
  assumes "leaf_regressions pystr best_report latest_report top_n min_delta = Inr rows"
    "leaves pystr best_report = Inr bl" "leaves pystr latest_report = Inr ll"
  shows "length rows \<le> top_n \<and> sorted (map (\<lambda>r. ll_latest r - ll_best r) rows) \<and>
     list_all (\<lambda>r. min_delta \<le> ll_best r - ll_latest r \<and> ll_id r \<in> fst ` set bl \<and> ll_id r \<in> fst ` set ll) rows"
proof -
  let ?rows = "List.map_filter (lost_row pystr min_delta ll) bl"
  have rows: "rows = take top_n (sort_key (\<lambda>r. ll_latest r - ll_best r) ?rows)"
    using assms by (simp add: leaf_regressions_def)
  have "min_delta \<le> ll_best r - ll_latest r \<and> ll_id r \<in> fst ` set bl \<and> ll_id r \<in> fst ` set ll" if "r \<in> set ?rows" for r
    using that
    by (force simp: List.map_filter_def lost_row_def split: option.splits prod.splits if_splits dest: map_of_SomeD)
  then show ?thesis
    unfolding rows by (auto simp: list_all_iff take_sorted_key dest: in_set_takeD)
qed

theorem lost_leaves_sound_witness:
  "\<exists>rows. leaf_regressions demo_str (demo_report (3 / 4)) (demo_report (1 / 4)) 8 (15 / 100) = Inr rows \<and>
     length rows \<le> 8 \<and> list_all (\<lambda>r. 15 / 100 \<le> ll_best r - ll_latest r) rows"
proof -
  obtain rows where rows: "leaf_regressions demo_str (demo_report (3 / 4)) (demo_report (1 / 4)) 8 (15 / 100) = Inr rows"
    by (simp add: leaf_regressions_def demo_leaves)
  with lost_leaves_sound [OF rows demo_leaves demo_leaves] show ?thesis by (auto simp: list_all_iff)
qed

section \<open>The evidence gate\<close>

text \<open>The veto over the grader's score of a leaf, \<^verbatim>\<open>src/backend/agents/rlm/evidence_gate.py\<close>.\<close>

definition evidence_gate_enabled :: "environ \<Rightarrow> bool" where
  "evidence_gate_enabled env = flag_on (environ_get env ''OPENRESEARCH_LEAF_EVIDENCE_GATE'' [])"

definition str_or_empty :: "(json \<Rightarrow> string) \<Rightarrow> json \<Rightarrow> string" where
  "str_or_empty pystr j = (if py_truthy j then pystr j else [])"

definition leaf_claims_measured_result :: "(json \<Rightarrow> string) \<Rightarrow> (string \<times> json) list \<Rightarrow> bool" where
  "leaf_claims_measured_result pystr leaf =
     (let cat = (if py_truthy (dict_get leaf ''task_category'') then dict_get leaf ''task_category''
                 else dict_get leaf ''finegrained_task_category'');
          category = py_lower (str_or_empty pystr cat);
          check_kind = py_lower (py_strip (str_or_empty pystr (dict_get leaf ''check_kind'')))
      in if py_in ''result'' category \<or> py_in ''metric'' category then True
         else if prefix ''deterministic:numeric'' check_kind then True
         else dict_get leaf ''evidence_required'' = JBool True)"

definition gate_decision :: "real option \<Rightarrow> bool \<Rightarrow> bool \<Rightarrow> real option \<times> bool" where
  "gate_decision score claims_result has_disk_evidence =
     (case score of
        None \<Rightarrow> (None, False)
      | Some x \<Rightarrow>
          if x \<le> 0 then (score, False)
          else if \<not> claims_result then (score, False)
          else if has_disk_evidence then (score, False)
          else (Some 0, True))"

text \<open>The gate never raises a score, never changes one that evidence on disk supports, and after it a positive score of a
  measured result has such evidence.\<close>

lemma gate_sound:
  "gate_decision (Some x) claims disk = (Some y, v) \<Longrightarrow>
     y \<le> x \<and> (disk \<longrightarrow> y = x) \<and> (0 < y \<and> claims \<longrightarrow> disk) \<and> (v \<longleftrightarrow> y \<noteq> x)"
  by (auto simp: gate_decision_def split: if_splits)

end
