(* ===== verification/Leaf_Rollup.thy ===== *)
theory Leaf_Rollup
  imports Best_Attempt
begin

text \<open>
  The weighted tree of a rubric, \<^verbatim>\<open>src/backend/evals/paperbench/leaf_scorer.py\<close>: \<open>flatten_leaves\<close> and
  \<open>roll_up\<close> on the parsed rubric, the tree it stands for, and what the roll-up promises of that tree.

  A node of the rubric is a JSON dict as a list of its entries; \<open>pystr\<close> is Python's \<open>str\<close> of a JSON
  value; the leaf scores are a dict, the skipped leaves a set of ids. An exception is the \<open>Inl\<close> of a
  sum. The depth of Python's stack is not modelled.
\<close>

section \<open>Values\<close>

type_synonym dict = "(string \<times> json) list"

text \<open>A comprehension whose body may raise: the first exception ends it.\<close>

fun traverse :: "('a \<Rightarrow> 'e + 'b) \<Rightarrow> 'a list \<Rightarrow> 'e + 'b list" where
  "traverse f [] = Inr []"
| "traverse f (x # xs) =
     (case f x of Inl e \<Rightarrow> Inl e | Inr y \<Rightarrow> (case traverse f xs of Inl e \<Rightarrow> Inl e | Inr ys \<Rightarrow> Inr (y # ys)))"

lemma traverse_cong [fundef_cong]:
  "xs = ys \<Longrightarrow> (\<And>x. x \<in> set ys \<Longrightarrow> f x = g x) \<Longrightarrow> traverse f xs = traverse g ys"
  by (induction ys arbitrary: xs) (auto split: sum.split)

lemma traverse_map: "(\<And>x. x \<in> set xs \<Longrightarrow> f x = Inr (g x)) \<Longrightarrow> traverse f xs = Inr (map g xs)"
  by (induction xs) auto

lemma traverse_Inr: "traverse f xs = Inr ys \<longleftrightarrow> list_all2 (\<lambda>x y. f x = Inr y) xs ys"
proof (induction xs arbitrary: ys)
  case (Cons x xs)
  show ?case
    by (cases "f x"; cases "traverse f xs") (auto simp: list_all2_Cons1 simp flip: Cons.IH)
qed auto

text \<open>\<open>float(v)\<close>.\<close>

definition py_float :: "json \<Rightarrow> report_error + real" where
  "py_float j =
     (case j of
        JStr s \<Rightarrow> (case float_text s of None \<Rightarrow> Inl Value_Error | Some x \<Rightarrow> Inr x)
      | _ \<Rightarrow> (case float_of_json j of None \<Rightarrow> Inl Type_Error | Some x \<Rightarrow> Inr x))"

definition str_get :: "(json \<Rightarrow> string) \<Rightarrow> dict \<Rightarrow> string \<Rightarrow> string" where
  "str_get pystr d k = (case map_of d k of None \<Rightarrow> [] | Some v \<Rightarrow> pystr v)"

definition score_get :: "(string \<times> real) list \<Rightarrow> string \<Rightarrow> real" where
  "score_get m k = (case map_of m k of None \<Rightarrow> 0 | Some x \<Rightarrow> x)"

section \<open>The tree\<close>

definition as_dict :: "json \<Rightarrow> dict option" where
  "as_dict j = (case j of JDict d \<Rightarrow> Some d | _ \<Rightarrow> None)"

lemma as_dict_SomeD: "as_dict j = Some d \<longleftrightarrow> j = JDict d"
  by (cases j) (auto simp: as_dict_def)

lemma in_map_filter: "y \<in> set (List.map_filter f xs) \<longleftrightarrow> (\<exists>x\<in>set xs. f x = Some y)"
  by (force simp: List.map_filter_def)

lemma map_filter_cong [fundef_cong]:
  "xs = ys \<Longrightarrow> (\<And>x. x \<in> set ys \<Longrightarrow> f x = g x) \<Longrightarrow> List.map_filter f xs = List.map_filter g ys"
  by (induction ys arbitrary: xs) (auto simp: List.map_filter_simps split: option.split)

definition sub_tasks :: "dict \<Rightarrow> report_error + dict list" where
  "sub_tasks node =
     (let v = dict_get node ''sub_tasks'' in
      case py_iter (if py_truthy v then v else JList []) of
        Inl e \<Rightarrow> Inl e
      | Inr js \<Rightarrow> Inr (List.map_filter as_dict js))"

text \<open>A child is smaller than its parent, so the recursion below ends.\<close>

definition dict_size :: "dict \<Rightarrow> nat" where
  "dict_size d = size (JDict d)"

lemma size_dict_entry: "map_of d k = Some v \<Longrightarrow> size v < size (JDict d)"
proof -
  assume "map_of d k = Some v"
  then have "(k, v) \<in> set d" by (rule map_of_SomeD)
  from size_list_estimation' [OF this, of "size v" "size_prod (\<lambda>x. 0) size"] show ?thesis
    by simp
qed

lemma sub_tasks_smaller:
  assumes "sub_tasks node = Inr cs" and "c \<in> set cs"
  shows "dict_size c < dict_size node"
proof -
  from assms obtain l where l: "dict_get node ''sub_tasks'' = JList l" and "JDict c \<in> set l"
    by (auto simp: sub_tasks_def py_iter_def in_map_filter as_dict_SomeD Let_def split: if_splits sum.splits json.splits)
  then have "size (JDict c) < size (JList l)"
    using size_list_estimation' [of "JDict c" l "size (JDict c)" size] by simp
  moreover have "size (JList l) < size (JDict node)"
    using l by (intro size_dict_entry [of node "''sub_tasks''"]) (simp add: dict_get_def split: option.splits)
  ultimately show ?thesis by (simp add: dict_size_def)
qed

function flatten_leaves :: "dict \<Rightarrow> report_error + dict list" where
  "flatten_leaves node =
     (case sub_tasks node of
        Inl e \<Rightarrow> Inl e
      | Inr cs \<Rightarrow>
          if cs = [] then Inr [node]
          else (case traverse flatten_leaves cs of Inl e \<Rightarrow> Inl e | Inr ls \<Rightarrow> Inr (concat ls)))"
  by pat_completeness auto
termination
  by (relation "measure dict_size") (auto intro: sub_tasks_smaller)

definition node_weight :: "dict \<Rightarrow> report_error + real" where
  "node_weight c = (let w = dict_get c ''weight'' in py_float (if py_truthy w then w else JFloat 0))"

definition scored_children :: "dict list \<Rightarrow> real option list \<Rightarrow> (dict \<times> real) list" where
  "scored_children cs rs = List.map_filter (\<lambda>(c, r). map_option (Pair c) r) (zip cs rs)"

function roll_up :: "(json \<Rightarrow> string) \<Rightarrow> dict \<Rightarrow> (string \<times> real) list \<Rightarrow> string set \<Rightarrow> report_error + real option" where
  "roll_up pystr node leaf_scores skip_set =
     (case sub_tasks node of
        Inl e \<Rightarrow> Inl e
      | Inr cs \<Rightarrow>
          if cs = [] then
            (let lid = str_get pystr node ''id'' in
             Inr (if lid \<in> skip_set then None else Some (score_get leaf_scores lid)))
          else
            (case traverse (\<lambda>c. roll_up pystr c leaf_scores skip_set) cs of
               Inl e \<Rightarrow> Inl e
             | Inr rs \<Rightarrow>
                 (let live = scored_children cs rs in
                  if live = [] then Inr None
                  else (case traverse (\<lambda>cs. node_weight (fst cs)) live of
                          Inl e \<Rightarrow> Inl e
                        | Inr ws \<Rightarrow>
                            if sum_list ws = 0 then Inr (Some 0)
                            else Inr (Some (sum_list (map2 (\<lambda>cs w. snd cs * w) live ws) / sum_list ws))))))"
  by pat_completeness auto
termination
  by (relation "measure (\<lambda>(_, node, _, _). dict_size node)") (auto intro: sub_tasks_smaller)

declare flatten_leaves.simps [simp del] roll_up.simps [simp del]

section \<open>The tree a rubric stands for\<close>

datatype rubric = Rubric_Leaf string | Rubric_Node "(real \<times> rubric) list"

function rubric_of :: "(json \<Rightarrow> string) \<Rightarrow> dict \<Rightarrow> report_error + rubric" where
  "rubric_of pystr node =
     (case sub_tasks node of
        Inl e \<Rightarrow> Inl e
      | Inr cs \<Rightarrow>
          if cs = [] then Inr (Rubric_Leaf (str_get pystr node ''id''))
          else (case traverse (rubric_of pystr) cs of
                  Inl e \<Rightarrow> Inl e
                | Inr ts \<Rightarrow> (case traverse node_weight cs of Inl e \<Rightarrow> Inl e | Inr ws \<Rightarrow> Inr (Rubric_Node (zip ws ts)))))"
  by pat_completeness auto
termination
  by (relation "measure (\<lambda>(_, node). dict_size node)") (auto intro: sub_tasks_smaller)

declare rubric_of.simps [simp del]

fun rubric_leaves :: "rubric \<Rightarrow> string list" where
  "rubric_leaves (Rubric_Leaf i) = [i]"
| "rubric_leaves (Rubric_Node cs) = concat (map (\<lambda>wc. rubric_leaves (snd wc)) cs)"

fun weights_pos :: "rubric \<Rightarrow> bool" where
  "weights_pos (Rubric_Leaf i) = True"
| "weights_pos (Rubric_Node cs) = list_all (\<lambda>wc. 0 < fst wc \<and> weights_pos (snd wc)) cs"

fun weights_nonneg :: "rubric \<Rightarrow> bool" where
  "weights_nonneg (Rubric_Leaf i) = True"
| "weights_nonneg (Rubric_Node cs) = list_all (\<lambda>wc. 0 \<le> fst wc \<and> weights_nonneg (snd wc)) cs"

text \<open>The value of a tree, level by level, and the share of the whole that each live leaf has. A level
  without weight has the value 0, as \<open>x / 0 = 0\<close> makes its shares.\<close>

fun tree_value :: "(string \<times> real) list \<Rightarrow> string set \<Rightarrow> rubric \<Rightarrow> real option" where
  "tree_value ls skip (Rubric_Leaf i) = (if i \<in> skip then None else Some (score_get ls i))"
| "tree_value ls skip (Rubric_Node cs) =
     (let live = List.map_filter (\<lambda>wc. map_option (Pair (fst wc)) (tree_value ls skip (snd wc))) cs in
      if live = [] then None
      else Some (sum_list (map (\<lambda>wv. snd wv * fst wv) live) / sum_list (map fst live)))"

definition scale :: "real \<Rightarrow> (string \<times> real) list \<Rightarrow> (string \<times> real) list" where
  "scale k ps = map (\<lambda>(i, a). (i, k * a)) ps"

fun shares :: "string set \<Rightarrow> rubric \<Rightarrow> (string \<times> real) list" where
  "shares skip (Rubric_Leaf i) = (if i \<in> skip then [] else [(i, 1)])"
| "shares skip (Rubric_Node cs) =
     (let whole = sum_list (map fst (filter (\<lambda>wc. shares skip (snd wc) \<noteq> []) cs)) in
      concat (map (\<lambda>wc. scale (fst wc / whole) (shares skip (snd wc))) cs))"

definition weighted_mean :: "(string \<Rightarrow> real) \<Rightarrow> (string \<times> real) list \<Rightarrow> real" where
  "weighted_mean f ps = sum_list (map (\<lambda>(i, a). a * f i) ps)"

section \<open>The roll-up\<close>

lemma live_children:
  fixes v :: "'t \<Rightarrow> real option"
  assumes "traverse node_weight cs = Inr ws" and "length ts = length cs"
  defines "live \<equiv> scored_children cs (map v ts)"
    and "level \<equiv> List.map_filter (\<lambda>wc. map_option (Pair (fst wc)) (v (snd wc))) (zip ws ts)"
  shows "traverse (\<lambda>cs. node_weight (fst cs)) live = Inr (map fst level)" and "map snd live = map snd level"
  using assms(2,1) unfolding live_def level_def
  by (induction ts cs arbitrary: ws rule: list_induct2)
    (auto simp: scored_children_def List.map_filter_simps split: sum.splits option.splits)

lemma map2_snd_times: "map snd xs = map snd ys \<Longrightarrow>
    map2 (\<lambda>c w. snd c * w) xs (map fst ys) = map (\<lambda>wv. snd wv * fst wv) ys"
  by (induction ys arbitrary: xs) auto

lemma roll_up_tree_value:
  "rubric_of pystr node = Inr r \<Longrightarrow> roll_up pystr node ls skip = Inr (tree_value ls skip r)"
proof (induction node arbitrary: r rule: measure_induct_rule [of dict_size])
  case (less node)
  show ?case
  proof (cases "sub_tasks node")
    case (Inr cs)
    show ?thesis
    proof (cases "cs = []")
      case False
      obtain ts ws where ts: "traverse (rubric_of pystr) cs = Inr ts" and ws: "traverse node_weight cs = Inr ws"
        and r: "r = Rubric_Node (zip ws ts)"
        using less.prems Inr False by (subst (asm) rubric_of.simps) (auto split: sum.splits)
      have len: "length ts = length cs" "length ws = length cs"
        using ts ws by (auto simp: traverse_Inr dest: list_all2_lengthD)
      have "traverse (\<lambda>c. roll_up pystr c ls skip) cs = Inr (map (tree_value ls skip) ts)"
        using ts by (auto simp: traverse_Inr list_all2_conv_all_nth intro!: less.IH sub_tasks_smaller [OF Inr])
      moreover define live level where "live = scored_children cs (map (tree_value ls skip) ts)"
        and "level = List.map_filter (\<lambda>wc. map_option (Pair (fst wc)) (tree_value ls skip (snd wc))) (zip ws ts)"
      moreover from live_children [OF ws len(1), where v = "tree_value ls skip"]
      have "traverse (\<lambda>cs. node_weight (fst cs)) live = Inr (map fst level)" and snds: "map snd live = map snd level"
        by (simp_all add: live_def level_def)
      moreover have "live = [] \<longleftrightarrow> level = []" using snds by (metis map_is_Nil_conv)
      moreover have "map2 (\<lambda>c w. snd c * w) live (map fst level) = map (\<lambda>wv. snd wv * fst wv) level"
        using snds by (rule map2_snd_times)
      ultimately show ?thesis using Inr False
        unfolding r roll_up.simps [of pystr node] by (auto simp: Let_def)
    qed (use less.prems Inr in \<open>auto simp: rubric_of.simps roll_up.simps Let_def\<close>)
  qed (use less.prems in \<open>auto simp: rubric_of.simps\<close>)
qed


lemma weighted_mean_Nil [simp]: "weighted_mean h [] = 0"
  by (simp add: weighted_mean_def)

lemma weighted_mean_append [simp]: "weighted_mean h (ps @ qs) = weighted_mean h ps + weighted_mean h qs"
  by (simp add: weighted_mean_def)

lemma weighted_mean_scale [simp]: "weighted_mean h (scale k ps) = k * weighted_mean h ps"
  by (induction ps) (auto simp: weighted_mean_def scale_def algebra_simps)

lemma scale_Nil_iff [simp]: "scale k ps = [] \<longleftrightarrow> ps = []"
  by (simp add: scale_def)

lemma fst_scale [simp]: "map fst (scale k ps) = map fst ps"
  by (simp add: scale_def case_prod_beta comp_def)

lemma weighted_mean_level:
  "weighted_mean h (concat (map (\<lambda>wc. scale (fst wc / k) (f (snd wc))) cs)) =
     sum_list (map (\<lambda>wc. weighted_mean h (f (snd wc)) * fst wc) (filter (\<lambda>wc. f (snd wc) \<noteq> []) cs)) / k"
  by (induction cs) (auto simp: add_divide_distrib)

lemma map_filter_Some_if: "List.map_filter (\<lambda>x. if P x then None else Some (f x)) xs = map f (filter (\<lambda>x. \<not> P x) xs)"
  by (induction xs) (auto simp: List.map_filter_simps)

lemma shares_Nil_iff: "shares skip (Rubric_Node cs) = [] \<longleftrightarrow> filter (\<lambda>wc. shares skip (snd wc) \<noteq> []) cs = []"
  by (auto simp: Let_def filter_empty_conv)

lemma tree_value_shares:
  "tree_value ls skip r = (if shares skip r = [] then None else Some (weighted_mean (score_get ls) (shares skip r)))"
proof (induction r)
  case (Rubric_Node cs)
  have "List.map_filter (\<lambda>wc. map_option (Pair (fst wc)) (tree_value ls skip (snd wc))) cs =
      List.map_filter (\<lambda>wc. if shares skip (snd wc) = [] then None
        else Some (fst wc, weighted_mean (score_get ls) (shares skip (snd wc)))) cs"
    by (rule map_filter_cong) (auto simp: Rubric_Node)
  then show ?case
    unfolding shares_Nil_iff
    by (simp add: map_filter_Some_if Let_def weighted_mean_level comp_def mult.commute)
qed (simp add: weighted_mean_def)


lemma shares_leaves: "map fst (shares skip r) = filter (\<lambda>i. i \<notin> skip) (rubric_leaves r)"
proof (induction r)
  case (Rubric_Node cs)
  have "map fst (shares skip (snd wc)) = filter (\<lambda>i. i \<notin> skip) (rubric_leaves (snd wc))" if "wc \<in> set cs" for wc
    using that Rubric_Node by (metis snds.intros surj_pair snd_conv)
  then show ?case by (simp add: Let_def map_concat filter_concat comp_def cong: map_cong)
qed simp

lemma weighted_mean_mono:
  "(\<And>i a. (i, a) \<in> set ps \<Longrightarrow> 0 \<le> a \<and> f i \<le> g i) \<Longrightarrow> weighted_mean f ps \<le> weighted_mean g ps"
  unfolding weighted_mean_def by (intro sum_list_mono) (auto intro: mult_left_mono)

lemma weighted_mean_const: "weighted_mean (\<lambda>_. k) ps = k * weighted_mean (\<lambda>_. 1) ps"
  by (induction ps) (auto simp: weighted_mean_def algebra_simps)

lemma sum_list_pos: "xs \<noteq> [] \<Longrightarrow> (\<And>x. x \<in> set xs \<Longrightarrow> (0 :: real) < x) \<Longrightarrow> 0 < sum_list xs"
  by (induction xs rule: list_nonempty_induct) (auto intro: add_pos_pos)

lemma level_nonneg:
  "list_all (\<lambda>wc. 0 \<le> fst wc) cs \<Longrightarrow> 0 \<le> sum_list (map fst (filter P cs))" for cs :: "(real \<times> 'b) list"
  by (intro sum_list_nonneg) (auto simp: list_all_iff)

lemma shares_nonneg:
  assumes "weights_nonneg r"
  shows "list_all (\<lambda>p. 0 \<le> snd p) (shares skip r) \<and> weighted_mean (\<lambda>_. 1) (shares skip r) \<le> 1"
  using assms
proof (induction r)
  case (Rubric_Node cs)
  define live where "live = filter (\<lambda>wc. shares skip (snd wc) \<noteq> []) cs"
  have IH: "\<And>i a. (i, a) \<in> set (shares skip (snd wc)) \<Longrightarrow> 0 \<le> a" "weighted_mean (\<lambda>_. 1) (shares skip (snd wc)) \<le> 1"
    and w: "0 \<le> fst wc" if "wc \<in> set cs" for wc
    using that Rubric_Node by (fastforce simp: list_all_iff snds.simps)+
  have le_mult: "x \<le> 1 \<Longrightarrow> 0 \<le> a \<Longrightarrow> x * a \<le> a" for x a :: real
    using mult_right_mono [of x 1 a] by simp
  have W: "0 \<le> sum_list (map fst live)"
    unfolding live_def by (rule level_nonneg) (auto simp: list_all_iff w)
  have "sum_list (map (\<lambda>wc. weighted_mean (\<lambda>_. 1) (shares skip (snd wc)) * fst wc) live) \<le> sum_list (map fst live)"
    by (intro sum_list_mono) (auto simp: live_def intro: le_mult IH w)
  with W have "sum_list (map (\<lambda>wc. weighted_mean (\<lambda>_. 1) (shares skip (snd wc)) * fst wc) live) / sum_list (map fst live) \<le> 1"
    by (auto simp: divide_le_eq_1 order.order_iff_strict)
  moreover have "0 \<le> snd p" if "p \<in> set (shares skip (Rubric_Node cs))" for p
    using that IH(1) w W by (auto simp: Let_def scale_def live_def [symmetric] intro!: mult_nonneg_nonneg divide_nonneg_nonneg)
  ultimately show ?case
    by (auto simp: list_all_iff Let_def weighted_mean_level live_def)
qed (simp add: weighted_mean_def)


lemma shares_pos:
  assumes "weights_pos r"
  shows "list_all (\<lambda>p. 0 < snd p) (shares skip r) \<and> (shares skip r \<noteq> [] \<longrightarrow> weighted_mean (\<lambda>_. 1) (shares skip r) = 1)"
  using assms
proof (induction r)
  case (Rubric_Node cs)
  define live where "live = filter (\<lambda>wc. shares skip (snd wc) \<noteq> []) cs"
  have IH: "\<And>i a. (i, a) \<in> set (shares skip (snd wc)) \<Longrightarrow> 0 < a"
      "shares skip (snd wc) \<noteq> [] \<Longrightarrow> weighted_mean (\<lambda>_. 1) (shares skip (snd wc)) = 1"
    and w: "0 < fst wc" if "wc \<in> set cs" for wc
    using that Rubric_Node by (fastforce simp: list_all_iff snds.simps)+
  have W: "live \<noteq> [] \<Longrightarrow> 0 < sum_list (map fst live)"
    using w by (intro sum_list_pos) (auto simp: live_def)
  have "sum_list (map (\<lambda>wc. weighted_mean (\<lambda>_. 1) (shares skip (snd wc)) * fst wc) live) = sum_list (map fst live)"
    using IH by (intro arg_cong [where f = sum_list]) (auto simp: live_def)
  moreover have "0 < snd p" if "p \<in> set (shares skip (Rubric_Node cs))" for p
  proof -
    from that have "shares skip (Rubric_Node cs) \<noteq> []" by (metis empty_iff empty_set)
    then have "live \<noteq> []" unfolding live_def shares_Nil_iff .
    from W [OF this] that IH(1) w show ?thesis
      by (auto simp: Let_def scale_def live_def [symmetric] intro!: mult_pos_pos divide_pos_pos)
  qed
  moreover have "weighted_mean (\<lambda>_. 1) (shares skip (Rubric_Node cs)) =
      sum_list (map (\<lambda>wc. weighted_mean (\<lambda>_. 1) (shares skip (snd wc)) * fst wc) live) / sum_list (map fst live)"
    by (simp add: Let_def weighted_mean_level live_def)
  ultimately show ?case using W
    unfolding shares_Nil_iff live_def [symmetric] list_all_iff by (cases "live = []") (auto simp del: shares.simps)
qed (simp add: weighted_mean_def)


text \<open>The tree without its skipped leaves and without the inner nodes that have no other ones.\<close>

fun prune :: "string set \<Rightarrow> rubric \<Rightarrow> rubric option" where
  "prune skip (Rubric_Leaf i) = (if i \<in> skip then None else Some (Rubric_Leaf i))"
| "prune skip (Rubric_Node cs) =
     (let live = List.map_filter (\<lambda>wc. map_option (Pair (fst wc)) (prune skip (snd wc))) cs in
      if live = [] then None else Some (Rubric_Node live))"

lemma map_filter_map_option:
  "List.map_filter (\<lambda>wc. map_option (Pair (fst wc)) (g (snd wc))) (List.map_filter (\<lambda>wc. map_option (Pair (fst wc)) (h (snd wc))) xs) =
     List.map_filter (\<lambda>wc. map_option (Pair (fst wc)) (Option.bind (h (snd wc)) g)) xs"
  by (induction xs) (auto simp: List.map_filter_simps split: option.splits)

lemma prune_value: "Option.bind (prune skip r) (tree_value ls {}) = tree_value ls skip r"
proof (induction r)
  case (Rubric_Node cs)
  have "List.map_filter (\<lambda>wc. map_option (Pair (fst wc)) (Option.bind (prune skip (snd wc)) (tree_value ls {}))) cs =
      List.map_filter (\<lambda>wc. map_option (Pair (fst wc)) (tree_value ls skip (snd wc))) cs"
    by (rule map_filter_cong) (auto simp: Rubric_Node)
  moreover define live where "live = List.map_filter (\<lambda>wc. map_option (Pair (fst wc)) (prune skip (snd wc))) cs"
  ultimately have "List.map_filter (\<lambda>wc. map_option (Pair (fst wc)) (tree_value ls {} (snd wc))) live =
      List.map_filter (\<lambda>wc. map_option (Pair (fst wc)) (tree_value ls skip (snd wc))) cs"
    by (simp add: map_filter_map_option)
  then show ?case
    by (cases "live = []") (simp_all add: List.map_filter_simps flip: live_def)
qed simp

lemma flatten_leaves_ids:
  "rubric_of pystr node = Inr r \<Longrightarrow>
     \<exists>ns. flatten_leaves node = Inr ns \<and> map (\<lambda>n. str_get pystr n ''id'') ns = rubric_leaves r"
proof (induction node arbitrary: r rule: measure_induct_rule [of dict_size])
  case (less node)
  show ?case
  proof (cases "sub_tasks node")
    case (Inr cs)
    show ?thesis
    proof (cases "cs = []")
      case False
      obtain ts ws where ts: "traverse (rubric_of pystr) cs = Inr ts" and ws: "traverse node_weight cs = Inr ws"
        and r: "r = Rubric_Node (zip ws ts)"
        using less.prems Inr False by (subst (asm) rubric_of.simps) (auto split: sum.splits)
      have len: "length ts = length cs" "length ws = length ts"
        using ts ws by (simp_all add: traverse_Inr list_all2_conv_all_nth)
      have "\<forall>i < length cs. \<exists>ns. flatten_leaves (cs ! i) = Inr ns \<and>
          map (\<lambda>n. str_get pystr n ''id'') ns = rubric_leaves (ts ! i)"
        using ts by (auto simp: traverse_Inr list_all2_conv_all_nth intro!: less.IH sub_tasks_smaller [OF Inr])
      then obtain f where f: "\<And>i. i < length cs \<Longrightarrow> flatten_leaves (cs ! i) = Inr (f i) \<and>
          map (\<lambda>n. str_get pystr n ''id'') (f i) = rubric_leaves (ts ! i)"
        by metis
      have "traverse flatten_leaves cs = Inr (map f [0..<length cs])"
        by (auto simp: traverse_Inr list_all2_conv_all_nth f)
      moreover have "map (\<lambda>i. map (\<lambda>n. str_get pystr n ''id'') (f i)) [0..<length cs] = map rubric_leaves ts"
        by (rule nth_equalityI) (simp_all add: len f)
      moreover have "rubric_leaves r = concat (map rubric_leaves ts)"
        using len by (simp add: r map_snd_zip flip: map_map [of rubric_leaves snd, unfolded comp_def])
      ultimately show ?thesis using Inr False
        by (simp add: flatten_leaves.simps [of node] map_concat comp_def)
    qed (use less.prems Inr in \<open>auto simp: rubric_of.simps flatten_leaves.simps [of node]\<close>)
  qed (use less.prems in \<open>auto simp: rubric_of.simps\<close>)
qed


text \<open>A rubric with two areas, of weights 3 and 1; the first has the leaves a and b of weights 1 and 3.\<close>

definition demo_node :: "string \<Rightarrow> real \<Rightarrow> json list \<Rightarrow> json" where
  "demo_node i w cs = JDict [(''id'', JStr i), (''weight'', JFloat w), (''sub_tasks'', JList cs)]"

definition demo_tree :: "dict" where
  "demo_tree = [(''id'', JStr ''root''),
     (''sub_tasks'', JList [demo_node ''x'' 3 [demo_node ''a'' 1 [], demo_node ''b'' 3 []], demo_node ''c'' 1 []])]"

definition demo_rubric :: rubric where
  "demo_rubric = Rubric_Node [(3, Rubric_Node [(1, Rubric_Leaf ''a''), (3, Rubric_Leaf ''b'')]), (1, Rubric_Leaf ''c'')]"

lemmas sub_tasks_eval = sub_tasks_def dict_get_def py_iter_def as_dict_def List.map_filter_simps Let_def
  demo_node_def node_weight_def py_float_def float_of_json_def str_get_def

lemma demo_rubric_of: "rubric_of demo_str demo_tree = Inr demo_rubric"
  by (simp add: rubric_of.simps demo_tree_def demo_rubric_def sub_tasks_eval demo_str_def)

text \<open>C12. The roll-up of a rubric with positive weights is a weighted mean of the scores of exactly the leaves
  that are not skipped, each with a positive weight and the weights summing to one; it is \<open>None\<close>
  when every leaf is skipped.\<close>

theorem roll_up_is_mean_of_live_leaves:
  assumes "rubric_of pystr node = Inr r" and "weights_pos r"
  shows "\<exists>ps. roll_up pystr node ls skip =
        Inr (if ps = [] then None else Some (sum_list (map (\<lambda>(i, a). a * score_get ls i) ps)))
      \<and> map fst ps = filter (\<lambda>i. i \<notin> skip) (rubric_leaves r)
      \<and> list_all (\<lambda>p. 0 < snd p) ps \<and> (ps = [] \<or> sum_list (map snd ps) = 1)"
proof (intro exI conjI)
  show "roll_up pystr node ls skip = Inr (if shares skip r = [] then None
      else Some (sum_list (map (\<lambda>(i, a). a * score_get ls i) (shares skip r))))"
    by (simp add: roll_up_tree_value [OF assms(1)] tree_value_shares weighted_mean_def)
  show "shares skip r = [] \<or> sum_list (map snd (shares skip r)) = 1"
    using shares_pos [OF assms(2), of skip] by (auto simp: weighted_mean_def case_prod_beta')
qed (use shares_pos [OF assms(2)] in \<open>auto simp: shares_leaves\<close>)

theorem roll_up_is_mean_of_live_leaves_witness:
  "\<exists>ps. roll_up demo_str demo_tree [(''a'', 1 / 2)] {''b''} =
        Inr (if ps = [] then None else Some (sum_list (map (\<lambda>(i, a). a * score_get [(''a'', 1 / 2)] i) ps)))
      \<and> map fst ps = [''a'', ''c''] \<and> list_all (\<lambda>p. 0 < snd p) ps \<and> (ps = [] \<or> sum_list (map snd ps) = 1)"
  using roll_up_is_mean_of_live_leaves [OF demo_rubric_of, of "[(''a'', 1 / 2)]" "{''b''}"]
  by (simp add: demo_rubric_def)

text \<open>C38. Skipping leaves is the same as deleting them from the rubric.\<close>

theorem roll_up_skip_is_prune:
  assumes "rubric_of pystr node = Inr r" and "rubric_of pystr node' = Inr r'" and "prune skip r = Some r'"
  shows "roll_up pystr node ls skip = roll_up pystr node' ls {}"
  using prune_value [of skip r ls] by (simp add: roll_up_tree_value [OF assms(1)] roll_up_tree_value [OF assms(2)] assms(3))

theorem roll_up_skip_is_prune_witness:
  "roll_up demo_str demo_tree [(''a'', 1 / 2)] {''b''} =
   roll_up demo_str [(''id'', JStr ''root''), (''sub_tasks'', JList [demo_node ''x'' 3 [demo_node ''a'' 1 []], demo_node ''c'' 1 []])]
     [(''a'', 1 / 2)] {}"
  by (rule roll_up_skip_is_prune [OF demo_rubric_of])
    (simp_all add: rubric_of.simps sub_tasks_eval demo_str_def demo_rubric_def List.map_filter_simps)

text \<open>A better score of a leaf never lowers the roll-up, and scores in a range give a roll-up in it.\<close>

lemma roll_up_mono:
  assumes "rubric_of pystr node = Inr r" and "weights_nonneg r" and "\<And>i. score_get ls i \<le> score_get ls' i"
    and "roll_up pystr node ls skip = Inr (Some x)"
  shows "\<exists>y. roll_up pystr node ls' skip = Inr (Some y) \<and> x \<le> y"
  using shares_nonneg [OF assms(2), of skip] assms(3,4)
  by (auto simp: roll_up_tree_value [OF assms(1)] tree_value_shares list_all_iff split: if_splits intro!: weighted_mean_mono)

lemma roll_up_in_range:
  assumes "rubric_of pystr node = Inr r" and "weights_nonneg r"
    and range: "\<And>i. 0 \<le> score_get ls i \<and> score_get ls i \<le> hi"
  shows "roll_up pystr node ls skip = Inr None \<or> (\<exists>x. roll_up pystr node ls skip = Inr (Some x) \<and> 0 \<le> x \<and> x \<le> hi)"
proof (cases "shares skip r = []")
  case False
  have nn: "0 \<le> a" if "(i, a) \<in> set (shares skip r)" for i a
    using that shares_nonneg [OF assms(2), of skip] by (auto simp: list_all_iff)
  have hi: "0 \<le> hi" using range [of "[]"] by linarith
  have "weighted_mean (score_get ls) (shares skip r) \<le> weighted_mean (\<lambda>_. hi) (shares skip r)"
    using nn range by (intro weighted_mean_mono) auto
  also have "\<dots> \<le> hi"
    using shares_nonneg [OF assms(2), of skip] mult_left_mono [OF _ hi, of _ 1] weighted_mean_const [of hi] by simp
  finally have "weighted_mean (score_get ls) (shares skip r) \<le> hi" .
  moreover have "weighted_mean (\<lambda>_. 0) (shares skip r) \<le> weighted_mean (score_get ls) (shares skip r)"
    using nn range by (intro weighted_mean_mono) auto
  then have "0 \<le> weighted_mean (score_get ls) (shares skip r)"
    using weighted_mean_const [of 0] by simp
  ultimately show ?thesis using False
    by (simp add: roll_up_tree_value [OF assms(1)] tree_value_shares)
qed (simp add: roll_up_tree_value [OF assms(1)] tree_value_shares)

end
