(* ===== verification/Leaf_Exclusion.thy ===== *)
theory Leaf_Exclusion
  imports Leaf_Rollup
begin

text \<open>
  Which leaves of a rubric are excluded from scoring, \<^verbatim>\<open>src/backend/evals/paperbench/leaf_scorer.py\<close>: the
  tokens of a text, the metrics file that counts, the leaves whose data is unavailable, the leaves about
  theory only, the leaves outside the operator's scope, and whether a measured result has evidence on disk.

  Texts have code points below 256, so the em dash of a gap's text and the root sign of a marker do not
  occur. A set of Python is a set; files are \<open>json_file\<close> values.
\<close>

section \<open>Tokens\<close>

definition az09 :: "char \<Rightarrow> bool" where
  "az09 c \<longleftrightarrow> (let n = of_char c :: nat in (97 \<le> n \<and> n \<le> 122) \<or> (48 \<le> n \<and> n \<le> 57))"

text \<open>The non-empty parts of \<^verbatim>\<open>re.split(r"[^a-z0-9]+", s)\<close>.\<close>

lemma dropWhile_shorter [termination_simp]: "length (dropWhile P cs) < Suc (length cs)"
  by (simp add: le_imp_less_Suc length_dropWhile_le)

fun runs :: "(char \<Rightarrow> bool) \<Rightarrow> string \<Rightarrow> string list" where
  "runs P [] = []"
| "runs P (c # cs) = (if P c then (c # takeWhile P cs) # runs P (dropWhile P cs) else runs P cs)"

definition normalise_dataset_name :: "string \<Rightarrow> string set" where
  "normalise_dataset_name name = set (runs az09 (py_lower name))"

definition leaf_text :: "(json \<Rightarrow> string) \<Rightarrow> dict \<Rightarrow> string" where
  "leaf_text pystr leaf = py_lower (str_get pystr leaf ''id'' @ '' '' @ str_get pystr leaf ''requirements'')"

definition leaf_tokens :: "(json \<Rightarrow> string) \<Rightarrow> dict \<Rightarrow> string set" where
  "leaf_tokens pystr leaf = set (runs az09 (leaf_text pystr leaf))"

definition leaf_mentions_dataset :: "(json \<Rightarrow> string) \<Rightarrow> dict \<Rightarrow> string set \<Rightarrow> bool" where
  "leaf_mentions_dataset pystr leaf dataset_tokens \<longleftrightarrow> dataset_tokens \<subseteq> leaf_tokens pystr leaf"

definition DATASET_ALIASES :: "(string set \<times> string set list) list" where
  "DATASET_ALIASES =
     [({''imagenet''}, [{''ilsvrc''}, {''ilsvrc2012''}]), ({''ilsvrc''}, [{''imagenet''}])]"

definition GENERIC_DATASET_TOKENS :: "string list" where
  "GENERIC_DATASET_TOKENS =
     [''dataset'', ''data'', ''set'', ''train'', ''training'', ''val'', ''validation'', ''test'',
      ''eval'', ''evaluation'', ''split'', ''image'', ''images'', ''the'', ''of'', ''on'', ''for'']"

definition alias_token_sets :: "string set list \<Rightarrow> string set list" where
  "alias_token_sets failed =
     concat (map (\<lambda>ts. concat (map snd (filter (\<lambda>ka. fst ka \<subseteq> ts) DATASET_ALIASES))) failed)"

definition distinctive :: "string set \<Rightarrow> string set" where
  "distinctive tokens = Set.filter (\<lambda>t. t \<notin> set GENERIC_DATASET_TOKENS \<and> 1 < length t) tokens"

section \<open>Results on disk\<close>

definition ok_statuses :: "string list" where
  "ok_statuses = [''ok'', ''success'', ''succeeded'', ''completed'']"

definition cell_ok :: "(json \<Rightarrow> string) \<Rightarrow> dict \<Rightarrow> bool" where
  "cell_ok pystr cell \<longleftrightarrow> py_lower (str_get pystr cell ''status'') \<in> set ok_statuses"

definition dict_or_empty :: "json \<Rightarrow> dict" where
  "dict_or_empty j = (case j of JDict d \<Rightarrow> d | _ \<Rightarrow> [])"

definition str_tokens :: "json \<Rightarrow> string set" where
  "str_tokens j = (case j of JStr s \<Rightarrow> normalise_dataset_name s | _ \<Rightarrow> {})"

definition cell_subject :: "(json \<Rightarrow> string) \<Rightarrow> string \<Rightarrow> string \<Rightarrow> string \<times> json \<Rightarrow> string set option" where
  "cell_subject pystr mkey env bc =
     (case snd bc of
        JDict cell \<Rightarrow>
          if \<not> cell_ok pystr cell then None
          else
            (let toks = normalise_dataset_name mkey \<union> normalise_dataset_name env \<union> normalise_dataset_name (fst bc)
                   \<union> str_tokens (dict_get cell ''dataset'') \<union> str_tokens (dict_get cell ''letter'')
                   \<union> str_tokens (dict_get cell ''variant'');
                 d = distinctive toks
             in if d = {} then None else Some d)
      | _ \<Rightarrow> None)"

definition successful_metric_subjects :: "(json \<Rightarrow> string) \<Rightarrow> dict \<Rightarrow> string set list" where
  "successful_metric_subjects pystr metrics_data =
     concat (map (\<lambda>me. concat (map (\<lambda>eb. List.map_filter (cell_subject pystr (fst me) (fst eb)) (dict_or_empty (snd eb)))
                                   (dict_or_empty (snd me))))
       (dict_or_empty (dict_get metrics_data ''per_model'')))"

definition leaf_has_disk_evidence :: "string set \<Rightarrow> string set list \<Rightarrow> bool" where
  "leaf_has_disk_evidence tokens subjects = list_ex (\<lambda>subj. subj \<noteq> {} \<and> subj \<subseteq> tokens) subjects"

definition AGGREGATE_MARKERS :: "string list" where
  "AGGREGATE_MARKERS =
     [''across'', ''consistently'', ''configurations'', ''variants'', ''table'', ''each'', ''every'', ''respectively'']"

text \<open>The two groups of \<^verbatim>\<open>([a-z]+)(\d+)\<close> on a whole token.\<close>

definition alnum_groups :: "string \<Rightarrow> string list" where
  "alnum_groups t =
     (let a = takeWhile (\<lambda>c. az09 c \<and> \<not> py_digit c) t; d = dropWhile (\<lambda>c. az09 c \<and> \<not> py_digit c) t in
      if a \<noteq> [] \<and> d \<noteq> [] \<and> list_all py_digit d then [a, d] else [])"

definition expand_alnum :: "string set \<Rightarrow> string set" where
  "expand_alnum tokens = tokens \<union> \<Union> ((\<lambda>t. set (alnum_groups t)) ` tokens)"

definition ok_cells :: "(json \<Rightarrow> string) \<Rightarrow> json \<Rightarrow> dict list" where
  "ok_cells pystr baselines =
     filter (cell_ok pystr) (List.map_filter (\<lambda>bc. as_dict (snd bc)) (dict_or_empty baselines))"

definition env_matches :: "(json \<Rightarrow> string) \<Rightarrow> string set \<Rightarrow> string \<Rightarrow> string \<times> json \<Rightarrow> bool" where
  "env_matches pystr leaf_distinct mkey eb \<longleftrightarrow>
     (let model_toks = expand_alnum (distinctive (normalise_dataset_name mkey));
          cells = ok_cells pystr (snd eb);
          env_toks = normalise_dataset_name (fst eb) \<union>
            \<Union> (set (map (\<lambda>c. str_tokens (dict_get c ''dataset'') \<union> str_tokens (dict_get c ''letter'') \<union> str_tokens (dict_get c ''variant'')) cells));
          env_distinct = expand_alnum (distinctive env_toks);
          env_variants = env_distinct # alias_token_sets [env_distinct]
      in cells \<noteq> [] \<and> (model_toks = {} \<or> model_toks \<inter> leaf_distinct \<noteq> {})
         \<and> list_ex (\<lambda>ev. ev = {} \<or> ev \<inter> leaf_distinct \<noteq> {}) env_variants)"

definition result_leaf_substantiated :: "(json \<Rightarrow> string) \<Rightarrow> string set \<Rightarrow> dict \<Rightarrow> bool" where
  "result_leaf_substantiated pystr toks metrics_data \<longleftrightarrow>
     (case dict_get metrics_data ''per_model'' of
        JDict per_model \<Rightarrow>
          if distinctive toks = {} then False
          else if list_ex (\<lambda>me. list_ex (env_matches pystr (distinctive toks) (fst me)) (dict_or_empty (snd me))) per_model then True
          else if \<not> list_ex (\<lambda>me. list_ex (\<lambda>eb. ok_cells pystr (snd eb) \<noteq> []) (dict_or_empty (snd me))) per_model then False
          else toks \<inter> set AGGREGATE_MARKERS \<noteq> {}
      | _ \<Rightarrow> False)"

section \<open>The metrics file\<close>

text \<open>The digest of the grader, \<^verbatim>\<open>src/backend/evals/paperbench/grader_digest.py\<close>, as far as the choice
  of the metrics file needs it.\<close>

definition is_real_number :: "json \<Rightarrow> bool" where
  "is_real_number v = (case v of JInt _ \<Rightarrow> True | JFloat _ \<Rightarrow> True | _ \<Rightarrow> False)"

definition NON_RESULT_KEYS :: "string list" where
  "NON_RESULT_KEYS =
     [''status'', ''model_key'', ''env'', ''environment'', ''baseline'', ''dataset'', ''variant'', ''letter'',
      ''device'', ''seed'', ''n'', ''depth'', ''param_count'', ''use_residual'', ''shortcut_option'',
      ''best_at_iter'', ''total_iters'', ''epochs_run'', ''wall_time_seconds'', ''metric'']"

definition measured_series :: "json \<Rightarrow> bool" where
  "measured_series v \<longleftrightarrow> is_real_number v \<or> (case v of JList l \<Rightarrow> list_ex is_real_number l | _ \<Rightarrow> False)"

definition cell_has_measured_value :: "dict \<Rightarrow> bool" where
  "cell_has_measured_value cell =
     list_ex (\<lambda>kv. fst kv \<notin> set NON_RESULT_KEYS \<and>
       (measured_series (snd kv) \<or> (case snd kv of JDict d \<Rightarrow> list_ex (\<lambda>sv. measured_series (snd sv)) d | _ \<Rightarrow> False))) cell"

definition looks_like_cell :: "dict \<Rightarrow> bool" where
  "looks_like_cell d \<longleftrightarrow>
     d = [] \<or> map_of d ''status'' \<noteq> None
     \<or> list_ex (\<lambda>kv. is_real_number (snd kv) \<or> fst kv = ''history'' \<and> as_dict (snd kv) \<noteq> None) d"

definition as_cell :: "json \<Rightarrow> dict" where
  "as_cell j = (case j of JDict d \<Rightarrow> d | v \<Rightarrow> [(''_value'', v)])"

definition iter_cells :: "dict \<Rightarrow> dict list" where
  "iter_cells per_model =
     concat (map (\<lambda>me.
       case snd me of
         JDict mval \<Rightarrow>
           if looks_like_cell mval then [mval]
           else concat (map (\<lambda>eb.
                  case snd eb of
                    JDict eval \<Rightarrow> if looks_like_cell eval then [eval] else map (\<lambda>bc. as_cell (snd bc)) eval
                  | v \<Rightarrow> [as_cell v]) mval)
       | v \<Rightarrow> [as_cell v]) per_model)"

definition per_model_has_measured_value :: "json \<Rightarrow> bool" where
  "per_model_has_measured_value metrics =
     (case metrics of
        JDict d \<Rightarrow> (case dict_get d ''per_model'' of JDict pm \<Rightarrow> list_ex cell_has_measured_value (iter_cells pm) | _ \<Rightarrow> False)
      | _ \<Rightarrow> False)"

definition grader_digest_enabled :: "environ \<Rightarrow> bool" where
  "grader_digest_enabled env = flag_on (environ_get env ''OPENRESEARCH_GRADER_DIGEST'' [])"

text \<open>A candidate is its content and its modification time; an unreadable file has the rank of one
  without results. \<open>max\<close> keeps the first of the greatest.\<close>

record metrics_candidate =
  mc_file :: json_file
  mc_mtime :: "real option"

definition candidate_rank :: "environ \<Rightarrow> metrics_candidate \<Rightarrow> nat \<times> real" where
  "candidate_rank env c =
     (let has_results =
            (case mc_file c of
               Json_File (JDict d) \<Rightarrow>
                 (if grader_digest_enabled env then per_model_has_measured_value (JDict d) else py_truthy (dict_get d ''per_model''))
                 \<or> py_truthy (dict_get d ''comparison'')
             | _ \<Rightarrow> False)
      in (if has_results then 1 else 0, case mc_mtime c of None \<Rightarrow> 0 | Some t \<Rightarrow> t))"

definition rank_less :: "nat \<times> real \<Rightarrow> nat \<times> real \<Rightarrow> bool" where
  "rank_less a b \<longleftrightarrow> fst a < fst b \<or> fst a = fst b \<and> snd a < snd b"

fun py_max_by :: "('a \<Rightarrow> nat \<times> real) \<Rightarrow> 'a \<Rightarrow> 'a list \<Rightarrow> 'a" where
  "py_max_by key best [] = best"
| "py_max_by key best (x # xs) = py_max_by key (if rank_less (key best) (key x) then x else best) xs"

definition latest_metrics_path :: "environ \<Rightarrow> metrics_candidate list \<Rightarrow> metrics_candidate option" where
  "latest_metrics_path env cands =
     (case cands of [] \<Rightarrow> None | c # cs \<Rightarrow> Some (py_max_by (candidate_rank env) c cs))"


section \<open>Data that is unavailable\<close>

definition normalise_model_name :: "string \<Rightarrow> string" where
  "normalise_model_name name = py_lower (py_strip name)"

definition operator_skip_set :: "string list option \<Rightarrow> string set" where
  "operator_skip_set skip =
     (case skip of None \<Rightarrow> {} | Some ms \<Rightarrow> set (map normalise_model_name (filter (\<lambda>m. m \<noteq> []) ms)))"

text \<open>The loops over lists of the files: \<open>or_empty v\<close> is \<^verbatim>\<open>v or []\<close>.\<close>

definition or_empty :: "json \<Rightarrow> json" where
  "or_empty v = (if py_truthy v then v else JList [])"

definition nonempty_str :: "json \<Rightarrow> string option" where
  "nonempty_str j = (case j of JStr s \<Rightarrow> if s = [] then None else Some s | _ \<Rightarrow> None)"

definition failed_dataset :: "(json \<Rightarrow> string) \<Rightarrow> json \<Rightarrow> string option" where
  "failed_dataset pystr entry =
     (case entry of
        JDict d \<Rightarrow> if py_truthy (dict_get d ''dataset'') then Some (pystr (dict_get d ''dataset'')) else None
      | _ \<Rightarrow> nonempty_str entry)"

definition failed_datasets :: "(json \<Rightarrow> string) \<Rightarrow> json \<Rightarrow> string list" where
  "failed_datasets pystr metrics =
     (case metrics of
        JDict d \<Rightarrow> (case py_iter (or_empty (dict_get d ''data_load_failures'')) of
                      Inl _ \<Rightarrow> [] | Inr es \<Rightarrow> List.map_filter (failed_dataset pystr) es)
      | _ \<Rightarrow> [])"

definition json_items :: "json \<Rightarrow> json list" where
  "json_items j = (case j of JList l \<Rightarrow> l | _ \<Rightarrow> [])"

definition merge_scope :: "dict \<Rightarrow> dict option \<Rightarrow> dict" where
  "merge_scope scope_obj extra_scope =
     (case extra_scope of
        None \<Rightarrow> scope_obj
      | Some extra \<Rightarrow>
          if extra = [] then scope_obj
          else foldl (\<lambda>merged k.
                 let a = json_items (dict_get scope_obj k); b = json_items (dict_get extra k) in
                 if a \<noteq> [] \<or> b \<noteq> [] then dict_set merged (k, JList (a @ b)) else merged)
               scope_obj [''environments_skipped'', ''exclusions''])"

text \<open>A verified exclusion is its axis and its item.\<close>

definition verified_exclusion :: "(json \<Rightarrow> string) \<Rightarrow> json \<Rightarrow> (string \<times> string) option" where
  "verified_exclusion pystr ex =
     (case ex of
        JDict d \<Rightarrow>
          (let axis = py_lower (str_get pystr d ''axis''); item = str_or_empty pystr (dict_get d ''item'') in
           if py_truthy (dict_get d ''verified'') \<and> item \<noteq> [] then Some (axis, item) else None)
      | _ \<Rightarrow> None)"

definition verified_exclusions :: "(json \<Rightarrow> string) \<Rightarrow> dict \<Rightarrow> (string \<times> string) list" where
  "verified_exclusions pystr scope_obj = List.map_filter (verified_exclusion pystr) (json_items (dict_get scope_obj ''exclusions''))"

definition model_items :: "(string \<times> string) list \<Rightarrow> string list" where
  "model_items exs = map snd (filter (\<lambda>ex. fst ex = ''model'') exs)"

definition env_items :: "(string \<times> string) list \<Rightarrow> string list" where
  "env_items exs = map snd (filter (\<lambda>ex. fst ex \<noteq> ''model'') exs)"

text \<open>Names of models that the metrics report as failed or skipped, in the order of the three loops; the
  ones the operator or a verified exclusion sanctions are excluded, the others stay scored.\<close>

definition failure_statuses :: "string list" where
  "failure_statuses = [''model_load_failed'', ''failed'', ''skipped'', ''data_unavailable'', ''unavailable'']"

definition as_mapping :: "json \<Rightarrow> report_error + dict" where
  "as_mapping j = (case (if py_truthy j then j else JDict []) of JDict d \<Rightarrow> Inr d | _ \<Rightarrow> Inl Attribute_Error)"

definition failed_per_model :: "(json \<Rightarrow> string) \<Rightarrow> string \<times> json \<Rightarrow> string option" where
  "failed_per_model pystr mv =
     (case snd mv of
        JDict d \<Rightarrow> if py_lower (str_get pystr d ''status'') \<in> set failure_statuses then Some (fst mv) else None
      | _ \<Rightarrow> None)"

definition load_failure :: "(json \<Rightarrow> string) \<Rightarrow> json \<Rightarrow> string option" where
  "load_failure pystr entry =
     (case entry of
        JDict d \<Rightarrow>
          (let v = (if py_truthy (dict_get d ''model'') then dict_get d ''model'' else dict_get d ''name'') in
           if py_truthy v then Some (pystr v) else None)
      | _ \<Rightarrow> nonempty_str entry)"

definition reported_models :: "(json \<Rightarrow> string) \<Rightarrow> dict \<Rightarrow> report_error + string list" where
  "reported_models pystr metrics =
     (case as_mapping (dict_get metrics ''per_model'') of
        Inl e \<Rightarrow> Inl e
      | Inr per_model \<Rightarrow>
          (case as_mapping (dict_get metrics ''scope'') of
             Inl e \<Rightarrow> Inl e
           | Inr scope \<Rightarrow>
               (case py_iter (or_empty (dict_get scope ''models_skipped'')) of
                  Inl e \<Rightarrow> Inl e
                | Inr skipped \<Rightarrow>
                    (case py_iter (or_empty (dict_get metrics ''model_load_failures'')) of
                       Inl e \<Rightarrow> Inl e
                     | Inr failures \<Rightarrow>
                         Inr (List.map_filter (failed_per_model pystr) per_model
                              @ List.map_filter nonempty_str skipped
                              @ List.map_filter (load_failure pystr) failures)))))"

section \<open>Gaps\<close>

text \<open>A gap is a prose text (\<open>Inl\<close>) or a structured item (\<open>Inr\<close>).\<close>

definition py_or :: "json \<Rightarrow> json \<Rightarrow> json" where
  "py_or a b = (if py_truthy a then a else b)"

definition gap_entry :: "json \<Rightarrow> (string + string) option" where
  "gap_entry gap =
     (case gap of
        JDict d \<Rightarrow>
          (case nonempty_str (py_or (py_or (dict_get d ''item'') (dict_get d ''name'')) (dict_get d ''id'')) of
             Some item \<Rightarrow> Some (Inr item)
           | None \<Rightarrow> map_option Inl (nonempty_str (dict_get d ''reason'')))
      | _ \<Rightarrow> map_option Inl (nonempty_str gap))"

definition collect_gaps :: "json \<Rightarrow> report_error + (string + string) list" where
  "collect_gaps scope =
     (case as_mapping scope of
        Inl e \<Rightarrow> Inl e
      | Inr d \<Rightarrow> (case py_iter (or_empty (dict_get d ''gaps'')) of Inl e \<Rightarrow> Inl e | Inr gs \<Rightarrow> Inr (List.map_filter gap_entry gs)))"

definition report_gaps :: "json_file \<Rightarrow> (string + string) list" where
  "report_gaps report =
     (case report of
        Json_File (JDict d) \<Rightarrow> (case collect_gaps (dict_get d ''scope'') of Inl _ \<Rightarrow> [] | Inr gs \<Rightarrow> gs)
      | _ \<Rightarrow> [])"

definition GAP_STOP :: "string list" where
  "GAP_STOP =
     [''dataset'', ''not'', ''downloaded'', ''unavailable'', ''missing'', ''data'', ''file'', ''required'', ''needed'',
      ''access'', ''gated'', ''restricted'', ''licence'', ''license'', ''institutional'', ''out'', ''of'', ''scope'',
      ''http'', ''403'', ''error'', ''failed'', ''load'', ''loading'', ''available'']"

text \<open>What precedes the first colon, the first spaced hyphen or the first \<^verbatim>\<open> http\<close>.\<close>

fun gap_leading :: "string \<Rightarrow> string" where
  "gap_leading [] = []"
| "gap_leading (c # cs) =
     (if c = CHR '':'' \<or> prefix '' - '' (c # cs) \<or> prefix '' http'' (c # cs) then [] else c # gap_leading cs)"

definition gap_name_tokens :: "string \<Rightarrow> string set" where
  "gap_name_tokens g = normalise_dataset_name (py_strip (gap_leading g)) - set GAP_STOP"


section \<open>The leaves\<close>

record run_files =
  rf_metrics :: "metrics_candidate list"
  rf_report :: json_file

definition metrics_json :: "environ \<Rightarrow> run_files \<Rightarrow> json" where
  "metrics_json env files =
     (case latest_metrics_path env (rf_metrics files) of
        None \<Rightarrow> JDict []
      | Some c \<Rightarrow> (case mc_file c of Json_File j \<Rightarrow> j | _ \<Rightarrow> JDict []))"

text \<open>What the operator passes: models and environments to skip, and the scope assembled at the end.\<close>

record operator_scope =
  os_skip_models :: "string list option"
  os_skip_environments :: "string list option"
  os_extra_scope :: "dict option"

record signals =
  sg_datasets :: "string list"
  sg_models :: "string list"
  sg_envs :: "string list"
  sg_gaps :: "(string + string) list"

definition scope_of :: "dict \<Rightarrow> operator_scope \<Rightarrow> dict" where
  "scope_of metrics op = merge_scope (dict_or_empty (dict_get metrics ''scope'')) (os_extra_scope op)"

definition sanctioned_models :: "(json \<Rightarrow> string) \<Rightarrow> dict \<Rightarrow> operator_scope \<Rightarrow> string set" where
  "sanctioned_models pystr metrics op =
     operator_skip_set (os_skip_models op)
     \<union> set (map normalise_model_name (model_items (verified_exclusions pystr (scope_of metrics op))))"

definition sanctioned_envs :: "(json \<Rightarrow> string) \<Rightarrow> dict \<Rightarrow> operator_scope \<Rightarrow> string set" where
  "sanctioned_envs pystr metrics op =
     operator_skip_set (os_skip_environments op)
     \<union> set (map normalise_model_name (env_items (verified_exclusions pystr (scope_of metrics op))))"

definition enforce_env_gate :: "dict \<Rightarrow> operator_scope \<Rightarrow> bool" where
  "enforce_env_gate metrics op \<longleftrightarrow>
     json_items (dict_get (scope_of metrics op) ''exclusions'') \<noteq> [] \<or> os_skip_environments op \<noteq> None"

definition unavailable_signals ::
    "(json \<Rightarrow> string) \<Rightarrow> environ \<Rightarrow> run_files \<Rightarrow> operator_scope \<Rightarrow> report_error + signals" where
  "unavailable_signals pystr env files op =
     (case metrics_json env files of
        JDict metrics \<Rightarrow>
          (let scope_obj = scope_of metrics op; exs = verified_exclusions pystr scope_obj in
           case reported_models pystr metrics of
             Inl e \<Rightarrow> Inl e
           | Inr models \<Rightarrow>
               (case py_iter (or_empty (dict_get scope_obj ''environments_skipped'')) of
                  Inl e \<Rightarrow> Inl e
                | Inr envs \<Rightarrow>
                    (case collect_gaps (dict_get metrics ''scope'') of
                       Inl e \<Rightarrow> Inl e
                     | Inr gaps \<Rightarrow>
                         Inr \<lparr>sg_datasets = failed_datasets pystr (JDict metrics),
                              sg_models = filter (\<lambda>m. normalise_model_name m \<in> sanctioned_models pystr metrics op) models
                                          @ model_items exs,
                              sg_envs = filter (\<lambda>e. \<not> enforce_env_gate metrics op
                                                 \<or> normalise_model_name e \<in> sanctioned_envs pystr metrics op)
                                          (List.map_filter nonempty_str envs)
                                        @ env_items exs,
                              sg_gaps = gaps @ report_gaps (rf_report files)\<rparr>)))
      | _ \<Rightarrow> Inl Attribute_Error)"

definition compact_tokens :: "string list \<Rightarrow> string set list" where
  "compact_tokens names = map normalise_dataset_name (filter (\<lambda>n. n \<noteq> []) names)"

definition signal_token_sets :: "signals \<Rightarrow> string set list" where
  "signal_token_sets sg =
     compact_tokens (sg_datasets sg)
     @ filter (\<lambda>ts. ts \<noteq> {}) (map gap_name_tokens (List.map_filter (case_sum Some (\<lambda>_. None)) (sg_gaps sg)))
     @ compact_tokens (List.map_filter (case_sum (\<lambda>_. None) Some) (sg_gaps sg))
     @ compact_tokens (sg_models sg)
     @ compact_tokens (sg_envs sg)"

text \<open>\<open>_path_resolves\<close> of \<^verbatim>\<open>src/backend/agents/rlm/rubric_guard.py\<close>.\<close>

fun resolve_segments :: "json \<Rightarrow> string list \<Rightarrow> bool" where
  "resolve_segments node [] = True"
| "resolve_segments node (seg # segs) =
     (case node of
        JDict d \<Rightarrow> (case map_of d seg of None \<Rightarrow> False | Some v \<Rightarrow> resolve_segments v segs)
      | _ \<Rightarrow> False)"

definition path_resolves :: "json \<Rightarrow> string \<Rightarrow> bool" where
  "path_resolves metrics json_path \<longleftrightarrow>
     json_path \<noteq> [] \<and> as_dict metrics \<noteq> None \<and> resolve_segments metrics (py_split_on CHR ''.'' json_path)"

definition shape_leaf_ids :: "json \<Rightarrow> report_error + json list" where
  "shape_leaf_ids mp =
     (case mp of JDict d \<Rightarrow> py_iter (or_empty (dict_get d ''rubric_leaf_ids'')) | _ \<Rightarrow> Inr [])"

definition shape_unavailable :: "(json \<Rightarrow> string) \<Rightarrow> json \<Rightarrow> string set list \<Rightarrow> json \<Rightarrow> report_error + string list" where
  "shape_unavailable pystr metrics token_sets mp =
     (case mp of
        JDict d \<Rightarrow>
          (let json_path = py_or (dict_get d ''json_path'') (JStr []);
               metric_id = py_or (dict_get d ''metric_id'') json_path in
           if \<not> py_truthy json_path \<or> \<not> py_truthy (dict_get d ''rubric_leaf_ids'') then Inr []
           else case json_path of
             JStr path \<Rightarrow>
               if path_resolves metrics path then Inr []
               else (case metric_id of
                  JStr mid \<Rightarrow>
                    if list_ex (\<lambda>ts. ts \<noteq> {} \<and> ts \<subseteq> normalise_dataset_name (mid @ '' '' @ path)) token_sets
                    then map_sum id (map pystr) (shape_leaf_ids mp) else Inr []
                | _ \<Rightarrow> Inl Type_Error)
           | _ \<Rightarrow> Inl Attribute_Error)
      | _ \<Rightarrow> Inr [])"

definition ids_of :: "(json \<Rightarrow> string) \<Rightarrow> (dict \<Rightarrow> bool) \<Rightarrow> dict list \<Rightarrow> string set" where
  "ids_of pystr P ls = set (map (\<lambda>leaf. str_get pystr leaf ''id'') (filter P ls))"

definition match_leaves ::
    "(json \<Rightarrow> string) \<Rightarrow> json \<Rightarrow> string set list \<Rightarrow> string set \<Rightarrow> string set \<Rightarrow> dict list \<Rightarrow> string set" where
  "match_leaves pystr metrics token_sets covered shaped ls =
     (let named = shaped \<union> ids_of pystr (\<lambda>leaf. str_get pystr leaf ''id'' \<notin> covered
              \<and> list_ex (\<lambda>ts. ts \<noteq> {} \<and> leaf_mentions_dataset pystr leaf ts) token_sets) ls;
          aliases = alias_token_sets token_sets;
          subjects = successful_metric_subjects pystr (dict_or_empty metrics)
      in if aliases = [] then named
         else named \<union> ids_of pystr (\<lambda>leaf. str_get pystr leaf ''id'' \<notin> covered
              \<and> \<not> leaf_has_disk_evidence (leaf_tokens pystr leaf) subjects
              \<and> list_ex (\<lambda>a. a \<noteq> {} \<and> a \<subseteq> leaf_tokens pystr leaf) aliases) ls)"

definition detect_data_unavailable_leaves ::
    "(json \<Rightarrow> string) \<Rightarrow> environ \<Rightarrow> dict list \<Rightarrow> run_files \<Rightarrow> json list option \<Rightarrow> operator_scope \<Rightarrow> report_error + string set" where
  "detect_data_unavailable_leaves pystr env ls files metrics_shape op =
     (if ls = [] then Inr {}
      else case unavailable_signals pystr env files op of
        Inl e \<Rightarrow> Inl e
      | Inr sg \<Rightarrow>
          (let token_sets = signal_token_sets sg; metrics = metrics_json env files;
               shape = (case metrics_shape of None \<Rightarrow> [] | Some ms \<Rightarrow> ms) in
           if token_sets = [] then Inr {}
           else case traverse (shape_unavailable pystr metrics token_sets) shape of
             Inl e \<Rightarrow> Inl e
           | Inr shaped \<Rightarrow>
               (case traverse shape_leaf_ids shape of
                  Inl e \<Rightarrow> Inl e
                | Inr covered \<Rightarrow>
                    Inr (match_leaves pystr metrics token_sets (set (map pystr (concat covered))) (set (concat shaped)) ls))))"

section \<open>Theory and scope\<close>

definition THEORY_MARKERS :: "string list" where
  "THEORY_MARKERS =
     [''theorem'', ''regret bound'', ''regret analysis'', ''convergence proof'', ''proof of'', ''prove that'', ''proof that'',
      ''lemma'', ''corollary'', ''regret guarantee'', ''convergence guarantee'', ''o('' @ [CHR 0x5C] @ ''sqrt'', ''o(sqrt'']"

definition EMPIRICAL_MARKERS :: "string list" where
  "EMPIRICAL_MARKERS =
     [''metrics.json'', ''plot'', ''figure'', ''fig_'', ''accuracy'', ''loss curve'', ''training curve'', ''implement'', ''code'',
      ''dataset'', ''checkpoint'', ''epoch'', ''trains'', ''training run'', ''wall-clock'', ''wall clock'']"

definition theory_leaf_exclusion_enabled :: "environ \<Rightarrow> bool" where
  "theory_leaf_exclusion_enabled env = flag_on (environ_get env ''OPENRESEARCH_EXCLUDE_THEORY_LEAVES'' [])"

definition category_text :: "(json \<Rightarrow> string) \<Rightarrow> dict \<Rightarrow> string" where
  "category_text pystr leaf = str_get pystr leaf ''requirements'' @ '' '' @ str_get pystr leaf ''task_category''"

definition theory_only :: "(json \<Rightarrow> string) \<Rightarrow> dict \<Rightarrow> bool" where
  "theory_only pystr leaf \<longleftrightarrow>
     (let t = py_lower (category_text pystr leaf) in
      list_ex (\<lambda>m. py_in m t) THEORY_MARKERS \<and> \<not> list_ex (\<lambda>m. py_in m t) EMPIRICAL_MARKERS
      \<and> str_get pystr leaf ''id'' \<noteq> [])"

definition detect_theory_only_leaves :: "(json \<Rightarrow> string) \<Rightarrow> environ \<Rightarrow> dict list \<Rightarrow> string set" where
  "detect_theory_only_leaves pystr env ls =
     (if theory_leaf_exclusion_enabled env then ids_of pystr (theory_only pystr) ls else {})"

definition DATASET_TOKENS :: "string list" where
  "DATASET_TOKENS =
     [''imagenet'', ''cifar100'', ''cifar10'', ''mnist'', ''imdb'', ''svhn'', ''coco'', ''wikitext'', ''librispeech'', ''ptb'',
      ''penn treebank'', ''celeba'', ''lsun'', ''alfworld'', ''webshop'', ''squad'', ''glue'']"

definition inclusion_scope_exclusion_enabled :: "environ \<Rightarrow> bool" where
  "inclusion_scope_exclusion_enabled env = project_flag_on env ''OPENRESEARCH_SCOPE_INCLUSION_EXCLUDE''"

definition no_spaces :: "string \<Rightarrow> string" where
  "no_spaces s = filter (\<lambda>c. c \<noteq> CHR '' '') s"

text \<open>\<open>str.isdigit\<close> of the first character: the digits and the superscripts.\<close>

definition starts_with_digit :: "string \<Rightarrow> bool" where
  "starts_with_digit s = (case s of [] \<Rightarrow> False | c # _ \<Rightarrow> py_digit c \<or> (of_char c :: nat) \<in> {178, 179, 185})"

definition included_datasets :: "string list \<Rightarrow> string list" where
  "included_datasets ds =
     map (\<lambda>d. filter (\<lambda>c. c \<noteq> CHR ''-'' \<and> c \<noteq> CHR ''_'' \<and> c \<noteq> CHR '' '') (py_lower d)) (filter (\<lambda>d. py_strip d \<noteq> []) ds)"

definition covered_by :: "string list \<Rightarrow> string \<Rightarrow> bool" where
  "covered_by included token \<longleftrightarrow>
     (let t = no_spaces token in
      list_ex (\<lambda>inc. t = inc
        \<or> prefix t inc \<and> \<not> starts_with_digit (drop (length t) inc)
        \<or> prefix inc t \<and> \<not> starts_with_digit (drop (length inc) t)) included)"

definition mentioned_datasets :: "(json \<Rightarrow> string) \<Rightarrow> dict \<Rightarrow> string list" where
  "mentioned_datasets pystr leaf =
     (let text = py_lower (category_text pystr leaf @ '' '' @ str_get pystr leaf ''sub_tasks'');
          text_norm = filter (\<lambda>c. c \<noteq> CHR ''-'' \<and> c \<noteq> CHR ''_'' \<and> \<not> py_space c) text
      in filter (\<lambda>t. py_in (no_spaces t) text_norm) DATASET_TOKENS)"

definition out_of_inclusion_scope :: "(json \<Rightarrow> string) \<Rightarrow> string list \<Rightarrow> dict \<Rightarrow> bool" where
  "out_of_inclusion_scope pystr included leaf \<longleftrightarrow>
     (let mentioned = mentioned_datasets pystr leaf in
      list_ex (\<lambda>t. \<not> covered_by included t) mentioned \<and> \<not> list_ex (covered_by included) mentioned
      \<and> str_get pystr leaf ''id'' \<noteq> [])"

definition detect_out_of_inclusion_scope_leaves ::
    "(json \<Rightarrow> string) \<Rightarrow> environ \<Rightarrow> dict list \<Rightarrow> string list option \<Rightarrow> string set" where
  "detect_out_of_inclusion_scope_leaves pystr env ls inclusion =
     (case inclusion of
        None \<Rightarrow> {}
      | Some ds \<Rightarrow>
          if \<not> inclusion_scope_exclusion_enabled env \<or> ds = [] then {}
          else ids_of pystr (out_of_inclusion_scope pystr (included_datasets ds)) ls)"


section \<open>What is excluded\<close>

lemma rank_less_trans: "rank_less a b \<Longrightarrow> rank_less b c \<Longrightarrow> rank_less a c"
  by (auto simp: rank_less_def)

lemma rank_less_cotrans: "rank_less a c \<Longrightarrow> rank_less a b \<or> rank_less b c"
  by (auto simp: rank_less_def)

lemma py_max_by_greatest:
  "py_max_by key best xs \<in> set (best # xs) \<and> (\<forall>x \<in> set (best # xs). \<not> rank_less (key (py_max_by key best xs)) (key x))"
proof (induction xs arbitrary: best)
  case Nil
  then show ?case by (simp add: rank_less_def)
next
  case (Cons y ys)
  define b where "b = (if rank_less (key best) (key y) then y else best)"
  have "\<not> rank_less (key b) (key best)" "\<not> rank_less (key b) (key y)" and b: "b = y \<or> b = best"
    by (auto simp: b_def rank_less_def)
  then have "\<forall>x \<in> set (best # y # ys). \<not> rank_less (key (py_max_by key b ys)) (key x)"
    using Cons [of b] rank_less_cotrans [of "key (py_max_by key b ys)" "key best" "key b"]
      rank_less_cotrans [of "key (py_max_by key b ys)" "key y" "key b"] by auto
  with Cons [of b] b show ?case by (auto simp: b_def [symmetric])
qed

text \<open>The metrics file that counts is a candidate, and no other one has results where it has none, nor results that are newer.\<close>

lemma latest_metrics_greatest:
  "latest_metrics_path env cands = Some c \<Longrightarrow>
     c \<in> set cands \<and> (\<forall>d \<in> set cands. \<not> rank_less (candidate_rank env c) (candidate_rank env d))"
  using py_max_by_greatest [of "candidate_rank env" "hd cands" "tl cands"]
  by (auto simp: latest_metrics_path_def split: list.splits)

lemma reported_gaps_sources:
  "unavailable_signals pystr env files op = Inr sg \<Longrightarrow> metrics_json env files = JDict metrics \<Longrightarrow>
     sg_datasets sg = failed_datasets pystr (JDict metrics)
     \<and> (\<forall>m \<in> set (sg_models sg). normalise_model_name m \<in> sanctioned_models pystr metrics op)
     \<and> (\<forall>e \<in> set (sg_envs sg). normalise_model_name e \<in> sanctioned_envs pystr metrics op \<or> \<not> enforce_env_gate metrics op)"
  by (auto simp: unavailable_signals_def Let_def sanctioned_models_def sanctioned_envs_def split: sum.splits)

lemma alias_of_one: "a \<in> set (alias_token_sets tss) \<longleftrightarrow> (\<exists>ts \<in> set tss. a \<in> set (alias_token_sets [ts]))"
  by (auto simp: alias_token_sets_def)

text \<open>The token sets that a name or a prose gap stands for.\<close>

definition signal_source :: "signals \<Rightarrow> string set \<Rightarrow> bool" where
  "signal_source sg ts \<longleftrightarrow>
     (\<exists>n. ts = normalise_dataset_name n \<and>
        (n \<in> set (sg_datasets sg) \<or> n \<in> set (sg_models sg) \<or> n \<in> set (sg_envs sg) \<or> Inr n \<in> set (sg_gaps sg)))
     \<or> (\<exists>g. ts = gap_name_tokens g \<and> Inl g \<in> set (sg_gaps sg))"

lemma case_sum_Some [simp]:
  "case_sum Some (\<lambda>_. None) g = Some x \<longleftrightarrow> g = Inl x" "case_sum (\<lambda>_. None) Some g = Some y \<longleftrightarrow> g = Inr y"
  by (cases g; simp)+

lemma signal_token_sets_source: "ts \<in> set (signal_token_sets sg) \<Longrightarrow> signal_source sg ts"
  by (auto simp: signal_token_sets_def compact_tokens_def signal_source_def in_map_filter)

lemma excluded_leaf_source:
  assumes "detect_data_unavailable_leaves pystr env ls files None op = Inr X" and "lid \<in> X"
    and "unavailable_signals pystr env files op = Inr sg"
  shows "\<exists>leaf ts. leaf \<in> set ls \<and> str_get pystr leaf ''id'' = lid \<and> signal_source sg ts \<and>
     (leaf_mentions_dataset pystr leaf ts \<or>
      (\<exists>a \<in> set (alias_token_sets [ts]). leaf_mentions_dataset pystr leaf a)
        \<and> \<not> leaf_has_disk_evidence (leaf_tokens pystr leaf) (successful_metric_subjects pystr (dict_or_empty (metrics_json env files))))"
proof -
  define tss where "tss = signal_token_sets sg"
  have X: "X = (if ls = [] \<or> tss = [] then {} else match_leaves pystr (metrics_json env files) tss {} {} ls)"
    using assms(1,3) by (auto simp: detect_data_unavailable_leaves_def tss_def Let_def split: if_splits)
  with assms(2) obtain leaf where leaf: "leaf \<in> set ls" "str_get pystr leaf ''id'' = lid"
    and match: "list_ex (\<lambda>ts. ts \<noteq> {} \<and> leaf_mentions_dataset pystr leaf ts) tss
      \<or> \<not> leaf_has_disk_evidence (leaf_tokens pystr leaf) (successful_metric_subjects pystr (dict_or_empty (metrics_json env files)))
        \<and> list_ex (\<lambda>a. a \<noteq> {} \<and> a \<subseteq> leaf_tokens pystr leaf) (alias_token_sets tss)"
    by (auto simp: match_leaves_def Let_def ids_of_def split: if_splits)
  show ?thesis
    using leaf match signal_token_sets_source [of _ sg] alias_of_one [of _ tss]
    unfolding tss_def list_ex_iff leaf_mentions_dataset_def by blast
qed


text \<open>A run whose metrics report a failed data set, a verified exclusion and an environment the run skipped by itself.\<close>

definition demo_metrics :: "dict" where
  "demo_metrics =
     [(''data_load_failures'', JList [JStr ''timit'']),
      (''scope'', JDict
        [(''environments_skipped'', JList [JStr ''webshop'']),
         (''exclusions'', JList
           [JDict [(''axis'', JStr ''environment''), (''item'', JStr ''alfworld''), (''verified'', JBool True)]])])]"

definition demo_run :: run_files where
  "demo_run = \<lparr>rf_metrics = [\<lparr>mc_file = Json_File (JDict demo_metrics), mc_mtime = Some 1\<rparr>], rf_report = No_File\<rparr>"

definition demo_op :: operator_scope where
  "demo_op = \<lparr>os_skip_models = None, os_skip_environments = None, os_extra_scope = None\<rparr>"

definition demo_rubric_leaf :: "string \<Rightarrow> string \<Rightarrow> dict" where
  "demo_rubric_leaf i req = [(''id'', JStr i), (''requirements'', JStr req)]"

definition demo_rubric_leaves :: "dict list" where
  "demo_rubric_leaves =
     [demo_rubric_leaf ''t1'' ''TIMIT error'', demo_rubric_leaf ''w1'' ''WebShop score'', demo_rubric_leaf ''a1'' ''ALFWorld score'']"

lemma demo_detect:
  "detect_data_unavailable_leaves demo_str (\<lambda>_. None) demo_rubric_leaves demo_run None demo_op = Inr {''t1'', ''a1''}"
  by code_simp

lemma demo_run_facts:
  "metrics_json (\<lambda>_. None) demo_run = JDict demo_metrics" "enforce_env_gate demo_metrics demo_op"
  "unavailable_signals demo_str (\<lambda>_. None) demo_run demo_op =
     Inr \<lparr>sg_datasets = [''timit''], sg_models = [], sg_envs = [''alfworld''], sg_gaps = []\<rparr>"
  by code_simp+


text \<open>A scope in the metrics file that is neither a dict nor empty makes the detection raise, although
  the code that reads it for the exclusions ignores such a scope.\<close>

theorem malformed_scope_raises:
  assumes "metrics_json env files = JDict metrics" and "py_truthy (dict_get metrics ''scope'')"
    and "as_dict (dict_get metrics ''scope'') = None" and "ls \<noteq> []"
  shows "detect_data_unavailable_leaves pystr env ls files shape op = Inl Attribute_Error"
proof -
  have "as_mapping (dict_get metrics ''scope'') = Inl Attribute_Error"
    using assms(2,3) by (auto simp: as_mapping_def as_dict_def split: json.splits)
  moreover have "as_mapping j = Inl e \<Longrightarrow> e = Attribute_Error" for j e
    by (auto simp: as_mapping_def split: json.splits if_splits)
  ultimately show ?thesis using assms(1,4)
    by (auto simp: detect_data_unavailable_leaves_def unavailable_signals_def reported_models_def Let_def split: sum.splits)
qed


theorem malformed_scope_raises_witness:
  "detect_data_unavailable_leaves demo_str (\<lambda>_. None) demo_rubric_leaves
     \<lparr>rf_metrics = [\<lparr>mc_file = Json_File (JDict [(''scope'', JStr ''reduced'')]), mc_mtime = None\<rparr>], rf_report = No_File\<rparr>
     None demo_op = Inl Attribute_Error"
  by (rule malformed_scope_raises [where metrics = "[(''scope'', JStr ''reduced'')]"])
    (simp_all add: metrics_json_def latest_metrics_path_def dict_get_def as_dict_def demo_rubric_leaves_def)

end
