(* ===== verification/Leaf_Checker.thy ===== *)
theory Leaf_Checker
  imports Leaf_Exclusion
begin

text \<open>
  The deterministic checker of rubric leaves, \<^verbatim>\<open>src/backend/evals/paperbench/deterministic_leaf_checker.py\<close>:
  hyperparameters against the provenance manifests, artifacts against the file tree, numbers and trends
  against the metrics. The text of a justification is the value it renders, a \<open>check_reason\<close>; what a
  glob finds under a root is part of the files, \<open>None\<close> where the pattern makes \<open>glob\<close> raise.
\<close>

section \<open>Values\<close>

definition coerce_number :: "json \<Rightarrow> real option" where
  "coerce_number x =
     (case x of JInt i \<Rightarrow> Some (of_int i) | JFloat r \<Rightarrow> Some r | JStr s \<Rightarrow> float_text (py_strip s) | _ \<Rightarrow> None)"

text \<open>\<open>_load_json\<close>: \<open>None\<close> for a file that is missing or does not parse, and for \<open>null\<close>.\<close>

definition load_json :: "json_file \<Rightarrow> json option" where
  "load_json f = (case f of Json_File j \<Rightarrow> if j = JNull then None else Some j | _ \<Rightarrow> None)"

fun dotted_from :: "json \<Rightarrow> string list \<Rightarrow> json option" where
  "dotted_from cur [] = Some cur"
| "dotted_from cur (seg # segs) =
     (case cur of JDict d \<Rightarrow> (case map_of d seg of None \<Rightarrow> None | Some v \<Rightarrow> dotted_from v segs) | _ \<Rightarrow> None)"

definition dotted_get :: "json \<Rightarrow> string \<Rightarrow> json option" where
  "dotted_get obj dotted = dotted_from obj (py_split_on CHR ''.'' dotted)"

fun first_hit :: "('a \<Rightarrow> 'b option) \<Rightarrow> 'a list \<Rightarrow> 'b option" where
  "first_hit f [] = None"
| "first_hit f (x # xs) = (case f x of None \<Rightarrow> first_hit f xs | Some y \<Rightarrow> Some y)"

definition find_provenance_field :: "json \<Rightarrow> string \<Rightarrow> json option" where
  "find_provenance_field prov field =
     (case prov of
        JDict d \<Rightarrow>
          (case dotted_get prov field of
             Some v \<Rightarrow> Some v
           | None \<Rightarrow>
               (case dict_get d ''experiments'' of
                  JDict exps \<Rightarrow> first_hit (\<lambda>kv. dotted_get (snd kv) field) exps
                | JList exps \<Rightarrow> first_hit (\<lambda>e. dotted_get e field) exps
                | _ \<Rightarrow> None))
      | _ \<Rightarrow> None)"

text \<open>Equality of JSON values in Python: numbers and booleans by value, dicts whatever the order.\<close>

fun canon :: "json \<Rightarrow> json" where
  "canon (JBool b) = JFloat (if b then 1 else 0)"
| "canon (JInt i) = JFloat (of_int i)"
| "canon (JList l) = JList (map canon l)"
| "canon (JDict d) = JDict (sort_key fst (map (\<lambda>kv. (fst kv, canon (snd kv))) d))"
| "canon j = j"

definition py_eq :: "json \<Rightarrow> json \<Rightarrow> bool" where
  "py_eq a b \<longleftrightarrow> canon a = canon b"

definition norm_text :: "string \<Rightarrow> string" where
  "norm_text s = py_lower (py_strip s)"

definition is_container :: "json \<Rightarrow> bool" where
  "is_container j = (case j of JList _ \<Rightarrow> True | JDict _ \<Rightarrow> True | _ \<Rightarrow> False)"

definition eq_scalar :: "(json \<Rightarrow> string) \<Rightarrow> json \<Rightarrow> json \<Rightarrow> bool" where
  "eq_scalar pystr a b =
     (if py_eq a b then True
      else case a of
        JStr s \<Rightarrow>
          (case b of
             JStr t \<Rightarrow> norm_text s = norm_text t
           | _ \<Rightarrow> \<not> is_container b \<and> norm_text s = norm_text (pystr b))
      | _ \<Rightarrow> (case b of JStr t \<Rightarrow> \<not> is_container a \<and> norm_text (pystr a) = norm_text t | _ \<Rightarrow> False))"

definition both_numbers :: "json \<Rightarrow> json \<Rightarrow> (real \<Rightarrow> real \<Rightarrow> bool) \<Rightarrow> bool" where
  "both_numbers a b P =
     (case (coerce_number a, coerce_number b) of (Some x, Some y) \<Rightarrow> P x y | _ \<Rightarrow> False)"

definition compare_eq :: "(json \<Rightarrow> string) \<Rightarrow> json \<Rightarrow> json \<Rightarrow> real \<Rightarrow> bool" where
  "compare_eq pystr actual expected tol \<longleftrightarrow>
     eq_scalar pystr actual expected \<or> both_numbers actual expected (\<lambda>x y. \<bar>x - y\<bar> \<le> tol)"

definition compare_hparam :: "(json \<Rightarrow> string) \<Rightarrow> json \<Rightarrow> string \<Rightarrow> json \<Rightarrow> real \<Rightarrow> bool" where
  "compare_hparam pystr actual oper expected tol =
     (if oper = ''=='' then compare_eq pystr actual expected tol
      else if oper = ''!='' then \<not> compare_eq pystr actual expected tol
      else if oper = ''~='' then both_numbers actual expected (\<lambda>x y. \<bar>x - y\<bar> \<le> tol)
      else if oper = ''>='' then both_numbers actual expected (\<lambda>x y. x \<ge> y - tol)
      else if oper = ''<='' then both_numbers actual expected (\<lambda>x y. x \<le> y + tol)
      else False)"

section \<open>Files\<close>

record glob_root =
  gr_exists :: bool
  gr_glob :: "string \<Rightarrow> bool option"
  gr_rglob :: "string \<Rightarrow> bool option"

record checker_files =
  cf_provenance :: "(json_file \<times> real) list"
  cf_metrics :: "metrics_candidate list"
  cf_roots :: "(string \<times> glob_root) list"

definition provenance_newest_first :: "checker_files \<Rightarrow> json_file list" where
  "provenance_newest_first files = map fst (sort_key (\<lambda>p. - snd p) (cf_provenance files))"

text \<open>The depth counts down: the search below the ninth level, or below the eleventh, finds nothing.\<close>

fun any_numeric_metric :: "nat \<Rightarrow> json \<Rightarrow> bool" where
  "any_numeric_metric 0 node = False"
| "any_numeric_metric (Suc n) node =
     (case node of
        JDict d \<Rightarrow> is_real_number (dict_get d ''metric'') \<or> list_ex (\<lambda>kv. any_numeric_metric n (snd kv)) d
      | JList l \<Rightarrow> list_ex (any_numeric_metric n) l
      | _ \<Rightarrow> False)"

definition metrics_has_measured_value :: "json \<Rightarrow> bool" where
  "metrics_has_measured_value j =
     (case j of
        JDict d \<Rightarrow> py_truthy (dict_get d ''comparison'') \<or> any_numeric_metric 9 (dict_get d ''per_model'')
      | _ \<Rightarrow> False)"

definition checker_rank :: "metrics_candidate \<Rightarrow> nat \<times> real" where
  "checker_rank c =
     (case load_json (mc_file c) of
        Some j \<Rightarrow> if metrics_has_measured_value j then 1 else 0
      | None \<Rightarrow> 0,
      case mc_mtime c of None \<Rightarrow> 0 | Some t \<Rightarrow> t)"

definition latest_metrics :: "metrics_candidate list \<Rightarrow> json option" where
  "latest_metrics cands =
     (case cands of [] \<Rightarrow> None | c # cs \<Rightarrow> load_json (mc_file (py_max_by checker_rank c cs)))"

fun recursive_key_search :: "nat \<Rightarrow> json \<Rightarrow> string \<Rightarrow> json option" where
  "recursive_key_search 0 node key = None"
| "recursive_key_search (Suc n) node key =
     (case node of
        JDict d \<Rightarrow>
          (case map_of d key of
             Some v \<Rightarrow> Some v
           | None \<Rightarrow> first_hit (\<lambda>kv. recursive_key_search n (snd kv) key) d)
      | JList l \<Rightarrow> first_hit (\<lambda>v. recursive_key_search n v key) l
      | _ \<Rightarrow> None)"

definition find_metric_value :: "json \<Rightarrow> string \<Rightarrow> json option" where
  "find_metric_value metrics metric_key =
     (let search = recursive_key_search 11 metrics (last (py_split_on CHR ''.'' metric_key)) in
      case metrics of
        JDict d \<Rightarrow> (case dotted_get metrics metric_key of Some v \<Rightarrow> Some v | None \<Rightarrow> search)
      | JList l \<Rightarrow> search
      | _ \<Rightarrow> None)"

definition series_endpoints :: "json \<Rightarrow> (real \<times> real) option" where
  "series_endpoints value =
     (case value of
        JDict d \<Rightarrow>
          (case (coerce_number (dict_get d ''first''), coerce_number (dict_get d ''last'')) of
             (Some f, Some l) \<Rightarrow> Some (f, l) | _ \<Rightarrow> None)
      | JList l \<Rightarrow>
          (case List.map_filter coerce_number l of [] \<Rightarrow> None | n # ns \<Rightarrow> Some (n, last (n # ns)))
      | _ \<Rightarrow> None)"

section \<open>The checks\<close>

datatype check_reason =
    Provenance_Missing string
  | Provenance_Compared bool string json string json
  | Artifact_Found bool string string
  | Artifact_Missing "string list"
  | Metric_Missing string
  | Metric_Not_Numeric string json
  | Threshold_Compared bool string real real real string
  | No_Series string string
  | Trend_Compared bool string real real string

record check_result =
  ck_id :: string
  ck_score :: real
  ck_reason :: check_reason
  ck_kind :: string

definition CHECK_HPARAM :: string where "CHECK_HPARAM = ''deterministic:hparam''"

definition CHECK_ARTIFACT :: string where "CHECK_ARTIFACT = ''deterministic:artifact''"

definition CHECK_NUMERIC :: string where "CHECK_NUMERIC = ''deterministic:numeric''"

definition check_result_of :: "string \<Rightarrow> string \<Rightarrow> real \<Rightarrow> check_reason \<Rightarrow> check_result" where
  "check_result_of leaf_id kind score reason =
     \<lparr>ck_id = leaf_id, ck_score = max 0 (min 1 score), ck_reason = reason, ck_kind = kind\<rparr>"

definition HPARAM_OPS :: "string list" where
  "HPARAM_OPS = [''=='', ''!='', ''>='', ''<='', ''~='']"

definition check_hparam ::
    "(json \<Rightarrow> string) \<Rightarrow> string \<Rightarrow> dict \<Rightarrow> checker_files \<Rightarrow> check_result option" where
  "check_hparam pystr leaf_id assertion files =
     (case (nonempty_str (dict_get assertion ''field''), nonempty_str (dict_get assertion ''op'')) of
        (Some field, Some oper) \<Rightarrow>
          if oper \<notin> set HPARAM_OPS then None
          else
            (let expected = dict_get assertion ''value'';
                 tol = (case coerce_number (dict_get assertion ''tolerance'') of None \<Rightarrow> 1 / 10 ^ 9 | Some t \<Rightarrow> t);
                 hit = first_hit (\<lambda>f. Option.bind (load_json f) (\<lambda>prov. find_provenance_field prov field))
                         (provenance_newest_first files)
             in case hit of
                  None \<Rightarrow> Some (check_result_of leaf_id CHECK_HPARAM 0 (Provenance_Missing field))
                | Some actual \<Rightarrow>
                    (let ok = compare_hparam pystr actual oper expected tol in
                     Some (check_result_of leaf_id CHECK_HPARAM (if ok then 1 else 0)
                       (Provenance_Compared ok field actual oper expected))))
      | _ \<Rightarrow> None)"

definition assertion_globs :: "dict \<Rightarrow> string list" where
  "assertion_globs assertion =
     (case (case map_of assertion ''glob'' of Some v \<Rightarrow> v | None \<Rightarrow> dict_get assertion ''globs'') of
        JStr s \<Rightarrow> [s]
      | JList l \<Rightarrow> List.map_filter nonempty_str l
      | _ \<Rightarrow> [])"

text \<open>The search of one pattern under one root; \<open>Some True\<close> is a hit of the recursive search.\<close>

definition artifact_under :: "string \<Rightarrow> glob_root \<Rightarrow> bool option" where
  "artifact_under pat gr =
     (if \<not> gr_exists gr then None
      else case gr_glob gr pat of
        None \<Rightarrow> None
      | Some True \<Rightarrow> Some False
      | Some False \<Rightarrow>
          if CHR ''/'' \<notin> set pat \<and> CHR ''*'' \<notin> set pat \<and> CHR ''?'' \<notin> set pat \<and> gr_rglob gr pat = Some True
          then Some True else None)"

definition check_artifact :: "string \<Rightarrow> dict \<Rightarrow> checker_files \<Rightarrow> check_result option" where
  "check_artifact leaf_id assertion files =
     (let patterns = assertion_globs assertion in
      if patterns = [] then None
      else case first_hit (\<lambda>pat. first_hit (\<lambda>nr. map_option (\<lambda>rec. (rec, pat, fst nr)) (artifact_under pat (snd nr)))
                 (cf_roots files)) patterns of
             Some (rec, pat, root_name) \<Rightarrow> Some (check_result_of leaf_id CHECK_ARTIFACT 1 (Artifact_Found rec pat root_name))
           | None \<Rightarrow> Some (check_result_of leaf_id CHECK_ARTIFACT 0 (Artifact_Missing patterns)))"

definition grade_threshold :: "string \<Rightarrow> string \<Rightarrow> string \<Rightarrow> real \<Rightarrow> real \<Rightarrow> real \<Rightarrow> check_result" where
  "grade_threshold leaf_id metric_key direction value target tol =
     (let ok = (if direction = ''higher_better'' then value \<ge> target - tol
                else if direction = ''lower_better'' then value \<le> target + tol
                else \<bar>value - target\<bar> \<le> tol)
      in check_result_of leaf_id CHECK_NUMERIC (if ok then 1 else 0) (Threshold_Compared ok metric_key value target tol direction))"

definition grade_trend :: "string \<Rightarrow> string \<Rightarrow> string \<Rightarrow> json \<Rightarrow> check_result" where
  "grade_trend leaf_id metric_key direction raw_val =
     (case series_endpoints raw_val of
        None \<Rightarrow> check_result_of leaf_id CHECK_NUMERIC 0 (No_Series metric_key direction)
      | Some (fst_v, last_v) \<Rightarrow>
          (let ok = (if direction = ''trend_up'' then last_v \<ge> fst_v else last_v \<le> fst_v)
           in check_result_of leaf_id CHECK_NUMERIC (if ok then 1 else 0) (Trend_Compared ok metric_key fst_v last_v direction)))"

definition NUMERIC_DIRECTIONS :: "string list" where
  "NUMERIC_DIRECTIONS = [''higher_better'', ''lower_better'', ''trend_up'', ''trend_down'', ''within'']"

definition check_numeric :: "string \<Rightarrow> dict \<Rightarrow> checker_files \<Rightarrow> check_result option" where
  "check_numeric leaf_id assertion files =
     (case (nonempty_str (dict_get assertion ''metric_key''), nonempty_str (dict_get assertion ''direction'')) of
        (Some metric_key, Some direction) \<Rightarrow>
          if direction \<notin> set NUMERIC_DIRECTIONS then None
          else
            (let trend = direction \<in> set [''trend_up'', ''trend_down''];
                 target = coerce_number (dict_get assertion ''target'');
                 tol = (case coerce_number (dict_get assertion ''tolerance'') of None \<Rightarrow> 0 | Some t \<Rightarrow> t)
             in if \<not> trend \<and> target = None then None
                else case Option.bind (latest_metrics (cf_metrics files)) (\<lambda>m. find_metric_value m metric_key) of
                  None \<Rightarrow> Some (check_result_of leaf_id CHECK_NUMERIC 0 (Metric_Missing metric_key))
                | Some raw_val \<Rightarrow>
                    if trend then Some (grade_trend leaf_id metric_key direction raw_val)
                    else (case coerce_number raw_val of
                       None \<Rightarrow> Some (check_result_of leaf_id CHECK_NUMERIC 0 (Metric_Not_Numeric metric_key raw_val))
                     | Some v \<Rightarrow> Some (grade_threshold leaf_id metric_key direction v (the target) tol)))
      | _ \<Rightarrow> None)"

definition check_leaf :: "(json \<Rightarrow> string) \<Rightarrow> dict \<Rightarrow> checker_files \<Rightarrow> check_result option" where
  "check_leaf pystr leaf files =
     (case (dict_get leaf ''check_kind'', dict_get leaf ''assertion'') of
        (JStr kind, JDict assertion) \<Rightarrow>
          if assertion = [] then None
          else if kind = CHECK_HPARAM then check_hparam pystr (str_get pystr leaf ''id'') assertion files
          else if kind = CHECK_ARTIFACT then check_artifact (str_get pystr leaf ''id'') assertion files
          else if kind = CHECK_NUMERIC then check_numeric (str_get pystr leaf ''id'') assertion files
          else None
      | _ \<Rightarrow> None)"

section \<open>The grade\<close>

text \<open>A deterministic grade is 0 or 1, under the id of the leaf and the kind of its annotation; a leaf without
  an annotation is left to the grader.\<close>

lemma check_leaf_binary:
  "check_leaf pystr leaf files = Some r \<Longrightarrow> ck_score r \<in> {0, 1} \<and> ck_id r = str_get pystr leaf ''id''
     \<and> dict_get leaf ''check_kind'' = JStr (ck_kind r)"
  by (auto simp: check_leaf_def check_hparam_def check_artifact_def check_numeric_def grade_threshold_def
      grade_trend_def check_result_of_def Let_def split: json.splits option.splits if_splits prod.splits)

lemma unannotated_leaf_to_grader: "dict_get leaf ''check_kind'' = JNull \<Longrightarrow> check_leaf pystr leaf files = None"
  by (simp add: check_leaf_def)

text \<open>The inequality of a hyperparameter is the negation of its equality, and a larger tolerance accepts more.\<close>

lemma compare_hparam_mono:
  "compare_hparam pystr a oper b t \<Longrightarrow> t \<le> t' \<Longrightarrow> oper \<noteq> ''!='' \<Longrightarrow> compare_hparam pystr a oper b t'"
  by (auto simp: compare_hparam_def compare_eq_def both_numbers_def split: if_splits option.splits)

end
