(* ===== verification/Leaf_Scorer.thy ===== *)
theory Leaf_Scorer
  imports Leaf_Checker "HOL-Library.Multiset"
begin

text \<open>
  The score of a reproduction, \<^verbatim>\<open>src/backend/evals/paperbench/leaf_scorer.py\<close>: invariants of the code, the
  answers of the grader, the median of its samples, the veto of the evidence gate, the roll-up and its caps,
  the re-roll at the end of a run, and the report that is amended.

  Arguments stand for what the program only calls: \<open>pystr\<close> is Python's \<open>str\<close>, \<open>re_search\<close> its regular
  expressions (\<open>None\<close> for a pattern that does not compile), \<open>answer\<close> what the grader returns for a batch,
  \<open>render\<close> the text of a check. A raw answer is what \<open>_extract_json_array\<close> makes of it. \<open>finished\<close> is the
  order in which the batches complete.
\<close>

section \<open>Invariants of the code\<close>

record invariant_spec =
  is_name :: string
  is_rationale :: string
  is_file_glob :: string
  is_must_match :: "string list"
  is_must_not_match :: "string list"

record code_file =
  cd_parts :: "string list"
  cd_is_file :: bool
  cd_text :: "string option"

text \<open>A directory is what \<open>rglob\<close> finds in it; \<open>cd_parts\<close> is the path below it, \<open>cd_text\<close> the first
  mebibyte, decoded.\<close>

type_synonym code_tree = "string \<Rightarrow> code_file list option"

type_synonym regex_engine = "string \<Rightarrow> (string \<Rightarrow> bool) option"

record invariant_result =
  iv_name :: string
  iv_passed :: bool
  iv_hard :: bool
  iv_soft :: bool
  iv_match :: "(string \<times> string list) list"
  iv_violations :: "(string \<times> string list) list"
  iv_files_scanned :: nat
  iv_rationale :: string

definition path_text :: "string list \<Rightarrow> string" where
  "path_text parts = concat (map2 (\<lambda>i p. if i = (0 :: nat) then p else CHR ''/'' # p) [0..<length parts] parts)"

definition is_source :: "code_file \<Rightarrow> bool" where
  "is_source f \<longleftrightarrow>
     cd_is_file f \<and> ''__pycache__'' \<notin> set (cd_parts f) \<and> \<not> (cd_parts f \<noteq> [] \<and> suffix ''.pyc'' (last (cd_parts f)))"

definition matching_lines :: "(string \<Rightarrow> bool) \<Rightarrow> code_file \<times> string \<Rightarrow> string list" where
  "matching_lines search ft =
     List.map_filter (\<lambda>(n, line). if search line
         then Some (path_text (cd_parts (fst ft)) @ '':'' @ str_of_nat n @ '': '' @ take 120 (py_strip line)) else None)
       (zip [1..<Suc (length (py_splitlines (snd ft)))] (py_splitlines (snd ft)))"

text \<open>The lines that match, pattern by pattern; a pattern that does not compile has no entry.\<close>

definition pattern_hits :: "regex_engine \<Rightarrow> (code_file \<times> string) list \<Rightarrow> string list \<Rightarrow> (string \<times> string list) list" where
  "pattern_hits re_search contents pats =
     foldl dict_set [] (List.map_filter (\<lambda>pat. map_option (\<lambda>search. (pat, concat (map (matching_lines search) contents))) (re_search pat)) pats)"

definition check_invariant :: "regex_engine \<Rightarrow> code_tree \<Rightarrow> invariant_spec \<Rightarrow> invariant_result" where
  "check_invariant re_search tree ispec =
     (let glob = (if is_file_glob ispec = [] then ''**/*.py'' else is_file_glob ispec);
          matched = (case tree (dropWhile (\<lambda>c. c = CHR ''/'') glob) of None \<Rightarrow> [] | Some fs \<Rightarrow> fs);
          sources = filter is_source matched;
          contents = List.map_filter (\<lambda>f. map_option (Pair f) (cd_text f)) sources;
          evidence = pattern_hits re_search contents (is_must_match ispec);
          soft = is_must_match ispec \<noteq> [] \<and> \<not> list_ex (\<lambda>e. snd e \<noteq> []) evidence;
          violations = filter (\<lambda>e. snd e \<noteq> []) (pattern_hits re_search contents (is_must_not_match ispec));
          hard = violations \<noteq> []
      in \<lparr>iv_name = is_name ispec, iv_passed = \<not> hard \<and> \<not> soft, iv_hard = hard, iv_soft = soft, iv_match = evidence,
          iv_violations = violations, iv_files_scanned = length sources, iv_rationale = is_rationale ispec\<rparr>)"

definition run_invariant_checks :: "regex_engine \<Rightarrow> invariant_spec list \<Rightarrow> code_tree option \<Rightarrow> invariant_result list" where
  "run_invariant_checks re_search invariants code_dir =
     (case code_dir of None \<Rightarrow> [] | Some tree \<Rightarrow> map (check_invariant re_search tree) invariants)"

definition INVARIANT_HARD_CAP :: real where "INVARIANT_HARD_CAP = 0"

definition INVARIANT_SOFT_CAP :: real where "INVARIANT_SOFT_CAP = 1 / 2"

definition apply_invariant_gate :: "real \<Rightarrow> invariant_result list \<Rightarrow> real \<times> bool" where
  "apply_invariant_gate overall_score results =
     (if list_ex iv_hard results then (INVARIANT_HARD_CAP, True)
      else if list_ex iv_soft results then (min overall_score INVARIANT_SOFT_CAP, True)
      else (overall_score, False))"

section \<open>Answers of the grader\<close>

record graded_leaf =
  gl_id :: string
  gl_score :: real
  gl_justification :: string
  gl_deductions :: "string list"
  gl_graded :: bool
  gl_spread :: "(nat \<times> real \<times> real) option"

definition ungraded :: "string \<Rightarrow> string \<Rightarrow> graded_leaf" where
  "ungraded why lid =
     \<lparr>gl_id = lid, gl_score = 0, gl_justification = why, gl_deductions = [], gl_graded = False, gl_spread = None\<rparr>"

definition clamp01 :: "real \<Rightarrow> real" where
  "clamp01 x = max 0 (min 1 x)"

definition batch_ids :: "(json \<Rightarrow> string) \<Rightarrow> dict list \<Rightarrow> string list" where
  "batch_ids pystr batch = rev (remdups (rev (map (\<lambda>leaf. str_get pystr leaf ''id'') batch)))"

definition parse_item :: "(json \<Rightarrow> string) \<Rightarrow> string list \<Rightarrow> json \<Rightarrow> (string \<times> graded_leaf) option" where
  "parse_item pystr ids item =
     (case item of
        JDict d \<Rightarrow>
          (let lid = str_get pystr d ''leaf_id'' in
           if lid = [] \<or> lid \<notin> set ids then None
           else Some (lid,
             \<lparr>gl_id = lid,
              gl_score = (case float_of_json (dict_get d ''score'') of None \<Rightarrow> 0 | Some x \<Rightarrow> clamp01 x),
              gl_justification = str_get pystr d ''justification'',
              gl_deductions = take 8 (map pystr (json_items (dict_get d ''deductions''))),
              gl_graded = True, gl_spread = None\<rparr>))
      | _ \<Rightarrow> None)"

definition parse_batch_response ::
    "(json \<Rightarrow> string) \<Rightarrow> report_error + json list \<Rightarrow> dict list \<Rightarrow> graded_leaf list" where
  "parse_batch_response pystr raw batch =
     (let ids = batch_ids pystr batch;
          results = (case raw of Inl _ \<Rightarrow> [] | Inr items \<Rightarrow> foldl dict_set [] (List.map_filter (parse_item pystr ids) items))
      in map (\<lambda>lid. case map_of results lid of Some r \<Rightarrow> r | None \<Rightarrow> ungraded ''ungraded'' lid) ids)"

definition resolve_grader_samples :: "environ \<Rightarrow> int" where
  "resolve_grader_samples env =
     (let raw = py_strip (environ_get env ''OPENRESEARCH_GRADER_SAMPLES'' []) in
      if raw = [] then 1 else case int_text raw of None \<Rightarrow> 1 | Some n \<Rightarrow> max 1 n)"

text \<open>\<open>statistics.median\<close>.\<close>

definition py_median :: "real list \<Rightarrow> real" where
  "py_median xs =
     (let s = sort xs; n = length xs in
      if odd n then s ! (n div 2) else (s ! (n div 2 - 1) + s ! (n div 2)) / 2)"

fun nearest :: "real \<Rightarrow> graded_leaf \<Rightarrow> graded_leaf list \<Rightarrow> graded_leaf" where
  "nearest m best [] = best"
| "nearest m best (r # rs) = nearest m (if \<bar>gl_score r - m\<bar> < \<bar>gl_score best - m\<bar> then r else best) rs"

definition merge_leaf :: "string \<Rightarrow> graded_leaf list \<Rightarrow> graded_leaf" where
  "merge_leaf lid recs =
     (case recs of
        [] \<Rightarrow> ungraded ''ungraded'' lid
      | r # rs \<Rightarrow>
          (let scores = map gl_score recs; med = py_median scores; rep = nearest med r rs in
           \<lparr>gl_id = lid, gl_score = med, gl_justification = gl_justification rep, gl_deductions = gl_deductions rep,
            gl_graded = list_ex gl_graded recs,
            gl_spread = Some (length scores, round4 (Min (set scores)), round4 (Max (set scores)))\<rparr>))"

definition median_merge :: "(json \<Rightarrow> string) \<Rightarrow> dict list \<Rightarrow> graded_leaf list list \<Rightarrow> graded_leaf list" where
  "median_merge pystr batch parsed_runs =
     map (\<lambda>leaf. let lid = str_get pystr leaf ''id'' in
       merge_leaf lid (filter (\<lambda>r. gl_id r = lid) (concat parsed_runs))) batch"

text \<open>What the grader returns for a batch: \<open>None\<close> when the call raises, else the samples.\<close>

type_synonym grader_answer = "(report_error + json list) list option"

definition grade_batch :: "(json \<Rightarrow> string) \<Rightarrow> grader_answer \<Rightarrow> dict list \<Rightarrow> graded_leaf list" where
  "grade_batch pystr raws batch =
     (let failed = map (\<lambda>leaf. ungraded ''batch_error'' (str_get pystr leaf ''id'')) batch in
      case raws of
        None \<Rightarrow> failed
      | Some [] \<Rightarrow> failed
      | Some [raw] \<Rightarrow> parse_batch_response pystr raw batch
      | Some rs \<Rightarrow> median_merge pystr batch (map (\<lambda>raw. parse_batch_response pystr raw batch) rs))"


section \<open>The score\<close>

record leaf_record =
  rc_id :: string
  rc_score :: "real option"
  rc_justification :: string
  rc_spread :: "(nat \<times> real \<times> real) option"
  rc_vetoed :: "real option"

definition plain_record :: "string \<Rightarrow> real option \<Rightarrow> string \<Rightarrow> leaf_record" where
  "plain_record lid score why =
     \<lparr>rc_id = lid, rc_score = score, rc_justification = why, rc_spread = None, rc_vetoed = None\<rparr>"

record score_result =
  sr_overall :: real
  sr_leaf_count :: nat
  sr_graded :: nat
  sr_rubric_source :: string
  sr_leaf_scores :: "leaf_record list"
  sr_degraded :: bool
  sr_coverage :: real
  sr_eligible :: int
  sr_unavailable :: nat
  sr_target :: "real option"
  sr_invariants :: "invariant_result list"
  sr_gate_applied :: bool
  sr_grader :: "(int \<times> real) option"

definition is_degraded_run :: "json_file \<Rightarrow> bool" where
  "is_degraded_run report =
     (case report of
        Json_File (JDict d) \<Rightarrow>
          \<not> py_truthy (dict_get d ''baseline_metrics'') \<or> dict_get d ''verdict'' = JStr ''failed''
      | _ \<Rightarrow> False)"

definition target_score :: "dict \<Rightarrow> real option" where
  "target_score tree =
     (let raw = dict_get tree ''target_score'' in
      if raw = JNull then None else map_option clamp01 (float_of_json raw))"

definition deterministic_leaves_enabled :: "environ \<Rightarrow> bool" where
  "deterministic_leaves_enabled env = flag_on (environ_get env ''OPENRESEARCH_DETERMINISTIC_LEAVES'' [])"

fun chunks :: "nat \<Rightarrow> 'a list \<Rightarrow> 'a list list" where
  "chunks n [] = []"
| "chunks n (x # xs) = (if n = 0 then [] else take n (x # xs) # chunks n (drop n (x # xs)))"

text \<open>The loop over the results of the batches and the one over the deterministic results. The ceiling for the leaves of a
  degraded run cannot apply in them: a degraded run has returned before.\<close>

record score_state =
  ss_scores :: "(string \<times> real) list"
  ss_records :: "leaf_record list"
  ss_graded :: nat

definition store_graded :: "score_state \<Rightarrow> graded_leaf \<Rightarrow> score_state" where
  "store_graded s rec =
     s\<lparr>ss_scores := dict_set (ss_scores s) (gl_id rec, gl_score rec),
       ss_records := ss_records s @ [(plain_record (gl_id rec) (Some (gl_score rec)) (gl_justification rec))\<lparr>rc_spread := gl_spread rec\<rparr>],
       ss_graded := ss_graded s + (if gl_graded rec then 1 else 0)\<rparr>"

definition store_checked :: "(check_reason \<Rightarrow> string) \<Rightarrow> score_state \<Rightarrow> check_result \<Rightarrow> score_state" where
  "store_checked render s rec =
     s\<lparr>ss_scores := dict_set (ss_scores s) (ck_id rec, ck_score rec),
       ss_records := ss_records s @ [plain_record (ck_id rec) (Some (ck_score rec)) (render (ck_reason rec))],
       ss_graded := ss_graded s + 1\<rparr>"

text \<open>The veto of the evidence gate over one record; a leaf is found by the last entry with its id.\<close>

definition veto_text :: "(json \<Rightarrow> string) \<Rightarrow> real \<Rightarrow> string \<Rightarrow> string" where
  "veto_text pystr x why =
     take 500 (''evidence_gate: result claim with no successful on-disk per_model evidence (was '' @ pystr (JFloat x) @ ''); '' @ why)"

definition vetoed_score ::
    "(json \<Rightarrow> string) \<Rightarrow> dict \<Rightarrow> string set \<Rightarrow> dict list \<Rightarrow> bool \<Rightarrow> leaf_record \<Rightarrow> real option" where
  "vetoed_score pystr metrics det_ids ls in_scores rec =
     (let lid = rc_id rec in
      if \<not> in_scores \<or> lid \<in> det_ids then None
      else case map_of (rev (map (\<lambda>leaf. (str_get pystr leaf ''id'', leaf)) ls)) lid of
        None \<Rightarrow> None
      | Some leaf \<Rightarrow>
          (let toks = set (runs az09 (py_lower (lid @ '' '' @ str_get pystr leaf ''requirements'')));
               vetoed = snd (gate_decision (rc_score rec) (leaf_claims_measured_result pystr leaf)
                               (result_leaf_substantiated pystr toks metrics))
           in if vetoed then rc_score rec else None))"

definition veto_record ::
    "(json \<Rightarrow> string) \<Rightarrow> dict \<Rightarrow> string set \<Rightarrow> dict list \<Rightarrow> (string \<times> real) list \<times> leaf_record list \<Rightarrow> leaf_record
      \<Rightarrow> (string \<times> real) list \<times> leaf_record list" where
  "veto_record pystr metrics det_ids ls acc rec =
     (let (scores, done) = acc in
      case vetoed_score pystr metrics det_ids ls (map_of scores (rc_id rec) \<noteq> None) rec of
        None \<Rightarrow> (scores, done @ [rec])
      | Some x \<Rightarrow>
          (dict_set scores (rc_id rec, 0),
           done @ [rec\<lparr>rc_score := Some 0, rc_vetoed := Some x, rc_justification := veto_text pystr x (rc_justification rec)\<rparr>]))"

definition evidence_gate ::
    "(json \<Rightarrow> string) \<Rightarrow> environ \<Rightarrow> dict \<Rightarrow> string set \<Rightarrow> dict list \<Rightarrow> score_state \<Rightarrow> score_state" where
  "evidence_gate pystr env metrics det_ids ls s =
     (if evidence_gate_enabled env then
        (let (scores, recs) = foldl (veto_record pystr metrics det_ids ls) (ss_scores s, []) (ss_records s)
         in s\<lparr>ss_scores := scores, ss_records := recs\<rparr>)
      else s)"

definition skipped_record :: "string \<Rightarrow> leaf_record" where
  "skipped_record lid = plain_record lid None ''data_unavailable: dataset declared in data_load_failures or scope.gaps''"

definition grader_spread :: "environ \<Rightarrow> leaf_record list \<Rightarrow> (int \<times> real) option" where
  "grader_spread env recs =
     (let n = resolve_grader_samples env;
          spreads = List.map_filter (\<lambda>r. map_option (\<lambda>(_, lo, hi). hi - lo) (rc_spread r)) recs
      in if n > 1 then Some (n, if spreads = [] then 0 else round4 (Max (set spreads))) else None)"

record score_inputs =
  si_tree :: dict
  si_files :: run_files
  si_checker :: checker_files
  si_code :: "code_tree option"
  si_invariants :: "invariant_spec list"
  si_degraded :: "bool option"
  si_metrics_shape :: "json list option"
  si_operator :: operator_scope
  si_inclusion :: "string list option"
  si_batch_size :: nat
  si_rubric_source :: string

text \<open>A degraded run: every leaf is 0, and the invariants are checked all the same.\<close>

definition score_degraded ::
    "(json \<Rightarrow> string) \<Rightarrow> regex_engine \<Rightarrow> score_inputs \<Rightarrow> dict list \<Rightarrow> report_error + score_result" where
  "score_degraded pystr re_search inp ls =
     (let ids = map (\<lambda>leaf. str_get pystr leaf ''id'') ls;
          invs = run_invariant_checks re_search (si_invariants inp) (si_code inp) in
      case roll_up pystr (si_tree inp) (foldl dict_set [] (map (\<lambda>i. (i, 0)) ids)) {} of
        Inl e \<Rightarrow> Inl e
      | Inr overall \<Rightarrow>
          (let (score, gate) = apply_invariant_gate (case overall of None \<Rightarrow> 0 | Some x \<Rightarrow> x) invs in
           Inr \<lparr>sr_overall = score, sr_leaf_count = length ls, sr_graded = 0, sr_rubric_source = si_rubric_source inp,
                sr_leaf_scores = map (\<lambda>i. plain_record i (Some 0) ''degraded_no_metrics'') ids, sr_degraded = True,
                sr_coverage = 0, sr_eligible = int (length ls), sr_unavailable = 0, sr_target = target_score (si_tree inp),
                sr_invariants = invs, sr_gate_applied = gate, sr_grader = None\<rparr>))"

definition excluded_ids ::
    "(json \<Rightarrow> string) \<Rightarrow> environ \<Rightarrow> score_inputs \<Rightarrow> dict list \<Rightarrow> report_error + string set" where
  "excluded_ids pystr env inp ls =
     (case detect_data_unavailable_leaves pystr env ls (si_files inp) (si_metrics_shape inp) (si_operator inp) of
        Inl e \<Rightarrow> Inl e
      | Inr unavailable \<Rightarrow>
          Inr (unavailable \<union> detect_theory_only_leaves pystr env ls
               \<union> detect_out_of_inclusion_scope_leaves pystr env ls (si_inclusion inp)))"

text \<open>The eligible leaves, graded: what the checker settles, and the rest in batches.\<close>

definition checked_leaves :: "(json \<Rightarrow> string) \<Rightarrow> environ \<Rightarrow> checker_files \<Rightarrow> dict list \<Rightarrow> check_result list" where
  "checked_leaves pystr env files eligible =
     (if deterministic_leaves_enabled env then List.map_filter (\<lambda>leaf. check_leaf pystr leaf files) eligible else [])"

definition grader_batches :: "(json \<Rightarrow> string) \<Rightarrow> environ \<Rightarrow> score_inputs \<Rightarrow> dict list \<Rightarrow> dict list list" where
  "grader_batches pystr env inp eligible =
     chunks (si_batch_size inp)
       (if deterministic_leaves_enabled env then filter (\<lambda>leaf. check_leaf pystr leaf (si_checker inp) = None) eligible
        else eligible)"

definition grade_all ::
    "(json \<Rightarrow> string) \<Rightarrow> (check_reason \<Rightarrow> string) \<Rightarrow> environ \<Rightarrow> (nat \<Rightarrow> grader_answer) \<Rightarrow> nat list \<Rightarrow> score_inputs \<Rightarrow> dict list
      \<Rightarrow> dict list \<Rightarrow> score_state" where
  "grade_all pystr render env answer finished inp ls eligible =
     (let batches = grader_batches pystr env inp eligible;
          checked = checked_leaves pystr env (si_checker inp) eligible;
          s0 = \<lparr>ss_scores = [], ss_records = [], ss_graded = 0\<rparr>;
          s1 = foldl (\<lambda>s k. foldl store_graded s (grade_batch pystr (answer k) (batches ! k))) s0 finished;
          s2 = foldl (store_checked render) s1 checked
      in evidence_gate pystr env (dict_or_empty (metrics_json env (si_files inp))) (set (map ck_id checked)) ls s2)"

definition score_reproduction ::
    "(json \<Rightarrow> string) \<Rightarrow> (check_reason \<Rightarrow> string) \<Rightarrow> regex_engine \<Rightarrow> environ \<Rightarrow> (nat \<Rightarrow> grader_answer) \<Rightarrow> nat list \<Rightarrow> score_inputs
      \<Rightarrow> report_error + score_result" where
  "score_reproduction pystr render re_search env answer finished inp =
     (case flatten_leaves (si_tree inp) of
        Inl e \<Rightarrow> Inl e
      | Inr ls \<Rightarrow>
          (let degraded = (case si_degraded inp of None \<Rightarrow> is_degraded_run (rf_report (si_files inp)) | Some d \<Rightarrow> d) in
           if degraded then score_degraded pystr re_search inp ls
           else case excluded_ids pystr env inp ls of
             Inl e \<Rightarrow> Inl e
           | Inr skip \<Rightarrow>
               if si_batch_size inp = 0 then Inl Value_Error
               else
               (let eligible = filter (\<lambda>leaf. str_get pystr leaf ''id'' \<notin> skip) ls;
                    s = grade_all pystr render env answer finished inp ls eligible;
                    recs = ss_records s @ map skipped_record (sorted_list_of_set skip);
                    invs = run_invariant_checks re_search (si_invariants inp) (si_code inp);
                    eligible_count = int (length ls) - int (card skip) in
                case roll_up pystr (si_tree inp) (ss_scores s) skip of
                  Inl e \<Rightarrow> Inl e
                | Inr overall \<Rightarrow>
                    (let (gated, gate) = apply_invariant_gate (case overall of None \<Rightarrow> 0 | Some x \<Rightarrow> x) invs in
                     Inr \<lparr>sr_overall = gated, sr_leaf_count = length ls, sr_graded = ss_graded s,
                          sr_rubric_source = si_rubric_source inp, sr_leaf_scores = recs, sr_degraded = False,
                          sr_coverage = (if eligible_count > 0 then of_nat (ss_graded s) / of_int eligible_count else 1),
                          sr_eligible = eligible_count, sr_unavailable = card skip, sr_target = target_score (si_tree inp),
                          sr_invariants = invs, sr_gate_applied = gate, sr_grader = grader_spread env recs\<rparr>))))"


section \<open>Scores stay in the unit interval\<close>

definition unit :: "real \<Rightarrow> bool" where
  "unit x \<longleftrightarrow> 0 \<le> x \<and> x \<le> 1"

lemma unit_simps [simp]: "unit 0" "unit 1" "unit (clamp01 x)"
  by (auto simp: unit_def clamp01_def)

lemma foldl_keeps: "P s \<Longrightarrow> (\<And>s x. x \<in> set xs \<Longrightarrow> P s \<Longrightarrow> P (f s x)) \<Longrightarrow> P (foldl f s xs)"
  by (induction xs arbitrary: s) auto

definition unit_scores :: "(string \<times> real) list \<Rightarrow> bool" where
  "unit_scores m \<longleftrightarrow> list_all (\<lambda>kx. unit (snd kx)) m"

lemma unit_scores_get: "unit_scores m \<Longrightarrow> unit (score_get m k)"
  by (auto simp: unit_scores_def score_get_def list_all_iff split: option.split dest!: map_of_SomeD)

lemma unit_scores_set: "unit_scores m \<Longrightarrow> unit x \<Longrightarrow> unit_scores (dict_set m (k, x))"
  using set_alist_update [of k x m] by (auto simp: unit_scores_def dict_set_def list_all_iff)

lemma py_median_between:
  assumes "xs \<noteq> []" and "\<And>x. x \<in> set xs \<Longrightarrow> lo \<le> x \<and> x \<le> hi"
  shows "lo \<le> py_median xs \<and> py_median xs \<le> hi"
proof -
  have "sort xs ! i \<in> set xs" if "i < length xs" for i
    using that by (metis length_sort nth_mem set_sort)
  then have "lo \<le> sort xs ! i \<and> sort xs ! i \<le> hi" if "i < length xs" for i
    using assms(2) that by blast
  moreover have "length xs div 2 < length xs" "length xs div 2 - 1 < length xs"
    using assms(1) by (cases xs; simp)+
  ultimately have "lo \<le> sort xs ! (length xs div 2) \<and> sort xs ! (length xs div 2) \<le> hi"
    "lo \<le> sort xs ! (length xs div 2 - 1) \<and> sort xs ! (length xs div 2 - 1) \<le> hi"
    by blast+
  then show ?thesis unfolding py_median_def Let_def by (auto simp: field_simps)
qed

lemma parsed_item: "parse_item pystr ids item = Some (lid, r) \<Longrightarrow> gl_id r = lid \<and> lid \<in> set ids \<and> unit (gl_score r)"
  by (auto simp: parse_item_def Let_def split: json.splits if_splits option.splits)

lemma parsed_results:
  assumes "(lid, r) \<in> set (foldl dict_set [] (List.map_filter (parse_item pystr ids) items))"
  shows "gl_id r = lid \<and> unit (gl_score r)"
proof -
  have "\<forall>(lid, r) \<in> set (foldl dict_set [] (List.map_filter (parse_item pystr ids) items)). gl_id r = lid \<and> unit (gl_score r)"
  proof (rule foldl_keeps)
    fix s :: "(string \<times> graded_leaf) list" and x
    assume x: "x \<in> set (List.map_filter (parse_item pystr ids) items)" and s: "\<forall>(lid, r) \<in> set s. gl_id r = lid \<and> unit (gl_score r)"
    have "gl_id (snd x) = fst x \<and> unit (gl_score (snd x))"
      using x parsed_item [of pystr ids _ "fst x" "snd x"] by (auto simp: in_map_filter)
    with s set_alist_update [of "fst x" "snd x" s] show "\<forall>(lid, r) \<in> set (dict_set s x). gl_id r = lid \<and> unit (gl_score r)"
      by (fastforce simp: dict_set_def)
  qed simp
  with assms show ?thesis by blast
qed

text \<open>Whatever the grader answers, a batch yields one result for each of its ids, with a score in the unit interval.\<close>

lemma parse_batch_response_ids: "map gl_id (parse_batch_response pystr raw batch) = batch_ids pystr batch"
  by (rule nth_equalityI)
    (auto simp: parse_batch_response_def Let_def ungraded_def dest!: map_of_SomeD parsed_results split: option.split sum.splits)

lemma parse_batch_response_unit: "r \<in> set (parse_batch_response pystr raw batch) \<Longrightarrow> unit (gl_score r)"
  by (auto simp: parse_batch_response_def Let_def ungraded_def dest!: map_of_SomeD parsed_results split: option.splits sum.splits)

lemma merge_leaf_facts: "(\<And>r. r \<in> set recs \<Longrightarrow> unit (gl_score r)) \<Longrightarrow> gl_id (merge_leaf lid recs) = lid \<and> unit (gl_score (merge_leaf lid recs))"
  using py_median_between [of "map gl_score recs" 0 1]
  by (cases recs) (auto simp: merge_leaf_def ungraded_def Let_def unit_def)

lemma grade_batch_unit: "r \<in> set (grade_batch pystr raws batch) \<Longrightarrow> unit (gl_score r)"
  by (auto simp: grade_batch_def Let_def ungraded_def median_merge_def parse_batch_response_unit
      intro!: merge_leaf_facts [THEN conjunct2] split: option.splits list.splits)


lemma store_graded_unit: "unit_scores (ss_scores s) \<Longrightarrow> unit (gl_score r) \<Longrightarrow> unit_scores (ss_scores (store_graded s r))"
  by (simp add: store_graded_def unit_scores_set)

lemma veto_record_unit:
  "unit_scores (fst acc) \<Longrightarrow> unit_scores (fst (veto_record pystr metrics det ls acc rec))"
  by (auto simp: veto_record_def Let_def case_prod_beta unit_scores_set split: option.split)

lemma evidence_gate_unit: "unit_scores (ss_scores s) \<Longrightarrow> unit_scores (ss_scores (evidence_gate pystr env metrics det ls s))"
  using foldl_keeps [where P = "\<lambda>acc. unit_scores (fst acc)" and f = "veto_record pystr metrics det ls"
      and s = "(ss_scores s, [])" and xs = "ss_records s"]
  by (auto simp: evidence_gate_def Let_def case_prod_beta veto_record_unit)

lemma checked_leaves_unit: "r \<in> set (checked_leaves pystr env files ls) \<Longrightarrow> unit (ck_score r)"
  by (auto simp: checked_leaves_def in_map_filter split: if_splits dest!: check_leaf_binary)

lemma grade_all_unit: "unit_scores (ss_scores (grade_all pystr render env answer finished inp ls eligible))"
  unfolding grade_all_def Let_def
  by (intro evidence_gate_unit foldl_keeps [where P = "\<lambda>s. unit_scores (ss_scores s)"])
    (auto simp: unit_scores_def [of "[]"] store_checked_def intro: unit_scores_set checked_leaves_unit store_graded_unit grade_batch_unit)

text \<open>What a gate over a score promises: it lowers the score or leaves it, and never below 0.\<close>

locale score_gate =
  fixes gate :: "real \<Rightarrow> real"
  assumes gate_range: "0 \<le> x \<Longrightarrow> 0 \<le> gate x \<and> gate x \<le> x"
begin

lemma keeps_unit: "unit x \<Longrightarrow> unit (gate x)"
  using gate_range [of x] by (auto simp: unit_def)

lemma zero_stays: "gate 0 = 0"
  using gate_range [of 0] by simp

lemma gates_compose: "score_gate g \<Longrightarrow> score_gate (\<lambda>x. gate (g x))"
  unfolding score_gate_def using gate_range order_trans by blast

end

interpretation inv_gate: score_gate "\<lambda>x. fst (apply_invariant_gate x results)" for results
  by unfold_locales (auto simp: apply_invariant_gate_def INVARIANT_HARD_CAP_def INVARIANT_SOFT_CAP_def)

interpretation leaf_gate: score_gate "\<lambda>x. the (fst (gate_decision (Some x) claims disk))" for claims disk
  by unfold_locales (auto simp: gate_decision_def)

lemma roll_up_unit:
  assumes "rubric_of pystr node = Inr r" and "weights_nonneg r" and "unit_scores scores" and "roll_up pystr node scores skip = Inr v"
  shows "unit (case v of None \<Rightarrow> 0 | Some x \<Rightarrow> x)"
  using roll_up_in_range [OF assms(1,2), of scores 1 skip] unit_scores_get [OF assms(3)] assms(4)
  by (auto simp: unit_def)

lemma zero_scores: "unit_scores (foldl dict_set [] (map (\<lambda>i. (i, 0)) ids))"
  by (rule foldl_keeps) (auto simp: unit_scores_def [of "[]"] intro: unit_scores_set)

text \<open>The overall score is the gated roll-up of some scores in the unit interval.\<close>

lemma score_is_gated_roll_up:
  assumes "score_reproduction pystr render re_search env answer finished inp = Inr res"
  shows "\<exists>scores skip v. unit_scores scores \<and> roll_up pystr (si_tree inp) scores skip = Inr v \<and>
     (sr_overall res, sr_gate_applied res) = apply_invariant_gate (case v of None \<Rightarrow> 0 | Some x \<Rightarrow> x) (sr_invariants res) \<and>
     sr_invariants res = run_invariant_checks re_search (si_invariants inp) (si_code inp)"
proof -
  obtain ls where ls: "flatten_leaves (si_tree inp) = Inr ls"
    using assms by (auto simp: score_reproduction_def split: sum.splits)
  show ?thesis
  proof (cases "case si_degraded inp of None \<Rightarrow> is_degraded_run (rf_report (si_files inp)) | Some d \<Rightarrow> d")
    case True
    then have res: "score_degraded pystr re_search inp ls = Inr res"
      using assms ls by (simp add: score_reproduction_def)
    define scores where "scores = foldl dict_set [] (map (\<lambda>i. (i, 0 :: real)) (map (\<lambda>leaf. str_get pystr leaf ''id'') ls))"
    with res obtain v where "roll_up pystr (si_tree inp) scores {} = Inr v"
      by (cases "roll_up pystr (si_tree inp) scores {}") (simp_all add: score_degraded_def Let_def)
    moreover from this res have "(sr_overall res, sr_gate_applied res) =
        apply_invariant_gate (case v of None \<Rightarrow> 0 | Some x \<Rightarrow> x) (sr_invariants res)
      \<and> sr_invariants res = run_invariant_checks re_search (si_invariants inp) (si_code inp)"
      by (auto simp: score_degraded_def Let_def case_prod_beta scores_def simp del: map_map)
    ultimately show ?thesis using zero_scores unfolding scores_def by blast
  next
    case False
    then obtain skip where skip: "excluded_ids pystr env inp ls = Inr skip" and size: "si_batch_size inp \<noteq> 0"
      using assms ls by (auto simp: score_reproduction_def split: sum.splits if_splits)
    define scores where "scores = ss_scores (grade_all pystr render env answer finished inp ls
      (filter (\<lambda>leaf. str_get pystr leaf ''id'' \<notin> skip) ls))"
    with assms ls False skip size obtain v where "roll_up pystr (si_tree inp) scores skip = Inr v"
      by (cases "roll_up pystr (si_tree inp) scores skip") (simp_all add: score_reproduction_def Let_def)
    moreover from this assms ls False skip size have "(sr_overall res, sr_gate_applied res) =
        apply_invariant_gate (case v of None \<Rightarrow> 0 | Some x \<Rightarrow> x) (sr_invariants res)
      \<and> sr_invariants res = run_invariant_checks re_search (si_invariants inp) (si_code inp)"
      by (auto simp: score_reproduction_def Let_def case_prod_beta scores_def)
    ultimately show ?thesis using grade_all_unit unfolding scores_def by blast
  qed
qed

text \<open>C11. Whatever the grader answers, in whatever order its batches complete, whichever leaves are excluded
  and whichever gates are on, the overall score of a rubric with non-negative weights lies between 0 and 1.\<close>

theorem overall_score_in_unit_interval:
  assumes "rubric_of pystr (si_tree inp) = Inr r" and "weights_nonneg r"
    and "score_reproduction pystr render re_search env answer finished inp = Inr res"
  shows "0 \<le> sr_overall res \<and> sr_overall res \<le> 1"
proof -
  from score_is_gated_roll_up [OF assms(3)] obtain scores skip v where "unit_scores scores"
    and "roll_up pystr (si_tree inp) scores skip = Inr v"
    and gate: "(sr_overall res, sr_gate_applied res) = apply_invariant_gate (case v of None \<Rightarrow> 0 | Some x \<Rightarrow> x) (sr_invariants res)"
    by blast
  then have "unit (case v of None \<Rightarrow> 0 | Some x \<Rightarrow> x)" using roll_up_unit [OF assms(1,2)] by blast
  from inv_gate.keeps_unit [OF this, of "sr_invariants res"] show ?thesis
    unfolding gate [symmetric] unit_def by simp
qed


section \<open>The shape of a result\<close>

definition record_ok :: "leaf_record \<Rightarrow> bool" where
  "record_ok r \<longleftrightarrow> (case rc_score r of None \<Rightarrow> True | Some x \<Rightarrow> unit x) \<and> (rc_vetoed r \<noteq> None \<longrightarrow> rc_score r = Some 0)"

definition state_ok :: "score_state \<Rightarrow> bool" where
  "state_ok s \<longleftrightarrow> list_all (\<lambda>r. record_ok r \<and> rc_score r \<noteq> None) (ss_records s) \<and> ss_graded s \<le> length (ss_records s)"

lemma store_ok:
  "state_ok s \<Longrightarrow> unit (gl_score g) \<Longrightarrow> state_ok (store_graded s g)"
  "state_ok s \<Longrightarrow> unit (ck_score c) \<Longrightarrow> state_ok (store_checked render s c)"
  by (auto simp: state_ok_def store_graded_def store_checked_def record_ok_def plain_record_def)

lemma veto_record_ok:
  assumes "list_all (\<lambda>r. record_ok r \<and> rc_score r \<noteq> None) (snd acc)" and "record_ok rec" "rc_score rec \<noteq> None"
  shows "list_all (\<lambda>r. record_ok r \<and> rc_score r \<noteq> None) (snd (veto_record pystr metrics det ls acc rec))
     \<and> length (snd (veto_record pystr metrics det ls acc rec)) = Suc (length (snd acc))"
  using assms by (auto simp: veto_record_def case_prod_beta record_ok_def split: option.splits)

lemma veto_records_ok:
  "list_all (\<lambda>r. record_ok r \<and> rc_score r \<noteq> None) (snd acc) \<Longrightarrow> list_all (\<lambda>r. record_ok r \<and> rc_score r \<noteq> None) recs \<Longrightarrow>
     list_all (\<lambda>r. record_ok r \<and> rc_score r \<noteq> None) (snd (foldl (veto_record pystr metrics det ls) acc recs))
     \<and> length (snd (foldl (veto_record pystr metrics det ls) acc recs)) = length (snd acc) + length recs"
proof (induction recs arbitrary: acc)
  case (Cons rec recs)
  from Cons.prems veto_record_ok [of acc rec pystr metrics det ls] show ?case
    using Cons.IH [of "veto_record pystr metrics det ls acc rec"] by simp
qed simp

lemma evidence_gate_ok: "state_ok s \<Longrightarrow> state_ok (evidence_gate pystr env metrics det ls s)"
  using veto_records_ok [of "(ss_scores s, [])" "ss_records s" pystr metrics det ls]
  by (auto simp: evidence_gate_def state_ok_def case_prod_beta Let_def)

lemma grade_all_ok: "state_ok (grade_all pystr render env answer finished inp ls eligible)"
  unfolding grade_all_def Let_def
  by (intro evidence_gate_ok foldl_keeps [where P = state_ok])
    (auto intro: store_ok checked_leaves_unit grade_batch_unit, simp add: state_ok_def)

lemma target_score_unit: "target_score tree = Some t \<Longrightarrow> unit t"
  by (auto simp: target_score_def Let_def split: if_splits)

lemma score_result_records:
  assumes "score_reproduction pystr render re_search env answer finished inp = Inr res"
  shows "\<exists>recs sk. sr_leaf_scores res = recs @ map skipped_record sk \<and> list_all (\<lambda>r. record_ok r \<and> rc_score r \<noteq> None) recs
     \<and> sr_graded res \<le> length recs \<and> sr_target res = target_score (si_tree inp)"
proof -
  obtain ls where ls: "flatten_leaves (si_tree inp) = Inr ls"
    using assms by (auto simp: score_reproduction_def split: sum.splits)
  show ?thesis
  proof (cases "case si_degraded inp of None \<Rightarrow> is_degraded_run (rf_report (si_files inp)) | Some d \<Rightarrow> d")
    case True
    then have "score_degraded pystr re_search inp ls = Inr res"
      using assms ls by (simp add: score_reproduction_def)
    then have "list_all (\<lambda>r. record_ok r \<and> rc_score r \<noteq> None) (sr_leaf_scores res)"
      and "sr_graded res = 0" and "sr_target res = target_score (si_tree inp)"
      by (auto simp: score_degraded_def Let_def case_prod_beta record_ok_def plain_record_def list_all_iff split: sum.splits)
    then show ?thesis by (intro exI [of _ "sr_leaf_scores res"] exI [of _ "[]"]) simp
  next
    case False
    then obtain skip where skip: "excluded_ids pystr env inp ls = Inr skip" and size: "si_batch_size inp \<noteq> 0"
      using assms ls by (auto simp: score_reproduction_def split: sum.splits if_splits)
    define s where "s = grade_all pystr render env answer finished inp ls (filter (\<lambda>leaf. str_get pystr leaf ''id'' \<notin> skip) ls)"
    have "sr_leaf_scores res = ss_records s @ map skipped_record (sorted_list_of_set skip)"
      and "sr_graded res = ss_graded s" and "sr_target res = target_score (si_tree inp)"
      using assms ls False skip size by (auto simp: score_reproduction_def Let_def case_prod_beta s_def split: sum.splits)
    moreover have "state_ok s" unfolding s_def by (rule grade_all_ok)
    ultimately show ?thesis by (auto simp: state_ok_def)
  qed
qed

lemma record_ok_shape:
  "record_ok r \<longleftrightarrow> (rc_score r = None \<or> (\<exists>x. rc_score r = Some x \<and> 0 \<le> x \<and> x \<le> 1)) \<and> (rc_vetoed r = None \<or> rc_score r = Some 0)"
  by (cases "rc_score r") (auto simp: record_ok_def unit_def)

lemma check_invariant_passed:
  "iv_passed (check_invariant re_search tree ispec) \<longleftrightarrow>
     \<not> iv_hard (check_invariant re_search tree ispec) \<and> \<not> iv_soft (check_invariant re_search tree ispec)"
  unfolding check_invariant_def Let_def by simp

lemma invariants_passed: "list_all (\<lambda>i. iv_passed i \<longleftrightarrow> \<not> iv_hard i \<and> \<not> iv_soft i) (run_invariant_checks re_search invs code)"
  by (auto simp: run_invariant_checks_def list_all_iff check_invariant_passed split: option.split)


section \<open>The invariant gate\<close>

lemma str_lines_hit:
  "line \<in> set (py_splitlines t) \<Longrightarrow> search line \<Longrightarrow> matching_lines search (f, t) \<noteq> []"
proof -
  assume "line \<in> set (py_splitlines t)" and "search line"
  then obtain i where "i < length (py_splitlines t)" "search (py_splitlines t ! i)"
    by (auto simp: in_set_conv_nth)
  then have "(Suc i, py_splitlines t ! i) \<in> set (zip [1..<Suc (length (py_splitlines t))] (py_splitlines t))"
    by (auto simp: in_set_zip simp del: upt_Suc intro!: exI [of _ i])
  with \<open>search (py_splitlines t ! i)\<close> show ?thesis
    by (force simp: matching_lines_def List.map_filter_def filter_empty_conv)
qed

lemma map_of_foldl_dict_set: "map_of (foldl dict_set m kvs) = map_of m ++ map_of (rev kvs)"
  by (induction kvs arbitrary: m) (auto simp: dict_set_def update_conv' map_add_def fun_eq_iff split: option.splits)

lemma pattern_hits_in:
  assumes "pat \<in> set pats" and "re_search pat = Some search"
  shows "(pat, concat (map (matching_lines search) contents)) \<in> set (pattern_hits re_search contents pats)"
proof -
  let ?kvs = "List.map_filter (\<lambda>pat. map_option (\<lambda>search. (pat, concat (map (matching_lines search) contents))) (re_search pat)) pats"
  have "v = concat (map (matching_lines search) contents)" if "(pat, v) \<in> set ?kvs" for v
    using that assms(2) by (auto simp: in_map_filter)
  moreover have "pat \<in> fst ` set ?kvs" using assms by (force simp: in_map_filter)
  ultimately have "map_of (rev ?kvs) pat = Some (concat (map (matching_lines search) contents))"
    by (cases "map_of (rev ?kvs) pat") (auto simp: map_of_eq_None_iff dest!: map_of_SomeD)
  then have "map_of (pattern_hits re_search contents pats) pat = Some (concat (map (matching_lines search) contents))"
    by (simp add: pattern_hits_def map_of_foldl_dict_set)
  then show ?thesis by (rule map_of_SomeD)
qed

lemma violation_trips_hard_gate:
  assumes "tree (dropWhile (\<lambda>c. c = CHR ''/'') (is_file_glob ispec)) = Some fs" and "is_file_glob ispec \<noteq> []"
    and "f \<in> set fs" "is_source f" "cd_text f = Some t" "line \<in> set (py_splitlines t)"
    and "pat \<in> set (is_must_not_match ispec)" "re_search pat = Some search" "search line"
  shows "iv_hard (check_invariant re_search tree ispec)"
proof -
  define contents where "contents = List.map_filter (\<lambda>f. map_option (Pair f) (cd_text f)) (filter is_source fs)"
  have "(f, t) \<in> set contents" using assms(3-5) by (force simp: contents_def in_map_filter)
  then have "concat (map (matching_lines search) contents) \<noteq> []"
    using str_lines_hit [OF assms(6), of search f] assms(9) by auto
  with pattern_hits_in [where re_search = re_search, OF assms(7,8), of contents] show ?thesis
    using assms(1,2) by (force simp: check_invariant_def Let_def contents_def filter_empty_conv)
qed

text \<open>A line of a source file that matches a forbidden pattern makes the overall score 0, whatever the grader says.\<close>

theorem forbidden_pattern_zeroes_score:
  assumes "score_reproduction pystr render re_search env answer finished inp = Inr res"
    and "ispec \<in> set (si_invariants inp)" and "si_code inp = Some tree"
    and "tree (dropWhile (\<lambda>c. c = CHR ''/'') (is_file_glob ispec)) = Some fs" and "is_file_glob ispec \<noteq> []"
    and "f \<in> set fs" "is_source f" "cd_text f = Some t" "line \<in> set (py_splitlines t)"
    and "pat \<in> set (is_must_not_match ispec)" "re_search pat = Some search" "search line"
  shows "sr_overall res = 0 \<and> sr_gate_applied res"
proof -
  have "list_ex iv_hard (run_invariant_checks re_search (si_invariants inp) (si_code inp))"
    using violation_trips_hard_gate [where re_search = re_search and tree = tree and search = search, OF assms(4-12)] assms(2,3)
    by (auto simp: run_invariant_checks_def list_ex_iff)
  with score_is_gated_roll_up [OF assms(1)] show ?thesis
    by (auto simp: apply_invariant_gate_def INVARIANT_HARD_CAP_def)
qed

section \<open>The order of the batches\<close>

lemma roll_up_cong: "map_of m = map_of m' \<Longrightarrow> roll_up pystr node m skip = roll_up pystr node m' skip"
proof (induction node rule: measure_induct_rule [of dict_size])
  case (less node)
  show ?case
  proof (cases "sub_tasks node")
    case (Inr cs)
    have "traverse (\<lambda>c. roll_up pystr c m skip) cs = traverse (\<lambda>c. roll_up pystr c m' skip) cs"
      using less sub_tasks_smaller [OF Inr] by (intro traverse_cong) auto
    then show ?thesis using less.prems Inr
      by (simp add: roll_up.simps [of pystr node] score_get_def Let_def)
  qed (simp add: roll_up.simps [of pystr node])
qed

lemma foldl_store_graded:
  "foldl store_graded s recs =
     s\<lparr>ss_scores := foldl dict_set (ss_scores s) (map (\<lambda>r. (gl_id r, gl_score r)) recs),
       ss_records := ss_records s @ map (\<lambda>r. (plain_record (gl_id r) (Some (gl_score r)) (gl_justification r))\<lparr>rc_spread := gl_spread r\<rparr>) recs,
       ss_graded := ss_graded s + length (filter gl_graded recs)\<rparr>"
  by (induction recs arbitrary: s) (simp_all add: store_graded_def)

lemma foldl_store_checked:
  "foldl (store_checked render) s recs =
     s\<lparr>ss_scores := foldl dict_set (ss_scores s) (map (\<lambda>r. (ck_id r, ck_score r)) recs),
       ss_records := ss_records s @ map (\<lambda>r. plain_record (ck_id r) (Some (ck_score r)) (render (ck_reason r))) recs,
       ss_graded := ss_graded s + length recs\<rparr>"
  by (induction recs arbitrary: s) (simp_all add: store_checked_def)

lemma foldl_concat_map: "foldl (\<lambda>s k. foldl f s (g k)) s ks = foldl f s (concat (map g ks))"
  by (induction ks arbitrary: s) auto


text \<open>After the gate, a score is 0 where some record of its leaf is vetoed, and unchanged elsewhere.\<close>

lemma map_of_dict_update: "map_of (dict_set m (k, v)) = (map_of m)(k \<mapsto> v)"
  by (simp add: dict_set_def update_conv')

lemma gated_scores:
  "map_of (fst (foldl (veto_record pystr metrics det ls) (m, acc) recs)) =
     (\<lambda>k. if \<exists>rec \<in> set recs. rc_id rec = k \<and> vetoed_score pystr metrics det ls (map_of m k \<noteq> None) rec \<noteq> None
          then Some 0 else map_of m k)"
proof (induction recs arbitrary: m acc)
  case (Cons rec recs)
  show ?case
  proof (cases "vetoed_score pystr metrics det ls (map_of m (rc_id rec) \<noteq> None) rec")
    case None
    then have "veto_record pystr metrics det ls (m, acc) rec = (m, acc @ [rec])"
      by (simp add: veto_record_def)
    with None show ?thesis by (auto simp: Cons fun_eq_iff simp del: not_None_eq)
  next
    case (Some x)
    then have "map_of m (rc_id rec) \<noteq> None" by (auto simp: vetoed_score_def Let_def split: if_splits)
    then have "map_of (dict_set m (rc_id rec, 0)) k \<noteq> None \<longleftrightarrow> map_of m k \<noteq> None" for k
      by (auto simp: map_of_dict_update)
    moreover obtain acc' where "veto_record pystr metrics det ls (m, acc) rec = (dict_set m (rc_id rec, 0), acc')"
      using Some by (simp add: veto_record_def del: not_None_eq)
    ultimately show ?thesis using Some
      by (auto simp: Cons map_of_dict_update fun_eq_iff simp del: not_None_eq)
  qed
qed auto

lemma evidence_gate_cong:
  assumes "map_of (ss_scores s) = map_of (ss_scores s')" and "set (ss_records s) = set (ss_records s')"
  shows "map_of (ss_scores (evidence_gate pystr env metrics det ls s)) = map_of (ss_scores (evidence_gate pystr env metrics det ls s'))"
proof -
  have "map_of (fst (foldl (veto_record pystr metrics det ls) (ss_scores s, []) (ss_records s))) =
      map_of (fst (foldl (veto_record pystr metrics det ls) (ss_scores s', []) (ss_records s')))"
    by (simp only: gated_scores assms)
  then show ?thesis by (simp add: evidence_gate_def case_prod_beta Let_def assms)
qed

lemma evidence_gate_graded [simp]: "ss_graded (evidence_gate pystr env metrics det ls s) = ss_graded s"
  by (simp add: evidence_gate_def case_prod_beta Let_def)

lemma concat_chunks [simp]: "0 < n \<Longrightarrow> concat (chunks n xs) = xs"
  by (induction n xs rule: chunks.induct) auto

lemma batch_ids_distinct: "distinct (map (\<lambda>l. str_get pystr l ''id'') batch) \<Longrightarrow> batch_ids pystr batch = map (\<lambda>l. str_get pystr l ''id'') batch"
  by (simp add: batch_ids_def distinct_remdups_id)

lemma grade_batch_ids:
  "distinct (map (\<lambda>l. str_get pystr l ''id'') batch) \<Longrightarrow> map gl_id (grade_batch pystr raws batch) = map (\<lambda>l. str_get pystr l ''id'') batch"
  by (auto simp: grade_batch_def Let_def ungraded_def median_merge_def parse_batch_response_ids batch_ids_distinct
      parse_batch_response_unit intro!: merge_leaf_facts [THEN conjunct1] split: option.splits list.splits)


definition all_results :: "(json \<Rightarrow> string) \<Rightarrow> (nat \<Rightarrow> grader_answer) \<Rightarrow> dict list list \<Rightarrow> nat list \<Rightarrow> graded_leaf list" where
  "all_results pystr answer batches finished = concat (map (\<lambda>k. grade_batch pystr (answer k) (batches ! k)) finished)"

lemma mset_concat_map: "mset ks = mset ks' \<Longrightarrow> mset (concat (map f ks)) = mset (concat (map f ks'))"
  by (simp add: mset_concat flip: mset_map sum_mset_sum_list) (metis mset_map)

lemma all_results_ids:
  assumes "mset finished = mset [0..<length batches]" and "distinct (map (\<lambda>l. str_get pystr l ''id'') (concat batches))"
  shows "distinct (map gl_id (all_results pystr answer batches finished))"
proof -
  let ?ids = "\<lambda>b. map (\<lambda>l. str_get pystr l ''id'') b"
  have ids: "map gl_id (grade_batch pystr (answer k) (batches ! k)) = ?ids (batches ! k)" if "k < length batches" for k
    using that assms(2) by (intro grade_batch_ids) (auto simp: map_concat distinct_concat_iff)
  have "mset (map gl_id (all_results pystr answer batches finished)) =
      mset (concat (map (\<lambda>k. map gl_id (grade_batch pystr (answer k) (batches ! k))) [0..<length batches]))"
    using mset_concat_map [OF assms(1), of "\<lambda>k. map gl_id (grade_batch pystr (answer k) (batches ! k))"]
    by (simp add: all_results_def map_concat comp_def)
  also have "\<dots> = mset (concat (map (\<lambda>k. ?ids (batches ! k)) [0..<length batches]))"
    using ids by (intro arg_cong [where f = "\<lambda>x. mset (concat x)"] map_cong) auto
  also have "map (\<lambda>k. ?ids (batches ! k)) [0..<length batches] = map ?ids batches"
    by (rule nth_equalityI) auto
  finally show ?thesis
    using assms(2) by (metis map_concat mset_eq_imp_distinct_iff)
qed

lemma distinct_dict_cong:
  assumes "mset kvs = mset kvs'" and "distinct (map fst kvs)"
  shows "map_of (foldl dict_set m kvs) = map_of (foldl dict_set m kvs')"
proof -
  have "distinct (map fst kvs')" using assms by (metis mset_eq_imp_distinct_iff mset_map)
  then have "distinct (map fst (rev kvs))" "distinct (map fst (rev kvs'))"
    using assms(2) by (simp_all only: rev_map [symmetric] distinct_rev)
  moreover have "set (rev kvs) = set (rev kvs')" using mset_eq_setD [OF assms(1)] by simp
  ultimately have "map_of (rev kvs) = map_of (rev kvs')" by (simp only: map_of_inject_set)
  then show ?thesis by (simp add: map_of_foldl_dict_set)
qed


lemma mset_eq_length_filter: "mset xs = mset ys \<Longrightarrow> length (filter P xs) = length (filter P ys)"
  by (metis mset_filter size_mset)

lemma grade_all_order:
  fixes ls answer render
  assumes "mset finished = mset [0..<length (grader_batches pystr env inp eligible)]" and "mset finished' = mset finished"
    and "distinct (map (\<lambda>l. str_get pystr l ''id'') eligible)" and "0 < si_batch_size inp"
  defines "run \<equiv> \<lambda>fin. grade_all pystr render env answer fin inp ls eligible"
  shows "map_of (ss_scores (run finished)) = map_of (ss_scores (run finished')) \<and> ss_graded (run finished) = ss_graded (run finished')"
proof -
  let ?bs = "grader_batches pystr env inp eligible" and ?cs = "checked_leaves pystr env (si_checker inp) eligible"
  define res where "res = all_results pystr answer ?bs"
  have same: "mset (res finished) = mset (res finished')"
    unfolding res_def all_results_def using assms(2) by (intro mset_concat_map) simp
  have "distinct (map (\<lambda>l. str_get pystr l ''id'') (concat ?bs))"
    using assms(3,4) by (auto simp: grader_batches_def distinct_map_filter_table)
  from all_results_ids [OF assms(1) this, of answer]
  have dist: "distinct (map fst (map (\<lambda>r. (gl_id r, gl_score r)) (res finished)))"
    by (simp add: res_def comp_def)
  define st where "st fin = foldl (store_checked render) (foldl store_graded \<lparr>ss_scores = [], ss_records = [], ss_graded = 0\<rparr> (res fin)) ?cs" for fin
  have run: "run fin = evidence_gate pystr env (dict_or_empty (metrics_json env (si_files inp))) (set (map ck_id ?cs)) ls (st fin)" for fin
    by (simp add: run_def grade_all_def Let_def st_def foldl_concat_map res_def all_results_def)
  have "map_of (ss_scores (st finished)) = map_of (ss_scores (st finished'))"
    using distinct_dict_cong [OF _ dist, of "map (\<lambda>r. (gl_id r, gl_score r)) (res finished')" "[]"] same
    by (simp add: st_def foldl_store_graded foldl_store_checked map_of_foldl_dict_set)
  moreover have "set (ss_records (st finished)) = set (ss_records (st finished'))"
    using mset_eq_setD [OF same] by (simp add: st_def foldl_store_graded foldl_store_checked)
  moreover have "ss_graded (st finished) = ss_graded (st finished')"
    using mset_eq_length_filter [OF same] by (simp add: st_def foldl_store_graded foldl_store_checked)
  ultimately show ?thesis
    unfolding run using evidence_gate_cong [of "st finished" "st finished'"] by simp
qed


text \<open>The batches of a run, as far as its leaves and its exclusions can be read.\<close>

definition run_batches :: "(json \<Rightarrow> string) \<Rightarrow> environ \<Rightarrow> score_inputs \<Rightarrow> dict list list" where
  "run_batches pystr env inp =
     (case flatten_leaves (si_tree inp) of
        Inl _ \<Rightarrow> []
      | Inr ls \<Rightarrow>
          (case excluded_ids pystr env inp ls of
             Inl _ \<Rightarrow> []
           | Inr skip \<Rightarrow> grader_batches pystr env inp (filter (\<lambda>leaf. str_get pystr leaf ''id'' \<notin> skip) ls)))"

text \<open>C14. The batches are graded concurrently; when the ids of the leaves are distinct, the overall score, the number of
  graded leaves and the coverage do not depend on the order in which the batches complete.\<close>

theorem score_independent_of_completion_order:
  assumes "flatten_leaves (si_tree inp) = Inr ls" and "distinct (map (\<lambda>l. str_get pystr l ''id'') ls)"
    and "mset finished = mset [0..<length (run_batches pystr env inp)]" and "mset finished' = mset finished"
  defines "seen \<equiv> map_sum id (\<lambda>res. (sr_overall res, sr_graded res, sr_coverage res, sr_gate_applied res))"
  shows "seen (score_reproduction pystr render re_search env answer finished inp) =
         seen (score_reproduction pystr render re_search env answer finished' inp)"
proof (cases "(case si_degraded inp of None \<Rightarrow> is_degraded_run (rf_report (si_files inp)) | Some d \<Rightarrow> d) \<or> si_batch_size inp = 0")
  case True
  then show ?thesis using assms(1) by (auto simp: score_reproduction_def split: sum.split)
next
  case False
  show ?thesis
  proof (cases "excluded_ids pystr env inp ls")
    case (Inr skip)
    define eligible where "eligible = filter (\<lambda>leaf. str_get pystr leaf ''id'' \<notin> skip) ls"
    have "distinct (map (\<lambda>l. str_get pystr l ''id'') eligible)"
      using assms(2) by (simp add: eligible_def distinct_map_filter_table)
    moreover have "run_batches pystr env inp = grader_batches pystr env inp eligible"
      by (simp add: run_batches_def assms(1) Inr eligible_def)
    ultimately have same:
      "map_of (ss_scores (grade_all pystr render env answer finished inp ls eligible)) =
         map_of (ss_scores (grade_all pystr render env answer finished' inp ls eligible))"
      "ss_graded (grade_all pystr render env answer finished inp ls eligible) =
         ss_graded (grade_all pystr render env answer finished' inp ls eligible)"
      using grade_all_order [of finished pystr env inp eligible finished'] assms(3,4) False by auto
    from roll_up_cong [OF same(1)] same(2) False Inr show ?thesis
      by (auto simp: score_reproduction_def assms(1) seen_def Let_def case_prod_beta simp flip: eligible_def split: sum.split)
  qed (use assms(1) False in \<open>auto simp: score_reproduction_def Let_def\<close>)
qed


section \<open>A run\<close>

text \<open>A rubric of two leaves, one of them about a data set that did not load; the grader gives the other 9/10.\<close>

definition demo_leaf_node :: "string \<Rightarrow> string \<Rightarrow> json" where
  "demo_leaf_node i req = JDict [(''id'', JStr i), (''weight'', JInt 1), (''requirements'', JStr req)]"

definition demo_inputs :: "invariant_spec list \<Rightarrow> code_file list \<Rightarrow> score_inputs" where
  "demo_inputs invs fs =
     \<lparr>si_tree = [(''id'', JStr ''root''), (''sub_tasks'', JList [demo_leaf_node ''a'' ''method'', demo_leaf_node ''b'' ''TIMIT error''])],
      si_files = demo_run, si_checker = \<lparr>cf_provenance = [], cf_metrics = [], cf_roots = []\<rparr>, si_code = Some (\<lambda>_. Some fs),
      si_invariants = invs, si_degraded = Some False, si_metrics_shape = None, si_operator = demo_op, si_inclusion = None,
      si_batch_size = 15, si_rubric_source = ''demo''\<rparr>"

definition demo_search :: regex_engine where
  "demo_search pat = Some (py_in pat)"

definition demo_answer :: "nat \<Rightarrow> grader_answer" where
  "demo_answer _ = Some [Inr [JDict [(''leaf_id'', JStr ''a''), (''score'', JFloat (9 / 10))]]]"

definition must_detach :: invariant_spec where
  "must_detach = \<lparr>is_name = ''detach'', is_rationale = [], is_file_glob = ''**/*.py'', is_must_match = [''detach''], is_must_not_match = []\<rparr>"

definition no_surrogate :: invariant_spec where
  "no_surrogate = \<lparr>is_name = ''surrogate'', is_rationale = [], is_file_glob = ''**/*.py'', is_must_match = [], is_must_not_match = [''Surrogate'']\<rparr>"

definition demo_source :: code_file where
  "demo_source = \<lparr>cd_parts = [''train.py''], cd_is_file = True, cd_text = Some ''model = Surrogate()''\<rparr>"

abbreviation demo_score :: "invariant_spec list \<Rightarrow> code_file list \<Rightarrow> report_error + score_result" where
  "demo_score invs fs \<equiv> score_reproduction demo_str (\<lambda>_. []) demo_search (\<lambda>_. None) demo_answer [0] (demo_inputs invs fs)"

lemma demo_score_facts:
  "map_sum id sr_overall (demo_score [] []) = Inr (9 / 10)"
  "map_sum id (\<lambda>r. (sr_overall r, sr_gate_applied r)) (demo_score [must_detach] []) = Inr (1 / 2, True)"
  "map_sum id sr_overall (demo_score [no_surrogate] [demo_source]) = Inr 0"
  by code_simp+

lemma demo_inputs_rubric:
  "rubric_of demo_str (si_tree (demo_inputs invs fs)) = Inr (Rubric_Node [(1, Rubric_Leaf ''a''), (1, Rubric_Leaf ''b'')])"
  by (simp add: demo_inputs_def demo_leaf_node_def rubric_of.simps sub_tasks_eval demo_str_def)

theorem overall_score_in_unit_interval_witness:
  "\<exists>res. demo_score [] [] = Inr res \<and> 0 \<le> sr_overall res \<and> sr_overall res \<le> 1"
proof -
  obtain res where res: "demo_score [] [] = Inr res" using demo_score_facts(1) by (cases "demo_score [] []") simp_all
  with overall_score_in_unit_interval [OF demo_inputs_rubric _ res] show ?thesis by simp
qed


theorem forbidden_pattern_zeroes_score_witness:
  "\<exists>res. demo_score [no_surrogate] [demo_source] = Inr res \<and> sr_overall res = 0 \<and> sr_gate_applied res"
proof -
  obtain res where res: "demo_score [no_surrogate] [demo_source] = Inr res"
    using demo_score_facts(3) by (cases "demo_score [no_surrogate] [demo_source]") simp_all
  have "sr_overall res = 0 \<and> sr_gate_applied res"
    by (rule forbidden_pattern_zeroes_score [OF res, where ispec = no_surrogate and tree = "\<lambda>_. Some [demo_source]" and f = demo_source
          and line = "''model = Surrogate()''" and pat = "''Surrogate''" and search = "py_in ''Surrogate''"])
      (simp_all add: demo_inputs_def no_surrogate_def demo_source_def is_source_def demo_search_def, code_simp+)
  with res show ?thesis by blast
qed

definition demo_two_batches :: score_inputs where
  "demo_two_batches = (demo_inputs [] [])\<lparr>si_batch_size := 1, si_files := \<lparr>rf_metrics = [], rf_report = No_File\<rparr>\<rparr>"

lemma demo_two_batches_facts:
  "rubric_of demo_str (si_tree demo_two_batches) = Inr (Rubric_Node [(1, Rubric_Leaf ''a''), (1, Rubric_Leaf ''b'')])"
  "length (run_batches demo_str (\<lambda>_. None) demo_two_batches) = 2"
  by (simp add: demo_two_batches_def demo_inputs_rubric, code_simp)

theorem score_independent_of_completion_order_witness:
  "map_sum id (\<lambda>res. (sr_overall res, sr_graded res, sr_coverage res, sr_gate_applied res))
     (score_reproduction demo_str (\<lambda>_. []) demo_search (\<lambda>_. None) demo_answer [0, 1] demo_two_batches) =
   map_sum id (\<lambda>res. (sr_overall res, sr_graded res, sr_coverage res, sr_gate_applied res))
     (score_reproduction demo_str (\<lambda>_. []) demo_search (\<lambda>_. None) demo_answer [1, 0] demo_two_batches)"
proof -
  obtain ls where "flatten_leaves (si_tree demo_two_batches) = Inr ls"
    and "map (\<lambda>l. str_get demo_str l ''id'') ls = [''a'', ''b'']"
    using flatten_leaves_ids [OF demo_two_batches_facts(1)] by auto
  then show ?thesis
    by (intro score_independent_of_completion_order [where ls = ls])
      (simp_all add: demo_two_batches_facts(2) upt_rec numeral_2_eq_2)
qed

end
