(* ===== verification/Two_Axis_Verdict.thy ===== *)
theory Two_Axis_Verdict
  imports Leaf_Exclusion
begin

text \<open>
  The two-axis reproducibility verdict, \<^verbatim>\<open>src/backend/agents/rlm/reproducibility_verdict.py\<close>: whether the
  build is faithful (from a score and an executable certificate) and whether the claims of the paper held
  (from the effects measured per seed). The texts of reasons and rationales, which hold characters beyond
  code point 255, are kept as constructors with the vs that are printed.

  The theorems say when the code is entitled to the verdict that a paper is contradicted, that the outcome of
  the replication does not touch the rank of a run, how credit is bounded, and what repeated seeds do.
\<close>

section \<open>Values\<close>

datatype metric_direction = Higher_Is_Better | Lower_Is_Better

datatype estimate_kind = Percentage_Points | Relative_Percent | Absolute_Estimate

datatype obligation_profile = Static_Profile | Forward_Pass | Multi_Step | Trace_Profile | End_To_End

datatype implementation_verdict = Faithful | Partial | Broken

datatype replication_verdict = Replicated | Partially_Replicated | Contradicted | Inconclusive

definition SCHEMA_VERSION :: int where "SCHEMA_VERSION = 2"

definition DEFAULT_FAITHFUL_MIN_SCORE :: real where "DEFAULT_FAITHFUL_MIN_SCORE = 60 / 100"

definition T_CRIT_95 :: "(nat \<times> real) list" where
  "T_CRIT_95 =
     [(1, 12706 / 1000), (2, 4303 / 1000), (3, 3182 / 1000), (4, 2776 / 1000), (5, 2571 / 1000),
      (6, 2447 / 1000), (7, 2365 / 1000), (8, 2306 / 1000), (9, 2262 / 1000), (10, 2224 / 500)]"

definition T_CRIT_INF :: real where "T_CRIT_INF = 196 / 100"

definition t_crit :: "nat \<Rightarrow> real" where
  "t_crit df = (case map_of T_CRIT_95 df of None \<Rightarrow> T_CRIT_INF | Some t \<Rightarrow> t)"

definition effect_mean :: "real list \<Rightarrow> real" where
  "effect_mean vs = sum_list vs / real (length vs)"

definition effect_var :: "real list \<Rightarrow> real" where
  "effect_var vs = sum_list (map (\<lambda>v. (v - effect_mean vs)\<^sup>2) vs) / real (length vs - 1)"

definition effect_confidence_interval :: "real list \<Rightarrow> real \<times> real \<times> real" where
  "effect_confidence_interval vs =
     (let n = length vs in
      if n = 0 then (0, 0, 0)
      else
        (let mean = effect_mean vs in
         if n = 1 then (mean, mean, mean)
         else
           (let sem = sqrt (effect_var vs) / sqrt (real n); half = t_crit (n - 1) * sem in
            (mean, mean - half, mean + half))))"

section \<open>Scopes, comparisons, seeds, certificates\<close>

record scope_tuple =
  sc_model :: string
  sc_dataset :: string
  sc_split :: string
  sc_protocol :: string

definition scope_norm :: "string \<Rightarrow> string" where
  "scope_norm s = py_lower (py_strip s)"

definition axis_matches :: "string \<Rightarrow> string \<Rightarrow> bool" where
  "axis_matches a b \<longleftrightarrow> scope_norm a = [] \<or> scope_norm b = [] \<or> scope_norm a = scope_norm b"

definition scope_matches :: "scope_tuple \<Rightarrow> scope_tuple \<Rightarrow> bool" where
  "scope_matches s t \<longleftrightarrow>
     axis_matches (sc_model s) (sc_model t) \<and> axis_matches (sc_dataset s) (sc_dataset t)
     \<and> axis_matches (sc_split s) (sc_split t) \<and> axis_matches (sc_protocol s) (sc_protocol t)"

fun slash_join :: "string list \<Rightarrow> string" where
  "slash_join [] = []"
| "slash_join [p] = p"
| "slash_join (p # q # ps) = p @ ''/'' @ slash_join (q # ps)"

definition scope_describe :: "scope_tuple \<Rightarrow> string" where
  "scope_describe s =
     (let parts = filter (\<lambda>p. p \<noteq> []) [sc_model s, sc_dataset s, sc_split s, sc_protocol s] in
      if parts = [] then ''(unspecified)'' else slash_join parts)"

record comparison_spec =
  cmp_claim_id :: string
  cmp_description :: string
  cmp_metric_name :: string
  cmp_direction :: metric_direction
  cmp_estimate_kind :: estimate_kind
  cmp_baseline_label :: string
  cmp_claimed_effect :: real
  cmp_equivalence_margin :: real
  cmp_scope :: scope_tuple
  cmp_is_primary :: bool
  cmp_table_ref :: string
  cmp_paper_span :: string
  cmp_ambiguous :: bool
  cmp_ambiguity_reason :: string

text \<open>The check that runs when a comparison is built.\<close>

definition comparison_post_init :: "comparison_spec \<Rightarrow> report_error + comparison_spec" where
  "comparison_post_init spec = (if cmp_equivalence_margin spec < 0 then Inl Value_Error else Inr spec)"

record seed_bundle =
  sdb_seeds :: "int list"
  sdb_effects :: "real list"
  sdb_rng_independent :: bool

definition n_effective :: "seed_bundle \<Rightarrow> nat" where
  "n_effective b =
     (if \<not> sdb_rng_independent b then 0
      else if length (sdb_seeds b) \<noteq> length (sdb_effects b) then 0
      else card (set (sdb_seeds b)))"

definition bundle_interval :: "seed_bundle \<Rightarrow> real \<times> real \<times> real" where
  "bundle_interval b = effect_confidence_interval (sdb_effects b)"

record measured_claim =
  mcl_comparison :: comparison_spec
  mcl_seeds :: seed_bundle
  mcl_scope :: scope_tuple

record fidelity_certificate =
  fc_invariant_tests_passed :: bool
  fc_mutation_confirmed :: bool
  fc_blinded_extraction_agreed :: bool
  fc_obligation_profile :: obligation_profile
  fc_profile_satisfied :: bool
  fc_has_measured_metrics :: bool
  fc_invariant_tests_ran :: bool

definition is_green :: "fidelity_certificate \<Rightarrow> bool" where
  "is_green c \<longleftrightarrow>
     fc_has_measured_metrics c \<and> fc_invariant_tests_ran c \<and> fc_invariant_tests_passed c \<and> fc_mutation_confirmed c
     \<and> fc_blinded_extraction_agreed c \<and> fc_profile_satisfied c"

datatype claim_reason =
    Ambiguous_Spec string
  | Scope_Mismatch string string
  | No_Usable_Seeds
  | Exceeds_Equivalence real real real real real
  | Inverts_With_Few_Seeds real nat int
  | Beyond_Equivalence real real nat
  | Overlaps_Equivalence real real real

record claim_verdict =
  cv_claim_id :: string
  cv_status :: replication_verdict
  cv_credit :: real
  cv_reason :: claim_reason
  cv_measured_mean :: "real option"
  cv_ci_low :: "real option"
  cv_ci_high :: "real option"
  cv_eligible :: bool

datatype rationale =
    Implementation_Line implementation_verdict real bool obligation_profile
  | Build_Not_Faithful
  | No_Primary_Claim
  | From_Primary replication_verdict string claim_reason

record reproducibility_verdict =
  rv_implementation :: implementation_verdict
  rv_replication :: replication_verdict
  rv_credit :: real
  rv_legacy :: string
  rv_schema :: int
  rv_per_claim :: "claim_verdict list"
  rv_rationale :: "rationale list"
  rv_fidelity :: real

section \<open>Decisions\<close>

definition implementation_verdict_of :: "real \<Rightarrow> fidelity_certificate \<Rightarrow> real \<Rightarrow> implementation_verdict" where
  "implementation_verdict_of fidelity_score c faithful_min =
     (if \<not> fc_has_measured_metrics c then Broken
      else if fc_invariant_tests_ran c \<and> \<not> fc_invariant_tests_passed c then Broken
      else if is_green c \<and> fidelity_score \<ge> faithful_min then Faithful
      else Partial)"

text \<open>A verdict without credit.\<close>

definition uncredited ::
    "comparison_spec \<Rightarrow> replication_verdict \<Rightarrow> claim_reason \<Rightarrow> (real \<times> real \<times> real) option \<Rightarrow> bool \<Rightarrow> claim_verdict" where
  "uncredited spec status reason ci eligible =
     \<lparr>cv_claim_id = cmp_claim_id spec, cv_status = status, cv_credit = 0, cv_reason = reason,
      cv_measured_mean = map_option fst ci, cv_ci_low = map_option (fst \<circ> snd) ci, cv_ci_high = map_option (snd \<circ> snd) ci,
      cv_eligible = eligible\<rparr>"

definition recovered_fraction :: "comparison_spec \<Rightarrow> real \<Rightarrow> real" where
  "recovered_fraction spec mean = (if cmp_claimed_effect spec \<noteq> 0 then mean / cmp_claimed_effect spec else 0)"

text \<open>The verdict on an interval above the equivalence region.\<close>

definition credited :: "comparison_spec \<Rightarrow> real \<times> real \<times> real \<Rightarrow> claim_verdict" where
  "credited spec ci =
     (case ci of (mean, lo, hi) \<Rightarrow>
        (let recovered = recovered_fraction spec mean; recovered_clamped = max 0 (min 1 recovered);
             credit = 1 / 2 + 1 / 2 * recovered_clamped
         in \<lparr>cv_claim_id = cmp_claim_id spec,
             cv_status = (if recovered_clamped \<ge> 90 / 100 then Replicated else Partially_Replicated),
             cv_credit = round4 credit,
             cv_reason = Exceeds_Equivalence lo hi (cmp_equivalence_margin spec) recovered (cmp_claimed_effect spec),
             cv_measured_mean = Some mean, cv_ci_low = Some lo, cv_ci_high = Some hi, cv_eligible = True\<rparr>))"

definition grade_claim :: "int \<Rightarrow> measured_claim \<Rightarrow> claim_verdict" where
  "grade_claim min_seeds_for_contradiction claim =
     (let spec = mcl_comparison claim; bundle = mcl_seeds claim in
      if cmp_ambiguous spec then
        uncredited spec Inconclusive
          (Ambiguous_Spec (if cmp_ambiguity_reason spec \<noteq> [] then cmp_ambiguity_reason spec else ''unspecified'')) None False
      else if \<not> scope_matches (mcl_scope claim) (cmp_scope spec) then
        uncredited spec Inconclusive (Scope_Mismatch (scope_describe (cmp_scope spec)) (scope_describe (mcl_scope claim))) None False
      else
        (let n = n_effective bundle; (mean, lo, hi) = bundle_interval bundle; margin = cmp_equivalence_margin spec in
         if n < 1 then uncredited spec Inconclusive No_Usable_Seeds None True
         else if lo > margin then credited spec (mean, lo, hi)
         else if hi < - margin then
           (if int n < min_seeds_for_contradiction then
              uncredited spec Inconclusive (Inverts_With_Few_Seeds margin n min_seeds_for_contradiction) (Some (mean, lo, hi)) True
            else uncredited spec Contradicted (Beyond_Equivalence lo hi n) (Some (mean, lo, hi)) True)
         else uncredited spec Inconclusive (Overlaps_Equivalence lo hi margin) (Some (mean, lo, hi)) True))"

definition legacy_verdict_from_fidelity :: "implementation_verdict \<Rightarrow> string" where
  "legacy_verdict_from_fidelity impl =
     (case impl of Faithful \<Rightarrow> ''reproduced'' | Partial \<Rightarrow> ''partial'' | Broken \<Rightarrow> ''failed'')"

definition ROLLUP_ORDER :: "replication_verdict \<Rightarrow> nat" where
  "ROLLUP_ORDER v = (case v of Contradicted \<Rightarrow> 0 | Inconclusive \<Rightarrow> 1 | Partially_Replicated \<Rightarrow> 2 | Replicated \<Rightarrow> 3)"

text \<open>Python's \<open>min\<close> with a key returns the first of the least, as \<open>arg_min_list\<close> does.\<close>

definition rollup_primaries :: "claim_verdict list \<Rightarrow> claim_verdict" where
  "rollup_primaries primaries = arg_min_list (\<lambda>cv. ROLLUP_ORDER (cv_status cv)) primaries"

definition primary_verdicts :: "claim_verdict list \<Rightarrow> measured_claim list \<Rightarrow> claim_verdict list" where
  "primary_verdicts per_claim claims = map fst (filter (\<lambda>(cv, c). cmp_is_primary (mcl_comparison c)) (zip per_claim claims))"

definition compute_reproducibility_verdict ::
    "real \<Rightarrow> fidelity_certificate \<Rightarrow> measured_claim list \<Rightarrow> int \<Rightarrow> real \<Rightarrow> reproducibility_verdict" where
  "compute_reproducibility_verdict fidelity_score certificate claims min_seeds faithful_min =
     (let impl = implementation_verdict_of fidelity_score certificate faithful_min;
          line = Implementation_Line impl fidelity_score (is_green certificate) (fc_obligation_profile certificate);
          per_claim = map (grade_claim min_seeds) claims;
          verdict = (\<lambda>replication credit why.
            \<lparr>rv_implementation = impl, rv_replication = replication, rv_credit = credit,
             rv_legacy = legacy_verdict_from_fidelity impl, rv_schema = SCHEMA_VERSION, rv_per_claim = per_claim,
             rv_rationale = [line, why], rv_fidelity = fidelity_score\<rparr>)
      in if impl \<noteq> Faithful then verdict Inconclusive 0 Build_Not_Faithful
         else
           (let primaries = primary_verdicts per_claim claims in
            if primaries = [] then verdict Inconclusive (round4 0) No_Primary_Claim
            else
              (let pv = (if length primaries = 1 then primaries ! 0 else rollup_primaries primaries) in
               verdict (cv_status pv) (round4 (cv_credit pv)) (From_Primary (cv_status pv) (cv_claim_id pv) (cv_reason pv)))))"

text \<open>\<open>round(x, 6)\<close>.\<close>

definition round6 :: "real \<Rightarrow> real" where
  "round6 x = of_int (round_half_even (x * 10 ^ 6)) / 10 ^ 6"

definition impl_rank :: "implementation_verdict \<Rightarrow> nat" where
  "impl_rank v = (case v of Faithful \<Rightarrow> 2 | Partial \<Rightarrow> 1 | Broken \<Rightarrow> 0)"

definition fidelity_rank :: "reproducibility_verdict \<Rightarrow> nat \<times> real" where
  "fidelity_rank v = (impl_rank (rv_implementation v), round6 (rv_fidelity v))"

section \<open>Intervals\<close>

lemma t_crit_pos: "0 < t_crit df"
  by (simp add: t_crit_def T_CRIT_95_def T_CRIT_INF_def)

lemma effect_var_nonneg: "0 \<le> effect_var vs"
  by (auto simp: effect_var_def intro!: divide_nonneg_nonneg sum_list_nonneg)

text \<open>The mean lies in its interval.\<close>

lemma interval_ordered:
  assumes "effect_confidence_interval vs = (mean, lo, hi)"
  shows "lo \<le> mean" and "mean \<le> hi"
  using assms t_crit_pos [of "length vs - 1"] effect_var_nonneg [of vs]
  by (auto simp: effect_confidence_interval_def Let_def split: if_splits intro!: mult_nonneg_nonneg divide_nonneg_nonneg)

section \<open>When a claim is contradicted\<close>

definition contradicts :: "int \<Rightarrow> measured_claim \<Rightarrow> bool" where
  "contradicts min_seeds claim \<longleftrightarrow>
     (let spec = mcl_comparison claim; b = mcl_seeds claim in
      \<not> cmp_ambiguous spec \<and> scope_matches (mcl_scope claim) (cmp_scope spec) \<and> sdb_rng_independent b
      \<and> length (sdb_seeds b) = length (sdb_effects b) \<and> 1 \<le> card (set (sdb_seeds b)) \<and> min_seeds \<le> int (card (set (sdb_seeds b)))
      \<and> snd (snd (effect_confidence_interval (sdb_effects b))) < - cmp_equivalence_margin spec)"

lemma grade_claim_contradicted:
  assumes "0 \<le> cmp_equivalence_margin (mcl_comparison claim)"
  shows "cv_status (grade_claim m claim) = Contradicted \<longleftrightarrow> contradicts m claim"
proof -
  obtain mean lo hi where ci: "effect_confidence_interval (sdb_effects (mcl_seeds claim)) = (mean, lo, hi)"
    by (metis surj_pair)
  have "\<not> (lo > cmp_equivalence_margin (mcl_comparison claim) \<and> hi < - cmp_equivalence_margin (mcl_comparison claim))"
    using interval_ordered [OF ci] assms by linarith
  then show ?thesis
    by (auto simp: grade_claim_def contradicts_def bundle_interval_def uncredited_def n_effective_def ci Let_def credited_def
        split: if_splits)
qed

lemma rollup_mem: "xs \<noteq> [] \<Longrightarrow> rollup_primaries xs \<in> set xs"
  by (simp add: rollup_primaries_def arg_min_list_in)

lemma rollup_le: "x \<in> set xs \<Longrightarrow> ROLLUP_ORDER (cv_status (rollup_primaries xs)) \<le> ROLLUP_ORDER (cv_status x)"
proof -
  assume x: "x \<in> set xs"
  then have "ROLLUP_ORDER (cv_status (rollup_primaries xs)) = Min ((\<lambda>cv. ROLLUP_ORDER (cv_status cv)) ` set xs)"
    by (subst f_arg_min_list_f [symmetric]) (auto simp: rollup_primaries_def)
  then show ?thesis using x by simp
qed

lemma ROLLUP_ORDER_inject: "ROLLUP_ORDER v = ROLLUP_ORDER w \<longleftrightarrow> v = w"
  by (simp add: ROLLUP_ORDER_def split: replication_verdict.split)

lemma ROLLUP_ORDER_least [simp]: "ROLLUP_ORDER v \<le> ROLLUP_ORDER Contradicted \<longleftrightarrow> v = Contradicted"
  by (simp add: ROLLUP_ORDER_def split: replication_verdict.split)

lemma primary_verdicts_grade:
  "primary_verdicts (map f claims) claims = map f (filter (\<lambda>c. cmp_is_primary (mcl_comparison c)) claims)"
  by (induction claims) (auto simp: primary_verdicts_def)

text \<open>The claim that decides.\<close>

definition governing :: "int \<Rightarrow> measured_claim list \<Rightarrow> claim_verdict" where
  "governing min_seeds claims = rollup_primaries (map (grade_claim min_seeds) (filter (\<lambda>c. cmp_is_primary (mcl_comparison c)) claims))"

lemma rollup_single: "length xs = 1 \<Longrightarrow> rollup_primaries xs = xs ! 0"
  by (cases xs) (auto simp: rollup_primaries_def)

lemma replication_cases:
  fixes claims :: "measured_claim list" and m :: int
  defines "prim \<equiv> filter (\<lambda>c. cmp_is_primary (mcl_comparison c)) claims"
  shows "rv_replication (compute_reproducibility_verdict score cert claims m fmin) =
      (if implementation_verdict_of score cert fmin \<noteq> Faithful \<or> prim = [] then Inconclusive else cv_status (governing m claims))"
    and "rv_credit (compute_reproducibility_verdict score cert claims m fmin) =
      (if implementation_verdict_of score cert fmin \<noteq> Faithful \<or> prim = [] then 0 else round4 (cv_credit (governing m claims)))"
    and "rv_implementation (compute_reproducibility_verdict score cert claims m fmin) = implementation_verdict_of score cert fmin"
    and "rv_fidelity (compute_reproducibility_verdict score cert claims m fmin) = score"
    and "rv_legacy (compute_reproducibility_verdict score cert claims m fmin) =
      legacy_verdict_from_fidelity (implementation_verdict_of score cert fmin)"
  by (auto simp: compute_reproducibility_verdict_def Let_def primary_verdicts_grade governing_def prim_def rollup_single
      round4_def round_half_even_def)

lemma faithful_iff: "implementation_verdict_of score cert fmin = Faithful \<longleftrightarrow> is_green cert \<and> score \<ge> fmin"
  by (auto simp: implementation_verdict_of_def is_green_def)

lemma rollup_contradicted:
  "cv_status (rollup_primaries xs) = Contradicted \<longleftrightarrow> (\<exists>x\<in>set xs. cv_status x = Contradicted)" if "xs \<noteq> []"
  using rollup_mem [OF that] rollup_le [of _ xs] by force

lemma governing_contradicted:
  assumes "\<forall>c\<in>set claims. 0 \<le> cmp_equivalence_margin (mcl_comparison c)"
    and "filter (\<lambda>c. cmp_is_primary (mcl_comparison c)) claims \<noteq> []"
  shows "cv_status (governing m claims) = Contradicted
    \<longleftrightarrow> (\<exists>c\<in>set claims. cmp_is_primary (mcl_comparison c) \<and> contradicts m c)"
  using assms grade_claim_contradicted by (auto simp: governing_def rollup_contradicted)

lemma contradicted_entitled:
  assumes "\<forall>c\<in>set claims. 0 \<le> cmp_equivalence_margin (mcl_comparison c)"
  shows "rv_replication (compute_reproducibility_verdict score cert claims m fmin) = Contradicted
    \<longleftrightarrow> is_green cert \<and> score \<ge> fmin \<and> (\<exists>c\<in>set claims. cmp_is_primary (mcl_comparison c) \<and> contradicts m c)"
  using governing_contradicted [OF assms, of m]
  by (auto simp: replication_cases faithful_iff filter_empty_conv)


section \<open>Credit, rank and order\<close>

lemma round_half_even_of_int [simp]: "round_half_even (of_int i) = i"
  by (simp add: round_half_even_def)

lemma round4_mono: "x \<le> y \<Longrightarrow> round4 x \<le> round4 y"
  by (simp add: round4_def divide_right_mono round_half_even_mono)

lemma round4_grid: "round4 (of_int i / 10000) = of_int i / 10000"
  by (simp add: round4_def)

lemma round4_idem [simp]: "round4 (round4 x) = round4 x"
  unfolding round4_def [of x] by (rule round4_grid)

lemma round4_consts: "round4 0 = 0" "round4 (1 / 2) = 1 / 2" "round4 (19 / 20) = 19 / 20" "round4 1 = 1"
  using round4_grid [of 0] round4_grid [of 5000] round4_grid [of 9500] round4_grid [of 10000] by simp_all

definition credit_fits :: "replication_verdict \<Rightarrow> real \<Rightarrow> bool" where
  "credit_fits status credit \<longleftrightarrow>
     (case status of
        Replicated \<Rightarrow> 19 / 20 \<le> credit \<and> credit \<le> 1
      | Partially_Replicated \<Rightarrow> 1 / 2 \<le> credit \<and> credit \<le> 19 / 20
      | _ \<Rightarrow> credit = 0)"

lemma credit_fits_round4: "credit_fits status credit \<Longrightarrow> credit_fits status (round4 credit)"
  using round4_mono [of "1 / 2" credit] round4_mono [of "19 / 20" credit] round4_mono [of credit 1] round4_mono [of credit "19 / 20"]
  by (auto simp: credit_fits_def round4_consts split: replication_verdict.splits)

lemma credit_fits_fraction:
  assumes "0 \<le> x" "x \<le> 1"
  shows "credit_fits (if x \<ge> 90 / 100 then Replicated else Partially_Replicated) (round4 (1 / 2 + 1 / 2 * x))"
  by (rule credit_fits_round4) (use assms in \<open>auto simp: credit_fits_def\<close>)

lemma credited_credit: "credit_fits (cv_status (credited spec ci)) (cv_credit (credited spec ci))"
proof -
  obtain mean lo hi where ci: "ci = (mean, lo, hi)" by (metis surj_pair)
  show ?thesis
    unfolding ci credited_def Let_def prod.case claim_verdict.select_convs by (rule credit_fits_fraction) auto
qed

lemma credited_positive: "cv_status (credited spec ci) \<in> {Replicated, Partially_Replicated}"
  by (simp add: credited_def Let_def split: prod.split)

lemma grade_claim_credit: "credit_fits (cv_status (grade_claim m claim)) (cv_credit (grade_claim m claim))"
  by (auto simp: grade_claim_def uncredited_def Let_def credited_credit split: prod.splits) (simp_all add: credit_fits_def)

text \<open>Credit fits the verdict it stands beside, for the whole paper and for every claim: 0 without a positive
  verdict, between 0.5 and 0.95 for a partial replication, between 0.95 and 1 for a replication.\<close>

theorem credit_fits_verdict:
  "credit_fits (rv_replication (compute_reproducibility_verdict score cert claims m fmin))
      (rv_credit (compute_reproducibility_verdict score cert claims m fmin))
   \<and> list_all (\<lambda>cv. credit_fits (cv_status cv) (cv_credit cv)) (rv_per_claim (compute_reproducibility_verdict score cert claims m fmin))"
proof -
  have "credit_fits (cv_status (governing m claims)) (cv_credit (governing m claims))"
    if "filter (\<lambda>c. cmp_is_primary (mcl_comparison c)) claims \<noteq> []"
    using rollup_mem [of "map (grade_claim m) (filter (\<lambda>c. cmp_is_primary (mcl_comparison c)) claims)"] that
    by (auto simp: governing_def grade_claim_credit)
  moreover have "list_all (\<lambda>cv. credit_fits (cv_status cv) (cv_credit cv)) (map (grade_claim m) claims)"
    by (simp add: list_all_iff grade_claim_credit)
  moreover have "credit_fits Inconclusive 0" by (simp add: credit_fits_def)
  ultimately show ?thesis
    by (simp add: replication_cases credit_fits_round4)
      (simp add: compute_reproducibility_verdict_def Let_def)
qed

text \<open>Refuting a paper does not demote a run: the rank and the verdict shown to older readers do not depend on the
  claims or the seeds, and a certified run that reaches the floor stands above every run that is not.\<close>

theorem rank_ignores_replication:
  "fidelity_rank (compute_reproducibility_verdict score cert claims m fmin) =
     fidelity_rank (compute_reproducibility_verdict score cert claims' m' fmin)
   \<and> rv_legacy (compute_reproducibility_verdict score cert claims m fmin) =
     rv_legacy (compute_reproducibility_verdict score cert claims' m' fmin)
   \<and> (is_green cert \<and> score \<ge> fmin \<and> \<not> (is_green cert' \<and> score' \<ge> fmin) \<longrightarrow>
      rank_less (fidelity_rank (compute_reproducibility_verdict score' cert' claims' m' fmin))
        (fidelity_rank (compute_reproducibility_verdict score cert claims m fmin)))"
  using faithful_iff [of score cert fmin] faithful_iff [of score' cert' fmin]
  by (auto simp: fidelity_rank_def replication_cases rank_less_def impl_rank_def split: implementation_verdict.splits)

lemma rollup_order_status:
  assumes "set (map cv_status xs) = set (map cv_status ys)" and "xs \<noteq> []"
  shows "cv_status (rollup_primaries xs) = cv_status (rollup_primaries ys)"
proof -
  have ys: "ys \<noteq> []" using assms by auto
  have le: "ROLLUP_ORDER (cv_status (rollup_primaries us)) \<le> ROLLUP_ORDER (cv_status (rollup_primaries vs))"
    if "set (map cv_status vs) = set (map cv_status us)" "vs \<noteq> []" for us vs
  proof -
    have "cv_status (rollup_primaries vs) \<in> set (map cv_status us)" using rollup_mem [of vs] that by auto
    then obtain u where "u \<in> set us" "cv_status u = cv_status (rollup_primaries vs)" by auto
    then show ?thesis using rollup_le [of u us] by simp
  qed
  then show ?thesis using assms ys ROLLUP_ORDER_inject order_antisym by metis
qed

text \<open>The order in which the claims are listed does not change the verdict.\<close>

lemma replication_order_independent:
  assumes "set claims = set claims'"
  shows "rv_replication (compute_reproducibility_verdict score cert claims m fmin) =
    rv_replication (compute_reproducibility_verdict score cert claims' m fmin)"
proof -
  let ?prim = "filter (\<lambda>c. cmp_is_primary (mcl_comparison c))"
  have s: "set (?prim claims) = set (?prim claims')" using assms by auto
  then have e: "?prim claims = [] \<longleftrightarrow> ?prim claims' = []" by (metis set_empty)
  have "cv_status (governing m claims) = cv_status (governing m claims')" if "?prim claims \<noteq> []"
    unfolding governing_def using s that by (intro rollup_order_status) (simp_all del: set_filter)
  then show ?thesis using e by (simp add: replication_cases)
qed

section \<open>Runs\<close>

definition demo_scope :: scope_tuple where
  "demo_scope = \<lparr>sc_model = ''gpt2'', sc_dataset = ''wikitext'', sc_split = [], sc_protocol = []\<rparr>"

definition demo_comparison :: comparison_spec where
  "demo_comparison =
     \<lparr>cmp_claim_id = ''c1'', cmp_description = [], cmp_metric_name = ''ppl'', cmp_direction = Lower_Is_Better,
      cmp_estimate_kind = Absolute_Estimate, cmp_baseline_label = ''adam'', cmp_claimed_effect = 2, cmp_equivalence_margin = 0,
      cmp_scope = demo_scope, cmp_is_primary = True, cmp_table_ref = [], cmp_paper_span = [], cmp_ambiguous = False,
      cmp_ambiguity_reason = []\<rparr>"

definition demo_claim :: "int list \<Rightarrow> real list \<Rightarrow> measured_claim" where
  "demo_claim seeds effects =
     \<lparr>mcl_comparison = demo_comparison, mcl_seeds = \<lparr>sdb_seeds = seeds, sdb_effects = effects, sdb_rng_independent = True\<rparr>,
      mcl_scope = demo_scope\<rparr>"

definition demo_certificate :: fidelity_certificate where
  "demo_certificate =
     \<lparr>fc_invariant_tests_passed = True, fc_mutation_confirmed = True, fc_blinded_extraction_agreed = True,
      fc_obligation_profile = End_To_End, fc_profile_satisfied = True, fc_has_measured_metrics = True, fc_invariant_tests_ran = True\<rparr>"

definition demo_verdict :: "measured_claim list \<Rightarrow> reproducibility_verdict" where
  "demo_verdict claims = compute_reproducibility_verdict (4 / 5) demo_certificate claims 2 DEFAULT_FAITHFUL_MIN_SCORE"

lemmas demo_defs =
  demo_verdict_def demo_certificate_def demo_claim_def demo_comparison_def demo_scope_def DEFAULT_FAITHFUL_MIN_SCORE_def

lemma demo_faithful: "implementation_verdict_of (4 / 5) demo_certificate DEFAULT_FAITHFUL_MIN_SCORE = Faithful"
  by (simp add: faithful_iff is_green_def demo_defs)

lemma demo_replication: "rv_replication (demo_verdict [demo_claim ss es]) = cv_status (grade_claim 2 (demo_claim ss es))"
  by (simp add: demo_verdict_def replication_cases demo_faithful governing_def rollup_primaries_def demo_claim_def demo_comparison_def)

lemma axis_matches_refl [simp]: "axis_matches a a"
  by (simp add: axis_matches_def)

lemma scope_matches_refl [simp]: "scope_matches s s"
  by (simp add: scope_matches_def)

lemma demo_contradicts:
  "contradicts m (demo_claim ss es) \<longleftrightarrow>
     length ss = length es \<and> 1 \<le> card (set ss) \<and> m \<le> int (card (set ss)) \<and> snd (snd (effect_confidence_interval es)) < 0"
  by (simp add: contradicts_def demo_claim_def demo_comparison_def demo_scope_def)


theorem rank_ignores_replication_witness:
  "rank_less (fidelity_rank (compute_reproducibility_verdict (95 / 100) (demo_certificate\<lparr>fc_mutation_confirmed := False\<rparr>)
       [demo_claim [1] [2]] 2 DEFAULT_FAITHFUL_MIN_SCORE))
     (fidelity_rank (demo_verdict [demo_claim [1, 2] [- 3, - 3]]))"
proof -
  have "is_green demo_certificate \<and> (4 / 5 :: real) \<ge> DEFAULT_FAITHFUL_MIN_SCORE"
    and "\<not> is_green (demo_certificate\<lparr>fc_mutation_confirmed := False\<rparr>)" by (simp_all add: is_green_def demo_defs)
  then show ?thesis unfolding demo_verdict_def using rank_ignores_replication by blast
qed

text \<open>Repeated seeds are counted once but measured every time: two independent runs are inconclusive, and the same two
  runs listed twice, still two distinct seeds, contradict the paper.\<close>

theorem repeated_seeds_contradict:
  "n_effective (mcl_seeds (demo_claim [1, 2] [- 1, - 3])) = 2
   \<and> rv_replication (demo_verdict [demo_claim [1, 2] [- 1, - 3]]) = Inconclusive
   \<and> n_effective (mcl_seeds (demo_claim [1, 2, 1, 2] [- 1, - 3, - 1, - 3])) = 2
   \<and> rv_replication (demo_verdict [demo_claim [1, 2, 1, 2] [- 1, - 3, - 1, - 3]]) = Contradicted"
proof -
  have two: "effect_confidence_interval [- 1, - 3] = (- 2, - 2 - 12706 / 1000, - 2 + 12706 / 1000)"
    by (simp add: effect_confidence_interval_def effect_mean_def effect_var_def t_crit_def T_CRIT_95_def)
  have "sqrt (4 / 3) < 6 / 5" by (rule real_less_lsqrt) (simp_all add: power2_eq_square)
  then have four: "snd (snd (effect_confidence_interval [- 1, - 3, - 1, - 3])) < 0"
    by (simp add: effect_confidence_interval_def effect_mean_def effect_var_def t_crit_def T_CRIT_95_def Let_def)
  have "contradicts 2 (demo_claim [1, 2, 1, 2] [- 1, - 3, - 1, - 3])" by (simp add: demo_contradicts four insert_commute)
  moreover have "cv_status (grade_claim 2 (demo_claim [1, 2] [- 1, - 3])) = Inconclusive"
    by (simp add: grade_claim_def demo_claim_def demo_comparison_def demo_scope_def bundle_interval_def two n_effective_def uncredited_def)
  ultimately show ?thesis
    by (simp add: demo_replication grade_claim_contradicted [of "demo_claim [1, 2, 1, 2] [- 1, - 3, - 1, - 3]"])
      (simp add: demo_claim_def demo_comparison_def n_effective_def grade_claim_contradicted insert_commute)
qed

text \<open>One seed suffices for a full replication, also when the certificate asks for end-to-end evidence.\<close>

lemma single_seed_replicates:
  "fc_obligation_profile demo_certificate = End_To_End \<and> rv_replication (demo_verdict [demo_claim [1] [2]]) = Replicated"
  by (simp add: demo_replication)
    (simp add: grade_claim_def demo_defs bundle_interval_def effect_confidence_interval_def effect_mean_def n_effective_def
      recovered_fraction_def credited_def)

text \<open>Of several primary claims with the same verdict the first one gives the credit, not the weakest.\<close>

lemma rollup_credit_is_the_first:
  "rv_credit (demo_verdict [demo_claim [1] [1], demo_claim [1] [3 / 2]]) = 3 / 4
   \<and> rv_credit (demo_verdict [demo_claim [1] [3 / 2], demo_claim [1] [1]]) = 7 / 8"
proof -
  have "grade_claim 2 (demo_claim [1] [x]) =
      \<lparr>cv_claim_id = ''c1'', cv_status = Partially_Replicated, cv_credit = round4 (1 / 2 + x / 4),
       cv_reason = Exceeds_Equivalence x x 0 (x / 2) 2, cv_measured_mean = Some x, cv_ci_low = Some x, cv_ci_high = Some x,
       cv_eligible = True\<rparr>" if "0 < x" "x < 9 / 5" for x
    using that
    by (simp add: grade_claim_def demo_defs bundle_interval_def effect_confidence_interval_def effect_mean_def n_effective_def
        recovered_fraction_def credited_def Let_def)
  moreover have "cmp_is_primary (mcl_comparison (demo_claim ss es))" for ss es by (simp add: demo_claim_def demo_comparison_def)
  ultimately show ?thesis
    using round4_grid [of 7500] round4_grid [of 8750]
    by (simp add: demo_verdict_def replication_cases demo_faithful governing_def rollup_primaries_def)
qed

end
