(* ===== verification/Two_Axis_Report.thy ===== *)
theory Two_Axis_Report
  imports Two_Axis_Verdict
begin

text \<open>
  The two-axis verdict on a report, \<^verbatim>\<open>src/backend/agents/rlm/two_axis_report.py\<close>: the flag, the loaders of the
  certificate and of the claims with their fallbacks, the score of the fidelity axis, and what is attached.
  \<open>None\<close> of \<open>compute_and_attach\<close> is \<open>False\<close>: disabled, or something raised, and the report is as it was.

  The record \<open>two_axis_files\<close> is what the functions read under the directory of the run. The texts of reasons
  and rationales are the argument \<open>texts\<close>.
\<close>

section \<open>Configuration\<close>

definition flag_truthy :: "string option \<Rightarrow> bool" where
  "flag_truthy value \<longleftrightarrow>
     py_lower (py_strip (case value of None \<Rightarrow> [] | Some s \<Rightarrow> s)) \<in> set [''1'', ''true'', ''yes'', ''on'']"

definition two_axis_enabled :: "environ \<Rightarrow> bool" where
  "two_axis_enabled env = flag_truthy (env ''OPENRESEARCH_TWO_AXIS_VERDICT'')"

definition DEFAULT_MIN_SEEDS :: int where "DEFAULT_MIN_SEEDS = 2"

definition min_seeds_for_contradiction :: "environ \<Rightarrow> int" where
  "min_seeds_for_contradiction env =
     (case env ''OPENRESEARCH_MIN_SEEDS_FOR_CONTRADICTION'' of
        None \<Rightarrow> DEFAULT_MIN_SEEDS
      | Some raw \<Rightarrow>
          if raw = [] then DEFAULT_MIN_SEEDS
          else (case int_text raw of Some i \<Rightarrow> max 2 i | None \<Rightarrow> DEFAULT_MIN_SEEDS))"

section \<open>The fidelity score\<close>

definition dict_get_or :: "dict \<Rightarrow> string \<Rightarrow> json \<Rightarrow> json" where
  "dict_get_or d k dflt = (case map_of d k of None \<Rightarrow> dflt | Some v \<Rightarrow> v)"

definition area_weight :: "dict \<Rightarrow> real" where
  "area_weight area =
     (case dict_get area ''weight'' of
        JInt i \<Rightarrow> if i > 0 then of_int i else 1
      | JFloat x \<Rightarrow> if x > 0 then x else 1
      | _ \<Rightarrow> 1)"

text \<open>One round of the loop over the areas, on the sums \<open>num\<close> and \<open>den\<close>; a score that is no number raises.\<close>

definition add_area :: "(json \<Rightarrow> string) \<Rightarrow> (real \<times> real) option \<Rightarrow> json \<Rightarrow> (real \<times> real) option" where
  "add_area pystr acc area =
     (case acc of
        None \<Rightarrow> None
      | Some (num, den) \<Rightarrow>
          (case area of
             JDict a \<Rightarrow>
               if prefix ''result match'' (py_lower (py_strip (pystr (dict_get_or a ''area'' (JStr []))))) then acc
               else if dict_get a ''score'' = JNull then acc
               else map_option (\<lambda>s. (num + area_weight a * s, den + area_weight a)) (float_of_json (dict_get a ''score''))
           | _ \<Rightarrow> acc))"

definition fidelity_score_from_rubric :: "(json \<Rightarrow> string) \<Rightarrow> dict \<Rightarrow> real option" where
  "fidelity_score_from_rubric pystr rubric =
     (let areas = dict_get rubric ''areas''; overall = dict_get rubric ''overall_score'' in
      case py_iter (if py_truthy areas then areas else JList []) of
        Inl _ \<Rightarrow> None
      | Inr as \<Rightarrow>
          (case foldl (add_area pystr) (Some (0, 0)) as of
             None \<Rightarrow> None
           | Some (num, den) \<Rightarrow>
               if den > 0 then Some (num / den)
               else float_of_json (if py_truthy overall then overall else JFloat 0)))"

section \<open>Claims\<close>

definition empty_scope :: scope_tuple where
  "empty_scope = \<lparr>sc_model = [], sc_dataset = [], sc_split = [], sc_protocol = []\<rparr>"

definition text_field :: "(json \<Rightarrow> string) \<Rightarrow> dict \<Rightarrow> string \<Rightarrow> string \<Rightarrow> string" where
  "text_field pystr d k dflt = pystr (dict_get_or d k (JStr dflt))"

definition scope_from_dict :: "(json \<Rightarrow> string) \<Rightarrow> json \<Rightarrow> scope_tuple" where
  "scope_from_dict pystr j =
     (case j of
        JDict d \<Rightarrow>
          \<lparr>sc_model = text_field pystr d ''model'' [], sc_dataset = text_field pystr d ''dataset'' [],
           sc_split = text_field pystr d ''split'' [], sc_protocol = text_field pystr d ''protocol'' []\<rparr>
      | _ \<Rightarrow> empty_scope)"

definition direction_of :: "json \<Rightarrow> metric_direction option" where
  "direction_of j =
     (if j = JStr ''higher_is_better'' then Some Higher_Is_Better
      else if j = JStr ''lower_is_better'' then Some Lower_Is_Better else None)"

definition estimate_kind_of :: "json \<Rightarrow> estimate_kind option" where
  "estimate_kind_of j =
     (if j = JStr ''percentage_points'' then Some Percentage_Points
      else if j = JStr ''relative_percent'' then Some Relative_Percent
      else if j = JStr ''absolute'' then Some Absolute_Estimate else None)"

text \<open>\<open>reason or text\<close>, when \<open>bad\<close>.\<close>

definition reason_or :: "bool \<Rightarrow> string \<Rightarrow> string \<Rightarrow> string" where
  "reason_or bad text reason = (if bad \<and> reason = [] then text else reason)"

text \<open>The two numbers are parsed in one \<open>try\<close>: when one of them fails, both are 0.\<close>

definition claim_numbers :: "dict \<Rightarrow> (real \<times> real) option" where
  "claim_numbers d =
     (case (float_of_json (dict_get d ''claimed_effect''), float_of_json (dict_get_or d ''equivalence_margin'' (JFloat 0))) of
        (Some e, Some m) \<Rightarrow> Some (e, m)
      | _ \<Rightarrow> None)"

definition comparison_from_dict :: "(json \<Rightarrow> string) \<Rightarrow> dict \<Rightarrow> report_error + comparison_spec" where
  "comparison_from_dict pystr d =
     (let numbers = claim_numbers d; (claimed_effect, equivalence_margin) = (case numbers of Some p \<Rightarrow> p | None \<Rightarrow> (0, 0));
          direction = direction_of (dict_get_or d ''direction'' (JStr ''higher_is_better''));
          kind = estimate_kind_of (dict_get_or d ''estimate_kind'' (JStr ''absolute''));
          reason1 = reason_or (numbers = None) ''claimed_effect / equivalence_margin missing or non-numeric''
                      (text_field pystr d ''ambiguity_reason'' []);
          reason2 = reason_or (direction = None) ''unknown metric direction'' reason1;
          reason3 = reason_or (kind = None) ''unknown estimate kind'' reason2
      in comparison_post_init
           \<lparr>cmp_claim_id = text_field pystr d ''claim_id'' ''claim'', cmp_description = text_field pystr d ''description'' [],
            cmp_metric_name = text_field pystr d ''metric_name'' [],
            cmp_direction = (case direction of Some x \<Rightarrow> x | None \<Rightarrow> Higher_Is_Better),
            cmp_estimate_kind = (case kind of Some k \<Rightarrow> k | None \<Rightarrow> Absolute_Estimate),
            cmp_baseline_label = text_field pystr d ''baseline_label'' [], cmp_claimed_effect = claimed_effect,
            cmp_equivalence_margin = max 0 equivalence_margin, cmp_scope = scope_from_dict pystr (dict_get d ''scope''),
            cmp_is_primary = py_truthy (dict_get d ''is_primary''), cmp_table_ref = text_field pystr d ''table_ref'' [],
            cmp_paper_span = text_field pystr d ''paper_span'' [],
            cmp_ambiguous = (py_truthy (dict_get d ''ambiguous'') \<or> numbers = None \<or> direction = None \<or> kind = None),
            cmp_ambiguity_reason = reason3\<rparr>)"

definition empty_bundle :: seed_bundle where
  "empty_bundle = \<lparr>sdb_seeds = [], sdb_effects = [], sdb_rng_independent = False\<rparr>"

text \<open>\<open>tuple(f(x) for x in (v or []))\<close>; \<open>None\<close> is a \<open>TypeError\<close> or a \<open>ValueError\<close>.\<close>

definition tuple_of :: "(json \<Rightarrow> 'a option) \<Rightarrow> json \<Rightarrow> 'a list option" where
  "tuple_of f v =
     (case py_iter (if py_truthy v then v else JList []) of
        Inl _ \<Rightarrow> None
      | Inr js \<Rightarrow> those (map f js))"

definition seed_bundle_from_dict :: "json \<Rightarrow> seed_bundle" where
  "seed_bundle_from_dict j =
     (case j of
        JDict d \<Rightarrow>
          (case (tuple_of int_of_json (dict_get d ''seeds''), tuple_of float_of_json (dict_get d ''per_seed_effect'')) of
             (Some seeds, Some effects) \<Rightarrow>
               \<lparr>sdb_seeds = seeds, sdb_effects = effects, sdb_rng_independent = py_truthy (dict_get d ''rng_independent'')\<rparr>
           | _ \<Rightarrow> empty_bundle)
      | _ \<Rightarrow> empty_bundle)"

definition load_claim :: "(json \<Rightarrow> string) \<Rightarrow> json \<Rightarrow> measured_claim option" where
  "load_claim pystr j =
     (case j of
        JDict entry \<Rightarrow>
          (case dict_get entry ''comparison'' of
             JDict d \<Rightarrow>
               (case comparison_from_dict pystr d of
                  Inl _ \<Rightarrow> None
                | Inr spec \<Rightarrow>
                    Some \<lparr>mcl_comparison = spec, mcl_seeds = seed_bundle_from_dict (dict_get entry ''seed_bundle''),
                          mcl_scope = scope_from_dict pystr (dict_get entry ''measured_scope'')\<rparr>)
           | _ \<Rightarrow> None)
      | _ \<Rightarrow> None)"

definition load_claims :: "(json \<Rightarrow> string) \<Rightarrow> json_file \<Rightarrow> report_error + measured_claim list" where
  "load_claims pystr spec_file =
     (case spec_file of
        Json_File data \<Rightarrow>
          (let claims = (case data of JDict d \<Rightarrow> dict_get d ''claims'' | _ \<Rightarrow> JNull) in
           case py_iter (if py_truthy claims then claims else JList []) of
             Inl e \<Rightarrow> Inl e
           | Inr js \<Rightarrow> Inr (List.map_filter (load_claim pystr) js))
      | _ \<Rightarrow> Inr [])"

section \<open>The certificate\<close>

definition no_certificate :: "bool \<Rightarrow> fidelity_certificate" where
  "no_certificate has_measured_metrics =
     \<lparr>fc_invariant_tests_passed = False, fc_mutation_confirmed = False, fc_blinded_extraction_agreed = False,
      fc_obligation_profile = End_To_End, fc_profile_satisfied = False, fc_has_measured_metrics = has_measured_metrics,
      fc_invariant_tests_ran = False\<rparr>"

definition profile_of :: "json \<Rightarrow> obligation_profile" where
  "profile_of j =
     (if j = JStr ''static'' then Static_Profile else if j = JStr ''forward_pass'' then Forward_Pass
      else if j = JStr ''multi_step'' then Multi_Step else if j = JStr ''trace'' then Trace_Profile else End_To_End)"

definition load_certificate :: "json_file \<Rightarrow> bool \<Rightarrow> fidelity_certificate" where
  "load_certificate certificate_file has_measured_metrics =
     (case certificate_file of
        Json_File (JDict d) \<Rightarrow>
          (let passed = dict_get d ''invariant_tests_passed'' in
           \<lparr>fc_invariant_tests_passed = py_truthy passed, fc_mutation_confirmed = py_truthy (dict_get d ''mutation_confirmed''),
            fc_blinded_extraction_agreed = py_truthy (dict_get d ''blinded_extraction_agreed''),
            fc_obligation_profile = profile_of (dict_get_or d ''obligation_profile'' (JStr ''end_to_end'')),
            fc_profile_satisfied = py_truthy (dict_get d ''profile_satisfied''),
            fc_has_measured_metrics = py_truthy (dict_get_or d ''has_measured_metrics'' (JBool has_measured_metrics)),
            fc_invariant_tests_ran = py_truthy (dict_get_or d ''invariant_tests_ran'' passed)\<rparr>)
      | _ \<Rightarrow> no_certificate has_measured_metrics)"

record two_axis_files =
  tf_certificate :: json_file
  tf_spec :: json_file
  tf_code_metrics :: bool
  tf_output_metrics :: "bool list"

text \<open>\<open>tf_code_metrics\<close>: whether \<^verbatim>\<open>code/metrics.json\<close> exists; \<open>tf_output_metrics\<close>: the same for what
  \<open>rglob\<close> finds below \<^verbatim>\<open>code/outputs\<close>.\<close>

definition has_measured_metrics :: "two_axis_files \<Rightarrow> bool" where
  "has_measured_metrics files \<longleftrightarrow> tf_code_metrics files \<or> list_ex (\<lambda>e. e) (tf_output_metrics files)"

section \<open>The attached verdict\<close>

definition implementation_text :: "implementation_verdict \<Rightarrow> string" where
  "implementation_text v = (case v of Faithful \<Rightarrow> ''faithful'' | Partial \<Rightarrow> ''partial'' | Broken \<Rightarrow> ''broken'')"

definition replication_text :: "replication_verdict \<Rightarrow> string" where
  "replication_text v =
     (case v of
        Replicated \<Rightarrow> ''replicated'' | Partially_Replicated \<Rightarrow> ''partially-replicated''
      | Contradicted \<Rightarrow> ''contradicted'' | Inconclusive \<Rightarrow> ''inconclusive'')"

definition real_opt :: "real option \<Rightarrow> json" where
  "real_opt v = (case v of None \<Rightarrow> JNull | Some x \<Rightarrow> JFloat x)"

definition claim_payload :: "(claim_reason \<Rightarrow> string) \<Rightarrow> claim_verdict \<Rightarrow> json" where
  "claim_payload say cv =
     JDict [(''claim_id'', JStr (cv_claim_id cv)), (''status'', JStr (replication_text (cv_status cv))),
            (''credit'', JFloat (cv_credit cv)), (''reason'', JStr (say (cv_reason cv))), (''eligible'', JBool (cv_eligible cv)),
            (''measured_mean'', real_opt (cv_measured_mean cv)), (''ci_low'', real_opt (cv_ci_low cv)),
            (''ci_high'', real_opt (cv_ci_high cv))]"

definition verdict_to_payload ::
    "(claim_reason \<Rightarrow> string) \<times> (rationale \<Rightarrow> string) \<Rightarrow> reproducibility_verdict \<Rightarrow> real \<Rightarrow> dict" where
  "verdict_to_payload texts v fidelity_score =
     [(''schema_version'', JInt (rv_schema v)),
      (''implementation_verdict'', JStr (implementation_text (rv_implementation v))),
      (''replication_verdict'', JStr (replication_text (rv_replication v))),
      (''replication_credit'', JFloat (rv_credit v)),
      (''fidelity_score'', JFloat (round4 fidelity_score)),
      (''legacy_verdict'', JStr (rv_legacy v)),
      (''per_claim'', JList (map (claim_payload (fst texts)) (rv_per_claim v))),
      (''rationale'', JList (map (\<lambda>r. JStr (snd texts r)) (rv_rationale v)))]"

definition verdict_of_files ::
    "(json \<Rightarrow> string) \<Rightarrow> environ \<Rightarrow> two_axis_files \<Rightarrow> dict \<Rightarrow> (real \<times> reproducibility_verdict) option" where
  "verdict_of_files pystr env files report =
     (case fidelity_score_from_rubric pystr (dict_or_empty (dict_get report ''rubric'')) of
        None \<Rightarrow> None
      | Some fidelity_score \<Rightarrow>
          (case load_claims pystr (tf_spec files) of
             Inl _ \<Rightarrow> None
           | Inr claims \<Rightarrow>
               Some (fidelity_score,
                 compute_reproducibility_verdict fidelity_score
                   (load_certificate (tf_certificate files) (has_measured_metrics files)) claims
                   (min_seeds_for_contradiction env) DEFAULT_FAITHFUL_MIN_SCORE)))"

definition compute_and_attach ::
    "(json \<Rightarrow> string) \<Rightarrow> (claim_reason \<Rightarrow> string) \<times> (rationale \<Rightarrow> string) \<Rightarrow> environ \<Rightarrow> two_axis_files \<Rightarrow> dict \<Rightarrow> dict option" where
  "compute_and_attach pystr texts env files report =
     (if \<not> two_axis_enabled env then None
      else
        map_option (\<lambda>(fidelity_score, v).
            foldl dict_set report
              [(''reproducibility'', JDict (verdict_to_payload texts v fidelity_score)),
               (''implementation_verdict'', JStr (implementation_text (rv_implementation v))),
               (''replication_verdict'', JStr (replication_text (rv_replication v))),
               (''schema_version'', JInt (rv_schema v)),
               (''verdict'', JStr (rv_legacy v))])
          (verdict_of_files pystr env files report))"

section \<open>What is loaded\<close>

lemma min_seeds_two: "2 \<le> min_seeds_for_contradiction env"
  by (simp add: min_seeds_for_contradiction_def DEFAULT_MIN_SEEDS_def split: option.split)

lemma comparison_margin: "comparison_from_dict pystr d = Inr spec \<Longrightarrow> 0 \<le> cmp_equivalence_margin spec"
  by (simp add: comparison_from_dict_def comparison_post_init_def Let_def split_beta)
    (metis comparison_spec.select_convs(8) max.cobounded1)

text \<open>A comparison is always built: the margin that is passed on is not negative.\<close>

lemma comparison_built: "\<exists>spec. comparison_from_dict pystr d = Inr spec"
  by (simp add: comparison_from_dict_def comparison_post_init_def Let_def split_beta)

lemma load_claim_margin: "load_claim pystr j = Some c \<Longrightarrow> 0 \<le> cmp_equivalence_margin (mcl_comparison c)"
  by (auto simp: load_claim_def dest: comparison_margin split: json.splits sum.splits)

lemma load_claims_list: "load_claims pystr f = Inr claims \<Longrightarrow> \<exists>js. claims = List.map_filter (load_claim pystr) js"
  by (auto simp: load_claims_def Let_def split: json_file.splits sum.splits intro: exI [of _ "[]"])

lemma loaded_margin: "load_claims pystr f = Inr claims \<Longrightarrow> c \<in> set claims \<Longrightarrow> 0 \<le> cmp_equivalence_margin (mcl_comparison c)"
proof -
  assume "load_claims pystr f = Inr claims" and c: "c \<in> set claims"
  then obtain js where "claims = List.map_filter (load_claim pystr) js" using load_claims_list by blast
  with c obtain j where "load_claim pystr j = Some c" by (auto simp: List.map_filter_def)
  then show ?thesis by (rule load_claim_margin)
qed

lemma green_certificate_file: "is_green (load_certificate f b) \<Longrightarrow> \<exists>d. f = Json_File (JDict d)"
  by (auto simp: load_certificate_def no_certificate_def is_green_def split: json_file.splits json.splits)

lemma implementation_text_inject [simp]: "implementation_text v = implementation_text w \<longleftrightarrow> v = w"
  by (simp add: implementation_text_def split: implementation_verdict.split)

lemma replication_text_inject [simp]: "replication_text v = replication_text w \<longleftrightarrow> v = w"
  by (simp add: replication_text_def split: replication_verdict.split)

lemma attach_SomeD:
  assumes "compute_and_attach pystr texts env files report = Some rep"
  obtains score claims v where "two_axis_enabled env" "load_claims pystr (tf_spec files) = Inr claims"
    "v = compute_reproducibility_verdict score (load_certificate (tf_certificate files) (has_measured_metrics files)) claims
       (min_seeds_for_contradiction env) DEFAULT_FAITHFUL_MIN_SCORE"
    "verdict_of_files pystr env files report = Some (score, v)"
    "rep = foldl dict_set report
       [(''reproducibility'', JDict (verdict_to_payload texts v score)),
        (''implementation_verdict'', JStr (implementation_text (rv_implementation v))),
        (''replication_verdict'', JStr (replication_text (rv_replication v))),
        (''schema_version'', JInt (rv_schema v)), (''verdict'', JStr (rv_legacy v))]"
  using assms by (auto simp: compute_and_attach_def verdict_of_files_def split: if_splits option.splits sum.splits)

text \<open>What the attached entries are.\<close>

lemma attached_entries:
  assumes "compute_and_attach pystr texts env files report = Some rep" "verdict_of_files pystr env files report = Some (score, v)"
  shows "map_of rep k =
    (if k = ''verdict'' then Some (JStr (rv_legacy v))
     else if k = ''schema_version'' then Some (JInt (rv_schema v))
     else if k = ''replication_verdict'' then Some (JStr (replication_text (rv_replication v)))
     else if k = ''implementation_verdict'' then Some (JStr (implementation_text (rv_implementation v)))
     else if k = ''reproducibility'' then Some (JDict (verdict_to_payload texts v score))
     else map_of report k)"
proof -
  have rep: "rep = foldl dict_set report
       [(''reproducibility'', JDict (verdict_to_payload texts v score)),
        (''implementation_verdict'', JStr (implementation_text (rv_implementation v))),
        (''replication_verdict'', JStr (replication_text (rv_replication v))),
        (''schema_version'', JInt (rv_schema v)), (''verdict'', JStr (rv_legacy v))]"
    using assms(1) unfolding compute_and_attach_def assms(2) by (simp split: if_splits)
  show ?thesis unfolding rep by (simp only: foldl.simps map_of_dict_set fst_conv snd_conv)
qed


text \<open>Until a certificate is written nothing positive is reported: without a readable certificate the build is partial or
  broken, the replication inconclusive and the verdict for older readers not \<open>reproduced\<close>. And attaching is additive: every
  other entry of the report stays as it was.\<close>

theorem uncertified_report_is_cautious:
  assumes "compute_and_attach pystr texts env files report = Some rep"
  shows "((\<nexists>d. tf_certificate files = Json_File (JDict d)) \<longrightarrow>
       map_of rep ''implementation_verdict'' = Some (JStr (if has_measured_metrics files then ''partial'' else ''broken''))
       \<and> map_of rep ''replication_verdict'' = Some (JStr ''inconclusive'')
       \<and> map_of rep ''verdict'' = Some (JStr (if has_measured_metrics files then ''partial'' else ''failed'')))
    \<and> (\<forall>k. k \<notin> set [''reproducibility'', ''implementation_verdict'', ''replication_verdict'', ''schema_version'', ''verdict'']
         \<longrightarrow> map_of rep k = map_of report k)"
proof -
  from assms obtain score claims v where
    v: "v = compute_reproducibility_verdict score (load_certificate (tf_certificate files) (has_measured_metrics files)) claims
       (min_seeds_for_contradiction env) DEFAULT_FAITHFUL_MIN_SCORE"
    and vf: "verdict_of_files pystr env files report = Some (score, v)"
    by (rule attach_SomeD)
  have "load_certificate (tf_certificate files) b = no_certificate b" if "\<nexists>d. tf_certificate files = Json_File (JDict d)" for b
    using that by (simp add: load_certificate_def split: json_file.splits json.splits)
  moreover have "implementation_verdict_of score (no_certificate b) fmin = (if b then Partial else Broken)" for b fmin
    by (simp add: implementation_verdict_of_def no_certificate_def is_green_def)
  ultimately have "(\<nexists>d. tf_certificate files = Json_File (JDict d)) \<longrightarrow>
      rv_implementation v = (if has_measured_metrics files then Partial else Broken) \<and> rv_replication v = Inconclusive
      \<and> rv_legacy v = (if has_measured_metrics files then ''partial'' else ''failed'')"
    unfolding v by (simp add: replication_cases legacy_verdict_from_fidelity_def)
  then show ?thesis
    using attached_entries [OF assms vf] by (simp add: implementation_text_def replication_text_def)
qed

section \<open>Runs\<close>

definition demo_two_axis_env :: environ where
  "demo_two_axis_env = (\<lambda>k. if k = ''OPENRESEARCH_TWO_AXIS_VERDICT'' then Some ''on'' else None)"

definition demo_texts :: "(claim_reason \<Rightarrow> string) \<times> (rationale \<Rightarrow> string)" where
  "demo_texts = (\<lambda>_. ''reason'', \<lambda>_. ''rationale'')"

definition demo_spec_json :: json where
  "demo_spec_json =
     JDict [(''claims'', JList [JDict
       [(''comparison'', JDict [(''claim_id'', JStr ''c1''), (''claimed_effect'', JFloat 2), (''is_primary'', JBool True)]),
        (''seed_bundle'', JDict [(''seeds'', JList [JInt 1, JInt 2]), (''per_seed_effect'', JList [JInt (- 3), JFloat (- 3)]),
                                (''rng_independent'', JBool True)])]])]"

definition demo_certificate_json :: json where
  "demo_certificate_json =
     JDict (map (\<lambda>k. (k, JBool True)) [''invariant_tests_passed'', ''mutation_confirmed'', ''blinded_extraction_agreed'', ''profile_satisfied''])"

definition demo_two_axis_files :: "json_file \<Rightarrow> two_axis_files" where
  "demo_two_axis_files cert =
     \<lparr>tf_certificate = cert, tf_spec = Json_File demo_spec_json, tf_code_metrics = True, tf_output_metrics = []\<rparr>"

definition demo_rubric_report :: dict where
  "demo_rubric_report =
     [(''rubric'', JDict [(''areas'', JList [JDict [(''area'', JStr ''Method''), (''score'', JFloat (9 / 10)), (''weight'', JInt 2)],
                                           JDict [(''area'', JStr ''Result match''), (''score'', JFloat 0)]])])]"

definition demo_loaded :: measured_claim where
  "demo_loaded =
     \<lparr>mcl_comparison =
        \<lparr>cmp_claim_id = ''c1'', cmp_description = [], cmp_metric_name = [], cmp_direction = Higher_Is_Better,
         cmp_estimate_kind = Absolute_Estimate, cmp_baseline_label = [], cmp_claimed_effect = 2, cmp_equivalence_margin = 0,
         cmp_scope = empty_scope, cmp_is_primary = True, cmp_table_ref = [], cmp_paper_span = [], cmp_ambiguous = False,
         cmp_ambiguity_reason = []\<rparr>,
      mcl_seeds = \<lparr>sdb_seeds = [1, 2], sdb_effects = [- 3, - 3], sdb_rng_independent = True\<rparr>,
      mcl_scope = empty_scope\<rparr>"

lemma demo_load: "load_claims demo_str (Json_File demo_spec_json) = Inr [demo_loaded]"
  by code_simp

lemma demo_fidelity: "fidelity_score_from_rubric demo_str (dict_or_empty (dict_get demo_rubric_report ''rubric'')) = Some (9 / 10)"
  by code_simp

lemma demo_load_certificate: "is_green (load_certificate (Json_File demo_certificate_json) True)"
  by code_simp

lemma demo_two_axis_enabled: "two_axis_enabled demo_two_axis_env"
  by code_simp

lemma demo_verdict_of_files:
  "verdict_of_files demo_str demo_two_axis_env (demo_two_axis_files cert) demo_rubric_report =
     Some (9 / 10, compute_reproducibility_verdict (9 / 10) (load_certificate cert True) [demo_loaded]
       (min_seeds_for_contradiction demo_two_axis_env) DEFAULT_FAITHFUL_MIN_SCORE)"
  unfolding verdict_of_files_def demo_fidelity by (simp add: demo_two_axis_files_def demo_load has_measured_metrics_def)

lemma demo_attached: "\<exists>rep. compute_and_attach demo_str demo_texts demo_two_axis_env (demo_two_axis_files cert) demo_rubric_report = Some rep"
  by (simp add: compute_and_attach_def demo_two_axis_enabled demo_verdict_of_files)

lemma demo_min_seeds: "min_seeds_for_contradiction demo_two_axis_env = 2"
  by code_simp

lemma demo_loaded_contradicts: "contradicts 2 demo_loaded"
  by (simp add: contradicts_def demo_loaded_def effect_confidence_interval_def effect_mean_def effect_var_def)


theorem uncertified_report_is_cautious_witness:
  "\<exists>rep. compute_and_attach demo_str demo_texts demo_two_axis_env (demo_two_axis_files Bad_File) demo_rubric_report = Some rep
     \<and> map_of rep ''replication_verdict'' = Some (JStr ''inconclusive'') \<and> map_of rep ''verdict'' = Some (JStr ''partial'')
     \<and> map_of rep ''rubric'' = map_of demo_rubric_report ''rubric''"
proof -
  obtain rep where rep: "compute_and_attach demo_str demo_texts demo_two_axis_env (demo_two_axis_files Bad_File) demo_rubric_report = Some rep"
    using demo_attached by blast
  then show ?thesis
    using uncertified_report_is_cautious [OF rep] by (simp add: demo_two_axis_files_def has_measured_metrics_def)
qed

text \<open>Claims that are no collection disable the verdict for the report; a list with one broken entry only loses that entry.\<close>

lemma claims_that_are_a_number:
  "load_claims demo_str (Json_File (JDict [(''claims'', JInt 3)])) = Inl Type_Error
   \<and> load_claims demo_str (Json_File (JDict [(''claims'', JList [JInt 3])])) = Inr []"
  by code_simp

end
