(* ===== verification/Leaf_Report.thy ===== *)
theory Leaf_Report
  imports Leaf_Scorer Two_Axis_Report
begin

text \<open>
  What becomes of a score: the deterministic re-roll at the end of a run (\<open>finalize_rescore\<close>), and the
  final report that takes the score over (\<open>amend_final_report\<close>) with the verdict capped by it
  (\<open>reconcile_verdict_with_score\<close> of \<^verbatim>\<open>src/backend/agents/rlm/report.py\<close>) or taken from the two-axis verdict.
\<close>

section \<open>The re-roll\<close>

record rescore_result =
  fr_overall :: real
  fr_prior :: "real option"
  fr_n_excluded :: nat
  fr_excluded :: "string list"

definition persisted_score :: "(json \<Rightarrow> string) \<Rightarrow> json \<Rightarrow> (string \<times> real option) option" where
  "persisted_score pystr r =
     (case r of
        JDict d \<Rightarrow>
          if dict_get d ''id'' = JNull \<or> dict_get d ''score'' = JNull then None
          else Some (pystr (dict_get d ''id''), float_of_json (dict_get d ''score''))
      | _ \<Rightarrow> None)"

text \<open>The scores of the leaves that the evaluation file keeps; \<open>None\<close> when one of them is not a number.\<close>

definition persisted_scores :: "(json \<Rightarrow> string) \<Rightarrow> json list \<Rightarrow> (string \<times> real) list option" where
  "persisted_scores pystr records =
     (let rows = List.map_filter (persisted_score pystr) records in
      if list_ex (\<lambda>r. snd r = None) rows then None
      else Some (foldl dict_set [] (map (\<lambda>r. (fst r, the (snd r))) rows)))"

definition nonempty_dict :: "json_file \<Rightarrow> dict option" where
  "nonempty_dict f = (case f of Json_File (JDict d) \<Rightarrow> if d = [] then None else Some d | _ \<Rightarrow> None)"

definition rescore_tree :: "dict option \<Rightarrow> json_file list \<Rightarrow> dict option" where
  "rescore_tree rubric_tree tree_files =
     (case rubric_tree of
        Some (e # es) \<Rightarrow> Some (e # es)
      | _ \<Rightarrow> first_hit nonempty_dict tree_files)"

definition finalize_rescore ::
    "(json \<Rightarrow> string) \<Rightarrow> environ \<Rightarrow> json_file \<Rightarrow> json_file list \<Rightarrow> dict option \<Rightarrow> run_files \<Rightarrow> operator_scope \<Rightarrow> string list option
      \<Rightarrow> rescore_result option" where
  "finalize_rescore pystr env eval_file tree_files rubric_tree files op inclusion =
     (case eval_file of
        Json_File (JDict evald) \<Rightarrow>
          (case (persisted_scores pystr (json_items (dict_get evald ''leaf_scores'')), rescore_tree rubric_tree tree_files) of
             (Some scores, Some tree) \<Rightarrow>
               if scores = [] then None
               else
                 (case (flatten_leaves tree, roll_up pystr tree scores {}) of
                    (Inr ls, Inr raw_no_excl) \<Rightarrow>
                      (case detect_data_unavailable_leaves pystr env ls files None op of
                         Inl _ \<Rightarrow> None
                       | Inr unavailable \<Rightarrow>
                           (let skip = unavailable \<union> detect_theory_only_leaves pystr env ls
                                  \<union> detect_out_of_inclusion_scope_leaves pystr env ls inclusion;
                                prior = float_of_json (dict_get evald ''overall_score'') in
                            case (roll_up pystr tree scores skip, raw_no_excl) of
                              (Inr (Some new_overall), Some raw) \<Rightarrow>
                                if (case prior of None \<Rightarrow> False | Some p \<Rightarrow> raw - p > 1 / 10 ^ 6) then None
                                else Some \<lparr>fr_overall = clamp01 new_overall, fr_prior = prior, fr_n_excluded = card skip,
                                           fr_excluded = sorted_list_of_set skip\<rparr>
                            | _ \<Rightarrow> None))
                  | _ \<Rightarrow> None)
           | _ \<Rightarrow> None)
      | _ \<Rightarrow> None)"

section \<open>The verdict\<close>

definition VERDICT_REPRODUCED_MIN_SCORE :: real where "VERDICT_REPRODUCED_MIN_SCORE = 60 / 100"

definition VERDICT_PARTIAL_MIN_SCORE :: real where "VERDICT_PARTIAL_MIN_SCORE = 15 / 100"

definition verdict_rank :: "string \<Rightarrow> nat" where
  "verdict_rank v = (if v = ''failed'' then 0 else if v = ''reproduced'' then 2 else 1)"

definition verdict_ceiling :: "real \<Rightarrow> string" where
  "verdict_ceiling overall_score =
     (if overall_score \<ge> VERDICT_REPRODUCED_MIN_SCORE then ''reproduced''
      else if overall_score \<ge> VERDICT_PARTIAL_MIN_SCORE then ''partial'' else ''failed'')"

definition reconcile_verdict_with_score :: "string \<Rightarrow> real \<Rightarrow> string" where
  "reconcile_verdict_with_score verdict overall_score =
     (if verdict_rank verdict > verdict_rank (verdict_ceiling overall_score) then verdict_ceiling overall_score else verdict)"

section \<open>The report\<close>

definition hits_json :: "(string \<times> string list) list \<Rightarrow> json" where
  "hits_json hits = JDict (map (\<lambda>h. (fst h, JList (map JStr (snd h)))) hits)"

definition invariant_json :: "invariant_result \<Rightarrow> json" where
  "invariant_json r =
     JDict [(''name'', JStr (iv_name r)), (''passed'', JBool (iv_passed r)), (''hard_gate_tripped'', JBool (iv_hard r)),
            (''soft_gate_tripped'', JBool (iv_soft r)), (''must_match_evidence'', hits_json (iv_match r)),
            (''must_not_match_violations'', hits_json (iv_violations r)), (''files_scanned'', JInt (int (iv_files_scanned r))),
            (''rationale'', JStr (iv_rationale r))]"

definition meets_target :: "score_result \<Rightarrow> json" where
  "meets_target score = (case sr_target score of None \<Rightarrow> JNull | Some t \<Rightarrow> JBool (sr_overall score \<ge> t))"

definition rubric_block :: "dict \<Rightarrow> score_result \<Rightarrow> dict" where
  "rubric_block previous score =
     [(''overall_score'', JFloat (sr_overall score)),
      (''rubric_source'', JStr (sr_rubric_source score)),
      (''leaf_count'', JInt (int (sr_leaf_count score))),
      (''graded'', JInt (int (sr_graded score))),
      (''target_score'', real_opt (sr_target score)),
      (''meets_target'', meets_target score),
      (''degraded'', JBool (sr_degraded score)),
      (''coverage_pct'', JFloat (if sr_coverage score = 0 then 1 else sr_coverage score)),
      (''compute_adjusted_score'', dict_get_or previous ''compute_adjusted_score'' (JFloat (sr_overall score))),
      (''compute_scope'', dict_get previous ''compute_scope''),
      (''areas'', dict_get_or previous ''areas'' (JList [])),
      (''invariant_results'', JList (map invariant_json (sr_invariants score))),
      (''invariant_gate_applied'', JBool (sr_gate_applied score))]"

text \<open>A verdict that is no text has the rank of \<open>partial\<close>, as an unknown one; one that cannot be the key of a
  dict raises inside the \<open>try\<close> and stays.\<close>

definition reconciled :: "json \<Rightarrow> real \<Rightarrow> json" where
  "reconciled verdict overall =
     (case verdict of
        JStr v \<Rightarrow> JStr (reconcile_verdict_with_score v overall)
      | JList _ \<Rightarrow> verdict
      | JDict _ \<Rightarrow> verdict
      | _ \<Rightarrow> if verdict_rank (verdict_ceiling overall) < 1 then JStr (verdict_ceiling overall) else verdict)"

text \<open>The content of the report file after the amendment.\<close>

definition amend_final_report ::
    "(json \<Rightarrow> string) \<Rightarrow> (claim_reason \<Rightarrow> string) \<times> (rationale \<Rightarrow> string) \<Rightarrow> environ \<Rightarrow> two_axis_files \<Rightarrow> json_file \<Rightarrow> score_result
      \<Rightarrow> report_error + dict" where
  "amend_final_report pystr texts env files report_file score =
     (case report_file of
        Bad_File \<Rightarrow> Inl Value_Error
      | _ \<Rightarrow>
          (case (case report_file of Json_File j \<Rightarrow> j | _ \<Rightarrow> JDict []) of
             JDict report \<Rightarrow>
               (case as_mapping (dict_get report ''rubric'') of
                  Inl e \<Rightarrow> Inl e
                | Inr previous \<Rightarrow>
                    (let amended = foldl dict_set report
                           [(''rubric'', JDict (rubric_block previous score)),
                            (''overall_score'', JFloat (sr_overall score)),
                            (''meets_target'', meets_target score)]
                     in Inr (case compute_and_attach pystr texts env files amended of
                               Some attached \<Rightarrow> attached
                             | None \<Rightarrow>
                                 (case map_of amended ''verdict'' of
                                    None \<Rightarrow> amended
                                  | Some v \<Rightarrow> dict_set amended (''verdict'', reconciled v (sr_overall score))))))
           | _ \<Rightarrow> Inl Attribute_Error))"

section \<open>What the report says\<close>

lemma reconcile_ranks:
  "verdict_rank (reconcile_verdict_with_score v x) \<le> verdict_rank v
   \<and> verdict_rank (reconcile_verdict_with_score v x) \<le> verdict_rank (verdict_ceiling x)"
  by (auto simp: reconcile_verdict_with_score_def)

lemma reconcile_idem:
  "reconcile_verdict_with_score (reconcile_verdict_with_score v x) x = reconcile_verdict_with_score v x"
  by (auto simp: reconcile_verdict_with_score_def)

lemma reconciled_reproduced: "reconciled v x = JStr ''reproduced'' \<Longrightarrow> x \<ge> VERDICT_REPRODUCED_MIN_SCORE"
  by (auto simp: reconciled_def reconcile_verdict_with_score_def verdict_rank_def verdict_ceiling_def
      split: json.splits if_splits)

lemma attached_keeps:
  assumes "compute_and_attach pystr texts env files report = Some rep"
    and "k \<notin> set [''reproducibility'', ''implementation_verdict'', ''replication_verdict'', ''schema_version'', ''verdict'']"
  shows "map_of rep k = map_of report k"
proof -
  obtain score v where "verdict_of_files pystr env files report = Some (score, v)" using assms(1) by (rule attach_SomeD)
  then show ?thesis using attached_entries [OF assms(1)] assms(2) by simp
qed

lemma attached_reproduced:
  assumes "compute_and_attach pystr texts env files report = Some rep" and "map_of rep ''verdict'' = Some (JStr ''reproduced'')"
  shows "two_axis_enabled env \<and> is_green (load_certificate (tf_certificate files) (has_measured_metrics files))"
proof -
  obtain score claims v where e: "two_axis_enabled env"
    and v: "v = compute_reproducibility_verdict score (load_certificate (tf_certificate files) (has_measured_metrics files)) claims
       (min_seeds_for_contradiction env) DEFAULT_FAITHFUL_MIN_SCORE"
    and vf: "verdict_of_files pystr env files report = Some (score, v)"
    using assms(1) by (rule attach_SomeD)
  have "rv_legacy v = ''reproduced''" using attached_entries [OF assms(1) vf, of "''verdict''"] assms(2) by simp
  then have "implementation_verdict_of score (load_certificate (tf_certificate files) (has_measured_metrics files))
      DEFAULT_FAITHFUL_MIN_SCORE = Faithful"
    unfolding v by (simp add: replication_cases legacy_verdict_from_fidelity_def split: implementation_verdict.splits)
  then show ?thesis using e by (simp add: faithful_iff)
qed

lemma amend_InrD:
  assumes "amend_final_report pystr texts env files report_file score = Inr rep"
  obtains report previous where
    "map_of report ''rubric'' = Some (JDict (rubric_block previous score))"
    "map_of report ''overall_score'' = Some (JFloat (sr_overall score))" "map_of report ''meets_target'' = Some (meets_target score)"
    "compute_and_attach pystr texts env files report = Some rep
     \<or> compute_and_attach pystr texts env files report = None
       \<and> rep = (case map_of report ''verdict'' of
                  None \<Rightarrow> report | Some v \<Rightarrow> dict_set report (''verdict'', reconciled v (sr_overall score)))"
  using assms unfolding amend_final_report_def Let_def
  by (simp split: json_file.splits json.splits sum.splits)
    (force split: option.splits)+

lemma amended_entries:
  assumes "amend_final_report pystr texts env files report_file score = Inr rep"
  shows "map_of rep ''overall_score'' = Some (JFloat (sr_overall score)) \<and> map_of rep ''meets_target'' = Some (meets_target score)
     \<and> (\<exists>previous. map_of rep ''rubric'' = Some (JDict (rubric_block previous score)))
     \<and> (map_of rep ''verdict'' = Some (JStr ''reproduced'') \<longrightarrow>
          sr_overall score \<ge> VERDICT_REPRODUCED_MIN_SCORE
          \<or> two_axis_enabled env \<and> is_green (load_certificate (tf_certificate files) (has_measured_metrics files)))"
proof -
  obtain report previous where r:
    "map_of report ''rubric'' = Some (JDict (rubric_block previous score))"
    "map_of report ''overall_score'' = Some (JFloat (sr_overall score))" "map_of report ''meets_target'' = Some (meets_target score)"
    "compute_and_attach pystr texts env files report = Some rep
     \<or> compute_and_attach pystr texts env files report = None
       \<and> rep = (case map_of report ''verdict'' of
                  None \<Rightarrow> report | Some v \<Rightarrow> dict_set report (''verdict'', reconciled v (sr_overall score)))"
    using assms by (rule amend_InrD)
  from r(4) show ?thesis
  proof
    assume a: "compute_and_attach pystr texts env files report = Some rep"
    show ?thesis using r(1-3) attached_reproduced [OF a] by (auto simp: attached_keeps [OF a])
  next
    assume "compute_and_attach pystr texts env files report = None
       \<and> rep = (case map_of report ''verdict'' of
                  None \<Rightarrow> report | Some v \<Rightarrow> dict_set report (''verdict'', reconciled v (sr_overall score)))"
    then show ?thesis using r(1-3) by (auto simp: reconciled_reproduced split: option.splits)
  qed
qed

text \<open>An amended report is consistent: its top-level score and target flag are those of its rubric block, and its
  verdict says that the paper is reproduced only when the score is at least 0.60 or, with the two-axis verdict
  switched on, the certificate of the build is green.\<close>

theorem amended_report_consistent:
  assumes "amend_final_report pystr texts env files report_file score = Inr rep"
  shows "\<exists>rubric. map_of rep ''rubric'' = Some (JDict rubric)
      \<and> map_of rubric ''overall_score'' = map_of rep ''overall_score'' \<and> map_of rubric ''meets_target'' = map_of rep ''meets_target''
      \<and> map_of rep ''overall_score'' = Some (JFloat (sr_overall score))
      \<and> (map_of rep ''verdict'' = Some (JStr ''reproduced'') \<longrightarrow>
           sr_overall score \<ge> 60 / 100
           \<or> two_axis_enabled env \<and> is_green (load_certificate (tf_certificate files) (has_measured_metrics files)))"
  using amended_entries [OF assms] by (fastforce simp: rubric_block_def VERDICT_REPRODUCED_MIN_SCORE_def)

text \<open>A score that covers no leaf is reported as covering all of them.\<close>

theorem zero_coverage_reported_as_full:
  assumes "amend_final_report pystr texts env files report_file score = Inr rep" and "sr_coverage score = 0"
  shows "\<exists>rubric. map_of rep ''rubric'' = Some (JDict rubric) \<and> map_of rubric ''coverage_pct'' = Some (JFloat 1)"
  using amended_entries [OF assms(1)] assms(2) by (force simp: rubric_block_def)


lemma demo_amend:
  "\<exists>rep. amend_final_report pystr texts env files No_File score = Inr rep"
  by (simp add: amend_final_report_def as_mapping_def dict_get_def Let_def split: option.split)

theorem amended_report_consistent_witness:
  "\<exists>score rep rubric. demo_score [] [] = Inr score \<and> amend_final_report demo_str demo_texts (\<lambda>_. None) (demo_two_axis_files No_File) No_File score = Inr rep
     \<and> map_of rep ''rubric'' = Some (JDict rubric) \<and> map_of rubric ''overall_score'' = map_of rep ''overall_score''"
proof -
  obtain score where "demo_score [] [] = Inr score" using demo_score_facts(1) by (cases "demo_score [] []") simp_all
  moreover obtain rep where "amend_final_report demo_str demo_texts (\<lambda>_. None) (demo_two_axis_files No_File) No_File score = Inr rep" using demo_amend by blast
  ultimately show ?thesis using amended_report_consistent by blast
qed

theorem zero_coverage_reported_as_full_witness:
  "\<exists>score rep rubric. score_reproduction demo_str (\<lambda>_. []) demo_search (\<lambda>_. None) (\<lambda>_. None) [0] (demo_inputs [] []) = Inr score
     \<and> sr_coverage score = 0 \<and> amend_final_report demo_str demo_texts (\<lambda>_. None) (demo_two_axis_files No_File) No_File score = Inr rep
     \<and> map_of rep ''rubric'' = Some (JDict rubric) \<and> map_of rubric ''coverage_pct'' = Some (JFloat 1)"
proof -
  have "map_sum id sr_coverage (score_reproduction demo_str (\<lambda>_. []) demo_search (\<lambda>_. None) (\<lambda>_. None) [0] (demo_inputs [] [])) = Inr 0"
    by code_simp
  then obtain score where
    score: "score_reproduction demo_str (\<lambda>_. []) demo_search (\<lambda>_. None) (\<lambda>_. None) [0] (demo_inputs [] []) = Inr score" "sr_coverage score = 0"
    by (cases "score_reproduction demo_str (\<lambda>_. []) demo_search (\<lambda>_. None) (\<lambda>_. None) [0] (demo_inputs [] [])") simp_all
  moreover obtain rep where "amend_final_report demo_str demo_texts (\<lambda>_. None) (demo_two_axis_files No_File) No_File score = Inr rep" using demo_amend by blast
  ultimately show ?thesis using zero_coverage_reported_as_full by blast
qed

text \<open>The entries of the evaluation file that the re-roll reads.\<close>

definition record_json :: "leaf_record \<Rightarrow> json" where
  "record_json r = JDict [(''id'', JStr (rc_id r)), (''score'', real_opt (rc_score r)), (''justification'', JStr (rc_justification r))]"

definition evaluation_file :: "score_result \<Rightarrow> json_file" where
  "evaluation_file score =
     Json_File (JDict [(''overall_score'', JFloat (sr_overall score)), (''leaf_scores'', JList (map record_json (sr_leaf_scores score)))])"

definition rescore_of :: "score_inputs \<Rightarrow> score_result \<Rightarrow> rescore_result option" where
  "rescore_of inp score =
     finalize_rescore demo_str (\<lambda>_. None) (evaluation_file score) [] (Some (si_tree inp)) (si_files inp) (si_operator inp) (si_inclusion inp)"

text \<open>The re-roll at the end of a run lifts the soft cap of the invariant gate: with the same rubric, the same files
  and the same operator, a score that a missing invariant capped at 1/2 is reported as 9/10.\<close>

theorem rescore_lifts_soft_cap:
  "\<exists>score fr. demo_score [must_detach] [] = Inr score \<and> sr_gate_applied score \<and> sr_overall score = 1 / 2
     \<and> rescore_of (demo_inputs [must_detach] []) score = Some fr \<and> fr_overall fr = 9 / 10"
proof -
  have "map_sum id (\<lambda>score. (sr_gate_applied score, sr_overall score,
      map_option fr_overall (rescore_of (demo_inputs [must_detach] []) score))) (demo_score [must_detach] [])
    = Inr (True, 1 / 2, Some (9 / 10))"
    by code_simp
  then show ?thesis by (cases "demo_score [must_detach] []") auto
qed

end
