(* ===== verification/Run_Watchdog.thy ===== *)
theory Run_Watchdog
  imports Leaf_Exclusion
begin

text \<open>
  The watchdog that looks for stalled runs, \<^verbatim>\<open>src/backend/agents/rlm/run_watchdog.py\<close>, with the callback that
  \<open>_execute_in_sandbox\<close> of \<^verbatim>\<open>primitives.py\<close> gives it and the events of \<^verbatim>\<open>dashboard_emitter.py\<close> that it reads.

  A \<open>poll_view\<close> is what one round sees: the lines of the event log at its two readings (\<open>None\<close> for a missing
  file, and for a line that is no JSON), the times of modification, the clock, the answers of the compute
  checks and of the pod (\<open>None\<close> for an exception). The loop is a recursion over the views of the rounds; the end of
  the list is the cancellation by the caller. \<open>stamp\<close> is \<open>datetime.fromisoformat(\<dots>).timestamp()\<close>. The two
  path fields of a report are left out.
\<close>

section \<open>Configuration\<close>

record watchdog_config =
  wc_warn_after :: real
  wc_kill_after :: real
  wc_poll_interval :: real
  wc_gpu_device_ids :: "string list"
  wc_heartbeat_json_path :: "string option"

definition PRIMITIVE_IDLE_BASELINE_S :: "(string \<times> real) list" where
  "PRIMITIVE_IDLE_BASELINE_S = [(''implement_baseline'', 14400), (''run_experiment'', 14400), (''build_environment'', 1800)]"

definition DEFAULT_IDLE_BASELINE_S :: real where "DEFAULT_IDLE_BASELINE_S = 1800"

definition effective_idle_threshold :: "string option \<Rightarrow> watchdog_config \<Rightarrow> real" where
  "effective_idle_threshold primitive_name config =
     (case primitive_name of
        None \<Rightarrow> wc_kill_after config
      | Some p \<Rightarrow>
          max (case map_of PRIMITIVE_IDLE_BASELINE_S p of None \<Rightarrow> DEFAULT_IDLE_BASELINE_S | Some b \<Rightarrow> b) (wc_kill_after config))"

definition watchdog_enabled :: "environ \<Rightarrow> bool" where
  "watchdog_enabled env \<longleftrightarrow>
     py_lower (environ_get env ''OPENRESEARCH_WATCHDOG_DISABLED'' []) \<notin> set [''true'', ''1'', ''yes'', ''on'']"

definition env_seconds :: "environ \<Rightarrow> string \<Rightarrow> real \<Rightarrow> real" where
  "env_seconds env name dflt =
     (case env name of
        None \<Rightarrow> dflt
      | Some raw \<Rightarrow> if raw = [] then dflt else (case float_text raw of None \<Rightarrow> dflt | Some x \<Rightarrow> x))"

definition watchdog_from_env :: "environ \<Rightarrow> watchdog_config" where
  "watchdog_from_env env =
     \<lparr>wc_warn_after = env_seconds env ''OPENRESEARCH_WATCHDOG_WARN_SECONDS'' 600,
      wc_kill_after = env_seconds env ''OPENRESEARCH_WATCHDOG_KILL_SECONDS'' 1500,
      wc_poll_interval = env_seconds env ''OPENRESEARCH_WATCHDOG_POLL_INTERVAL_SECONDS'' 30,
      wc_gpu_device_ids = [], wc_heartbeat_json_path = None\<rparr>"

section \<open>Signals\<close>

type_synonym event_log = "json option list option"

record poll_view =
  wv_log_active :: event_log
  wv_log :: event_log
  wv_exec_mtime :: "real option"
  wv_heartbeat_mtime :: "real option"
  wv_now :: real
  wv_helpers :: bool
  wv_gpu_busy :: "bool option"
  wv_sidecar :: json_file
  wv_cpu :: "int option \<Rightarrow> real option option"
  wv_warn_now :: real
  wv_probe :: "bool option"
  wv_recover :: "bool option"

definition file_age_seconds :: "real option \<Rightarrow> real \<Rightarrow> real option" where
  "file_age_seconds mtime now = map_option (\<lambda>t. max 0 (now - t)) mtime"

definition replace_zulu :: "string \<Rightarrow> string" where
  "replace_zulu s = concat (map (\<lambda>c. if c = CHR ''Z'' then ''+00:00'' else [c]) s)"

text \<open>Events that say only that the agent is alive, and the ones of the watchdog itself. Asking whether a list or a
  dict is in a set raises.\<close>

definition liveness_only :: "dict \<Rightarrow> report_error + bool" where
  "liveness_only d =
     (let ev_type = py_or (py_or (dict_get d ''event'') (dict_get d ''type'')) (JStr []);
          primitive = py_or (dict_get d ''primitive'') (JStr [])
      in if ev_type = JStr ''iteration_heartbeat'' then Inr True
         else if ev_type = JStr ''primitive_call'' \<and> primitive = JStr ''heartbeat'' then Inr True
         else (case ev_type of
                 JList _ \<Rightarrow> Inl Type_Error
               | JDict _ \<Rightarrow> Inl Type_Error
               | _ \<Rightarrow> Inr (ev_type \<in> {JStr ''run_warning'', JStr ''worker_report_started'', JStr ''worker_report_failed''})))"

definition event_time :: "(string \<Rightarrow> real option) \<Rightarrow> dict \<Rightarrow> real option" where
  "event_time stamp d =
     (case py_or (py_or (dict_get d ''ts'') (dict_get d ''timestamp'')) (JStr []) of
        JStr s \<Rightarrow> if s = [] then None else stamp (replace_zulu s)
      | _ \<Rightarrow> None)"

text \<open>The lines from the newest on.\<close>

fun newest_progress :: "(string \<Rightarrow> real option) \<Rightarrow> real \<Rightarrow> json option list \<Rightarrow> report_error + real option" where
  "newest_progress stamp now [] = Inr None"
| "newest_progress stamp now (None # ls) = newest_progress stamp now ls"
| "newest_progress stamp now (Some (JDict d) # ls) =
     (case liveness_only d of
        Inl e \<Rightarrow> Inl e
      | Inr True \<Rightarrow> newest_progress stamp now ls
      | Inr False \<Rightarrow>
          (case event_time stamp d of
             None \<Rightarrow> newest_progress stamp now ls
           | Some t \<Rightarrow> Inr (Some (max 0 (now - t)))))"
| "newest_progress stamp now (Some _ # ls) = Inl Attribute_Error"

definition latest_meaningful_sse_event_age :: "(string \<Rightarrow> real option) \<Rightarrow> event_log \<Rightarrow> real \<Rightarrow> report_error + real option" where
  "latest_meaningful_sse_event_age stamp lines now =
     (case lines of None \<Rightarrow> Inr None | Some ls \<Rightarrow> newest_progress stamp now (take 200 (rev ls)))"

datatype staleness_verdict = Verdict_Ok | Verdict_Warn | Verdict_Kill

record staleness_report =
  st_stale_seconds :: "real option"
  st_freshest_signal :: "string option"
  st_freshest_age :: "real option"
  st_verdict :: staleness_verdict
  st_exec_log_age :: "real option"
  st_heartbeat_age :: "real option"
  st_sse_age :: "real option"

definition observed_signals :: "real option \<Rightarrow> real option \<Rightarrow> real option \<Rightarrow> (string \<times> real) list" where
  "observed_signals exec_age hb_age sse_age =
     List.map_filter (\<lambda>(n, a). map_option (Pair n) a) [(''exec_log'', exec_age), (''heartbeat'', hb_age), (''sse_event'', sse_age)]"

definition collect_staleness ::
    "(string \<Rightarrow> real option) \<Rightarrow> watchdog_config \<Rightarrow> string option \<Rightarrow> poll_view \<Rightarrow> report_error + staleness_report" where
  "collect_staleness stamp config active_primitive v =
     (let now = wv_now v; exec_age = file_age_seconds (wv_exec_mtime v) now; hb_age = file_age_seconds (wv_heartbeat_mtime v) now in
      case latest_meaningful_sse_event_age stamp (wv_log v) now of
        Inl e \<Rightarrow> Inl e
      | Inr sse_age \<Rightarrow>
          (let observed = observed_signals exec_age hb_age sse_age in
           if observed = [] then
             Inr \<lparr>st_stale_seconds = None, st_freshest_signal = None, st_freshest_age = None, st_verdict = Verdict_Ok,
                  st_exec_log_age = exec_age, st_heartbeat_age = hb_age, st_sse_age = sse_age\<rparr>
           else
             (let (signal, age) = arg_min_list snd observed;
                  verdict = (if age \<ge> effective_idle_threshold active_primitive config then Verdict_Kill
                             else if age \<ge> wc_warn_after config then Verdict_Warn else Verdict_Ok)
              in Inr \<lparr>st_stale_seconds = Some age, st_freshest_signal = Some signal, st_freshest_age = Some age, st_verdict = verdict,
                      st_exec_log_age = exec_age, st_heartbeat_age = hb_age, st_sse_age = sse_age\<rparr>)))"

definition heartbeat_daemon_command :: "string \<Rightarrow> string" where
  "heartbeat_daemon_command artifact_dir_in_container =
     ''( setsid -f bash -c '' @ [CHR 0x27] @ ''while true; do date +%s > '' @ artifact_dir_in_container
     @ ''/.heartbeat; sleep 30; done'' @ [CHR 0x27] @ '' < /dev/null > /dev/null 2>&1 & ) ; exit 0''"

fun newest_start :: "(json \<Rightarrow> string) \<Rightarrow> json option list \<Rightarrow> report_error + string option" where
  "newest_start pystr [] = Inr None"
| "newest_start pystr (None # ls) = newest_start pystr ls"
| "newest_start pystr (Some (JDict d) # ls) =
     (if dict_get d ''event'' \<noteq> JStr ''primitive_call'' then newest_start pystr ls
      else if py_lower (str_or_empty pystr (dict_get d ''phase'')) = ''start'' then
        (let primitive = py_or (py_or (dict_get d ''primitive'') (dict_get d ''name'')) (JStr []) in
         if py_truthy primitive then Inr (Some (pystr primitive)) else newest_start pystr ls)
      else newest_start pystr ls)"
| "newest_start pystr (Some _ # ls) = Inl Attribute_Error"

definition detect_active_primitive :: "(json \<Rightarrow> string) \<Rightarrow> event_log \<Rightarrow> report_error + string option" where
  "detect_active_primitive pystr lines =
     (case lines of None \<Rightarrow> Inr None | Some ls \<Rightarrow> newest_start pystr (take 100 (rev ls)))"

definition read_heartbeat_pid :: "string option \<Rightarrow> json_file \<Rightarrow> int option" where
  "read_heartbeat_pid path sidecar =
     (case path of
        Some (c # cs) \<Rightarrow>
          (case sidecar of
             Json_File (JDict d) \<Rightarrow> if dict_get d ''pid'' = JNull then None else int_of_json (dict_get d ''pid'')
           | _ \<Rightarrow> None)
      | _ \<Rightarrow> None)"

definition compute_liveness :: "watchdog_config \<Rightarrow> poll_view \<Rightarrow> real option \<Rightarrow> bool \<times> real option" where
  "compute_liveness config v last_cpu_seconds =
     (if \<not> wv_helpers v then (False, last_cpu_seconds)
      else
        (let reading = wv_cpu v (read_heartbeat_pid (wc_heartbeat_json_path config) (wv_sidecar v)) in
         if wc_gpu_device_ids config \<noteq> [] \<and> wv_gpu_busy v = Some True then
           (True, case reading of Some (Some r) \<Rightarrow> Some r | _ \<Rightarrow> last_cpu_seconds)
         else
           (case reading of
              Some (Some r) \<Rightarrow> ((case last_cpu_seconds of None \<Rightarrow> False | Some l \<Rightarrow> r > l), Some r)
            | _ \<Rightarrow> (False, last_cpu_seconds))))"

section \<open>The loop\<close>

datatype kill_answer = Answer_Recovered | Answer_Destroy | Answer_Raises

datatype watch_event = Warn_Event real staleness_report | Kill_Event staleness_report kill_answer

datatype watch_end = Polling | Returned | Raised

record 'c watch_state =
  ws_warn_emitted :: "real option"
  ws_cpu :: "real option"
  ws_callback :: 'c

text \<open>One round. \<open>on_warn\<close> cannot stop the loop, and what it raises is dropped; \<open>on_kill\<close> takes and returns the
  state that its closure keeps.\<close>

definition watch_poll ::
    "(json \<Rightarrow> string) \<Rightarrow> (string \<Rightarrow> real option) \<Rightarrow> watchdog_config \<Rightarrow> (poll_view \<Rightarrow> 'c \<Rightarrow> kill_answer \<times> 'c) option
      \<Rightarrow> poll_view \<Rightarrow> 'c watch_state \<Rightarrow> watch_event list \<times> watch_end \<times> 'c watch_state" where
  "watch_poll pystr stamp cfg on_kill v s =
     (case (case detect_active_primitive pystr (wv_log_active v) of
              Inl e \<Rightarrow> Inl e
            | Inr active \<Rightarrow> collect_staleness stamp cfg active v) of
        Inl _ \<Rightarrow> ([], Polling, s)
      | Inr report \<Rightarrow>
          (let (is_computing, cpu) = compute_liveness cfg v (ws_cpu s); s1 = s\<lparr>ws_cpu := cpu\<rparr> in
           case st_verdict report of
             Verdict_Kill \<Rightarrow>
               if is_computing then ([], Polling, s1\<lparr>ws_warn_emitted := None\<rparr>)
               else
                 (case on_kill of
                    None \<Rightarrow> ([], Returned, s1)
                  | Some f \<Rightarrow>
                      (let (answer, c) = f v (ws_callback s1); s2 = s1\<lparr>ws_callback := c\<rparr>; ev = [Kill_Event report answer] in
                       case answer of
                         Answer_Recovered \<Rightarrow> (ev, Polling, s2\<lparr>ws_warn_emitted := None\<rparr>)
                       | Answer_Destroy \<Rightarrow> (ev, Returned, s2)
                       | Answer_Raises \<Rightarrow> (ev, Raised, s2)))
           | Verdict_Warn \<Rightarrow>
               if (case ws_warn_emitted s1 of None \<Rightarrow> True | Some t \<Rightarrow> wv_warn_now v - t \<ge> wc_warn_after cfg)
               then ([Warn_Event (wv_warn_now v) report], Polling, s1\<lparr>ws_warn_emitted := Some (wv_warn_now v)\<rparr>)
               else ([], Polling, s1)
           | Verdict_Ok \<Rightarrow> ([], Polling, s1)))"

fun watch_loop ::
    "(json \<Rightarrow> string) \<Rightarrow> (string \<Rightarrow> real option) \<Rightarrow> watchdog_config \<Rightarrow> (poll_view \<Rightarrow> 'c \<Rightarrow> kill_answer \<times> 'c) option
      \<Rightarrow> poll_view list \<Rightarrow> 'c watch_state \<Rightarrow> watch_event list \<times> watch_end \<times> 'c watch_state" where
  "watch_loop pystr stamp cfg on_kill [] s = ([], Polling, s)"
| "watch_loop pystr stamp cfg on_kill (v # vs) s =
     (let (es, e, s1) = watch_poll pystr stamp cfg on_kill v s in
      if e = Polling then (let (es', e', s2) = watch_loop pystr stamp cfg on_kill vs s1 in (es @ es', e', s2)) else (es, e, s1))"

definition run_watchdog ::
    "(json \<Rightarrow> string) \<Rightarrow> (string \<Rightarrow> real option) \<Rightarrow> environ \<Rightarrow> watchdog_config option \<Rightarrow> (poll_view \<Rightarrow> 'c \<Rightarrow> kill_answer \<times> 'c) option
      \<Rightarrow> poll_view list \<Rightarrow> 'c \<Rightarrow> watch_event list \<times> watch_end \<times> 'c" where
  "run_watchdog pystr stamp env config on_kill vs c =
     (if \<not> watchdog_enabled env then ([], Returned, c)
      else
        (let cfg = (case config of None \<Rightarrow> watchdog_from_env env | Some cfg \<Rightarrow> cfg);
             (es, e, s) = watch_loop pystr stamp cfg on_kill vs \<lparr>ws_warn_emitted = None, ws_cpu = None, ws_callback = c\<rparr>
         in (es, e, ws_callback s)))"

section \<open>The callback\<close>

text \<open>What the callback does to the pod.\<close>

datatype pod_action = Left_Running | Soft_Recovered | Pod_Destroyed

record kill_state =
  ks_soft_recoveries :: int
  ks_actions :: "pod_action list"

definition max_soft_recoveries :: "environ \<Rightarrow> int option" where
  "max_soft_recoveries env = int_text (environ_get env ''OPENRESEARCH_WATCHDOG_MAX_SOFT_RECOVERIES'' ''3'')"

definition emit_kill_real :: "int \<Rightarrow> poll_view \<Rightarrow> kill_state \<Rightarrow> kill_answer \<times> kill_state" where
  "emit_kill_real max_soft v k =
     (let probe_ok = (wv_probe v = Some True) in
      if probe_ok \<and> ks_soft_recoveries k < max_soft then
        (let should_soft_recover = ks_soft_recoveries k \<ge> 1 in
         (Answer_Recovered,
          \<lparr>ks_soft_recoveries = ks_soft_recoveries k + 1,
           ks_actions = ks_actions k @ [if should_soft_recover then Soft_Recovered else Left_Running]\<rparr>))
      else (Answer_Raises, k\<lparr>ks_actions := ks_actions k @ [Pod_Destroyed]\<rparr>))"

section \<open>The writers of the log\<close>

definition primitive_call_event ::
    "string \<Rightarrow> string \<Rightarrow> string \<Rightarrow> dict \<Rightarrow> json \<Rightarrow> json \<Rightarrow> json \<Rightarrow> bool \<Rightarrow> json" where
  "primitive_call_event now primitive status args_summary result_summary iteration rubric_delta coerced =
     JDict [(''event'', JStr ''primitive_call''), (''timestamp'', JStr now), (''primitive'', JStr primitive), (''status'', JStr status),
            (''args_summary'', JDict args_summary), (''result_summary'', result_summary), (''iteration'', iteration),
            (''rubric_delta'', rubric_delta), (''coerced'', JBool coerced)]"

definition dashboard_event_line :: "string \<Rightarrow> string \<Rightarrow> dict \<Rightarrow> json" where
  "dashboard_event_line now event_type payload =
     JDict [(''ts'', JStr now), (''event'', JStr event_type), (''data'', JDict payload)]"

section \<open>When a run is killed\<close>

lemma effective_idle_threshold_lenient: "wc_kill_after cfg \<le> effective_idle_threshold p cfg"
  by (simp add: effective_idle_threshold_def split: option.split)

text \<open>Every signal that was observed is at least \<open>limit\<close> old, and there is one.\<close>

definition silent_for :: "real \<Rightarrow> staleness_report \<Rightarrow> bool" where
  "silent_for limit r \<longleftrightarrow>
     (let ages = [st_exec_log_age r, st_heartbeat_age r, st_sse_age r] in
      list_all (\<lambda>a. case a of None \<Rightarrow> True | Some x \<Rightarrow> limit \<le> x) ages \<and> list_ex (\<lambda>a. a \<noteq> None) ages)"

lemma arg_min_list_le: "x \<in> set xs \<Longrightarrow> snd (arg_min_list snd xs) \<le> snd x" for xs :: "('a \<times> real) list"
  by (subst f_arg_min_list_f) auto

text \<open>The verdict is to kill exactly when every observed signal is older than the limit of the active primitive.\<close>

lemma kill_verdict_iff:
  assumes "collect_staleness stamp cfg active v = Inr r"
  shows "st_verdict r = Verdict_Kill \<longleftrightarrow> silent_for (effective_idle_threshold active cfg) r"
proof -
  obtain sse where sse: "latest_meaningful_sse_event_age stamp (wv_log v) (wv_now v) = Inr sse"
    using assms by (auto simp: collect_staleness_def Let_def split: sum.splits)
  define e where "e = file_age_seconds (wv_exec_mtime v) (wv_now v)"
  define h where "h = file_age_seconds (wv_heartbeat_mtime v) (wv_now v)"
  let ?obs = "observed_signals e h sse" and ?lim = "effective_idle_threshold active cfg"
  have ages: "st_exec_log_age r = e" "st_heartbeat_age r = h" "st_sse_age r = sse"
    using assms by (auto simp: collect_staleness_def Let_def sse e_def h_def split: if_splits prod.splits)
  have kill: "st_verdict r = Verdict_Kill \<longleftrightarrow> ?obs \<noteq> [] \<and> ?lim \<le> snd (arg_min_list snd ?obs)"
    using assms by (auto simp: collect_staleness_def Let_def sse e_def h_def split: if_splits prod.splits)
  have "?lim \<le> snd (arg_min_list snd ?obs) \<longleftrightarrow> (\<forall>x\<in>set ?obs. ?lim \<le> snd x)" if "?obs \<noteq> []"
    using arg_min_list_in [OF that, of snd] arg_min_list_le order_trans by blast
  moreover have "(\<forall>x\<in>set ?obs. ?lim \<le> snd x) \<longleftrightarrow> list_all (\<lambda>a. case a of None \<Rightarrow> True | Some x \<Rightarrow> ?lim \<le> x) [e, h, sse]"
    by (cases e; cases h; cases sse) (simp_all add: observed_signals_def List.map_filter_simps)
  moreover have "?obs \<noteq> [] \<longleftrightarrow> list_ex (\<lambda>a. a \<noteq> None) [e, h, sse]"
    by (cases e; cases h; cases sse) (simp_all add: observed_signals_def List.map_filter_simps)
  ultimately show ?thesis unfolding kill silent_for_def Let_def ages by blast
qed

lemma silent_for_mono: "silent_for l r \<Longrightarrow> l' \<le> l \<Longrightarrow> silent_for l' r"
  by (fastforce simp: silent_for_def Let_def split: option.splits)

text \<open>The view a round has of a run that must be killed: the signals can be read, all of them are silent and nothing computes.\<close>

definition wedged :: "(json \<Rightarrow> string) \<Rightarrow> (string \<Rightarrow> real option) \<Rightarrow> watchdog_config \<Rightarrow> real option \<Rightarrow> poll_view \<Rightarrow> staleness_report \<Rightarrow> bool" where
  "wedged pystr stamp cfg cpu v r \<longleftrightarrow>
     (\<exists>active. detect_active_primitive pystr (wv_log_active v) = Inr active \<and> collect_staleness stamp cfg active v = Inr r
        \<and> silent_for (effective_idle_threshold active cfg) r)
     \<and> \<not> fst (compute_liveness cfg v cpu)"

lemma wedged_verdict:
  "wedged pystr stamp cfg cpu v r \<longleftrightarrow>
     (\<exists>active. detect_active_primitive pystr (wv_log_active v) = Inr active \<and> collect_staleness stamp cfg active v = Inr r)
     \<and> st_verdict r = Verdict_Kill \<and> \<not> fst (compute_liveness cfg v cpu)"
  using kill_verdict_iff unfolding wedged_def by blast

lemma poll_kill_events:
  "Kill_Event r a \<in> set (fst (watch_poll pystr stamp cfg on_kill v s)) \<longleftrightarrow>
     wedged pystr stamp cfg (ws_cpu s) v r \<and> (\<exists>f. on_kill = Some f \<and> a = fst (f v (ws_callback s)))"
  by (auto simp: watch_poll_def wedged_verdict Let_def split: sum.splits prod.splits staleness_verdict.splits option.splits
      kill_answer.splits)

lemma loop_events:
  "ev \<in> set (fst (watch_loop pystr stamp cfg on_kill vs s)) \<Longrightarrow>
     \<exists>v\<in>set vs. \<exists>s'. ev \<in> set (fst (watch_poll pystr stamp cfg on_kill v s'))"
proof (induction vs arbitrary: s)
  case (Cons v vs)
  obtain es e s1 where p: "watch_poll pystr stamp cfg on_kill v s = (es, e, s1)" by (metis surj_pair)
  obtain es' e' s2 where l: "watch_loop pystr stamp cfg on_kill vs s1 = (es', e', s2)" by (metis surj_pair)
  from Cons.prems consider "ev \<in> set es" | "ev \<in> set es'" by (auto simp: p l split: if_splits)
  then show ?case
  proof cases
    case 1
    then show ?thesis using p by (intro bexI [of _ v] exI [of _ s]) simp_all
  next
    case 2
    then show ?thesis using Cons.IH [of s1] by (auto simp: l)
  qed
qed simp


section \<open>The budget of recoveries\<close>

fun kill_answers :: "watch_event list \<Rightarrow> kill_answer list" where
  "kill_answers [] = []"
| "kill_answers (Warn_Event t r # es) = kill_answers es"
| "kill_answers (Kill_Event r a # es) = a # kill_answers es"

lemma kill_answers_append [simp]: "kill_answers (es @ es') = kill_answers es @ kill_answers es'"
  by (induction es rule: kill_answers.induct) simp_all

text \<open>One round with the callback: nothing, a recovery that is counted, or the end.\<close>

lemma poll_real:
  assumes "watch_poll pystr stamp cfg (Some (emit_kill_real m)) v s = (es, e, s')"
  shows "e = Polling \<and> kill_answers es = [] \<and> ws_callback s' = ws_callback s
    \<or> e = Polling \<and> kill_answers es = [Answer_Recovered] \<and> ks_soft_recoveries (ws_callback s) < m
      \<and> ks_soft_recoveries (ws_callback s') = ks_soft_recoveries (ws_callback s) + 1
      \<and> (\<exists>a. a \<noteq> Pod_Destroyed \<and> ks_actions (ws_callback s') = ks_actions (ws_callback s) @ [a])
    \<or> e = Raised \<and> kill_answers es = [Answer_Raises] \<and> ks_soft_recoveries (ws_callback s') = ks_soft_recoveries (ws_callback s)
      \<and> ks_actions (ws_callback s') = ks_actions (ws_callback s) @ [Pod_Destroyed]"
proof (cases "case detect_active_primitive pystr (wv_log_active v) of Inl e \<Rightarrow> Inl e | Inr active \<Rightarrow> collect_staleness stamp cfg active v")
  case (Inl err)
  then show ?thesis using assms by (simp add: watch_poll_def)
next
  case (Inr report)
  obtain computing cpu where c: "compute_liveness cfg v (ws_cpu s) = (computing, cpu)" by (metis surj_pair)
  show ?thesis
  proof (cases "st_verdict report")
    case Verdict_Kill
    then show ?thesis using assms
      by (cases computing) (auto simp: watch_poll_def Inr c Let_def emit_kill_real_def split: if_splits)
  qed (use assms in \<open>auto simp: watch_poll_def Inr c Let_def split: if_splits option.splits\<close>)
qed

lemma loop_real:
  assumes "watch_loop pystr stamp cfg (Some (emit_kill_real m)) vs s = (es, e, s')"
    and "ks_soft_recoveries (ws_callback s) \<le> max 0 m"
  shows "\<exists>k. int k + ks_soft_recoveries (ws_callback s) \<le> max 0 m
      \<and> (e = Polling \<and> kill_answers es = replicate k Answer_Recovered
         \<or> e = Raised \<and> kill_answers es = replicate k Answer_Recovered @ [Answer_Raises]
           \<and> last (ks_actions (ws_callback s')) = Pod_Destroyed)"
  using assms
proof (induction vs arbitrary: s es e s')
  case (Cons v vs)
  obtain es1 e1 s1 where p: "watch_poll pystr stamp cfg (Some (emit_kill_real m)) v s = (es1, e1, s1)" by (metis surj_pair)
  obtain es2 e2 s2 where l: "watch_loop pystr stamp cfg (Some (emit_kill_real m)) vs s1 = (es2, e2, s2)" by (metis surj_pair)
  consider (idle) "e1 = Polling" "kill_answers es1 = []" "ws_callback s1 = ws_callback s"
    | (recovered) "e1 = Polling" "kill_answers es1 = [Answer_Recovered]" "ks_soft_recoveries (ws_callback s) < m"
        "ks_soft_recoveries (ws_callback s1) = ks_soft_recoveries (ws_callback s) + 1"
    | (killed) "e1 = Raised" "kill_answers es1 = [Answer_Raises]" "ks_actions (ws_callback s1) = ks_actions (ws_callback s) @ [Pod_Destroyed]"
    using poll_real [OF p] by auto
  then show ?case
  proof cases
    case idle
    then show ?thesis using Cons.IH [OF l] Cons.prems by (auto simp: p l)
  next
    case recovered
    then have "ks_soft_recoveries (ws_callback s1) \<le> max 0 m" by simp
    from Cons.IH [OF l this] obtain k where k: "int k + ks_soft_recoveries (ws_callback s1) \<le> max 0 m"
      "e2 = Polling \<and> kill_answers es2 = replicate k Answer_Recovered
       \<or> e2 = Raised \<and> kill_answers es2 = replicate k Answer_Recovered @ [Answer_Raises]
         \<and> last (ks_actions (ws_callback s2)) = Pod_Destroyed" by blast
    with recovered Cons.prems(1) show ?thesis by (intro exI [of _ "Suc k"]) (auto simp: p l)
  next
    case killed
    then show ?thesis using Cons.prems by (intro exI [of _ 0]) (auto simp: p)
  qed
qed simp

lemma poll_wedged:
  assumes "wedged pystr stamp cfg (ws_cpu s) v r"
  shows "length (kill_answers (fst (watch_poll pystr stamp cfg (Some f) v s))) = 1"
  using assms by (auto simp: watch_poll_def wedged_verdict Let_def split: prod.splits kill_answer.splits)

lemma loop_wedged:
  assumes "\<forall>v\<in>set vs. \<forall>cpu. \<exists>r. wedged pystr stamp cfg cpu v r"
    and "watch_loop pystr stamp cfg (Some f) vs s = (es, Polling, s')"
  shows "length (kill_answers es) = length vs"
  using assms
proof (induction vs arbitrary: s es)
  case (Cons v vs)
  obtain es1 e1 s1 where p: "watch_poll pystr stamp cfg (Some f) v s = (es1, e1, s1)" by (metis surj_pair)
  obtain es2 e2 s2 where l: "watch_loop pystr stamp cfg (Some f) vs s1 = (es2, e2, s2)" by (metis surj_pair)
  obtain r where "wedged pystr stamp cfg (ws_cpu s) v r" using Cons.prems(1) by (auto dest: spec [of _ "ws_cpu s"])
  from poll_wedged [OF this, of f] have "length (kill_answers es1) = 1" by (simp add: p)
  moreover have "es = es1 @ es2" "e2 = Polling" "s2 = s'" using Cons.prems(2) by (auto simp: p l split: if_splits)
  ultimately show ?case using Cons.IH [of s1 es2] Cons.prems(1) l by simp
qed simp


section \<open>Warnings\<close>

fun warn_times :: "watch_event list \<Rightarrow> real list" where
  "warn_times [] = []"
| "warn_times (Warn_Event t r # es) = t # warn_times es"
| "warn_times (Kill_Event r a # es) = warn_times es"

lemma warn_times_append [simp]: "warn_times (es @ es') = warn_times es @ warn_times es'"
  by (induction es rule: warn_times.induct) simp_all

definition no_kill_verdict :: "(json \<Rightarrow> string) \<Rightarrow> (string \<Rightarrow> real option) \<Rightarrow> watchdog_config \<Rightarrow> poll_view \<Rightarrow> bool" where
  "no_kill_verdict pystr stamp cfg v \<longleftrightarrow>
     (\<forall>active r. detect_active_primitive pystr (wv_log_active v) = Inr active \<and> collect_staleness stamp cfg active v = Inr r
        \<longrightarrow> st_verdict r \<noteq> Verdict_Kill)"

lemma poll_warn:
  assumes "no_kill_verdict pystr stamp cfg v" and "watch_poll pystr stamp cfg on_kill v s = (es, e, s')"
  shows "e = Polling \<and> (warn_times es = [] \<and> ws_warn_emitted s' = ws_warn_emitted s
    \<or> (\<exists>t. warn_times es = [t] \<and> ws_warn_emitted s' = Some t \<and> (\<forall>t0. ws_warn_emitted s = Some t0 \<longrightarrow> wc_warn_after cfg \<le> t - t0)))"
  using assms
  by (auto simp: watch_poll_def no_kill_verdict_def Let_def split: sum.splits prod.splits staleness_verdict.splits option.splits if_splits)

lemma loop_warn:
  assumes "\<forall>v\<in>set vs. no_kill_verdict pystr stamp cfg v" and "watch_loop pystr stamp cfg on_kill vs s = (es, e, s')"
  shows "successively (\<lambda>t t'. wc_warn_after cfg \<le> t' - t) (case ws_warn_emitted s of None \<Rightarrow> warn_times es | Some t \<Rightarrow> t # warn_times es)"
  using assms
proof (induction vs arbitrary: s es)
  case (Cons v vs)
  obtain es1 e1 s1 where p: "watch_poll pystr stamp cfg on_kill v s = (es1, e1, s1)" by (metis surj_pair)
  obtain es2 e2 s2 where l: "watch_loop pystr stamp cfg on_kill vs s1 = (es2, e2, s2)" by (metis surj_pair)
  have v: "no_kill_verdict pystr stamp cfg v" and vs: "\<forall>v\<in>set vs. no_kill_verdict pystr stamp cfg v" using Cons.prems(1) by auto
  note w = poll_warn [OF v p]
  have es: "es = es1 @ es2" and s2: "watch_loop pystr stamp cfg on_kill vs s1 = (es2, e, s')" using Cons.prems(2) w by (auto simp: p l)
  from w Cons.IH [OF vs s2] show ?case by (auto simp: es successively_Cons split: option.splits)
qed (simp split: option.split)

text \<open>A long stall does not spam: as long as no round finds the run to be killed, two warnings are at least the warning
  limit apart.\<close>

theorem warnings_are_spaced:
  assumes "\<forall>v\<in>set vs. no_kill_verdict pystr stamp cfg v" and "run_watchdog pystr stamp env (Some cfg) on_kill vs c = (es, e, c')"
  shows "successively (\<lambda>t t'. wc_warn_after cfg \<le> t' - t) (warn_times es)"
  using assms(2) loop_warn [OF assms(1), of on_kill "\<lparr>ws_warn_emitted = None, ws_cpu = None, ws_callback = c\<rparr>"]
  by (auto simp: run_watchdog_def split: if_splits prod.splits)

section \<open>What the log does to the watchdog\<close>

text \<open>The lines that the writers of the log write: calls of primitives by the emitter, anything else with another event.\<close>

definition written_line :: "json option \<Rightarrow> bool" where
  "written_line l \<longleftrightarrow>
     l = None
     \<or> (\<exists>now primitive status args result iteration delta coerced.
          l = Some (primitive_call_event now primitive status args result iteration delta coerced))
     \<or> (\<exists>d. l = Some (JDict d) \<and> dict_get d ''event'' \<noteq> JStr ''primitive_call'')"

lemma newest_start_written: "list_all written_line ls \<Longrightarrow> newest_start pystr ls = Inr None"
proof (induction ls)
  case (Cons l ls)
  then show ?case by (auto simp: written_line_def primitive_call_event_def dict_get_def str_or_empty_def py_lower_def)
qed simp

lemma detect_written:
  assumes "list_all written_line ls"
  shows "detect_active_primitive pystr (Some ls) = Inr None"
proof -
  have "list_all written_line (take 100 (rev ls))" using assms by (auto simp: list_all_iff dest: in_set_takeD)
  then show ?thesis by (simp add: detect_active_primitive_def newest_start_written)
qed

text \<open>C40. The limits of the primitives are never used: the emitter writes \<open>status\<close> and the watchdog looks for \<open>phase\<close>, so on a
  log that the writers wrote no primitive is active and the verdict is to kill as soon as the run is silent for the global
  limit, during \<open>run_experiment\<close> too.\<close>

theorem primitive_limits_unused:
  assumes "wv_log_active v = Some ls" and "list_all written_line ls"
    and "detect_active_primitive pystr (wv_log_active v) = Inr active" and "collect_staleness stamp cfg active v = Inr r"
  shows "active = None \<and> (st_verdict r = Verdict_Kill \<longleftrightarrow> silent_for (wc_kill_after cfg) r)"
proof -
  have "active = None" using assms(1,3) detect_written [OF assms(2), of pystr] by simp
  then show ?thesis using kill_verdict_iff [OF assms(4)] by (simp add: effective_idle_threshold_def)
qed

text \<open>One line of the log that is JSON and no object blinds the watchdog: as long as it is the newest line, every round
  is skipped, however long the run is silent.\<close>

theorem non_object_line_blinds:
  assumes "\<forall>v\<in>set vs. \<exists>ls j. wv_log v = Some (ls @ [Some j]) \<and> (\<nexists>d. j = JDict d)"
  shows "watch_loop pystr stamp cfg on_kill vs s = ([], Polling, s)"
  using assms
proof (induction vs)
  case (Cons v vs)
  then obtain ls j where v: "wv_log v = Some (ls @ [Some j])" "\<nexists>d. j = JDict d" by auto
  then have "latest_meaningful_sse_event_age stamp (wv_log v) now = Inl Attribute_Error" for now
    by (cases j) (simp_all add: latest_meaningful_sse_event_age_def)
  then have "watch_poll pystr stamp cfg on_kill v s = ([], Polling, s)"
    by (simp add: watch_poll_def collect_staleness_def Let_def split: sum.split)
  then show ?case using Cons by simp
qed simp

section \<open>Runs\<close>

definition demo_watchdog_cfg :: watchdog_config where
  "demo_watchdog_cfg = watchdog_from_env (\<lambda>_. None)"

text \<open>An experiment that was started and has written nothing for \<open>age\<close> seconds.\<close>

definition demo_view :: "real \<Rightarrow> real \<Rightarrow> poll_view" where
  "demo_view age clock =
     \<lparr>wv_log_active = Some [Some (primitive_call_event [] ''run_experiment'' ''start'' [] JNull JNull JNull False)],
      wv_log = Some [], wv_exec_mtime = Some 0, wv_heartbeat_mtime = None, wv_now = age, wv_helpers = True, wv_gpu_busy = Some False,
      wv_sidecar = No_File, wv_cpu = (\<lambda>_. Some None), wv_warn_now = clock, wv_probe = Some True, wv_recover = Some True\<rparr>"

definition demo_staleness :: "real \<Rightarrow> staleness_verdict \<Rightarrow> staleness_report" where
  "demo_staleness age verdict =
     \<lparr>st_stale_seconds = Some age, st_freshest_signal = Some ''exec_log'', st_freshest_age = Some age, st_verdict = verdict,
      st_exec_log_age = Some age, st_heartbeat_age = None, st_sse_age = None\<rparr>"

lemma demo_log_written:
  "list_all written_line [Some (primitive_call_event [] ''run_experiment'' ''start'' [] JNull JNull JNull False)]"
  unfolding written_line_def by simp blast

lemma demo_no_active: "detect_active_primitive pystr (wv_log_active (demo_view age clock)) = Inr None"
  by (simp only: demo_view_def poll_view.select_convs detect_written [OF demo_log_written])

lemma demo_collect:
  assumes "0 \<le> age"
  shows "collect_staleness stamp demo_watchdog_cfg None (demo_view age clock) =
    Inr (demo_staleness age (if age \<ge> 1500 then Verdict_Kill else if age \<ge> 600 then Verdict_Warn else Verdict_Ok))"
  using assms
  by (simp add: collect_staleness_def demo_view_def demo_watchdog_cfg_def watchdog_from_env_def env_seconds_def latest_meaningful_sse_event_age_def
      file_age_seconds_def observed_signals_def List.map_filter_simps effective_idle_threshold_def demo_staleness_def Let_def)

lemma demo_idle: "compute_liveness demo_watchdog_cfg (demo_view age clock) cpu = (False, cpu)"
  by (simp add: compute_liveness_def demo_view_def)

lemma demo_wedged: "wedged pystr stamp demo_watchdog_cfg cpu (demo_view 1500 clock) (demo_staleness 1500 Verdict_Kill)"
  by (simp add: wedged_verdict demo_no_active demo_collect demo_idle) (simp add: demo_staleness_def)

lemma demo_enabled: "watchdog_enabled (\<lambda>_. None)"
  by code_simp


lemma demo_kill_event:
  "watch_loop pystr stamp demo_watchdog_cfg (Some (emit_kill_real 0)) [demo_view 1500 0] s =
     ([Kill_Event (demo_staleness 1500 Verdict_Kill) Answer_Raises], Raised,
      s\<lparr>ws_callback := ws_callback s\<lparr>ks_actions := ks_actions (ws_callback s) @ [Pod_Destroyed]\<rparr>\<rparr>)"
  if "ks_soft_recoveries (ws_callback s) = 0"
proof -
  have k: "emit_kill_real 0 (demo_view 1500 0) (ws_callback s) =
      (Answer_Raises, (ws_callback s)\<lparr>ks_actions := ks_actions (ws_callback s) @ [Pod_Destroyed]\<rparr>)"
    using that by (simp add: emit_kill_real_def)
  have v: "st_verdict (demo_staleness 1500 Verdict_Kill) = Verdict_Kill" by (simp add: demo_staleness_def)
  show ?thesis by (simp add: watch_poll_def demo_no_active demo_collect demo_idle k v Let_def)
qed


theorem warnings_are_spaced_witness:
  "\<exists>es e c. run_watchdog demo_str (\<lambda>_. None) (\<lambda>_. None) (Some demo_watchdog_cfg) (None :: (poll_view \<Rightarrow> unit \<Rightarrow> kill_answer \<times> unit) option)
      [demo_view 700 0, demo_view 730 30] () = (es, e, c)
    \<and> successively (\<lambda>t t'. wc_warn_after demo_watchdog_cfg \<le> t' - t) (warn_times es)"
proof -
  obtain es e c where r: "run_watchdog demo_str (\<lambda>_. None) (\<lambda>_. None) (Some demo_watchdog_cfg) (None :: (poll_view \<Rightarrow> unit \<Rightarrow> kill_answer \<times> unit) option)
      [demo_view 700 0, demo_view 730 30] () = (es, e, c)"
    by (metis surj_pair)
  have "no_kill_verdict demo_str (\<lambda>_. None) demo_watchdog_cfg (demo_view age clock)" if "0 \<le> age" "age < 1500" for age clock
    using that by (auto simp: no_kill_verdict_def demo_no_active demo_collect demo_staleness_def)
  then have "\<forall>v\<in>set [demo_view 700 0, demo_view 730 30]. no_kill_verdict demo_str (\<lambda>_. None) demo_watchdog_cfg v" by simp
  from warnings_are_spaced [OF this r] r show ?thesis by blast
qed

theorem primitive_limits_unused_witness:
  "map_of PRIMITIVE_IDLE_BASELINE_S ''run_experiment'' = Some 14400
   \<and> collect_staleness (\<lambda>_. None) demo_watchdog_cfg None (demo_view 1500 0) = Inr (demo_staleness 1500 Verdict_Kill)
   \<and> silent_for (wc_kill_after demo_watchdog_cfg) (demo_staleness 1500 Verdict_Kill)"
proof -
  have c: "collect_staleness (\<lambda>_. None) demo_watchdog_cfg None (demo_view 1500 0) = Inr (demo_staleness 1500 Verdict_Kill)"
    by (simp add: demo_collect)
  from primitive_limits_unused [OF _ demo_log_written demo_no_active c] show ?thesis
    using c by (simp add: demo_view_def demo_staleness_def PRIMITIVE_IDLE_BASELINE_S_def)
qed

theorem non_object_line_blinds_witness:
  "watch_loop demo_str (\<lambda>_. None) demo_watchdog_cfg (Some (emit_kill_real 0))
     [(demo_view 1500 0)\<lparr>wv_log := Some [Some JNull]\<rparr>, (demo_view 90000 0)\<lparr>wv_log := Some [Some JNull]\<rparr>]
     \<lparr>ws_warn_emitted = None, ws_cpu = None, ws_callback = \<lparr>ks_soft_recoveries = 0, ks_actions = []\<rparr>\<rparr>
   = ([], Polling, \<lparr>ws_warn_emitted = None, ws_cpu = None, ws_callback = \<lparr>ks_soft_recoveries = 0, ks_actions = []\<rparr>\<rparr>)"
proof -
  have "\<forall>v\<in>set [(demo_view 1500 0)\<lparr>wv_log := Some [Some JNull]\<rparr>, (demo_view 90000 0)\<lparr>wv_log := Some [Some JNull]\<rparr>].
      \<exists>ls j. wv_log v = Some (ls @ [Some j]) \<and> (\<nexists>d. j = JDict d)"
    by (auto intro: exI [of _ "[]"])
  then show ?thesis by (rule non_object_line_blinds)
qed

end
