(* ===== verification/Metric_Guards.thy ===== *)
theory Metric_Guards
  imports Leaf_Exclusion Dead_Training
begin

text \<open>
  The guards against fabricated metrics: \<^verbatim>\<open>zero_metrics_detection.py\<close>, \<^verbatim>\<open>stub_detection.py\<close>, \<^verbatim>\<open>metric_semantics.py\<close>
  and \<^verbatim>\<open>evidence_audit.py\<close> of \<^verbatim>\<open>src/backend/agents/rlm\<close>, and the order in which \<open>run_experiment\<close> of \<^verbatim>\<open>primitives.py\<close>
  applies them to a result. A result is a dict; the message of a veto, whose text holds characters beyond code
  point 255, is a constructor that the argument \<open>msg\<close> prints.
\<close>

section \<open>Keys\<close>

definition opted_in :: "environ \<Rightarrow> string \<Rightarrow> bool" where
  "opted_in env name \<longleftrightarrow> py_lower (py_strip (environ_get env name [])) \<in> set [''1'', ''true'', ''yes'', ''on'']"

definition zero_metrics_guard_enabled :: "environ \<Rightarrow> bool" where
  "zero_metrics_guard_enabled env = opted_in env ''OPENRESEARCH_ZERO_METRICS_GUARD''"

definition EXCLUDED_EXACT :: "string list" where
  "EXCLUDED_EXACT =
     [''status'', ''scope'', ''cell_id'', ''n'', ''count'', ''steps'', ''steps_run'', ''epochs'', ''seed'', ''wall_time_s'', ''len'', ''retries'']"

definition EXCLUDED_PREFIXES :: "string list" where
  "EXCLUDED_PREFIXES = [''batch'', ''elapsed'']"

definition CONFIG_TERMS :: "string list" where
  "CONFIG_TERMS =
     [''learning_rate'', ''lr'', ''beta'', ''lambda'', ''weight_decay'', ''momentum'', ''gamma'', ''eps'', ''epsilon'', ''clip'',
      ''clip_ratio'', ''warmup'', ''temperature'', ''top_p'', ''top_k'', ''seed'', ''gpu'', ''vram'', ''num_gpus'', ''hidden'', ''dim'',
      ''embed'', ''max_len'', ''max_prompt'', ''max_tokens'', ''num_layers'', ''vocab'', ''hour'', ''gb'']"

definition is_config_key :: "string \<Rightarrow> bool" where
  "is_config_key key \<longleftrightarrow>
     (let lk = py_lower key in lk \<in> set CONFIG_TERMS \<or> list_ex (\<lambda>tok. tok \<in> set CONFIG_TERMS) (runs az09 lk))"

text \<open>The pattern \<^verbatim>\<open>_n$\<close> also matches in front of a final line break.\<close>

definition is_excluded_key :: "string \<Rightarrow> bool" where
  "is_excluded_key key \<longleftrightarrow>
     (let lk = py_lower key in
      lk \<in> set EXCLUDED_EXACT \<or> list_ex (\<lambda>p. prefix p lk) EXCLUDED_PREFIXES
      \<or> suffix ''_n'' lk \<or> suffix (''_n'' @ [CHR 0x0A]) lk \<or> is_config_key key)"

section \<open>Zero and constant metrics\<close>

definition coerce_metric :: "json \<Rightarrow> real option" where
  "coerce_metric v =
     (case v of
        JInt i \<Rightarrow> Some (of_int i)
      | JFloat x \<Rightarrow> Some x
      | JStr s \<Rightarrow> float_text s
      | _ \<Rightarrow> None)"

fun flatten_metrics :: "string option \<Rightarrow> json \<Rightarrow> real list" where
  "flatten_metrics parent (JDict items) =
     concat (map (\<lambda>(k, v). if is_excluded_key k then [] else flatten_metrics (Some k) v) items)"
| "flatten_metrics parent (JList items) = concat (map (flatten_metrics parent) items)"
| "flatten_metrics parent v =
     (if (case parent of None \<Rightarrow> False | Some k \<Rightarrow> is_excluded_key k) then []
      else case coerce_metric v of None \<Rightarrow> [] | Some x \<Rightarrow> [x])"

definition normalize_metric_values :: "json \<Rightarrow> real list" where
  "normalize_metric_values metrics = (case metrics of JDict d \<Rightarrow> flatten_metrics None (JDict d) | _ \<Rightarrow> [])"

definition looks_like_zero_metrics :: "json \<Rightarrow> bool" where
  "looks_like_zero_metrics metrics \<longleftrightarrow>
     (let vals = normalize_metric_values metrics in
      if vals = [] then False
      else if list_all (\<lambda>v. v = 0) vals then True
      else length vals \<ge> 2 \<and> list_all (\<lambda>v. v = hd vals) vals)"

definition zero_metrics_should_veto :: "environ \<Rightarrow> json \<Rightarrow> bool \<Rightarrow> bool \<Rightarrow> bool" where
  "zero_metrics_should_veto env metrics gpu_claim provenance_present \<longleftrightarrow>
     (if \<not> zero_metrics_guard_enabled env then False
      else if \<not> looks_like_zero_metrics metrics then False
      else gpu_claim \<and> \<not> provenance_present)"

datatype metric_pattern = All_Zero | Constant_Value real | Zero_Or_Constant

datatype veto_reason =
    Low_Vram real real
  | Audit_Low_Vram real
  | Stub_Keys "string list"
  | Zero_Values metric_pattern "string list"
  | Bad_Semantics "(string \<times> json) list"

definition zero_metrics_reason :: "json \<Rightarrow> veto_reason" where
  "zero_metrics_reason metrics =
     (let vals = normalize_metric_values metrics;
          ks = (case metrics of JDict d \<Rightarrow> take 6 (filter (\<lambda>k. \<not> is_excluded_key k) (map fst d)) | _ \<Rightarrow> [])
      in Zero_Values (if vals \<noteq> [] \<and> list_all (\<lambda>v. v = 0) vals then All_Zero
                      else if length (remdups vals) = 1 then Constant_Value (hd vals) else Zero_Or_Constant) ks)"

section \<open>Stub metrics\<close>

definition stub_metrics_guard_enabled :: "environ \<Rightarrow> bool" where
  "stub_metrics_guard_enabled env = opted_in env ''OPENRESEARCH_STUB_METRICS_GUARD''"

definition PLACEHOLDER_METRIC_KEYS :: "string list" where
  "PLACEHOLDER_METRIC_KEYS =
     [''total_length'', ''chunk_count'', ''placeholder_metric'', ''placeholder'', ''dummy'', ''todo'', ''n_chunks'', ''num_chunks'',
      ''chunk'', ''length'', ''count'', ''n_items'', ''n_examples'']"

definition REAL_METRIC_HINTS :: "string list" where
  "REAL_METRIC_HINTS =
     [''acc'', ''loss'', ''success'', ''reward'', ''f1'', ''bleu'', ''rouge'', ''perplex'', ''ppl'', ''score'', ''err'', ''rate'', ''auc'',
      ''map'', ''recall'', ''precision'', ''psnr'', ''ssim'', ''mae'', ''mse'', ''rmse'', ''exact'', ''_em'', ''win'', ''pass@'', ''return'',
      ''throughput'', ''latency'']"

fun collect_leaf_keys :: "json \<Rightarrow> string list" where
  "collect_leaf_keys (JDict items) = concat (map (\<lambda>(k, v). k # collect_leaf_keys v) items)"
| "collect_leaf_keys (JList items) = concat (map collect_leaf_keys items)"
| "collect_leaf_keys _ = []"

definition looks_like_stub_metrics :: "json \<Rightarrow> bool" where
  "looks_like_stub_metrics metrics \<longleftrightarrow>
     (case metrics of
        JDict d \<Rightarrow>
          d \<noteq> [] \<and>
          (let lowered = map py_lower (collect_leaf_keys metrics) in
           \<not> list_ex (\<lambda>lk. list_ex (\<lambda>hint. py_in hint lk) REAL_METRIC_HINTS) lowered
           \<and> list_ex (\<lambda>lk. lk \<in> set PLACEHOLDER_METRIC_KEYS) lowered)
      | _ \<Rightarrow> False)"

text \<open>The first six placeholder keys, each once, in the order of their first occurrence.\<close>

definition stub_reason :: "json \<Rightarrow> veto_reason" where
  "stub_reason metrics =
     Stub_Keys
       (case metrics of
          JDict d \<Rightarrow>
            take 6 (rev (remdups (rev (filter (\<lambda>lk. lk \<in> set PLACEHOLDER_METRIC_KEYS) (map py_lower (collect_leaf_keys metrics))))))
        | _ \<Rightarrow> [])"

section \<open>Semantics of named metrics\<close>

definition metric_semantics_guard_enabled :: "environ \<Rightarrow> bool" where
  "metric_semantics_guard_enabled env = opted_in env ''OPENRESEARCH_METRIC_SEMANTICS_GUARD''"

text \<open>A word between two boundaries \<^verbatim>\<open>\b\<close>; \<open>prev\<close> says whether the character before is a word character.\<close>

fun whole_word :: "string \<Rightarrow> bool \<Rightarrow> string \<Rightarrow> bool" where
  "whole_word w prev [] = False"
| "whole_word w prev (c # cs) =
     ((\<not> prev \<and> prefix w (c # cs) \<and> (case drop (length w) (c # cs) of [] \<Rightarrow> True | d # _ \<Rightarrow> \<not> word_char d))
      \<or> whole_word w (word_char c) cs)"

definition RATE_KEYS :: "string list" where
  "RATE_KEYS = [''accuracy'', ''success_rate'', ''success'', ''f1'', ''precision'', ''recall'']"

definition FINITE_KEYS :: "string list" where
  "FINITE_KEYS = [''loss'', ''reward'', ''mean_reward'', ''return'', ''mean_return'']"

definition names_one_of :: "string list \<Rightarrow> string \<Rightarrow> bool" where
  "names_one_of ws lk = list_ex (\<lambda>w. whole_word w False lk) ws"

definition RATE_EPS :: real where "RATE_EPS = 1 / 10000"

text \<open>\<open>float\<close> of a leaf that is no bool. A number that is not finite can only come from a text here, since the numbers of
  the JSON files are finite: an infinity (also by overflow) or NaN.\<close>

datatype leaf_number = Finite_Number real | Infinite | Not_A_Number

definition unsigned_text :: "string \<Rightarrow> string" where
  "unsigned_text s = snd (eat_one_of ''+-'' (py_lower (py_strip s)))"

definition overflow_text :: "string \<Rightarrow> bool" where
  "overflow_text s \<longleftrightarrow>
     (let (sg, t) = eat_one_of ''+-'' (py_strip s);
          mant = takeWhile (\<lambda>c. c \<notin> set ''eE'') t; ex = dropWhile (\<lambda>c. c \<notin> set ''eE'') t;
          ds = takeWhile (\<lambda>c. c \<noteq> CHR ''.'') mant; fr = dropWhile (\<lambda>c. c \<noteq> CHR ''.'') mant
      in digits_opt ds \<and> digits_opt (drop 1 fr) \<and> (ds \<noteq> [] \<or> drop 1 fr \<noteq> []) \<and> (ex = [] \<or> exponent_ok (drop 1 ex))
         \<and> \<not> float_finite (decimal_value (sg, no_underscore ds, no_underscore fr, no_underscore ex)))"

definition leaf_number_of :: "json \<Rightarrow> leaf_number option" where
  "leaf_number_of v =
     (case v of
        JInt i \<Rightarrow> Some (Finite_Number (of_int i))
      | JFloat x \<Rightarrow> Some (Finite_Number x)
      | JStr s \<Rightarrow>
          if unsigned_text s = ''nan'' then Some Not_A_Number
          else if unsigned_text s \<in> set [''inf'', ''infinity''] \<or> overflow_text s then Some Infinite
          else map_option Finite_Number (float_text s)
      | _ \<Rightarrow> None)"

definition violates :: "string \<Rightarrow> leaf_number \<Rightarrow> bool" where
  "violates key n \<longleftrightarrow>
     (let lk = py_lower key in
      if names_one_of RATE_KEYS lk then (case n of Finite_Number x \<Rightarrow> \<not> (0 \<le> x \<and> x \<le> 1 + RATE_EPS) | _ \<Rightarrow> True)
      else names_one_of FINITE_KEYS lk \<and> n \<in> {Infinite, Not_A_Number})"

fun collect_violations :: "string \<Rightarrow> json \<Rightarrow> (string \<times> json) list" where
  "collect_violations key (JDict items) = concat (map (\<lambda>(k, v). collect_violations k v) items)"
| "collect_violations key (JList items) = concat (map (collect_violations key) items)"
| "collect_violations key v =
     (case leaf_number_of v of None \<Rightarrow> [] | Some n \<Rightarrow> if violates key n then [(key, v)] else [])"

definition metric_semantics_violation :: "json \<Rightarrow> (string \<times> json) list" where
  "metric_semantics_violation metrics = (case metrics of JDict d \<Rightarrow> collect_violations [] metrics | _ \<Rightarrow> [])"

section \<open>The unified critic\<close>

definition evidence_audit_enabled :: "environ \<Rightarrow> bool" where
  "evidence_audit_enabled env = opted_in env ''OPENRESEARCH_EVIDENCE_AUDIT''"

definition antifab_min_vram_gb :: "environ \<Rightarrow> real" where
  "antifab_min_vram_gb env =
     (case float_text (environ_get env ''OPENRESEARCH_ANTIFAB_MIN_VRAM_GB'' ''1.5'') of None \<Rightarrow> 3 / 2 | Some x \<Rightarrow> x)"

text \<open>\<open>provenance\<close>: whether a \<^verbatim>\<open>provenance.json\<close> is found below \<^verbatim>\<open>code\<close>; \<open>peak\<close>: the peak of memory of the run.\<close>

record run_evidence =
  re_provenance :: bool
  re_peak_vram :: "real option"

definition low_vram :: "environ \<Rightarrow> run_evidence \<Rightarrow> json \<Rightarrow> bool" where
  "low_vram env ev metrics = vram_evidence_verdict env (antifab_min_vram_gb env) (re_peak_vram ev) (metrics_claim_gpu_training metrics)"

definition peak_or_zero :: "run_evidence \<Rightarrow> real" where
  "peak_or_zero ev = (case re_peak_vram ev of None \<Rightarrow> 0 | Some p \<Rightarrow> p)"

definition result_is_fabricated :: "environ \<Rightarrow> run_evidence \<Rightarrow> dict \<Rightarrow> veto_reason option" where
  "result_is_fabricated env ev result =
     (let metrics = dict_get result ''metrics''; gpu_claim = metrics_claim_gpu_training metrics in
      if \<not> evidence_audit_enabled env then None
      else if \<not> py_truthy (dict_get result ''success'') then None
      else if looks_like_stub_metrics metrics then Some (stub_reason metrics)
      else if gpu_claim \<and> \<not> re_provenance ev \<and> looks_like_zero_metrics metrics then Some (zero_metrics_reason metrics)
      else if low_vram env ev metrics then Some (Audit_Low_Vram (peak_or_zero ev))
      else None)"

definition degraded :: "(veto_reason \<Rightarrow> string) \<Rightarrow> veto_reason \<Rightarrow> dict \<Rightarrow> dict" where
  "degraded msg reason result =
     foldl dict_set result
       [(''success'', JBool False), (''failure_class'', JStr ''fabrication_suspected''), (''error'', JStr (msg reason))]"

definition apply_result_veto :: "(veto_reason \<Rightarrow> string) \<Rightarrow> environ \<Rightarrow> run_evidence \<Rightarrow> dict \<Rightarrow> dict" where
  "apply_result_veto msg env ev result =
     (case result_is_fabricated env ev result of None \<Rightarrow> result | Some r \<Rightarrow> degraded msg r result)"

section \<open>The guards of an experiment\<close>

definition antifab_guard :: "environ \<Rightarrow> run_evidence \<Rightarrow> json \<Rightarrow> veto_reason option" where
  "antifab_guard env ev metrics = (if low_vram env ev metrics then Some (Low_Vram (peak_or_zero ev) (antifab_min_vram_gb env)) else None)"

definition stub_guard :: "environ \<Rightarrow> run_evidence \<Rightarrow> json \<Rightarrow> veto_reason option" where
  "stub_guard env ev metrics =
     (if stub_metrics_guard_enabled env \<and> looks_like_stub_metrics metrics then Some (stub_reason metrics) else None)"

definition zero_guard :: "environ \<Rightarrow> run_evidence \<Rightarrow> json \<Rightarrow> veto_reason option" where
  "zero_guard env ev metrics =
     (if zero_metrics_should_veto env metrics (metrics_claim_gpu_training metrics) (re_provenance ev)
      then Some (zero_metrics_reason metrics) else None)"

definition semantics_guard :: "environ \<Rightarrow> run_evidence \<Rightarrow> json \<Rightarrow> veto_reason option" where
  "semantics_guard env ev metrics =
     (if metric_semantics_guard_enabled env \<and> metric_semantics_violation metrics \<noteq> []
      then Some (Bad_Semantics (metric_semantics_violation metrics)) else None)"

text \<open>\<open>if result.get("success")\<close>, then one guard.\<close>

definition guard_step ::
    "(veto_reason \<Rightarrow> string) \<Rightarrow> environ \<Rightarrow> run_evidence \<Rightarrow> dict \<Rightarrow> (environ \<Rightarrow> run_evidence \<Rightarrow> json \<Rightarrow> veto_reason option) \<Rightarrow> dict" where
  "guard_step msg env ev result guard =
     (if py_truthy (dict_get result ''success'') then
        (case guard env ev (dict_get result ''metrics'') of None \<Rightarrow> result | Some r \<Rightarrow> degraded msg r result)
      else result)"

definition fabrication_guards :: "(veto_reason \<Rightarrow> string) \<Rightarrow> environ \<Rightarrow> run_evidence \<Rightarrow> dict \<Rightarrow> dict" where
  "fabrication_guards msg env ev result =
     (let guarded = foldl (guard_step msg env ev) result [antifab_guard, stub_guard, zero_guard, semantics_guard] in
      if py_truthy (dict_get guarded ''success'') then apply_result_veto msg env ev guarded else guarded)"

section \<open>The audit of a run\<close>

record evidence_audit =
  ea_backed_by_ledger :: bool
  ea_provenance_present :: bool
  ea_metrics_non_degenerate :: bool
  ea_metric_keys_real :: bool
  ea_reasons :: "string list"
  ea_rerun_agrees :: "bool option"

definition run_level_clean :: "evidence_audit \<Rightarrow> bool" where
  "run_level_clean a \<longleftrightarrow>
     ea_backed_by_ledger a \<and> ea_metrics_non_degenerate a \<and> ea_metric_keys_real a
     \<and> (case ea_rerun_agrees a of None \<Rightarrow> True | Some b \<Rightarrow> b)"

text \<open>\<open>cands\<close> are the metrics files that \<open>_latest_metrics_path\<close> chooses from, \<open>code_file\<close> is \<^verbatim>\<open>code/metrics.json\<close>.\<close>

definition load_latest_metrics :: "environ \<Rightarrow> metrics_candidate list \<Rightarrow> json_file \<Rightarrow> dict" where
  "load_latest_metrics env cands code_file =
     (case (case latest_metrics_path env cands of None \<Rightarrow> code_file | Some c \<Rightarrow> mc_file c) of
        Json_File (JDict d) \<Rightarrow> d
      | _ \<Rightarrow> [])"

definition audit_evidence_from_dir ::
    "environ \<Rightarrow> metrics_candidate list \<Rightarrow> json_file \<Rightarrow> bool \<Rightarrow> int option \<Rightarrow> evidence_audit" where
  "audit_evidence_from_dir env cands code_file provenance ok_count =
     (let metrics = JDict (load_latest_metrics env cands code_file);
          backed = (case ok_count of None \<Rightarrow> True | Some n \<Rightarrow> n \<ge> 1);
          non_degen = \<not> looks_like_zero_metrics metrics; keys_real = \<not> looks_like_stub_metrics metrics
      in \<lparr>ea_backed_by_ledger = backed, ea_provenance_present = provenance, ea_metrics_non_degenerate = non_degen,
          ea_metric_keys_real = keys_real,
          ea_reasons = (if backed then [] else [''no in-process run_experiment success''])
            @ (if non_degen then [] else [''metrics all-zero/constant'']) @ (if keys_real then [] else [''metrics keys are placeholders'']),
          ea_rerun_agrees = None\<rparr>)"

section \<open>What the guards do\<close>

definition guard_list :: "(environ \<Rightarrow> run_evidence \<Rightarrow> json \<Rightarrow> veto_reason option) list" where
  "guard_list = [antifab_guard, stub_guard, zero_guard, semantics_guard]"

lemma degraded_get:
  "dict_get (degraded msg r result) k =
     (if k = ''error'' then JStr (msg r) else if k = ''failure_class'' then JStr ''fabrication_suspected''
      else if k = ''success'' then JBool False else dict_get result k)"
  by (simp add: degraded_def dict_get_def)

text \<open>The outcome of a guarded result: untouched, or degraded for a reason.\<close>

definition degraded_or_same :: "(veto_reason \<Rightarrow> string) \<Rightarrow> dict \<Rightarrow> dict \<Rightarrow> bool" where
  "degraded_or_same msg result result' \<longleftrightarrow>
     result' = result \<or> py_truthy (dict_get result ''success'') \<and> (\<exists>r. result' = degraded msg r result)"

lemma guard_step_cases: "degraded_or_same msg result (guard_step msg env ev result g)"
  by (simp add: guard_step_def degraded_or_same_def split: option.split) blast

lemma guard_step_failed: "\<not> py_truthy (dict_get result ''success'') \<Longrightarrow> guard_step msg env ev result g = result"
  by (simp add: guard_step_def)

lemma degraded_failed: "\<not> py_truthy (dict_get (degraded msg r result) ''success'')"
  by (simp add: degraded_get)

lemma guards_failed: "\<not> py_truthy (dict_get result ''success'') \<Longrightarrow> foldl (guard_step msg env ev) result gs = result"
  by (induction gs) (simp_all add: guard_step_failed)

lemma guards_cases: "degraded_or_same msg result (foldl (guard_step msg env ev) result gs)"
proof (induction gs arbitrary: result)
  case (Cons g gs)
  show ?case
  proof (cases "guard_step msg env ev result g = result")
    case True
    then show ?thesis using Cons by simp
  next
    case False
    then obtain r where "py_truthy (dict_get result ''success'')" "guard_step msg env ev result g = degraded msg r result"
      using guard_step_cases [of msg result env ev g] by (auto simp: degraded_or_same_def)
    then show ?thesis by (auto simp: guards_failed degraded_failed degraded_or_same_def)
  qed
qed (simp add: degraded_or_same_def)

lemma veto_cases: "degraded_or_same msg result (apply_result_veto msg env ev result)"
  by (auto simp: apply_result_veto_def degraded_or_same_def result_is_fabricated_def Let_def split: option.splits if_splits)

lemma fabrication_cases: "degraded_or_same msg result (fabrication_guards msg env ev result)"
  using guards_cases [of msg result env ev "[antifab_guard, stub_guard, zero_guard, semantics_guard]"]
    veto_cases [of msg _ env ev] degraded_failed
  unfolding fabrication_guards_def Let_def degraded_or_same_def by (smt (verit))

text \<open>The guards only degrade: a result leaves them as it came, or with \<open>success\<close> false, the failure class
  \<open>fabrication_suspected\<close> and a message, and every other entry as it was; a failed result is left alone.\<close>

lemma guards_only_degrade:
  shows "fabrication_guards msg env ev result = result
    \<or> py_truthy (dict_get result ''success'')
      \<and> dict_get (fabrication_guards msg env ev result) ''success'' = JBool False
      \<and> dict_get (fabrication_guards msg env ev result) ''failure_class'' = JStr ''fabrication_suspected''
      \<and> (\<forall>k. k \<notin> {''success'', ''failure_class'', ''error''} \<longrightarrow>
           dict_get (fabrication_guards msg env ev result) k = dict_get result k)"
proof -
  consider "fabrication_guards msg env ev result = result"
    | r where "py_truthy (dict_get result ''success'')" "fabrication_guards msg env ev result = degraded msg r result"
    using fabrication_cases [of msg result env ev] by (auto simp: degraded_or_same_def)
  then show ?thesis by cases (simp_all add: degraded_get)
qed

lemma guards_pass:
  "py_truthy (dict_get (foldl (guard_step msg env ev) result gs) ''success'') \<longleftrightarrow>
     py_truthy (dict_get result ''success'') \<and> list_all (\<lambda>g. g env ev (dict_get result ''metrics'') = None) gs"
proof (induction gs arbitrary: result)
  case (Cons g gs)
  then show ?case
    by (cases "py_truthy (dict_get result ''success'')"; cases "g env ev (dict_get result ''metrics'')")
      (simp_all add: guard_step_def degraded_failed guards_failed)
qed simp

text \<open>A result keeps its success exactly when no guard objects.\<close>

lemma fabrication_pass:
  "py_truthy (dict_get (fabrication_guards msg env ev result) ''success'') \<longleftrightarrow>
     py_truthy (dict_get result ''success'')
     \<and> list_all (\<lambda>g. g env ev (dict_get result ''metrics'') = None) guard_list
     \<and> result_is_fabricated env ev result = None"
proof (cases "py_truthy (dict_get (foldl (guard_step msg env ev) result guard_list) ''success'')")
  case True
  then have "foldl (guard_step msg env ev) result guard_list = result"
    using guards_cases [of msg result env ev guard_list] degraded_failed by (auto simp: degraded_or_same_def)
  then show ?thesis using True guards_pass [of msg env ev result guard_list]
    by (cases "result_is_fabricated env ev result")
      (simp_all add: fabrication_guards_def guard_list_def apply_result_veto_def degraded_failed)
next
  case False
  then show ?thesis using guards_pass [of msg env ev result guard_list]
    by (auto simp: fabrication_guards_def guard_list_def)
qed


definition named_model_result :: dict where
  "named_model_result =
     [(''success'', JBool True),
      (''metrics'', JDict [(''device'', JStr ''cuda''),
         (''per_model'', JDict [(''beta-vae'', JDict [(''accuracy'', JFloat (9 / 10))]), (''vae'', JDict [(''accuracy'', JFloat 0)])])])]"

definition demo_zero_env :: environ where
  "demo_zero_env = (\<lambda>k. if k = ''OPENRESEARCH_ZERO_METRICS_GUARD'' then Some ''1'' else None)"

lemma named_model_values: "normalize_metric_values (dict_get named_model_result ''metrics'') = [0]"
  by code_simp

lemma named_model_gpu: "metrics_claim_gpu_training (dict_get named_model_result ''metrics'')"
  by code_simp

lemma named_model_success: "py_truthy (dict_get named_model_result ''success'')"
  by code_simp

lemma demo_zero_flags:
  "zero_metrics_guard_enabled demo_zero_env" "\<not> stub_metrics_guard_enabled demo_zero_env"
  by code_simp+

lemma low_vram_unmeasured: "re_peak_vram ev = None \<Longrightarrow> \<not> low_vram env ev metrics"
  by (simp add: low_vram_def vram_evidence_verdict_def)

text \<open>The keys of a metrics file that are excluded as configuration are also names of models: everything below a model
  called \<open>beta-vae\<close> is dropped, so an honest run that measured 0.9 for it and 0 for a baseline looks like all zeros and is
  degraded as fabricated.\<close>

theorem honest_model_name_vetoed:
  "normalize_metric_values (dict_get named_model_result ''metrics'') = [0]
   \<and> dict_get (fabrication_guards (\<lambda>_. []) demo_zero_env \<lparr>re_provenance = False, re_peak_vram = None\<rparr> named_model_result)
       ''failure_class'' = JStr ''fabrication_suspected''"
  by (simp add: fabrication_guards_def guard_step_def antifab_guard_def stub_guard_def zero_guard_def zero_metrics_should_veto_def
      looks_like_zero_metrics_def named_model_values named_model_gpu named_model_success demo_zero_flags low_vram_unmeasured
      degraded_get)

text \<open>An underscore is a word character: the rate in \<open>test_accuracy\<close> is not looked at.\<close>

lemma prefixed_rate_escapes:
  "metric_semantics_violation (JDict [(''test_accuracy'', JFloat 84)]) = []
   \<and> metric_semantics_violation (JDict [(''accuracy'', JFloat 84)]) \<noteq> []"
  by code_simp

definition demo_audit_env :: environ where
  "demo_audit_env = (\<lambda>k. if k = ''OPENRESEARCH_EVIDENCE_AUDIT'' then Some ''1'' else None)"

definition demo_gpu_result :: dict where
  "demo_gpu_result =
     [(''success'', JBool True), (''metrics'', JDict [(''device'', JStr ''cuda''), (''accuracy'', JFloat (9 / 10))])]"

lemma demo_gpu_metrics:
  "\<not> looks_like_stub_metrics (dict_get demo_gpu_result ''metrics'') \<and> \<not> looks_like_zero_metrics (dict_get demo_gpu_result ''metrics'')
   \<and> py_truthy (dict_get demo_gpu_result ''success'')"
  by code_simp

lemma demo_audit_flags:
  "evidence_audit_enabled demo_audit_env \<and> \<not> zero_metrics_guard_enabled demo_audit_env \<and> \<not> stub_metrics_guard_enabled demo_audit_env
   \<and> \<not> metric_semantics_guard_enabled demo_audit_env"
  by code_simp


end
