(* ===== verification/Claim_Grounding.thy ===== *)
theory Claim_Grounding
  imports Metric_Guards Two_Axis_Report
begin

text \<open>
  Claims of a report against measured values, \<^verbatim>\<open>src/backend/agents/rlm/claim_grounding.py\<close>; the gate on the final
  report, \<^verbatim>\<open>report_claim_gate.py\<close>; the gate on a pending final answer (\<open>_claim_gate\<close> of \<^verbatim>\<open>run.py\<close>) and the check
  of \<^verbatim>\<open>external_validator.py\<close>. The scans with regular expressions are scans of the text with the matching that the
  patterns stand for.
\<close>

section \<open>Claims in a text\<close>

record result_claim =
  rcl_value :: real
  rcl_term :: string
  rcl_context :: string

definition RESULT_TERMS :: "string list" where
  "RESULT_TERMS = [''accuracy'', ''success_rate'', ''success'', ''reward'', ''f1'', ''precision'', ''recall'', ''em'', ''exact_match'']"

definition RATE_TERMS :: "string list" where
  "RATE_TERMS = [''accuracy'', ''success'', ''success_rate'', ''f1'', ''precision'', ''recall'', ''em'', ''exact_match'']"

definition COUNT_TERMS :: "string list" where
  "COUNT_TERMS =
     [''step'', ''steps'', ''epoch'', ''epochs'', ''iter'', ''iters'', ''iteration'', ''iterations'', ''batch'', ''sample'', ''samples'',
      ''task'', ''tasks'', ''episode'', ''episodes'', ''rollout'', ''rollouts'', ''token'', ''tokens'', ''second'', ''seconds'', ''minute'',
      ''minutes'', ''hour'', ''hours'', ''day'', ''days'', ''card'', ''cards'', ''example'', ''examples'', ''trajectory'', ''trajectories'']"

definition CLAIM_WINDOW :: nat where "CLAIM_WINDOW = 40"

text \<open>\<open>finditer\<close>: the spans of the matches from the left, without overlap; \<open>m prev s\<close> is the length of the match at the
  front of \<open>s\<close>, where \<open>prev\<close> says whether a word character stands before it.\<close>

fun find_iter :: "(bool \<Rightarrow> string \<Rightarrow> nat option) \<Rightarrow> nat \<Rightarrow> nat \<Rightarrow> bool \<Rightarrow> string \<Rightarrow> (nat \<times> nat) list" where
  "find_iter m skip pos prev [] = []"
| "find_iter m (Suc k) pos prev (c # cs) = find_iter m k (Suc pos) (word_char c) cs"
| "find_iter m 0 pos prev (c # cs) =
     (case m prev (c # cs) of
        Some n \<Rightarrow> (pos, pos + n) # find_iter m (n - 1) (Suc pos) (word_char c) cs
      | None \<Rightarrow> find_iter m 0 (Suc pos) (word_char c) cs)"

definition spans :: "(bool \<Rightarrow> string \<Rightarrow> nat option) \<Rightarrow> string \<Rightarrow> (nat \<times> nat) list" where
  "spans m text = find_iter m 0 0 False text"

definition slice :: "string \<Rightarrow> nat \<times> nat \<Rightarrow> string" where
  "slice text sp = take (snd sp - fst sp) (drop (fst sp) text)"

text \<open>A word of the vocabulary between two boundaries: the whole run of word characters.\<close>

definition match_result_term :: "bool \<Rightarrow> string \<Rightarrow> nat option" where
  "match_result_term prev s =
     (let w = takeWhile word_char s in if \<not> prev \<and> py_lower w \<in> set RESULT_TERMS then Some (length w) else None)"

text \<open>A label of one or several words, in which \<^verbatim>\<open>[ _]\<close> stands for an underscore; the longest pattern is tried first.\<close>

fun term_matches :: "string \<Rightarrow> string \<Rightarrow> bool" where
  "term_matches [] s = (case s of [] \<Rightarrow> True | d # _ \<Rightarrow> \<not> word_char d)"
| "term_matches (t # ts) [] = False"
| "term_matches (t # ts) (c # cs) =
     ((if t = CHR ''_'' then c \<in> {CHR '' '', CHR ''_''} else py_lower_char c = t) \<and> term_matches ts cs)"

definition pattern_length :: "string \<Rightarrow> nat" where
  "pattern_length t = length t + 3 * length (filter (\<lambda>c. c = CHR ''_'') t)"

definition NONRESULT_TERMS :: "string list" where
  "NONRESULT_TERMS = rev (sort_key pattern_length (CONFIG_TERMS @ COUNT_TERMS))"

definition match_nonresult :: "bool \<Rightarrow> string \<Rightarrow> nat option" where
  "match_nonresult prev s =
     (if prev then None else map_option length (find (\<lambda>t. term_matches t s) NONRESULT_TERMS))"

text \<open>\<^verbatim>\<open>\d+(?:\.\d+)?\<close> at the front: the matched text.\<close>

definition front_number :: "string \<Rightarrow> string" where
  "front_number s =
     (let ds = takeWhile py_digit s; t = dropWhile py_digit s in
      if ds = [] then []
      else (case t of
              c # u \<Rightarrow> if c = CHR ''.'' \<and> takeWhile py_digit u \<noteq> [] then ds @ c # takeWhile py_digit u else ds
            | [] \<Rightarrow> ds))"

definition match_number :: "bool \<Rightarrow> string \<Rightarrow> nat option" where
  "match_number prev s =
     (let num = front_number s; rest = drop (length num) s in
      if prev \<or> num = [] then None
      else Some (length num + (if rest \<noteq> [] \<and> hd rest = CHR ''%'' then 1 else 0)))"

definition match_scinotation :: "bool \<Rightarrow> string \<Rightarrow> nat option" where
  "match_scinotation prev s =
     (let num = front_number s; (e, t) = eat_one_of ''eE'' (drop (length num) s); (sg, u) = eat_one_of ''+-'' t;
          ds = takeWhile py_digit u
      in if prev \<or> num = [] \<or> e = [] \<or> ds = [] then None else Some (length num + length e + length sg + length ds))"

definition span_dist :: "nat \<Rightarrow> nat \<times> nat \<Rightarrow> nat" where
  "span_dist pos sp = (if pos < fst sp then fst sp - pos else if pos > snd sp then pos - snd sp else 0)"

definition nearest_span_dist :: "nat \<Rightarrow> (nat \<times> nat) list \<Rightarrow> nat option" where
  "nearest_span_dist pos sps = (case sps of [] \<Rightarrow> None | _ \<Rightarrow> Some (Min (set (map (span_dist pos) sps))))"

definition in_scinotation_span :: "nat \<Rightarrow> (nat \<times> nat) list \<Rightarrow> bool" where
  "in_scinotation_span pos sps = list_ex (\<lambda>sp. fst sp \<le> pos \<and> pos < snd sp) sps"

text \<open>The nearest result term within the window, the first of the nearest ones.\<close>

definition nearest_term :: "nat \<Rightarrow> (nat \<times> nat) list \<Rightarrow> (nat \<times> nat) option" where
  "nearest_term pos sps =
     (case filter (\<lambda>sp. span_dist pos sp \<le> CLAIM_WINDOW) sps of [] \<Rightarrow> None | near \<Rightarrow> Some (arg_min_list (span_dist pos) near))"

definition rate_plausible :: "real \<Rightarrow> bool \<Rightarrow> bool" where
  "rate_plausible x is_percent \<longleftrightarrow> 0 \<le> x \<and> x \<le> 12 / 10 \<or> \<not> is_percent \<and> 12 / 10 < x \<and> x \<le> 100"

definition number_value :: "string \<Rightarrow> real" where
  "number_value num =
     decimal_value ([], takeWhile py_digit num, dropWhile py_digit num, [])"

definition claim_context :: "string \<Rightarrow> nat \<Rightarrow> string" where
  "claim_context text pos =
     map (\<lambda>c. if c = CHR 0x0A then CHR '' '' else c) (slice text (pos - 20, min (length text) (pos + 20)))"

definition claim_at :: "string \<Rightarrow> nat \<times> nat \<Rightarrow> result_claim option" where
  "claim_at text num_span =
     (let pos = fst num_span; num = front_number (drop pos text); is_percent = (length num < snd num_span - pos);
          nr = nearest_span_dist pos (spans match_nonresult text)
      in if in_scinotation_span pos (spans match_scinotation text) then None
         else
           (case nearest_term pos (spans match_result_term text) of
              None \<Rightarrow> None
            | Some sp \<Rightarrow>
                if (case nr of None \<Rightarrow> False | Some d \<Rightarrow> d \<le> span_dist pos sp) then None
                else
                  (let v = (if is_percent then number_value num / 100 else number_value num); t = py_lower (slice text sp) in
                   if t \<in> set RATE_TERMS \<and> \<not> rate_plausible v is_percent then None
                   else Some \<lparr>rcl_value = v, rcl_term = t, rcl_context = claim_context text pos\<rparr>)))"

definition extract_result_claims :: "string \<Rightarrow> result_claim list" where
  "extract_result_claims text =
     (if spans match_result_term text = [] then [] else List.map_filter (claim_at text) (spans match_number text))"

section \<open>Measured values\<close>

fun collect_leaves :: "string option \<Rightarrow> json \<Rightarrow> (string \<times> leaf_number) list" where
  "collect_leaves last_key (JDict items) =
     concat (map (\<lambda>(k, v). if is_excluded_key k then [] else collect_leaves (Some k) v) items)"
| "collect_leaves last_key (JList items) = concat (map (collect_leaves last_key) items)"
| "collect_leaves last_key v =
     (case last_key of
        None \<Rightarrow> []
      | Some k \<Rightarrow>
          if is_excluded_key k then []
          else (case leaf_number_of v of None \<Rightarrow> [] | Some n \<Rightarrow> [(py_lower k, n)]))"

text \<open>\<open>files\<close>: \<^verbatim>\<open>code/metrics.json\<close> and the metrics files below \<^verbatim>\<open>code/outputs\<close>.\<close>

definition flatten_measured_values :: "json_file list \<Rightarrow> (string \<times> leaf_number) list" where
  "flatten_measured_values files =
     concat (map (\<lambda>f. case f of Json_File j \<Rightarrow> collect_leaves None j | _ \<Rightarrow> []) files)"

definition SYNONYM_MAP :: "(string \<times> string) list" where
  "SYNONYM_MAP =
     [(''success'', ''success''), (''success_rate'', ''success''), (''success_avg'', ''success''), (''em'', ''exact_match''),
      (''exact_match'', ''exact_match''), (''acc'', ''accuracy''), (''accuracy'', ''accuracy''), (''accuracy_avg'', ''accuracy''),
      (''f1'', ''f1''), (''f1_avg'', ''f1''), (''reward'', ''reward''), (''mean_reward'', ''reward''), (''return'', ''return''),
      (''mean_return'', ''return''), (''score'', ''score''), (''win'', ''win''), (''precision'', ''precision''), (''recall'', ''recall'')]"

definition canonical :: "string \<Rightarrow> string" where
  "canonical term = (case map_of SYNONYM_MAP (py_lower term) of Some c \<Rightarrow> c | None \<Rightarrow> py_lower term)"

section \<open>Grounding\<close>

text \<open>An infinite \<open>b\<close> is within every relative tolerance: both sides of the comparison are infinite.\<close>

definition within_tol :: "real \<Rightarrow> leaf_number \<Rightarrow> real \<Rightarrow> bool" where
  "within_tol a b rel_tol \<longleftrightarrow>
     (case b of
        Finite_Number x \<Rightarrow> \<bar>a - x\<bar> \<le> rel_tol * max \<bar>x\<bar> (1 / 10 ^ 9)
      | Infinite \<Rightarrow> True
      | Not_A_Number \<Rightarrow> False)"

definition claim_grounded :: "(string \<times> leaf_number) list \<Rightarrow> real \<Rightarrow> result_claim \<Rightarrow> bool" where
  "claim_grounded measured rel_tol claim =
     list_ex (\<lambda>(mterm, mval). canonical mterm = canonical (rcl_term claim)
        \<and> (within_tol (rcl_value claim) mval rel_tol \<or> within_tol (rcl_value claim / 100) mval rel_tol)) measured"

definition check_claims_grounded ::
    "result_claim list \<Rightarrow> (string \<times> leaf_number) list \<Rightarrow> real \<Rightarrow> result_claim list \<times> result_claim list" where
  "check_claims_grounded claims measured rel_tol =
     (if measured = [] then ([], [])
      else (filter (claim_grounded measured rel_tol) claims, filter (\<lambda>c. \<not> claim_grounded measured rel_tol c) claims))"

definition CLAIM_REL_TOL :: real where "CLAIM_REL_TOL = 5 / 100"

definition check_report_claims_grounded :: "result_claim list option \<Rightarrow> json_file list \<Rightarrow> bool" where
  "check_report_claims_grounded report_claims files =
     (case report_claims of
        None \<Rightarrow> True
      | Some claims \<Rightarrow>
          (let measured = flatten_measured_values files in
           claims = [] \<or> measured = [] \<or> snd (check_claims_grounded claims measured CLAIM_REL_TOL) = []))"

text \<open>The claim that a refusal cites; \<open>None\<close> when the pending answer passes.\<close>

definition claim_gate :: "string option \<Rightarrow> json_file list \<Rightarrow> result_claim option" where
  "claim_gate pending files =
     (case pending of
        None \<Rightarrow> None
      | Some text \<Rightarrow>
          (let claims = extract_result_claims text; measured = flatten_measured_values files in
           if text = [] \<or> claims = [] \<or> measured = [] then None
           else (case snd (check_claims_grounded claims measured CLAIM_REL_TOL) of [] \<Rightarrow> None | c # _ \<Rightarrow> Some c)))"

section \<open>The gate on the report\<close>

definition report_claim_gate_enabled :: "environ \<Rightarrow> bool" where
  "report_claim_gate_enabled env \<longleftrightarrow> py_strip (environ_get env ''OPENRESEARCH_REPORT_CLAIM_GATE'' []) = ''1''"

definition text_from_reported_metrics :: "(json \<Rightarrow> string) \<Rightarrow> json \<Rightarrow> string" where
  "text_from_reported_metrics dumps m = (if \<not> py_truthy m then [] else case m of JStr s \<Rightarrow> s | _ \<Rightarrow> dumps m)"

definition cap_two_axis :: "dict \<Rightarrow> dict" where
  "cap_two_axis repro =
     foldl (\<lambda>d k. if map_of d k = Some (JStr ''reproduced'') then dict_set d (k, JStr ''partial'') else d) repro
       [''verdict'', ''implementation_verdict'', ''replication_verdict'']"

text \<open>\<open>d[key] = float(overall) >= float(target)\<close> when both are there and numbers.\<close>

definition set_meets_target :: "dict \<Rightarrow> dict" where
  "set_meets_target d =
     (case (float_of_json (dict_get d ''overall_score''), float_of_json (dict_get d ''target_score'')) of
        (Some x, Some t) \<Rightarrow> dict_set d (''meets_target'', JBool (x \<ge> t))
      | _ \<Rightarrow> d)"

definition on_dict :: "(dict \<Rightarrow> dict) \<Rightarrow> string \<Rightarrow> dict \<Rightarrow> dict" where
  "on_dict f k d = (case dict_get d k of JDict e \<Rightarrow> dict_set d (k, JDict (f e)) | _ \<Rightarrow> d)"

definition grounding_stamp :: "result_claim list \<Rightarrow> result_claim list \<Rightarrow> result_claim list \<Rightarrow> dict" where
  "grounding_stamp claims grounded ungrounded =
     [(''claims_found'', JInt (int (length claims))), (''grounded'', JInt (int (length grounded))),
      (''ungrounded'', JInt (int (length ungrounded)))]"

text \<open>What the report holds afterwards. \<open>summary\<close> and \<open>reported_metrics\<close> are those of the report object, \<open>cite\<close> is the text
  that is appended. A summary in the dict that is neither empty nor a text raises after the verdict was set, and the
  rest is skipped.\<close>

definition apply_report_claim_gate ::
    "(json \<Rightarrow> string) \<Rightarrow> (result_claim \<Rightarrow> string) \<Rightarrow> string \<Rightarrow> json \<Rightarrow> json_file list \<Rightarrow> dict \<Rightarrow> dict" where
  "apply_report_claim_gate dumps cite summary reported_metrics files report =
     (let claims = extract_result_claims (summary @ [CHR 0x0A] @ text_from_reported_metrics dumps reported_metrics);
          measured = flatten_measured_values files;
          (grounded, ungrounded) = check_claims_grounded claims measured CLAIM_REL_TOL;
          stamp = grounding_stamp claims grounded ungrounded
      in if ungrounded \<noteq> [] \<and> measured \<noteq> [] \<and> dict_get report ''verdict'' \<in> {JStr ''reproduced'', JStr ''partial''} then
           (let capped = dict_set report (''verdict'', JStr ''partial'');
                first = hd ungrounded
            in case py_or (dict_get capped ''reproduction_summary'') (JStr []) of
                 JStr s \<Rightarrow>
                   (let noted = dict_set capped (''reproduction_summary'', JStr (s @ cite first));
                        two_axis = on_dict cap_two_axis ''reproducibility'' noted;
                        targets = set_meets_target (on_dict set_meets_target ''rubric'' two_axis)
                    in dict_set targets
                         (''claim_grounding'',
                          JDict (stamp @ [(''verdict_capped'', JBool True),
                            (''first_ungrounded'', JDict [(''term'', JStr (rcl_term first)), (''value'', JFloat (rcl_value first))])])))
               | _ \<Rightarrow> capped)
         else dict_set report (''claim_grounding'', JDict (stamp @ [(''verdict_capped'', JBool False)])))"

section \<open>Which numbers are claims\<close>

lemma nearest_term_SomeD:
  assumes "nearest_term pos sps = Some sp"
  shows "sp \<in> set sps" and "span_dist pos sp \<le> CLAIM_WINDOW" and "\<forall>sp'\<in>set sps. span_dist pos sp \<le> span_dist pos sp'"
proof -
  let ?near = "filter (\<lambda>sp. span_dist pos sp \<le> CLAIM_WINDOW) sps"
  have ne: "?near \<noteq> []" and sp: "sp = arg_min_list (span_dist pos) ?near"
    using assms by (auto simp: nearest_term_def split: list.splits)
  then have mem: "sp \<in> set ?near" using arg_min_list_in by blast
  then show "sp \<in> set sps" "span_dist pos sp \<le> CLAIM_WINDOW" by auto
  have "span_dist pos sp = Min (span_dist pos ` set ?near)" using f_arg_min_list_f [OF ne, of "span_dist pos"] sp by simp
  then have "span_dist pos sp \<le> span_dist pos sp'" if "sp' \<in> set ?near" for sp' using that by simp
  then show "\<forall>sp'\<in>set sps. span_dist pos sp \<le> span_dist pos sp'"
    using mem by (fastforce simp: not_le intro: order_trans)
qed

lemma decimal_value_nonneg: "0 \<le> decimal_value ([], ds, fr, ex)"
  by (simp add: decimal_value_def Let_def)


section \<open>What the gate does to a report\<close>

definition report_claims :: "(json \<Rightarrow> string) \<Rightarrow> string \<Rightarrow> json \<Rightarrow> result_claim list" where
  "report_claims dumps summary m = extract_result_claims (summary @ [CHR 0x0A] @ text_from_reported_metrics dumps m)"

lemma get_set_meets_target [simp]: "k \<noteq> ''meets_target'' \<Longrightarrow> map_of (set_meets_target d) k = map_of d k"
  by (simp add: set_meets_target_def split: option.split)

lemma get_on_dict: "k' \<noteq> k \<Longrightarrow> map_of (on_dict f k d) k' = map_of d k'"
  by (simp add: on_dict_def split: json.split)

lemma get_on_dict_same:
  "map_of (on_dict f k d) k = (case map_of d k of Some (JDict e) \<Rightarrow> Some (JDict (f e)) | v \<Rightarrow> v)"
  by (simp add: on_dict_def dict_get_def split: json.split option.split)

text \<open>The entries of a report behind the gate.\<close>

lemma gate_verdict:
  fixes dumps cite summary m files report
  defines "rep \<equiv> apply_report_claim_gate dumps cite summary m files report"
  shows "map_of rep ''verdict'' =
    (if (\<exists>c\<in>set (report_claims dumps summary m). \<not> claim_grounded (flatten_measured_values files) CLAIM_REL_TOL c)
        \<and> flatten_measured_values files \<noteq> [] \<and> dict_get report ''verdict'' \<in> {JStr ''reproduced'', JStr ''partial''}
     then Some (JStr ''partial'') else map_of report ''verdict'')"
  unfolding rep_def apply_report_claim_gate_def Let_def report_claims_def check_claims_grounded_def
  by (auto simp: filter_empty_conv get_on_dict split: json.split)

lemma gate_other:
  fixes dumps cite summary m files report
  defines "rep \<equiv> apply_report_claim_gate dumps cite summary m files report"
  assumes "k \<notin> {''verdict'', ''reproduction_summary'', ''reproducibility'', ''rubric'', ''meets_target'', ''claim_grounding''}"
  shows "map_of rep k = map_of report k"
  using assms(2)
  unfolding rep_def apply_report_claim_gate_def Let_def
  by (simp add: get_on_dict split: json.split prod.split)

lemma gate_reproducibility:
  fixes dumps cite summary m files report
  defines "rep \<equiv> apply_report_claim_gate dumps cite summary m files report"
  shows "map_of rep ''reproducibility'' = map_of report ''reproducibility''
    \<or> (\<exists>e. map_of report ''reproducibility'' = Some (JDict e) \<and> map_of rep ''reproducibility'' = Some (JDict (cap_two_axis e)))"
  unfolding rep_def apply_report_claim_gate_def Let_def
  by (simp add: get_on_dict get_on_dict_same split: json.split prod.split option.split)


lemma cap_payload: "cap_two_axis (verdict_to_payload texts v score) = verdict_to_payload texts v score"
  by (simp add: cap_two_axis_def verdict_to_payload_def implementation_text_def replication_text_def
      split: implementation_verdict.split replication_verdict.split)

text \<open>The two axes are never capped: the gate looks for the text \<open>reproduced\<close>, which neither axis uses, so a report whose
  claims are not grounded keeps the implementation verdict and the replication verdict that were attached to it.\<close>

theorem gate_leaves_two_axes:
  assumes "compute_and_attach pystr texts env tfiles report0 = Some report"
    and "k \<in> {''reproducibility'', ''implementation_verdict'', ''replication_verdict''}"
  shows "map_of (apply_report_claim_gate dumps cite summary m files report) k = map_of report k"
proof (cases "k = ''reproducibility''")
  case True
  obtain score v where vf: "verdict_of_files pystr env tfiles report0 = Some (score, v)" using assms(1) by (rule attach_SomeD)
  then have "map_of report ''reproducibility'' = Some (JDict (verdict_to_payload texts v score))"
    using attached_entries [OF assms(1) vf, of "''reproducibility''"] by simp
  then show ?thesis using gate_reproducibility [of dumps cite summary m files report] True by (auto simp: cap_payload)
next
  case False
  then show ?thesis using assms(2) by (intro gate_other) auto
qed

section \<open>Runs\<close>

text \<open>A measured text \<open>inf\<close> grounds every claim of its name.\<close>

lemma infinite_measurement_grounds_all:
  "list_ex (\<lambda>(t, n). canonical t = canonical (rcl_term c) \<and> n = Infinite) measured \<Longrightarrow> claim_grounded measured rel_tol c"
  unfolding claim_grounded_def list_ex_iff by (force simp: within_tol_def)

lemma reward_claim:
  "extract_result_claims ''reward -5'' = [\<lparr>rcl_value = 5, rcl_term = ''reward'', rcl_context = ''reward -5''\<rparr>]"
  by code_simp

text \<open>A percentage is a hundredth.\<close>

lemma percent_claim: "map rcl_value (extract_result_claims ''em 8%'') = [2 / 25]"
  by code_simp

lemma reward_measured: "flatten_measured_values [Json_File (JDict [(''reward'', JFloat x)])] = [(''reward'', Finite_Number x)]"
proof -
  have "\<not> is_excluded_key ''reward''" "py_lower ''reward'' = ''reward''" by code_simp+
  then show ?thesis by (simp add: flatten_measured_values_def leaf_number_of_def)
qed

text \<open>The sign of a number is not read: an answer that states the measured reward of -5 is refused, and the same answer
  passes when the reward was 5.\<close>

theorem negative_reward_refused:
  "map_option rcl_value (claim_gate (Some ''reward -5'') [Json_File (JDict [(''reward'', JFloat (- 5))])]) = Some 5
   \<and> claim_gate (Some ''reward -5'') [Json_File (JDict [(''reward'', JFloat 5)])] = None"
  by (simp add: claim_gate_def reward_claim reward_measured check_claims_grounded_def claim_grounded_def within_tol_def
      CLAIM_REL_TOL_def)


definition demo_claim_report :: dict where
  "demo_claim_report = [(''verdict'', JStr ''reproduced'')]"


lemma gate_leaves_two_axes_witness:
  "\<exists>rep. compute_and_attach demo_str demo_texts demo_two_axis_env (demo_two_axis_files No_File) demo_rubric_report = Some rep
     \<and> map_of (apply_report_claim_gate (\<lambda>_. []) rcl_term ''reward -5'' (JDict []) [Json_File (JDict [(''reward'', JFloat 1)])] rep)
         ''implementation_verdict'' = map_of rep ''implementation_verdict''"
  using demo_attached [of No_File] gate_leaves_two_axes [where k = "''implementation_verdict''"] by blast

end
