(* ===== verification/Report_Evidence.thy ===== *)
theory Report_Evidence
  imports Metric_Guards Cost_Ledger Leaf_Report
begin

text \<open>
  The evidence behind a final report, \<^verbatim>\<open>src/backend/agents/rlm/report.py\<close>: what the log of experiments
  (\<^verbatim>\<open>experiment_runs.jsonl\<close>) and the cost ledger of the process say, and the gate that downgrades a verdict
  which they do not back. A log is the list of what its lines parse to, \<open>None\<close> for a line that is blank or no JSON; a
  log that is missing or cannot be read is \<open>None\<close>. Notes that hold characters beyond code point 255 are constructors,
  which the argument \<open>cite\<close> prints.
\<close>

section \<open>The log of experiments\<close>

type_synonym json_log = "json option list option"

definition log_entries :: "json_log \<Rightarrow> json list" where
  "log_entries l = (case l of None \<Rightarrow> [] | Some ls \<Rightarrow> List.map_filter (\<lambda>x. x) ls)"

definition nonempty_metrics :: "dict \<Rightarrow> bool" where
  "nonempty_metrics d = (case dict_get d ''metrics'' of JDict m \<Rightarrow> m \<noteq> [] | _ \<Rightarrow> False)"

definition success_row :: "json \<Rightarrow> bool" where
  "success_row j = (case j of JDict d \<Rightarrow> dict_get d ''success'' = JBool True \<and> nonempty_metrics d | _ \<Rightarrow> False)"

definition partial_timeout_row :: "json \<Rightarrow> bool" where
  "partial_timeout_row j =
     (case j of
        JDict d \<Rightarrow>
          (dict_get d ''failure_class'' = JStr ''partial_timeout'' \<or> dict_get d ''partial_timeout'' = JBool True)
          \<and> nonempty_metrics d
      | _ \<Rightarrow> False)"

definition has_experiment_evidence :: "json_log \<Rightarrow> bool" where
  "has_experiment_evidence l = list_ex success_row (log_entries l)"

definition has_partial_timeout_evidence :: "json_log \<Rightarrow> bool" where
  "has_partial_timeout_evidence l = list_ex partial_timeout_row (log_entries l)"

text \<open>The latest record that succeeded and carries an id.\<close>

definition canonical_row :: "json \<Rightarrow> dict option" where
  "canonical_row j =
     (case j of
        JDict d \<Rightarrow> if py_truthy (dict_get d ''success'') \<and> py_truthy (dict_get d ''experiment_run_id'') then Some d else None
      | _ \<Rightarrow> None)"

definition latest_successful_experiment_record :: "json_log \<Rightarrow> dict option" where
  "latest_successful_experiment_record l =
     (case rev (List.map_filter canonical_row (log_entries l)) of [] \<Rightarrow> None | d # _ \<Rightarrow> Some d)"

definition canonical_experiment_provenance :: "json_log \<Rightarrow> json \<times> json" where
  "canonical_experiment_provenance l =
     (case latest_successful_experiment_record l of
        None \<Rightarrow> (JNull, JNull)
      | Some d \<Rightarrow>
          (dict_get d ''experiment_run_id'',
           if py_truthy (dict_get d ''metrics_sha256'') then dict_get d ''metrics_sha256'' else JNull))"

section \<open>The ledger of the process\<close>

definition run_experiment_call_count :: "cost_ledger option \<Rightarrow> nat option" where
  "run_experiment_call_count ledger = map_option (\<lambda>l. session_call_count l ''run_experiment'') ledger"

definition run_experiment_success_count :: "cost_ledger option \<Rightarrow> nat option" where
  "run_experiment_success_count ledger = map_option (\<lambda>l. session_success_compatible_count l ''run_experiment'') ledger"

definition run_experiment_partial_timeout_count :: "cost_ledger option \<Rightarrow> nat option" where
  "run_experiment_partial_timeout_count ledger = map_option (\<lambda>l. session_partial_timeout_count l ''run_experiment'') ledger"

record trust_counts =
  tc_calls :: "nat option"
  tc_ok_calls :: "nat option"
  tc_partial_timeout_calls :: "nat option"

definition trust_of_ledger :: "cost_ledger option \<Rightarrow> trust_counts" where
  "trust_of_ledger ledger =
     \<lparr>tc_calls = run_experiment_call_count ledger, tc_ok_calls = run_experiment_success_count ledger,
      tc_partial_timeout_calls = run_experiment_partial_timeout_count ledger\<rparr>"

section \<open>The report\<close>

text \<open>The fields of \<open>RLMFinalReport\<close> that the writer reads or changes; the others are in \<open>fp_rest\<close>.\<close>

record final_report =
  fp_verdict :: string
  fp_summary :: string
  fp_baseline_metrics :: dict
  fp_reported_metrics :: json
  fp_rubric :: dict
  fp_stop_reason :: json
  fp_degraded :: bool
  fp_rest :: dict

definition success_verdict :: "string \<Rightarrow> bool" where
  "success_verdict v \<longleftrightarrow> v \<in> set [''reproduced'', ''partial'']"

section \<open>The evidence gate\<close>

datatype gate_note = Forged_Evidence | Timeout_Partial | No_Evidence bool | Degenerate_Evidence "string list"

definition verdict_gate_enabled :: "environ \<Rightarrow> bool" where
  "verdict_gate_enabled env \<longleftrightarrow>
     py_lower (py_strip (environ_get env ''OPENRESEARCH_EVIDENCE_GATE'' ''1'')) \<notin> set [''0'', ''false'', ''off'']"

text \<open>The files of the unified audit, and the log.\<close>

record evidence_files =
  ef_log :: json_log
  ef_candidates :: "metrics_candidate list"
  ef_code_metrics :: json_file
  ef_provenance :: bool

definition audit_of :: "environ \<Rightarrow> evidence_files \<Rightarrow> trust_counts \<Rightarrow> evidence_audit" where
  "audit_of env files counts =
     audit_evidence_from_dir env (ef_candidates files) (ef_code_metrics files) (ef_provenance files)
       (map_option int (tc_ok_calls counts))"

definition audit_vetoes :: "environ \<Rightarrow> evidence_files \<Rightarrow> trust_counts \<Rightarrow> bool" where
  "audit_vetoes env files counts \<longleftrightarrow> evidence_audit_enabled env \<and> \<not> run_level_clean (audit_of env files counts)"

definition forged_evidence :: "json_log \<Rightarrow> trust_counts \<Rightarrow> bool" where
  "forged_evidence l counts \<longleftrightarrow>
     has_experiment_evidence l \<and> (tc_calls counts = Some 0 \<or> tc_ok_calls counts = Some 0)"

definition partial_tier :: "json_log \<Rightarrow> trust_counts \<Rightarrow> bool" where
  "partial_tier l counts \<longleftrightarrow>
     tc_calls counts \<noteq> Some 0 \<and> tc_partial_timeout_calls counts \<noteq> Some 0 \<and> has_partial_timeout_evidence l"

definition noted :: "(gate_note \<Rightarrow> string) \<Rightarrow> gate_note \<Rightarrow> final_report \<Rightarrow> final_report" where
  "noted cite n r = r\<lparr>fp_summary := py_rstrip (fp_summary r) @ cite n\<rparr>"

definition apply_evidence_gate ::
    "(gate_note \<Rightarrow> string) \<Rightarrow> environ \<Rightarrow> evidence_files \<Rightarrow> trust_counts \<Rightarrow> final_report \<Rightarrow> final_report" where
  "apply_evidence_gate cite env files counts r =
     (if \<not> verdict_gate_enabled env then r
      else
        (let l = ef_log files; forged = forged_evidence l counts; real_evidence = (has_experiment_evidence l \<and> \<not> forged) in
         if success_verdict (fp_verdict r) \<and> \<not> real_evidence then
           (if forged then noted cite Forged_Evidence (r\<lparr>fp_verdict := ''failed''\<rparr>)
            else if partial_tier l counts then
              noted cite Timeout_Partial (if fp_verdict r = ''reproduced'' then r\<lparr>fp_verdict := ''partial''\<rparr> else r)
            else noted cite (No_Evidence (fp_baseline_metrics r = [])) (r\<lparr>fp_verdict := ''failed''\<rparr>))
         else if audit_vetoes env files counts \<and> success_verdict (fp_verdict r) then
           noted cite (Degenerate_Evidence (ea_reasons (audit_of env files counts))) (r\<lparr>fp_verdict := ''failed''\<rparr>)
         else r))"

section \<open>What the gate lets through\<close>

lemma noted_fields [simp]:
  "fp_verdict (noted cite n r) = fp_verdict r" "fp_rubric (noted cite n r) = fp_rubric r"
  "fp_stop_reason (noted cite n r) = fp_stop_reason r" "fp_degraded (noted cite n r) = fp_degraded r"
  by (simp_all add: noted_def)

lemma success_verdict_simps [simp]:
  "success_verdict ''reproduced''" "success_verdict ''partial''" "\<not> success_verdict ''failed''"
  by (simp_all add: success_verdict_def)

lemma gate_keeps_rest:
  "fp_rubric (apply_evidence_gate cite env files counts r) = fp_rubric r"
  "fp_stop_reason (apply_evidence_gate cite env files counts r) = fp_stop_reason r"
  "fp_degraded (apply_evidence_gate cite env files counts r) = fp_degraded r"
  by (simp_all add: apply_evidence_gate_def Let_def)

text \<open>What backs a verdict: a clean run on disk that the process really made, or work that a timeout cut short.\<close>

definition backed_run :: "json_log \<Rightarrow> trust_counts \<Rightarrow> bool" where
  "backed_run l counts \<longleftrightarrow> has_experiment_evidence l \<and> tc_calls counts \<noteq> Some 0 \<and> tc_ok_calls counts \<noteq> Some 0"

lemma backed_run_iff: "backed_run l counts \<longleftrightarrow> has_experiment_evidence l \<and> \<not> forged_evidence l counts"
  by (auto simp: backed_run_def forged_evidence_def)

lemma gate_verdict_cases:
  assumes "verdict_gate_enabled env"
  shows "success_verdict (fp_verdict (apply_evidence_gate cite env files counts r)) \<longleftrightarrow>
      success_verdict (fp_verdict r)
      \<and> (backed_run (ef_log files) counts \<and> \<not> audit_vetoes env files counts
         \<or> \<not> has_experiment_evidence (ef_log files) \<and> partial_tier (ef_log files) counts)"
    and "fp_verdict (apply_evidence_gate cite env files counts r) = ''reproduced'' \<longleftrightarrow>
      fp_verdict r = ''reproduced'' \<and> backed_run (ef_log files) counts \<and> \<not> audit_vetoes env files counts"
  using assms
  by (auto simp: apply_evidence_gate_def Let_def backed_run_iff forged_evidence_def success_verdict_def)

text \<open>C26. With the gate on, a report leaves it with a success verdict exactly when it came with one and either a clean run
  backs it, and the audit does not veto it, or there is no success row at all and the timeout tier holds, where
  \<open>reproduced\<close> becomes \<open>partial\<close>. No verdict is upgraded.\<close>

theorem gate_passes_iff_backed:
  assumes "verdict_gate_enabled env"
  shows "(success_verdict (fp_verdict (apply_evidence_gate cite env files counts r)) \<longleftrightarrow>
      success_verdict (fp_verdict r)
      \<and> (backed_run (ef_log files) counts \<and> \<not> audit_vetoes env files counts
         \<or> \<not> has_experiment_evidence (ef_log files) \<and> partial_tier (ef_log files) counts))
    \<and> (fp_verdict (apply_evidence_gate cite env files counts r) = ''reproduced'' \<longleftrightarrow>
      fp_verdict r = ''reproduced'' \<and> backed_run (ef_log files) counts \<and> \<not> audit_vetoes env files counts)"
  using gate_verdict_cases [OF assms] by simp

definition quiet_env :: environ where "quiet_env = (\<lambda>_. None)"

lemma quiet_gate: "verdict_gate_enabled quiet_env"
  by code_simp

lemma gate_passes_iff_backed_witness:
  "\<not> success_verdict (fp_verdict (apply_evidence_gate (\<lambda>_. []) quiet_env
      \<lparr>ef_log = None, ef_candidates = [], ef_code_metrics = No_File, ef_provenance = False\<rparr> (trust_of_ledger None)
      \<lparr>fp_verdict = ''partial'', fp_summary = [], fp_baseline_metrics = [], fp_reported_metrics = JNull, fp_rubric = [],
       fp_stop_reason = JNull, fp_degraded = False, fp_rest = []\<rparr>))"
  using gate_passes_iff_backed [OF quiet_gate]
  by (simp add: backed_run_def has_experiment_evidence_def has_partial_timeout_evidence_def partial_tier_def log_entries_def)

end
