(* ===== verification/Report_Write.thy ===== *)
theory Report_Write
  imports Report_Evidence Claim_Grounding
begin

text \<open>
  The writer of the final report, \<open>write_final_report_rlm\<close> of \<^verbatim>\<open>src/backend/agents/rlm/report.py\<close>: the evidence gate,
  the merge of the last verification, the best-of-run floor, the cap of the verdict by the score, the two-axis verdict
  with its clamp, and the claim gate, in this order. A line of the event log is its text and what it parses to; a
  score is a finite number or the text of one.
\<close>

section \<open>The scores of the run\<close>

type_synonym sse_log = "(string \<times> json option) list option"

definition event_lines :: "sse_log \<Rightarrow> (string \<times> json option) list" where
  "event_lines l = (case l of None \<Rightarrow> [] | Some ls \<Rightarrow> ls)"

definition event_payload :: "dict \<Rightarrow> dict" where
  "event_payload d = (case dict_get d ''payload'' of JDict p \<Rightarrow> p | _ \<Rightarrow> d)"

text \<open>The score of a line and the evidence key beside it. A line that parses to no object raises.\<close>

definition score_event :: "string \<times> json option \<Rightarrow> report_error + (json \<times> real) option" where
  "score_event line =
     (if \<not> py_in ''rubric_score'' (fst line) then Inr None
      else
        (case snd line of
           None \<Rightarrow> Inr None
         | Some (JDict d) \<Rightarrow>
             (let p = event_payload d;
                  s = (if dict_get p ''overall_score'' = JNull then dict_get p ''score'' else dict_get p ''overall_score'')
              in Inr (map_option (\<lambda>x. (dict_get p ''evidence_key'', x)) (float_of_json s)))
         | Some _ \<Rightarrow> Inl Attribute_Error))"

fun score_events :: "(string \<times> json option) list \<Rightarrow> report_error + (json \<times> real) list" where
  "score_events [] = Inr []"
| "score_events (l # ls) =
     (case score_event l of
        Inl e \<Rightarrow> Inl e
      | Inr ev \<Rightarrow>
          (case score_events ls of
             Inl e \<Rightarrow> Inl e
           | Inr evs \<Rightarrow> Inr (case ev of None \<Rightarrow> evs | Some x \<Rightarrow> x # evs)))"

definition higher :: "real option \<Rightarrow> real \<Rightarrow> real option" where
  "higher best x = (case best of None \<Rightarrow> Some x | Some b \<Rightarrow> if x > b then Some x else Some b)"

definition best_recorded_rubric_score :: "sse_log \<Rightarrow> report_error + real option" where
  "best_recorded_rubric_score events =
     (case score_events (event_lines events) of
        Inl e \<Rightarrow> Inl e
      | Inr evs \<Rightarrow> Inr (foldl higher None (map snd evs)))"

definition evidence_fingerprint_enabled :: "environ \<Rightarrow> bool" where
  "evidence_fingerprint_enabled env = opted_in env ''OPENRESEARCH_EVIDENCE_FINGERPRINT''"

text \<open>An event without a key is a group of its own.\<close>

fun keyed_scores :: "(json \<Rightarrow> string) \<Rightarrow> nat \<Rightarrow> (json \<times> real) list \<Rightarrow> (string \<times> real) list" where
  "keyed_scores pystr n [] = []"
| "keyed_scores pystr n ((k, x) # evs) =
     (if py_truthy k then (pystr k, x) # keyed_scores pystr n evs
      else (''__nokey__'' @ str_of_nat (Suc n), x) # keyed_scores pystr (Suc n) evs)"

definition evidence_aware_best_score :: "(json \<Rightarrow> string) \<Rightarrow> sse_log \<Rightarrow> report_error + real option" where
  "evidence_aware_best_score pystr events =
     (case score_events (event_lines events) of
        Inl e \<Rightarrow> Inl e
      | Inr evs \<Rightarrow>
          (let seq = keyed_scores pystr 0 evs in
           Inr (if seq = [] then None
                else Some (py_median (map snd (filter (\<lambda>kv. fst kv = fst (last seq)) seq))))))"

definition apply_best_of_run_floor ::
    "(json \<Rightarrow> string) \<Rightarrow> environ \<Rightarrow> sse_log \<Rightarrow> dict \<Rightarrow> report_error + dict" where
  "apply_best_of_run_floor pystr env events rubric =
     (case (if evidence_fingerprint_enabled env then evidence_aware_best_score pystr events
            else best_recorded_rubric_score events) of
        Inl e \<Rightarrow> Inl e
      | Inr None \<Rightarrow> Inr rubric
      | Inr (Some best) \<Rightarrow>
          Inr (if (case float_of_json (dict_get rubric ''overall_score'') of None \<Rightarrow> True | Some cur \<Rightarrow> best > cur)
               then foldl dict_set rubric [(''overall_score'', JFloat best), (''best_of_run'', JBool True)]
               else rubric))"

section \<open>Degradations\<close>

definition DEGRADATION_WARNING_CODES :: "string list" where
  "DEGRADATION_WARNING_CODES =
     [''cells_manifest_restored'', ''cells_manifest_dropped'', ''per_model_derived'', ''cell_axes_derived'', ''metrics_incomplete'',
      ''metrics_shape_item_invalid'', ''primitive_timeout'', ''search_synthesized'', ''plan_reproduction_failed_envelope'',
      ''paper_grounding_failed'', ''disk_headroom_thin'', ''degenerate_pool'', ''compute_scope_invalid'', ''sdk_pre_emit_stall'',
      ''knowledge_channel_strict_violation'', ''forced_iteration'', ''finalize_regrade_skipped'']"

definition warning_event :: "string \<times> json option \<Rightarrow> report_error + (string \<times> json) option" where
  "warning_event line =
     (if \<not> py_in ''run_warning'' (fst line) then Inr None
      else
        (case snd line of
           None \<Rightarrow> Inr None
         | Some (JDict d) \<Rightarrow>
             (let p = event_payload d in
              case dict_get p ''code'' of
                JStr c \<Rightarrow> Inr (if c \<in> set DEGRADATION_WARNING_CODES then Some (c, dict_get p ''message'') else None)
              | _ \<Rightarrow> Inr None)
         | Some _ \<Rightarrow> Inl Attribute_Error))"

fun warning_events :: "(string \<times> json option) list \<Rightarrow> report_error + (string \<times> json) list" where
  "warning_events [] = Inr []"
| "warning_events (l # ls) =
     (case warning_event l of
        Inl e \<Rightarrow> Inl e
      | Inr ev \<Rightarrow>
          (case warning_events ls of
             Inl e \<Rightarrow> Inl e
           | Inr evs \<Rightarrow> Inr (case ev of None \<Rightarrow> evs | Some x \<Rightarrow> x # evs)))"

text \<open>The newest message that is a text wins.\<close>

definition last_message :: "json list \<Rightarrow> string" where
  "last_message ms =
     (case rev (List.map_filter (\<lambda>m. case m of JStr s \<Rightarrow> if s = [] then None else Some s | _ \<Rightarrow> None) ms) of
        [] \<Rightarrow> []
      | s # _ \<Rightarrow> take 300 s)"

definition collect_degradations :: "sse_log \<Rightarrow> report_error + json list" where
  "collect_degradations events =
     (case warning_events (event_lines events) of
        Inl e \<Rightarrow> Inl e
      | Inr evs \<Rightarrow>
          Inr (map (\<lambda>c. let ms = map snd (filter (\<lambda>ev. fst ev = c) evs) in
                  JDict [(''code'', JStr c), (''count'', JInt (int (length ms))), (''last_message'', JStr (last_message ms))])
                (sort (remdups (map fst evs)))))"

section \<open>The last verification\<close>

definition DEEP_KEYS :: "string list" where
  "DEEP_KEYS =
     [''leaf_scores'', ''weak_leaves'', ''leaf_count'', ''graded'', ''rubric_source'', ''coverage_pct'', ''compute_adjusted_score'',
      ''compute_scope'']"

definition clean_completion :: "final_report \<Rightarrow> bool" where
  "clean_completion r \<longleftrightarrow> fp_stop_reason r = JNull \<and> \<not> fp_degraded r"

definition fill_deep :: "dict \<Rightarrow> dict \<Rightarrow> string list \<Rightarrow> dict" where
  "fill_deep deep current ks =
     foldl (\<lambda>c k. if dict_get deep k \<noteq> JNull \<and> dict_get c k = JNull then dict_set c (k, dict_get deep k) else c) current ks"

definition take_over :: "dict \<Rightarrow> dict \<Rightarrow> string list \<Rightarrow> dict" where
  "take_over deep current ks =
     foldl (\<lambda>c k. if dict_get deep k \<noteq> JNull then dict_set c (k, dict_get deep k) else c) current ks"

definition eval_wins :: "dict \<Rightarrow> dict \<Rightarrow> bool" where
  "eval_wins deep current \<longleftrightarrow>
     (let d = dict_get deep ''overall_score''; c = dict_get current ''overall_score'' in
      d \<noteq> JNull
      \<and> (c = JNull \<or> (case (float_of_json d, float_of_json c) of (Some x, Some y) \<Rightarrow> x \<ge> y | _ \<Rightarrow> False)))"

definition merged_rubric :: "dict \<Rightarrow> dict \<Rightarrow> dict" where
  "merged_rubric deep rubric =
     (let current = fill_deep deep rubric DEEP_KEYS in
      set_meets_target
        (if eval_wins deep current then take_over deep current [''overall_score'', ''target_score'', ''meets_target'']
         else if dict_get current ''target_score'' = JNull then take_over deep current [''target_score''] else current))"

definition lift_verdict :: "final_report \<Rightarrow> final_report" where
  "lift_verdict r =
     (if dict_get (fp_rubric r) ''meets_target'' = JBool True \<and> fp_verdict r = ''partial''
      then r\<lparr>fp_verdict := ''reproduced''\<rparr> else r)"

definition merge_evaluation :: "json_file \<Rightarrow> final_report \<Rightarrow> final_report" where
  "merge_evaluation eval_file r =
     (case eval_file of
        Json_File (JDict deep) \<Rightarrow>
          (let r' = r\<lparr>fp_rubric := merged_rubric deep (fp_rubric r)\<rparr> in if clean_completion r' then lift_verdict r' else r')
      | _ \<Rightarrow> r)"

section \<open>The floor and the cap\<close>

text \<open>The log line after the floor formats the score; a score that is no number raises there, before the verdict.\<close>

definition write_floor :: "(json \<Rightarrow> string) \<Rightarrow> environ \<Rightarrow> sse_log \<Rightarrow> final_report \<Rightarrow> final_report" where
  "write_floor pystr env events r =
     (if \<not> clean_completion r then r
      else
        (case apply_best_of_run_floor pystr env events (fp_rubric r) of
           Inl _ \<Rightarrow> r
         | Inr floored \<Rightarrow>
             if \<not> py_truthy (dict_get floored ''best_of_run'') then r
             else
               (let r' = r\<lparr>fp_rubric := set_meets_target floored\<rparr>; score = dict_get floored ''overall_score'' in
                if score \<noteq> JNull \<and> float_of_json score = None then r' else lift_verdict r')))"

definition cap_verdict :: "final_report \<Rightarrow> final_report" where
  "cap_verdict r =
     (case float_of_json (dict_get (fp_rubric r) ''overall_score'') of
        None \<Rightarrow> r
      | Some x \<Rightarrow> r\<lparr>fp_verdict := reconcile_verdict_with_score (fp_verdict r) x\<rparr>)"

text \<open>\<open>==\<close> of a flag or \<open>None\<close> with a value.\<close>

definition flag_equals :: "json \<Rightarrow> json \<Rightarrow> bool" where
  "flag_equals new old \<longleftrightarrow>
     new = old \<or> (case (new, old) of
        (JBool b, JInt i) \<Rightarrow> i = (if b then 1 else 0)
      | (JBool b, JFloat x) \<Rightarrow> x = (if b then 1 else 0)
      | _ \<Rightarrow> False)"

definition final_meets_target :: "dict \<Rightarrow> json option" where
  "final_meets_target rubric =
     (let s = dict_get rubric ''overall_score''; t = dict_get rubric ''target_score'' in
      if s = JNull \<or> t = JNull then Some JNull
      else (case (float_of_json s, float_of_json t) of (Some x, Some y) \<Rightarrow> Some (JBool (x \<ge> y)) | _ \<Rightarrow> None))"

definition repair_meets_target :: "final_report \<Rightarrow> final_report" where
  "repair_meets_target r =
     (case final_meets_target (fp_rubric r) of
        None \<Rightarrow> r
      | Some m \<Rightarrow>
          if flag_equals m (dict_get (fp_rubric r) ''meets_target'') then r
          else r\<lparr>fp_rubric := dict_set (fp_rubric r) (''meets_target'', m)\<rparr>)"

section \<open>The written report\<close>

definition report_dict :: "final_report \<Rightarrow> dict" where
  "report_dict r =
     [(''verdict'', JStr (fp_verdict r)), (''reproduction_summary'', JStr (fp_summary r)),
      (''baseline_metrics'', JDict (fp_baseline_metrics r)), (''reported_metrics'', fp_reported_metrics r),
      (''rubric'', JDict (fp_rubric r)), (''stop_reason'', fp_stop_reason r), (''degraded'', JBool (fp_degraded r))] @ fp_rest r"

definition upgrade_rank :: "string \<Rightarrow> nat" where
  "upgrade_rank v = (if v = ''reproduced'' then 2 else if v = ''partial'' then 1 else 0)"

definition verdict_text :: "dict \<Rightarrow> string" where
  "verdict_text d = (case dict_get d ''verdict'' of JStr v \<Rightarrow> v | _ \<Rightarrow> [])"

definition clamp_note :: "string \<Rightarrow> string" where
  "clamp_note v =
     ''upgrade to '' @ [CHR 0x27] @ v @ [CHR 0x27]
     @ '' refused: zero success-compatible run_experiment calls in this attempt''"

definition attach_two_axis ::
    "(json \<Rightarrow> string) \<Rightarrow> (claim_reason \<Rightarrow> string) \<times> (rationale \<Rightarrow> string) \<Rightarrow> environ \<Rightarrow> two_axis_files \<Rightarrow> trust_counts
      \<Rightarrow> final_report \<Rightarrow> dict" where
  "attach_two_axis pystr texts env tfiles counts r =
     (case compute_and_attach pystr texts env tfiles (report_dict r) of
        None \<Rightarrow> report_dict r
      | Some d \<Rightarrow>
          if upgrade_rank (verdict_text d) > upgrade_rank (fp_verdict r) \<and> tc_ok_calls counts = Some 0 then
            on_dict (\<lambda>e. dict_set e (''verdict_clamped'', JStr (clamp_note (verdict_text d)))) ''reproducibility''
              (dict_set d (''verdict'', JStr (fp_verdict r)))
          else d)"

record write_inputs =
  wi_gate_text :: "gate_note \<Rightarrow> string"
  wi_claim_text :: "result_claim \<Rightarrow> string"
  wi_dumps :: "json \<Rightarrow> string"
  wi_axis_texts :: "(claim_reason \<Rightarrow> string) \<times> (rationale \<Rightarrow> string)"
  wi_evidence :: evidence_files
  wi_evaluation :: json_file
  wi_events :: sse_log
  wi_axis_files :: two_axis_files
  wi_measured :: "json_file list"

definition finished_report :: "(json \<Rightarrow> string) \<Rightarrow> environ \<Rightarrow> write_inputs \<Rightarrow> trust_counts \<Rightarrow> final_report \<Rightarrow> final_report" where
  "finished_report pystr env inp counts r =
     repair_meets_target
       (cap_verdict
         (write_floor pystr env (wi_events inp)
           (merge_evaluation (wi_evaluation inp)
             (apply_evidence_gate (wi_gate_text inp) env (wi_evidence inp) counts r))))"

definition write_final_report ::
    "(json \<Rightarrow> string) \<Rightarrow> environ \<Rightarrow> write_inputs \<Rightarrow> trust_counts \<Rightarrow> final_report \<Rightarrow> dict" where
  "write_final_report pystr env inp counts r =
     (let done = finished_report pystr env inp counts r;
          attached = attach_two_axis pystr (wi_axis_texts inp) env (wi_axis_files inp) counts done;
          gated = (if report_claim_gate_enabled env
                   then apply_report_claim_gate (wi_dumps inp) (wi_claim_text inp) (fp_summary done) (fp_reported_metrics done)
                          (wi_measured inp) attached
                   else attached)
      in case collect_degradations (wi_events inp) of
           Inr (j # js) \<Rightarrow> dict_set gated (''degradations_taken'', JList (j # js))
         | _ \<Rightarrow> gated)"

text \<open>The marker that protects the run from clean-up is written for every other verdict.\<close>

definition preserved_marker :: "dict \<Rightarrow> bool" where
  "preserved_marker written \<longleftrightarrow> verdict_text written \<noteq> ''failed''"

section \<open>The verdict on its way\<close>

lemma lift_verdict_success: "success_verdict (fp_verdict (lift_verdict r)) \<longleftrightarrow> success_verdict (fp_verdict r)"
  by (simp add: lift_verdict_def)

lemma merge_evaluation_success: "success_verdict (fp_verdict (merge_evaluation f r)) \<longleftrightarrow> success_verdict (fp_verdict r)"
  by (simp add: merge_evaluation_def Let_def lift_verdict_success split: json_file.split json.split)

lemma write_floor_success: "success_verdict (fp_verdict (write_floor pystr env events r)) \<longleftrightarrow> success_verdict (fp_verdict r)"
  by (simp add: write_floor_def Let_def lift_verdict_success split: sum.split)

lemma cap_verdict_success: "success_verdict (fp_verdict (cap_verdict r)) \<Longrightarrow> success_verdict (fp_verdict r)"
  by (auto simp: cap_verdict_def reconcile_verdict_with_score_def verdict_ceiling_def verdict_rank_def success_verdict_def
      split: option.splits if_splits)

lemma repair_keeps [simp]:
  "fp_verdict (repair_meets_target r) = fp_verdict r" "fp_summary (repair_meets_target r) = fp_summary r"
  "fp_reported_metrics (repair_meets_target r) = fp_reported_metrics r"
  by (simp_all add: repair_meets_target_def split: option.split)

text \<open>Behind the evidence gate a verdict never becomes a success.\<close>

lemma finished_success:
  "success_verdict (fp_verdict (finished_report pystr env inp counts r)) \<Longrightarrow>
     success_verdict (fp_verdict (apply_evidence_gate (wi_gate_text inp) env (wi_evidence inp) counts r))"
  unfolding finished_report_def by (auto dest!: cap_verdict_success simp: write_floor_success merge_evaluation_success)

lemma success_iff_rank: "success_verdict v \<longleftrightarrow> 1 \<le> upgrade_rank v"
  by (simp add: success_verdict_def upgrade_rank_def)

lemma verdict_text_report [simp]: "verdict_text (report_dict r) = fp_verdict r"
  by (simp add: verdict_text_def report_dict_def dict_get_def)

lemma verdict_text_set [simp]: "verdict_text (dict_set d (''verdict'', JStr v)) = v"
  by (simp add: verdict_text_def dict_get_def)

lemma verdict_text_other: "k \<noteq> ''verdict'' \<Longrightarrow> verdict_text (dict_set d (k, v)) = verdict_text d"
  by (simp add: verdict_text_def dict_get_def)

lemma verdict_text_on_dict: "k \<noteq> ''verdict'' \<Longrightarrow> verdict_text (on_dict f k d) = verdict_text d"
  by (simp add: verdict_text_def dict_get_def get_on_dict)

text \<open>The clamp: without a run that ended well in this process the two-axis verdict is at most the verdict it replaces.\<close>

lemma attach_clamped:
  "tc_ok_calls counts = Some 0 \<Longrightarrow>
     upgrade_rank (verdict_text (attach_two_axis pystr texts env tfiles counts r)) \<le> upgrade_rank (fp_verdict r)"
  by (auto simp: attach_two_axis_def verdict_text_on_dict not_less split: option.split)

lemma attach_off: "\<not> two_axis_enabled env \<Longrightarrow> attach_two_axis pystr texts env tfiles counts r = report_dict r"
  by (simp add: attach_two_axis_def compute_and_attach_def)

lemma claim_gate_success:
  "success_verdict (verdict_text (apply_report_claim_gate dumps cite summary m files d)) \<longleftrightarrow> success_verdict (verdict_text d)"
  by (auto simp: verdict_text_def dict_get_def gate_verdict)

lemma write_final_report_verdict:
  "success_verdict (verdict_text (write_final_report pystr env inp counts r)) \<longleftrightarrow>
     success_verdict (verdict_text (attach_two_axis pystr (wi_axis_texts inp) env (wi_axis_files inp) counts
        (finished_report pystr env inp counts r)))"
  by (simp add: write_final_report_def Let_def verdict_text_other claim_gate_success split: sum.split list.split)

text \<open>No writer ships a success without evidence: when the process has a ledger and the gate is on, a written report
  says \<open>reproduced\<close> or \<open>partial\<close> only if an experiment of this process ended well, or one of them was cut short by a
  timeout and left measured work on disk. Neither a forged row in the log of experiments nor forged two-axis artifacts
  change that.\<close>

lemma written_success_is_backed:
  assumes on: "verdict_gate_enabled env"
    and success: "success_verdict (verdict_text (write_final_report pystr env inp (trust_of_ledger (Some ledger)) r))"
  shows "1 \<le> session_success_compatible_count ledger ''run_experiment''
    \<or> 1 \<le> session_partial_timeout_count ledger ''run_experiment''
      \<and> has_partial_timeout_evidence (ef_log (wi_evidence inp)) \<and> \<not> has_experiment_evidence (ef_log (wi_evidence inp))"
proof (cases "session_success_compatible_count ledger ''run_experiment'' = 0")
  case True
  let ?counts = "trust_of_ledger (Some ledger)"
  have ok: "tc_ok_calls ?counts = Some 0" using True by (simp add: trust_of_ledger_def run_experiment_success_count_def)
  have "success_verdict (verdict_text (attach_two_axis pystr (wi_axis_texts inp) env (wi_axis_files inp) ?counts
      (finished_report pystr env inp ?counts r)))"
    using success by (simp only: write_final_report_verdict)
  then have "success_verdict (fp_verdict (finished_report pystr env inp ?counts r))"
    unfolding success_iff_rank by (rule order_trans) (rule attach_clamped [OF ok])
  then have "success_verdict (fp_verdict (apply_evidence_gate (wi_gate_text inp) env (wi_evidence inp) ?counts r))"
    by (rule finished_success)
  then have "\<not> has_experiment_evidence (ef_log (wi_evidence inp)) \<and> partial_tier (ef_log (wi_evidence inp)) ?counts"
    using on ok by (auto simp: gate_verdict_cases backed_run_def)
  then show ?thesis
    by (auto simp: partial_tier_def trust_of_ledger_def run_experiment_partial_timeout_count_def Suc_le_eq)
next
  case False
  then show ?thesis by simp
qed

section \<open>Scores and verdicts\<close>

lemma set_meets_target_get [simp]: "k \<noteq> ''meets_target'' \<Longrightarrow> dict_get (set_meets_target d) k = dict_get d k"
  by (simp add: dict_get_def)

lemma lift_verdict_rubric [simp]:
  "fp_rubric (lift_verdict r) = fp_rubric r" "fp_stop_reason (lift_verdict r) = fp_stop_reason r"
  "fp_degraded (lift_verdict r) = fp_degraded r"
  by (simp_all add: lift_verdict_def)

lemma lift_verdict_reproduced: "fp_verdict r = ''reproduced'' \<Longrightarrow> fp_verdict (lift_verdict r) = ''reproduced''"
  by (simp add: lift_verdict_def)

lemma floor_raises:
  assumes "apply_best_of_run_floor pystr env events rubric = Inr floored" "float_of_json (dict_get rubric ''overall_score'') = Some x"
  shows "\<exists>y\<ge>x. float_of_json (dict_get floored ''overall_score'') = Some y"
  using assms
  by (auto simp: apply_best_of_run_floor_def dict_get_def float_of_json_def split: sum.splits option.splits if_splits)

text \<open>The floor is idempotent.\<close>

lemma floor_idempotent:
  assumes "apply_best_of_run_floor pystr env events rubric = Inr floored"
  shows "apply_best_of_run_floor pystr env events floored = Inr floored"
proof -
  let ?best = "if evidence_fingerprint_enabled env then evidence_aware_best_score pystr events
            else best_recorded_rubric_score events"
  show ?thesis
  proof (cases ?best)
    case (Inr b)
    with assms show ?thesis
      by (cases b) (auto simp: apply_best_of_run_floor_def dict_get_def float_of_json_def split: option.splits if_splits)
  qed (use assms in \<open>simp add: apply_best_of_run_floor_def\<close>)
qed

lemma write_floor_reproduced:
  "fp_verdict r = ''reproduced'' \<Longrightarrow> fp_verdict (write_floor pystr env events r) = ''reproduced''"
  by (simp add: write_floor_def Let_def lift_verdict_reproduced split: sum.split)

lemma write_floor_raises:
  assumes "float_of_json (dict_get (fp_rubric r) ''overall_score'') = Some x"
  shows "\<exists>y\<ge>x. float_of_json (dict_get (fp_rubric (write_floor pystr env events r)) ''overall_score'') = Some y"
proof (cases "apply_best_of_run_floor pystr env events (fp_rubric r)")
  case (Inr floored)
  then show ?thesis using floor_raises [OF Inr assms] assms by (auto simp: write_floor_def Let_def)
qed (use assms in \<open>simp add: write_floor_def\<close>)

lemma cap_keeps_reproduced:
  "fp_verdict r = ''reproduced'' \<Longrightarrow> float_of_json (dict_get (fp_rubric r) ''overall_score'') = Some y \<Longrightarrow> 3 / 5 \<le> y \<Longrightarrow>
     fp_verdict (cap_verdict r) = ''reproduced''"
  by (simp add: cap_verdict_def reconcile_verdict_with_score_def verdict_ceiling_def VERDICT_REPRODUCED_MIN_SCORE_def)

text \<open>C33. The cap for timeouts does not last: a completed run whose only evidence is what a timeout cut short is capped at
  \<open>partial\<close> by the evidence gate and written as \<open>reproduced\<close> when its last verification met the target with at least 0.60.\<close>

theorem partial_cap_undone:
  assumes off: "verdict_gate_enabled env" "\<not> two_axis_enabled env" "\<not> report_claim_gate_enabled env"
    and r: "success_verdict (fp_verdict r)" "clean_completion r"
    and tier: "\<not> has_experiment_evidence (ef_log (wi_evidence inp))" "partial_tier (ef_log (wi_evidence inp)) counts"
    and eval: "wi_evaluation inp = Json_File (JDict deep)"
      "dict_get (merged_rubric deep (fp_rubric r)) ''meets_target'' = JBool True"
      "float_of_json (dict_get (merged_rubric deep (fp_rubric r)) ''overall_score'') = Some x" "3 / 5 \<le> x"
  shows "fp_verdict (apply_evidence_gate (wi_gate_text inp) env (wi_evidence inp) counts r) = ''partial''
    \<and> verdict_text (write_final_report pystr env inp counts r) = ''reproduced''"
proof
  let ?g = "apply_evidence_gate (wi_gate_text inp) env (wi_evidence inp) counts r"
  let ?m = "merge_evaluation (wi_evaluation inp) ?g"
  let ?f = "write_floor pystr env (wi_events inp) ?m"
  show g: "fp_verdict ?g = ''partial''"
    using gate_verdict_cases [OF off(1), of "wi_gate_text inp" "wi_evidence inp" counts r] r tier
    by (auto simp: success_verdict_def backed_run_def)
  have "fp_rubric ?m = merged_rubric deep (fp_rubric r)"
    by (simp add: merge_evaluation_def Let_def eval(1) gate_keeps_rest)
  then have "float_of_json (dict_get (fp_rubric ?m) ''overall_score'') = Some x" using eval(3) by simp
  from write_floor_raises [OF this, of pystr env "wi_events inp"] obtain y where
    y: "x \<le> y" "float_of_json (dict_get (fp_rubric ?f) ''overall_score'') = Some y" by blast
  have rep: "fp_verdict ?m = ''reproduced''"
    using g r(2) eval(2) by (simp add: merge_evaluation_def Let_def eval(1) gate_keeps_rest clean_completion_def lift_verdict_def)
  have "fp_verdict (cap_verdict ?f) = ''reproduced''"
    using y(1) eval(4) by (intro cap_keeps_reproduced [OF write_floor_reproduced [OF rep] y(2)]) simp
  then have "fp_verdict (finished_report pystr env inp counts r) = ''reproduced''" by (simp add: finished_report_def)
  then show "verdict_text (write_final_report pystr env inp counts r) = ''reproduced''"
    using off by (simp add: write_final_report_def Let_def attach_off verdict_text_other split: sum.split list.split)
qed

lemma reconciled_rank: "verdict_rank (reconcile_verdict_with_score v x) \<le> verdict_rank (verdict_ceiling x)"
  by (simp add: reconcile_verdict_with_score_def)

definition score_capped :: "string \<Rightarrow> dict \<Rightarrow> bool" where
  "score_capped v rubric \<longleftrightarrow>
     (case float_of_json (dict_get rubric ''overall_score'') of
        None \<Rightarrow> True
      | Some x \<Rightarrow> verdict_rank v \<le> verdict_rank (verdict_ceiling x))"

definition target_flag_ok :: "dict \<Rightarrow> bool" where
  "target_flag_ok rubric \<longleftrightarrow>
     (case final_meets_target rubric of None \<Rightarrow> True | Some m \<Rightarrow> flag_equals m (dict_get rubric ''meets_target''))"

lemma final_meets_target_cong:
  "dict_get d' ''overall_score'' = dict_get d ''overall_score'' \<Longrightarrow> dict_get d' ''target_score'' = dict_get d ''target_score'' \<Longrightarrow>
     final_meets_target d' = final_meets_target d"
  by (simp add: final_meets_target_def)

lemma flag_equals_refl [simp]: "flag_equals m m"
  by (simp add: flag_equals_def)

lemma final_meets_target_set: "final_meets_target (dict_set d (''meets_target'', m)) = final_meets_target d"
  by (rule final_meets_target_cong) (simp_all add: dict_get_def)

lemma flag_after_set: "final_meets_target d = Some m \<Longrightarrow> target_flag_ok (dict_set d (''meets_target'', m))"
  unfolding target_flag_ok_def final_meets_target_set by (simp add: dict_get_def)

lemma repaired_flag: "target_flag_ok (fp_rubric (repair_meets_target r))"
proof (cases "final_meets_target (fp_rubric r)")
  case (Some m)
  then show ?thesis
    by (cases "flag_equals m (dict_get (fp_rubric r) ''meets_target'')")
      (simp_all add: repair_meets_target_def flag_after_set, simp add: target_flag_ok_def)
qed (simp add: repair_meets_target_def target_flag_ok_def)

lemma set_meets_target_flag: "target_flag_ok d \<Longrightarrow> target_flag_ok (set_meets_target d)"
proof (cases "float_of_json (dict_get d ''overall_score'')"; cases "float_of_json (dict_get d ''target_score'')")
  fix x t
  assume "float_of_json (dict_get d ''overall_score'') = Some x" "float_of_json (dict_get d ''target_score'') = Some t"
  moreover from this have "final_meets_target d = Some (JBool (t \<le> x))"
    by (auto simp: final_meets_target_def Let_def float_of_json_def)
  ultimately show ?thesis by (simp add: set_meets_target_def flag_after_set)
qed (simp_all add: set_meets_target_def)

lemma finished_capped:
  "score_capped (fp_verdict (finished_report pystr env inp counts r)) (fp_rubric (finished_report pystr env inp counts r))"
proof -
  have "score_capped (fp_verdict (repair_meets_target (cap_verdict s))) (fp_rubric (repair_meets_target (cap_verdict s)))" for s
    using reconciled_rank
    by (auto simp: score_capped_def repair_meets_target_def cap_verdict_def dict_get_def split: option.splits)
  then show ?thesis by (simp only: finished_report_def)
qed

lemma report_dict_rubric: "map_of (report_dict r) ''rubric'' = Some (JDict (fp_rubric r))"
  by (simp add: report_dict_def)

lemma claim_gate_rubric:
  assumes "map_of d ''rubric'' = Some (JDict e)"
  shows "map_of (apply_report_claim_gate dumps cite summary m files d) ''rubric'' \<in> {Some (JDict e), Some (JDict (set_meets_target e))}"
  using assms unfolding apply_report_claim_gate_def Let_def
  by (simp add: get_on_dict get_on_dict_same split: json.split prod.split option.split)

lemma claim_gate_capped:
  assumes "score_capped (verdict_text d) e"
  shows "score_capped (verdict_text (apply_report_claim_gate dumps cite summary m files d)) e"
  using assms
  by (auto simp: score_capped_def verdict_text_def dict_get_def gate_verdict verdict_rank_def split: option.splits if_splits)

lemma score_capped_meets [simp]: "score_capped v (set_meets_target d) \<longleftrightarrow> score_capped v d"
  by (simp add: score_capped_def)

text \<open>C32. Without the two-axis verdict the written report is consistent: its verdict is at most what its score supports, and
  its target flag is what its score and its target say.\<close>

theorem written_report_consistent:
  assumes "\<not> two_axis_enabled env"
  shows "\<exists>rubric. map_of (write_final_report pystr env inp counts r) ''rubric'' = Some (JDict rubric)
    \<and> score_capped (verdict_text (write_final_report pystr env inp counts r)) rubric \<and> target_flag_ok rubric"
proof -
  let ?done = "finished_report pystr env inp counts r"
  let ?gated = "if report_claim_gate_enabled env
     then apply_report_claim_gate (wi_dumps inp) (wi_claim_text inp) (fp_summary ?done) (fp_reported_metrics ?done) (wi_measured inp)
            (report_dict ?done)
     else report_dict ?done"
  have flag: "target_flag_ok (fp_rubric ?done)" unfolding finished_report_def by (rule repaired_flag)
  have "\<exists>e. map_of ?gated ''rubric'' = Some (JDict e) \<and> score_capped (verdict_text ?gated) e \<and> target_flag_ok e"
  proof (cases "report_claim_gate_enabled env")
    case True
    have "score_capped (verdict_text ?gated) (fp_rubric ?done)"
      using True finished_capped claim_gate_capped by simp
    then show ?thesis
      using claim_gate_rubric [OF report_dict_rubric [of ?done], of "wi_dumps inp" "wi_claim_text inp" "fp_summary ?done"
          "fp_reported_metrics ?done" "wi_measured inp"] flag set_meets_target_flag [OF flag] True by auto
  next
    case False
    then show ?thesis using flag finished_capped by (simp add: report_dict_rubric)
  qed
  then show ?thesis
    using assms by (auto simp: write_final_report_def Let_def attach_off verdict_text_other split: sum.split list.split)
qed

section \<open>Runs\<close>

lemma quiet_env_flags:
  "verdict_gate_enabled quiet_env" "\<not> two_axis_enabled quiet_env" "\<not> report_claim_gate_enabled quiet_env"
  "\<not> evidence_fingerprint_enabled quiet_env" "\<not> evidence_audit_enabled quiet_env"
  by code_simp+

definition demo_row :: "(string \<times> json) list \<Rightarrow> json" where
  "demo_row kvs = JDict (kvs @ [(''metrics'', JDict [(''accuracy'', JFloat (9 / 10))])])"

definition demo_write_inputs :: "json list \<Rightarrow> json_file \<Rightarrow> write_inputs" where
  "demo_write_inputs rows evaluation =
     \<lparr>wi_gate_text = (\<lambda>_. []), wi_claim_text = (\<lambda>_. []), wi_dumps = demo_str, wi_axis_texts = demo_texts,
      wi_evidence = \<lparr>ef_log = Some (map Some rows), ef_candidates = [], ef_code_metrics = No_File, ef_provenance = False\<rparr>,
      wi_evaluation = evaluation, wi_events = None, wi_axis_files = demo_two_axis_files No_File, wi_measured = []\<rparr>"

definition demo_final_report :: final_report where
  "demo_final_report =
     \<lparr>fp_verdict = ''partial'', fp_summary = [], fp_baseline_metrics = [], fp_reported_metrics = JDict [], fp_rubric = [],
      fp_stop_reason = JNull, fp_degraded = False, fp_rest = []\<rparr>"

definition demo_ledger :: "string \<Rightarrow> cost_ledger" where
  "demo_ledger outcome =
     make_ledger ''p'' [] False 1 \<lparr>cl_entries := [some_entry outcome]\<rparr>"

lemma demo_ledger_counts:
  "session_success_compatible_count (demo_ledger ''ok'') ''run_experiment'' = 1"
  "session_partial_timeout_count (demo_ledger ''partial_timeout'') ''run_experiment'' = 1"
  "session_call_count (demo_ledger outcome) ''run_experiment'' = 1"
  "session_success_compatible_count (demo_ledger ''partial_timeout'') ''run_experiment'' = 0"
  by (simp_all add: demo_ledger_def make_ledger_def session_success_compatible_count_def session_partial_timeout_count_def
      session_call_count_def session_entries_def some_entry_def from_usage_def)

lemma demo_rows:
  "success_row (demo_row [(''success'', JBool True)])" "\<not> success_row (demo_row [(''partial_timeout'', JBool True)])"
  "partial_timeout_row (demo_row [(''partial_timeout'', JBool True)])"
  by (simp_all add: demo_row_def success_row_def partial_timeout_row_def nonempty_metrics_def dict_get_def)

lemma demo_log [simp]: "log_entries (Some (map Some rows)) = rows"
  by (induction rows) (simp_all add: log_entries_def List.map_filter_simps)

lemma demo_written_partial:
  assumes "tc_calls counts \<noteq> Some 0" "tc_ok_calls counts \<noteq> Some 0"
  shows "verdict_text (write_final_report pystr quiet_env (demo_write_inputs [demo_row [(''success'', JBool True)]] No_File) counts
     demo_final_report) = ''partial''"
proof -
  have "apply_evidence_gate (\<lambda>_. []) quiet_env (wi_evidence (demo_write_inputs [demo_row [(''success'', JBool True)]] No_File))
      counts demo_final_report = demo_final_report"
    using assms
    by (simp add: apply_evidence_gate_def Let_def demo_write_inputs_def quiet_env_flags audit_vetoes_def has_experiment_evidence_def
        forged_evidence_def log_entries_def List.map_filter_simps demo_rows)
  then show ?thesis
    by (simp add: write_final_report_def Let_def attach_off quiet_env_flags finished_report_def verdict_text_other
        collect_degradations_def event_lines_def demo_write_inputs_def merge_evaluation_def write_floor_def clean_completion_def
        demo_final_report_def apply_best_of_run_floor_def best_recorded_rubric_score_def cap_verdict_def dict_get_def
        float_of_json_def)
qed

lemma written_report_consistent_witness:
  "\<exists>rubric. map_of (write_final_report demo_str quiet_env (demo_write_inputs [demo_row [(''success'', JBool True)]] No_File)
      (trust_of_ledger (Some (demo_ledger ''ok''))) demo_final_report) ''rubric'' = Some (JDict rubric) \<and> target_flag_ok rubric"
  using written_report_consistent [OF quiet_env_flags(2)] by blast

definition demo_evaluation :: dict where
  "demo_evaluation = [(''overall_score'', JFloat (7 / 10)), (''target_score'', JFloat (6 / 10))]"

lemma demo_merged:
  "merged_rubric demo_evaluation [] =
     [(''overall_score'', JFloat (7 / 10)), (''target_score'', JFloat (6 / 10)), (''meets_target'', JBool True)]"
  by (simp add: merged_rubric_def fill_deep_def take_over_def eval_wins_def demo_evaluation_def DEEP_KEYS_def dict_get_def dict_set_def
      set_meets_target_def float_of_json_def)

lemma partial_cap_undone_witness:
  "verdict_text (write_final_report demo_str quiet_env
      (demo_write_inputs [demo_row [(''partial_timeout'', JBool True)]] (Json_File (JDict demo_evaluation)))
      (trust_of_ledger (Some (demo_ledger ''partial_timeout''))) demo_final_report) = ''reproduced''"
proof -
  let ?inp = "demo_write_inputs [demo_row [(''partial_timeout'', JBool True)]] (Json_File (JDict demo_evaluation))"
  have tier: "\<not> has_experiment_evidence (ef_log (wi_evidence ?inp))"
      "partial_tier (ef_log (wi_evidence ?inp)) (trust_of_ledger (Some (demo_ledger ''partial_timeout'')))"
    by (simp_all add: demo_write_inputs_def has_experiment_evidence_def partial_tier_def has_partial_timeout_evidence_def log_entries_def
        List.map_filter_simps demo_rows trust_of_ledger_def run_experiment_call_count_def run_experiment_partial_timeout_count_def
        demo_ledger_counts)
  have r: "success_verdict (fp_verdict demo_final_report)" "clean_completion demo_final_report"
    by (simp_all add: demo_final_report_def clean_completion_def)
  have eval: "wi_evaluation ?inp = Json_File (JDict demo_evaluation)"
      "dict_get (merged_rubric demo_evaluation (fp_rubric demo_final_report)) ''meets_target'' = JBool True"
      "float_of_json (dict_get (merged_rubric demo_evaluation (fp_rubric demo_final_report)) ''overall_score'') = Some (7 / 10)"
    by (simp_all add: demo_write_inputs_def demo_final_report_def demo_merged dict_get_def float_of_json_def)
  show ?thesis
    using partial_cap_undone [OF quiet_env_flags(1-3) r tier eval] by simp
qed

end
