(* ===== verification/Primitive_Dispatch.thy ===== *)
theory Primitive_Dispatch
  imports Report_Evidence
begin

text \<open>
  A call of a primitive from the REPL, \<open>wrap_primitive\<close> of \<^verbatim>\<open>src/backend/agents/rlm/binding.py\<close>: the repair of
  arguments, the guards in front of the call (\<^verbatim>\<open>arg_contracts.py\<close>), the cap on its time, the row in the cost ledger,
  the record in the lifecycle ledger (\<^verbatim>\<open>lifecycle_ledger.py\<close>) and the operator messages that ride on its result. Arguments
  and results are the values of JSON. What the primitive does is an argument: a value, an exception, or no answer in time.
\<close>

section \<open>Parameters and arguments\<close>

datatype annotation = Ann_Str | Ann_Int | Ann_Other

text \<open>A parameter of the signature; \<open>ctx\<close> is one of them.\<close>

record primitive_param =
  pp_name :: string
  pp_annotation :: annotation
  pp_keyword_only :: bool
  pp_default :: "json option"

definition py_isdigit :: "char \<Rightarrow> bool" where
  "py_isdigit c \<longleftrightarrow> py_digit c \<or> (of_char c :: nat) \<in> {178, 179, 185}"

text \<open>One argument, with whether it was changed; \<open>None\<close> when \<open>int\<close> raises.\<close>

definition coerce_arg :: "(json \<Rightarrow> string) \<Rightarrow> annotation \<Rightarrow> json \<Rightarrow> (json \<times> bool) option" where
  "coerce_arg pystr ann v =
     (case ann of
        Ann_Str \<Rightarrow>
          (case v of
             JInt _ \<Rightarrow> Some (JStr (pystr v), True)
           | JFloat _ \<Rightarrow> Some (JStr (pystr v), True)
           | JBool _ \<Rightarrow> Some (JStr (pystr v), True)
           | _ \<Rightarrow> Some (v, False))
      | Ann_Int \<Rightarrow>
          (case v of
             JStr s \<Rightarrow>
               (let t = py_strip s; ds = dropWhile (\<lambda>c. c = CHR ''-'') t in
                if ds \<noteq> [] \<and> list_all py_isdigit ds then map_option (\<lambda>i. (JInt i, True)) (int_text t) else Some (v, False))
           | _ \<Rightarrow> Some (v, False))
      | Ann_Other \<Rightarrow> Some (v, False))"

definition coerced_params :: "primitive_param list \<Rightarrow> primitive_param list" where
  "coerced_params params = filter (\<lambda>p. \<not> pp_keyword_only p \<and> pp_name p \<noteq> ''ctx'') params"

definition coerce_args :: "(json \<Rightarrow> string) \<Rightarrow> primitive_param list \<Rightarrow> json list \<Rightarrow> json list \<times> bool" where
  "coerce_args pystr params args =
     (let ps = coerced_params params in
      case those (map (\<lambda>(p, v). coerce_arg pystr (pp_annotation p) v) (zip ps args)) of
        None \<Rightarrow> (args, False)
      | Some rs \<Rightarrow> (map fst rs @ drop (length ps) args, list_ex snd rs))"

section \<open>The guard of \<open>run_experiment\<close>\<close>

definition type_name :: "json \<Rightarrow> string" where
  "type_name j =
     (case j of
        JNull \<Rightarrow> ''NoneType'' | JBool _ \<Rightarrow> ''bool'' | JInt _ \<Rightarrow> ''int'' | JFloat _ \<Rightarrow> ''float'' | JStr _ \<Rightarrow> ''str''
      | JList _ \<Rightarrow> ''list'' | JDict _ \<Rightarrow> ''dict'')"

definition contract_failure :: "string \<Rightarrow> string \<Rightarrow> string \<Rightarrow> dict" where
  "contract_failure err detail hint =
     [(''success'', JBool False), (''metrics'', JDict []), (''failure_class'', JStr ''contract_guard''),
      (''source'', JStr ''contract_guard''), (''error'', JStr err),
      (''contract_violations'',
       JList [JDict [(''area'', JStr ''Experiment execution and reproducibility''), (''detail'', JStr detail), (''hint'', JStr hint)]])]"

definition quoted :: "string \<Rightarrow> string" where
  "quoted s = [CHR 0x27] @ s @ [CHR 0x27]"

text \<open>The arguments to go on with, or the result that takes the place of the call.\<close>

definition run_experiment_contract_guard :: "(json \<Rightarrow> string) \<Rightarrow> json list \<Rightarrow> dict + json list" where
  "run_experiment_contract_guard pystr args =
     (case args of
        [] \<Rightarrow>
          Inl (contract_failure ''run_experiment: missing code_path argument'' ''code_path argument was omitted''
            ''Call run_experiment only with a string path or an implement_baseline ok=true envelope.'')
      | v # rest \<Rightarrow>
          (let envelope = (case v of
                 JDict d \<Rightarrow>
                   if dict_get d ''ok'' = JBool True \<and> py_strip (str_or_empty pystr (dict_get d ''code_path'')) \<noteq> []
                   then Some (str_or_empty pystr (dict_get d ''code_path'')) else None
               | _ \<Rightarrow> None);
               usable = (case v of JStr s \<Rightarrow> py_strip s \<noteq> [] | _ \<Rightarrow> False)
           in case envelope of
                Some path \<Rightarrow> Inr (JStr path # rest)
              | None \<Rightarrow>
                  if usable then Inr args
                  else Inl (contract_failure
                    (''run_experiment: code_path must be a non-empty string path or an implement_baseline ok=true envelope, got ''
                       @ type_name v)
                    (''code_path was '' @ quoted (type_name v) @ '', not a usable baseline path'')
                    (''Never forward an implement_baseline ok=false/error dict to run_experiment. ''
                       @ ''Call propose_improvements or retry implement_baseline instead.''))))"

section \<open>Placeholders in arguments\<close>

definition arg_contracts_enabled :: "environ \<Rightarrow> bool" where
  "arg_contracts_enabled env = opted_in env ''OPENRESEARCH_ARG_CONTRACTS''"

definition SENTINELS :: "string list" where
  "SENTINELS = [''unknown'', ''tbd'', ''n/a'', ''na'', ''placeholder'', ''todo'', ''fixme'', ''xxx'', ''tba'']"

definition PRIMITIVE_ARG_CONTRACTS :: "(string \<times> string list) list" where
  "PRIMITIVE_ARG_CONTRACTS = [(''plan_reproduction'', [''method_spec'', ''paper_claim_map''])]"

definition is_sentinel :: "string \<Rightarrow> bool" where
  "is_sentinel v \<longleftrightarrow> (let s = py_strip v in s = [] \<or> py_lower s \<in> set SENTINELS)"

text \<open>The text leaves below a value that are placeholders, each with its path.\<close>

fun scan_value :: "string \<Rightarrow> json \<Rightarrow> (string \<times> string) list"
  and scan_items :: "string \<Rightarrow> (string \<times> json) list \<Rightarrow> (string \<times> string) list"
  and scan_list :: "string \<Rightarrow> nat \<Rightarrow> json list \<Rightarrow> (string \<times> string) list" where
  "scan_value path (JStr s) = (if is_sentinel s then [(path, s)] else [])"
| "scan_value path (JDict items) = scan_items path items"
| "scan_value path (JList l) = scan_list path 0 l"
| "scan_value path _ = []"
| "scan_items path [] = []"
| "scan_items path ((k, v) # items) = scan_value (path @ ''.'' @ k) v @ scan_items path items"
| "scan_list path i [] = []"
| "scan_list path i (v # l) = scan_value (path @ ''['' @ str_of_nat i @ '']'') v @ scan_list path (Suc i) l"

text \<open>\<open>signature.bind_partial\<close> with the defaults applied; \<open>None\<close> when it raises.\<close>

definition bind_partial :: "primitive_param list \<Rightarrow> json list \<Rightarrow> dict \<Rightarrow> dict option" where
  "bind_partial params args kwargs =
     (let positional = filter (\<lambda>p. \<not> pp_keyword_only p) params; bound = zip (map pp_name positional) args in
      if length args > length positional
         \<or> list_ex (\<lambda>(k, _). k \<in> fst ` set bound \<or> k \<notin> pp_name ` set params) kwargs
      then None
      else Some (bound @ kwargs
        @ List.map_filter (\<lambda>p. if pp_name p \<in> fst ` set (bound @ kwargs) then None
             else map_option (\<lambda>v. (pp_name p, v)) (pp_default p)) params))"

definition arg_violations :: "dict \<Rightarrow> string list \<Rightarrow> (string \<times> string) list" where
  "arg_violations bound declared =
     take 5 (concat (map (\<lambda>p. case map_of bound p of None \<Rightarrow> [] | Some v \<Rightarrow> scan_value p v) declared))"

fun comma_join :: "string list \<Rightarrow> string" where
  "comma_join [] = []"
| "comma_join [s] = s"
| "comma_join (s # ss) = s @ '', '' @ comma_join ss"

definition arg_failure :: "(string \<Rightarrow> string) \<Rightarrow> string \<Rightarrow> (string \<times> string) list \<Rightarrow> dict" where
  "arg_failure pyrepr name violations =
     [(''success'', JBool False), (''failure_class'', JStr ''arg_contract''), (''source'', JStr ''arg_guard''),
      (''error'',
       JStr (name @ '': '' @ str_of_nat (length violations)
         @ '' argument(s) contain placeholder values that must be real tokens from the paper: [''
         @ comma_join (map (\<lambda>(p, v). p @ ''='' @ pyrepr v) violations) @ '']'')),
      (''contract_violations'',
       JList (map (\<lambda>(p, v).
         JDict [(''area'', JStr ''Argument grounding''), (''detail'', JStr (p @ '' was the placeholder '' @ pyrepr v)),
           (''hint'',
            JStr (''Extract the REAL value from the paper (understand_section/extract_hyperparameters) and pass it verbatim; never ''
              @ quoted ''unknown'' @ '', '' @ quoted ''tbd'' @ '', or an empty string as a placeholder.''))]) violations))]"

definition validate_primitive_args ::
    "(string \<Rightarrow> string) \<Rightarrow> environ \<Rightarrow> string \<Rightarrow> primitive_param list \<Rightarrow> json list \<Rightarrow> dict \<Rightarrow> dict option" where
  "validate_primitive_args pyrepr env name params args kwargs =
     (if \<not> arg_contracts_enabled env then None
      else
        (case (map_of PRIMITIVE_ARG_CONTRACTS name, bind_partial params args kwargs) of
           (Some declared, Some bound) \<Rightarrow>
             (case arg_violations bound declared of [] \<Rightarrow> None | v # vs \<Rightarrow> Some (arg_failure pyrepr name (v # vs)))
         | _ \<Rightarrow> None))"

section \<open>The lifecycle ledger\<close>

record lifecycle_record =
  lr_primitive :: string
  lr_seq :: int
  lr_inputs :: dict
  lr_outputs :: dict
  lr_evidence_keys :: "json list"
  lr_outcome :: string
  lr_iteration :: int

definition VALID_OUTCOMES :: "string list" where
  "VALID_OUTCOMES = [''ok'', ''failed'', ''raised'', ''timeout'']"

definition lifecycle_ledger_enabled :: "environ \<Rightarrow> bool" where
  "lifecycle_ledger_enabled env = opted_in env ''OPENRESEARCH_LIFECYCLE_LEDGER''"

definition project_plan_reproduction :: "dict \<Rightarrow> dict" where
  "project_plan_reproduction kwargs =
     [(''section_ids'',
       JList (case dict_get kwargs ''section_ids'' of
                JList l \<Rightarrow> filter (\<lambda>v. case v of JStr _ \<Rightarrow> True | JInt _ \<Rightarrow> True | JBool _ \<Rightarrow> True | _ \<Rightarrow> False) l
              | _ \<Rightarrow> [])),
      (''hparam_keys'',
       JList (case dict_get kwargs ''hyperparameters'' of JDict d \<Rightarrow> map (\<lambda>kv. JStr (fst kv)) d | _ \<Rightarrow> []))]"

definition text_of_get :: "(json \<Rightarrow> string) \<Rightarrow> dict \<Rightarrow> string \<Rightarrow> string" where
  "text_of_get pystr d k = (case map_of d k of None \<Rightarrow> [] | Some v \<Rightarrow> pystr v)"

definition project_implement_baseline :: "(json \<Rightarrow> string) \<Rightarrow> dict \<Rightarrow> dict" where
  "project_implement_baseline pystr kwargs =
     [(''plan_present'', JBool (py_truthy (dict_get kwargs ''plan''))),
      (''repair_context_present'', JBool (py_truthy (dict_get kwargs ''repair_context''))),
      (''sandbox_mode'', JStr (text_of_get pystr kwargs ''sandbox_mode'')),
      (''gpu_mode'', JStr (text_of_get pystr kwargs ''gpu_mode''))]"

definition project_run_experiment :: "(json \<Rightarrow> string) \<Rightarrow> dict \<Rightarrow> dict" where
  "project_run_experiment pystr kwargs =
     [(''env_id'', JStr (text_of_get pystr kwargs ''env_id'')), (''code_present'', JBool (py_truthy (dict_get kwargs ''code'')))]"

definition project_inputs :: "(json \<Rightarrow> string) \<Rightarrow> string \<Rightarrow> dict \<Rightarrow> dict" where
  "project_inputs pystr name kwargs =
     (if name = ''plan_reproduction'' then project_plan_reproduction kwargs
      else if name = ''implement_baseline'' then project_implement_baseline pystr kwargs
      else if name = ''run_experiment'' then project_run_experiment pystr kwargs
      else [])"

text \<open>The file is what its lines parse to; \<open>stamp\<close> is the time of the write.\<close>

definition record_entry :: "string \<Rightarrow> lifecycle_record \<Rightarrow> json" where
  "record_entry stamp r =
     JDict [(''primitive'', JStr (lr_primitive r)), (''seq'', JInt (lr_seq r)), (''inputs_projection'', JDict (lr_inputs r)),
       (''outputs_pointer'', JDict (lr_outputs r)), (''evidence_keys'', JList (lr_evidence_keys r)), (''outcome'', JStr (lr_outcome r)),
       (''iteration'', JInt (lr_iteration r)), (''ts'', JStr stamp)]"

definition append_record :: "environ \<Rightarrow> string \<Rightarrow> lifecycle_record \<Rightarrow> json_log \<Rightarrow> json_log" where
  "append_record env stamp r file =
     (if lifecycle_ledger_enabled env
      then Some ((case file of None \<Rightarrow> [] | Some ls \<Rightarrow> ls) @ [Some (record_entry stamp r)]) else file)"

text \<open>\<open>dict(v or {})\<close> and \<open>list(v or [])\<close>; \<open>None\<close> is a \<open>TypeError\<close> or a \<open>ValueError\<close>. A list of pairs is a dict when the
  first parts are texts (a key that is no text has no value of JSON and counts as an error here).\<close>

definition pair_of :: "json \<Rightarrow> (string \<times> json) option" where
  "pair_of j =
     (case j of
        JList [JStr k, v] \<Rightarrow> Some (k, v)
      | JStr [a, b] \<Rightarrow> Some ([a], JStr [b])
      | JDict [(k, _), (k', _)] \<Rightarrow> Some (k, JStr k')
      | _ \<Rightarrow> None)"

definition dict_of :: "json \<Rightarrow> dict option" where
  "dict_of j =
     (if \<not> py_truthy j then Some []
      else
        (case j of
           JDict d \<Rightarrow> Some d
         | JList l \<Rightarrow> map_option (foldl dict_set []) (those (map pair_of l))
         | _ \<Rightarrow> None))"

definition list_of :: "json \<Rightarrow> json list option" where
  "list_of j = (if \<not> py_truthy j then Some [] else (case py_iter j of Inl _ \<Rightarrow> None | Inr l \<Rightarrow> Some l))"

definition int_of_get :: "dict \<Rightarrow> string \<Rightarrow> int option" where
  "int_of_get d k = (case map_of d k of None \<Rightarrow> Some 0 | Some v \<Rightarrow> int_of_json v)"

definition parse_record :: "(json \<Rightarrow> string) \<Rightarrow> dict \<Rightarrow> lifecycle_record option" where
  "parse_record pystr d =
     (case (int_of_get d ''seq'', dict_of (dict_get d ''inputs_projection''), dict_of (dict_get d ''outputs_pointer''),
            list_of (dict_get d ''evidence_keys''), int_of_get d ''iteration'') of
        (Some q, Some inp, Some out, Some ev, Some it) \<Rightarrow>
          if text_of_get pystr d ''outcome'' \<in> set VALID_OUTCOMES then
            Some \<lparr>lr_primitive = text_of_get pystr d ''primitive'', lr_seq = q, lr_inputs = inp, lr_outputs = out, lr_evidence_keys = ev,
                  lr_outcome = text_of_get pystr d ''outcome'', lr_iteration = it\<rparr>
          else None
      | _ \<Rightarrow> None)"

text \<open>A line that is JSON and no object raises \<open>AttributeError\<close>, which only the outer handler catches.\<close>

definition read_records :: "(json \<Rightarrow> string) \<Rightarrow> json_log \<Rightarrow> lifecycle_record list" where
  "read_records pystr file =
     (if list_ex (\<lambda>j. case j of JDict _ \<Rightarrow> False | _ \<Rightarrow> True) (log_entries file) then []
      else List.map_filter (\<lambda>j. case j of JDict d \<Rightarrow> parse_record pystr d | _ \<Rightarrow> None) (log_entries file))"

section \<open>Operator messages\<close>

definition STEERING_INJECT_PRIMITIVES :: "string list" where
  "STEERING_INJECT_PRIMITIVES =
     [''run_experiment'', ''verify_against_rubric'', ''implement_baseline'', ''plan_reproduction'', ''propose_improvements'']"

definition inject_steering_enabled :: "environ \<Rightarrow> bool" where
  "inject_steering_enabled env \<longleftrightarrow>
     py_lower (py_strip (environ_get env ''OPENRESEARCH_INJECT_STEERING'' [])) \<notin> set [''0'', ''false'', ''off'']"

definition read_cursor :: "json_file \<Rightarrow> int" where
  "read_cursor f =
     (case f of
        Json_File (JDict d) \<Rightarrow> (case int_of_get d ''offset'' of None \<Rightarrow> 0 | Some i \<Rightarrow> i)
      | _ \<Rightarrow> 0)"

definition slice_from :: "int \<Rightarrow> 'a list \<Rightarrow> 'a list" where
  "slice_from i l = (if i \<ge> 0 then drop (nat i) l else drop (nat (int (length l) + i)) l)"

definition user_message :: "(json \<Rightarrow> string) \<Rightarrow> json option \<Rightarrow> string option" where
  "user_message pystr line =
     (case line of
        Some (JDict d) \<Rightarrow>
          if dict_get d ''role'' = JStr ''user'' \<and> py_strip (text_of_get pystr d ''content'') \<noteq> []
          then Some (take 600 (text_of_get pystr d ''content'')) else None
      | _ \<Rightarrow> None)"

definition last_three :: "'a list \<Rightarrow> 'a list" where
  "last_three l = drop (length l - 3) l"

text \<open>The lines of the message file that are not blank, and the cursor file; the result and the cursor afterwards.\<close>

definition inject_operator_messages ::
    "(json \<Rightarrow> string) \<Rightarrow> string \<Rightarrow> environ \<Rightarrow> string \<Rightarrow> json_log \<Rightarrow> json_file \<Rightarrow> json \<Rightarrow> json \<times> json_file" where
  "inject_operator_messages pystr steering_text env name messages cursor result =
     (case (result, messages) of
        (JDict d, Some ls) \<Rightarrow>
          if \<not> inject_steering_enabled env \<or> name \<notin> set STEERING_INJECT_PRIMITIVES then (result, cursor)
          else
            (let fresh = List.map_filter (user_message pystr) (slice_from (read_cursor cursor) ls) in
             (if fresh = [] then result
              else JDict (foldl dict_set d
                [(''operator_messages'', JList (map JStr (last_three fresh))), (''operator_messages_note'', JStr steering_text)]),
              Json_File (JDict [(''offset'', JInt (int (length ls)))])))
      | _ \<Rightarrow> (result, cursor))"

section \<open>A call\<close>

definition LONG_RUNNING_PRIMITIVES :: "(string \<times> nat) list" where
  "LONG_RUNNING_PRIMITIVES = [(''run_experiment'', 28800), (''implement_baseline'', 21600)]"

definition PRIMITIVE_TIMEOUT_S :: "(string \<times> nat) list" where
  "PRIMITIVE_TIMEOUT_S =
     [(''understand_section'', 300), (''extract_hyperparameters'', 300), (''detect_environment'', 600), (''plan_reproduction'', 600),
      (''verify_against_rubric'', 600), (''propose_improvements'', 300), (''check_user_messages'', 30), (''respond_to_user'', 30),
      (''record_candidate_outcome'', 60), (''heartbeat'', 30)]"

definition DEFAULT_PRIMITIVE_TIMEOUT_S :: nat where "DEFAULT_PRIMITIVE_TIMEOUT_S = 1800"

definition primitive_timeout :: "string \<Rightarrow> nat" where
  "primitive_timeout name =
     (case map_of LONG_RUNNING_PRIMITIVES name of
        Some t \<Rightarrow> t
      | None \<Rightarrow> (case map_of PRIMITIVE_TIMEOUT_S name of Some t \<Rightarrow> t | None \<Rightarrow> DEFAULT_PRIMITIVE_TIMEOUT_S))"

text \<open>How the thread of a primitive ends: with a value, with an exception of a type, or without an answer, in which case so
  many process groups are killed. A body that raises \<open>TimeoutError\<close> ends the last way whatever the time: since Python 3.11 it
  is the class that waiting raises. So does one that raises \<open>SystemExit\<close>, which the thread does not catch.\<close>

datatype primitive_end = Body_Returned json | Body_Threw string | Body_Hung nat

record primitive_call =
  pc_name :: string
  pc_params :: "primitive_param list"
  pc_args :: "json list"
  pc_kwargs :: dict
  pc_body :: "json list \<Rightarrow> dict \<Rightarrow> primitive_end"
  pc_now :: time
  pc_stamp :: string
  pc_usage :: usage
  pc_iteration :: int
  pc_metrics_exists :: bool
  pc_messages :: json_log
  pc_emit_raises :: bool

record dispatch_cfg =
  dc_env :: environ
  dc_provider :: provider
  dc_model :: string
  dc_str :: "json \<Rightarrow> string"
  dc_repr :: "string \<Rightarrow> string"
  dc_render :: "ledger_entry \<Rightarrow> string"
  dc_steering_text :: string

record dispatch_state =
  ds_ledger :: "cost_ledger \<times> ledger_file"
  ds_lifecycle :: json_log
  ds_cursor :: json_file

definition hung_result :: "string \<Rightarrow> nat \<Rightarrow> json" where
  "hung_result name killed =
     JDict [(''outcome'', JStr ''retryable''), (''error'', JStr ''primitive_hung''), (''primitive'', JStr name),
       (''wall_clock_s'', JInt (int (primitive_timeout name))), (''orphan_groups_killed'', JInt (int killed))]"

text \<open>The keyword arguments, without a \<open>ctx\<close> of the caller's own.\<close>

definition call_kwargs :: "primitive_call \<Rightarrow> dict" where
  "call_kwargs c = filter (\<lambda>kv. fst kv \<noteq> ''ctx'') (pc_kwargs c)"

text \<open>The guards, then the thread: the result, or the type of the exception.\<close>

definition guarded_args :: "dispatch_cfg \<Rightarrow> primitive_call \<Rightarrow> dict + json list" where
  "guarded_args cfg c =
     (let args = fst (coerce_args (dc_str cfg) (pc_params c) (pc_args c)) in
      case (if pc_name c = ''run_experiment'' then run_experiment_contract_guard (dc_str cfg) args else Inr args) of
        Inl g \<Rightarrow> Inl g
      | Inr args' \<Rightarrow>
          (case validate_primitive_args (dc_repr cfg) (dc_env cfg) (pc_name c) (pc_params c) args' (call_kwargs c) of
             Some g \<Rightarrow> Inl g
           | None \<Rightarrow> Inr args'))"

definition call_result :: "dispatch_cfg \<Rightarrow> primitive_call \<Rightarrow> string + json" where
  "call_result cfg c =
     (case guarded_args cfg c of
        Inl g \<Rightarrow> Inr (JDict g)
      | Inr args \<Rightarrow>
          (case pc_body c args (call_kwargs c) of
             Body_Returned v \<Rightarrow> Inr v
           | Body_Threw t \<Rightarrow> Inl t
           | Body_Hung killed \<Rightarrow> Inr (hung_result (pc_name c) killed)))"

definition result_failed :: "json \<Rightarrow> bool" where
  "result_failed r =
     (case r of JDict d \<Rightarrow> dict_get d ''success'' = JBool False \<or> py_truthy (dict_get d ''error'') | _ \<Rightarrow> False)"

definition says_partial_timeout :: "json \<Rightarrow> bool" where
  "says_partial_timeout r =
     (case r of
        JDict d \<Rightarrow> dict_get d ''partial_timeout'' = JBool True \<or> dict_get d ''failure_class'' = JStr ''partial_timeout''
      | _ \<Rightarrow> False)"

definition ledger_outcome :: "string + json \<Rightarrow> string" where
  "ledger_outcome res =
     (case res of
        Inl _ \<Rightarrow> ''raised''
      | Inr r \<Rightarrow>
          if result_failed r \<and> says_partial_timeout r then ''partial_timeout'' else if result_failed r then ''failed'' else ''ok'')"

definition lifecycle_outcome :: "json \<Rightarrow> string" where
  "lifecycle_outcome r =
     (if (case r of
            JDict d \<Rightarrow> dict_get d ''outcome'' = JStr ''retryable'' \<and> dict_get d ''error'' = JStr ''primitive_hung''
          | _ \<Rightarrow> False)
         \<or> result_failed r \<and> says_partial_timeout r
      then ''timeout'' else if result_failed r then ''failed'' else ''ok'')"

definition outputs_pointer :: "dispatch_cfg \<Rightarrow> primitive_call \<Rightarrow> json \<Rightarrow> dict" where
  "outputs_pointer cfg c r =
     [(''code_dir'', JStr ''code'')]
     @ (if pc_metrics_exists c then [(''metrics'', JStr ''code/metrics.json'')] else [])
     @ (case r of
          JDict d \<Rightarrow> if py_truthy (dict_get d ''env_id'') then [(''env_id'', JStr (dc_str cfg (dict_get d ''env_id'')))] else []
        | _ \<Rightarrow> [])"

definition call_row :: "dispatch_cfg \<Rightarrow> primitive_call \<Rightarrow> ledger_entry" where
  "call_row cfg c =
     from_usage (pc_now c) (pc_name c) 0 (dc_provider cfg) (dc_model cfg) (pc_usage c) (ledger_outcome (call_result cfg c)) (pc_iteration c)"

definition call_record :: "dispatch_cfg \<Rightarrow> primitive_call \<Rightarrow> int \<Rightarrow> lifecycle_record" where
  "call_record cfg c seq =
     \<lparr>lr_primitive = pc_name c, lr_seq = seq, lr_inputs = project_inputs (dc_str cfg) (pc_name c) (call_kwargs c),
      lr_outputs = (case call_result cfg c of Inl t \<Rightarrow> [(''error_type'', JStr t)] | Inr r \<Rightarrow> outputs_pointer cfg c r),
      lr_evidence_keys = [],
      lr_outcome = (case call_result cfg c of Inl _ \<Rightarrow> ''raised'' | Inr r \<Rightarrow> lifecycle_outcome r),
      lr_iteration = pc_iteration c\<rparr>"

text \<open>What comes back: \<open>None\<close> is an exception. The events behind a success can raise (\<open>pc_emit_raises\<close>), after the row and
  before the record.\<close>

definition emission_raises :: "dispatch_cfg \<Rightarrow> primitive_call \<Rightarrow> bool" where
  "emission_raises cfg c = (case call_result cfg c of Inl _ \<Rightarrow> False | Inr r \<Rightarrow> pc_emit_raises c \<and> \<not> result_failed r)"

definition wrap_primitive :: "dispatch_cfg \<Rightarrow> dispatch_state \<Rightarrow> primitive_call \<Rightarrow> dispatch_state \<times> json option" where
  "wrap_primitive cfg s c =
     (let ledger = ledger_append (dc_render cfg) (ds_ledger s) (call_row cfg c);
          seq = int (length (cl_entries (fst ledger)));
          lifecycle = (if emission_raises cfg c then ds_lifecycle s
            else append_record (dc_env cfg) (pc_stamp c) (call_record cfg c seq) (ds_lifecycle s));
          (result, cursor) = (case call_result cfg c of
             Inl _ \<Rightarrow> (None, ds_cursor s)
           | Inr r \<Rightarrow>
               if emission_raises cfg c then (None, ds_cursor s)
               else (let (r', cur) = inject_operator_messages (dc_str cfg) (dc_steering_text cfg) (dc_env cfg) (pc_name c)
                       (pc_messages c) (ds_cursor s) r in (Some r', cur)))
      in (\<lparr>ds_ledger = ledger_flush (dc_render cfg) ledger, ds_lifecycle = lifecycle, ds_cursor = cursor\<rparr>, result))"

definition dispatch :: "dispatch_cfg \<Rightarrow> dispatch_state \<Rightarrow> primitive_call \<Rightarrow> dispatch_state" where
  "dispatch cfg s c = fst (wrap_primitive cfg s c)"

section \<open>One row per call\<close>

lemma dispatch_ledger: "ds_ledger (dispatch cfg s c) = ledger_run (dc_render cfg) (ds_ledger s) [Append_Call (call_row cfg c), Flush_Call]"
  by (simp add: dispatch_def wrap_primitive_def Let_def ledger_run_def split_beta)

interpretation dispatch_rows: logging_machine "dispatch cfg" "\<lambda>_. True" "\<lambda>s. cl_seeded_len (fst (ds_ledger s)) = k"
    "cl_entries \<circ> fst \<circ> ds_ledger" "\<lambda>c. [call_row cfg c]" for cfg k
  by unfold_locales (simp_all add: dispatch_ledger ledger_run_entries [OF refl])

lemma dispatched_entries:
  "cl_entries (fst (ds_ledger (foldl (dispatch cfg) s cs))) = cl_entries (fst (ds_ledger s)) @ map (call_row cfg) cs"
  "cl_seeded_len (fst (ds_ledger (foldl (dispatch cfg) s cs))) = cl_seeded_len (fst (ds_ledger s))"
  using dispatch_rows.run_view [of s "cl_seeded_len (fst (ds_ledger s))" cs cfg]
    dispatch_rows.run_keeps [of s "cl_seeded_len (fst (ds_ledger s))" cs cfg]
  by (simp_all add: list_all_iff)

text \<open>A process starts with the rows it found on disk.\<close>

definition fresh_session :: "dispatch_state \<Rightarrow> bool" where
  "fresh_session s \<longleftrightarrow> cl_seeded_len (fst (ds_ledger s)) = length (cl_entries (fst (ds_ledger s)))"

lemma dispatched_session:
  "fresh_session s \<Longrightarrow> session_entries (fst (ds_ledger (foldl (dispatch cfg) s cs))) = map (call_row cfg) cs"
  by (simp add: session_entries_def dispatched_entries fresh_session_def)

lemma call_row_fields [simp]:
  "le_agent_id (call_row cfg c) = pc_name c" "le_outcome (call_row cfg c) = ledger_outcome (call_result cfg c)"
  by (simp_all add: call_row_def from_usage_def)

lemma ledger_outcome_cases:
  "ledger_outcome res = ''ok'' \<longleftrightarrow> (\<exists>r. res = Inr r \<and> \<not> result_failed r)"
  "ledger_outcome res = ''partial_timeout'' \<longleftrightarrow> (\<exists>r. res = Inr r \<and> result_failed r \<and> says_partial_timeout r)"
  "ledger_outcome res \<noteq> []"
  by (simp_all add: ledger_outcome_def split: sum.split)

text \<open>A result that is no failure comes from the primitive itself.\<close>

lemma contract_failure_fails:
  "result_failed (JDict (contract_failure e d h)) \<and> \<not> says_partial_timeout (JDict (contract_failure e d h))"
  by (simp add: contract_failure_def result_failed_def says_partial_timeout_def dict_get_def)

lemma arg_failure_fails:
  "result_failed (JDict (arg_failure pyrepr name vs)) \<and> \<not> says_partial_timeout (JDict (arg_failure pyrepr name vs))"
  by (simp add: arg_failure_def result_failed_def says_partial_timeout_def dict_get_def)

lemma contract_guard_InlD:
  "run_experiment_contract_guard pystr args = Inl g \<Longrightarrow> \<exists>e d h. g = contract_failure e d h"
  unfolding run_experiment_contract_guard_def Let_def by (cases args) (simp_all split: option.splits if_splits, blast+)

lemma validate_SomeD:
  "validate_primitive_args pyrepr env name params args kwargs = Some g \<Longrightarrow> \<exists>vs. g = arg_failure pyrepr name vs"
  unfolding validate_primitive_args_def by (simp split: option.splits if_splits list.splits) blast

lemma guarded_args_fail:
  assumes "guarded_args cfg c = Inl g"
  shows "result_failed (JDict g) \<and> \<not> says_partial_timeout (JDict g)"
proof -
  have "(\<exists>e d h. g = contract_failure e d h) \<or> (\<exists>vs. g = arg_failure (dc_repr cfg) (pc_name c) vs)"
    using assms unfolding guarded_args_def Let_def
    by (auto split: sum.splits option.splits if_splits dest!: contract_guard_InlD validate_SomeD)
  then show ?thesis using contract_failure_fails arg_failure_fails by blast
qed

lemma hung_fails: "result_failed (hung_result name killed) \<and> \<not> says_partial_timeout (hung_result name killed)"
  by (simp add: hung_result_def result_failed_def says_partial_timeout_def dict_get_def)

lemma result_of_body:
  assumes "call_result cfg c = Inr r" and "\<not> result_failed r \<or> says_partial_timeout r"
  shows "\<exists>args. guarded_args cfg c = Inr args \<and> pc_body c args (call_kwargs c) = Body_Returned r"
  using assms guarded_args_fail [of cfg c] hung_fails
  by (auto simp: call_result_def split: sum.splits primitive_end.splits)

text \<open>The primitive ran and returned a value that is no failure, or one that the harness finalized at a timeout.\<close>

definition ran_well :: "dispatch_cfg \<Rightarrow> primitive_call \<Rightarrow> bool" where
  "ran_well cfg c \<longleftrightarrow>
     (\<exists>args r. guarded_args cfg c = Inr args \<and> pc_body c args (call_kwargs c) = Body_Returned r \<and> \<not> result_failed r)"

definition ran_into_timeout :: "dispatch_cfg \<Rightarrow> primitive_call \<Rightarrow> bool" where
  "ran_into_timeout cfg c \<longleftrightarrow>
     (\<exists>args r. guarded_args cfg c = Inr args \<and> pc_body c args (call_kwargs c) = Body_Returned r
        \<and> result_failed r \<and> says_partial_timeout r)"

lemma call_result_of_body:
  "guarded_args cfg c = Inr args \<Longrightarrow> pc_body c args (call_kwargs c) = Body_Returned r \<Longrightarrow> call_result cfg c = Inr r"
  by (simp add: call_result_def)

lemma outcome_ok_iff: "ledger_outcome (call_result cfg c) = ''ok'' \<longleftrightarrow> ran_well cfg c"
  unfolding ledger_outcome_cases ran_well_def using result_of_body [of cfg c] call_result_of_body [of cfg c] by blast

lemma outcome_timeout_iff: "ledger_outcome (call_result cfg c) = ''partial_timeout'' \<longleftrightarrow> ran_into_timeout cfg c"
  unfolding ledger_outcome_cases ran_into_timeout_def using result_of_body [of cfg c] call_result_of_body [of cfg c] by blast

lemma session_counts:
  assumes "fresh_session s"
  shows "session_success_compatible_count (fst (ds_ledger (foldl (dispatch cfg) s cs))) a
      = length (filter (\<lambda>c. pc_name c = a \<and> ran_well cfg c) cs)"
    "session_partial_timeout_count (fst (ds_ledger (foldl (dispatch cfg) s cs))) a
      = length (filter (\<lambda>c. pc_name c = a \<and> ran_into_timeout cfg c) cs)"
    "session_call_count (fst (ds_ledger (foldl (dispatch cfg) s cs))) a = length (filter (\<lambda>c. pc_name c = a) cs)"
  unfolding session_success_compatible_count_def session_partial_timeout_count_def session_call_count_def
    dispatched_session [OF assms]
  by (simp_all add: filter_map comp_def outcome_ok_iff outcome_timeout_iff ledger_outcome_cases(3))

text \<open>C27. The counters that the report trusts count what ran: in a session of any calls each call adds exactly one row, and
  the rows that count as a success (as a timeout) of a primitive are exactly the calls of it that passed the guards and
  whose function returned a value that is no failure (a failure that the harness finalized at a timeout). Exceptions, hung
  calls, refused arguments and the rows found on disk count for nothing.\<close>

theorem session_counts_real_runs:
  assumes "fresh_session s"
  shows "session_call_count (fst (ds_ledger (foldl (dispatch cfg) s cs))) a = length (filter (\<lambda>c. pc_name c = a) cs)
    \<and> session_success_compatible_count (fst (ds_ledger (foldl (dispatch cfg) s cs))) a
        = length (filter (\<lambda>c. pc_name c = a \<and> ran_well cfg c) cs)
    \<and> session_partial_timeout_count (fst (ds_ledger (foldl (dispatch cfg) s cs))) a
        = length (filter (\<lambda>c. pc_name c = a \<and> ran_into_timeout cfg c) cs)"
  using session_counts [OF assms] by simp

section \<open>The records\<close>

lemma lifecycle_outcome_valid: "lr_outcome (call_record cfg c q) \<in> set VALID_OUTCOMES"
  by (simp add: call_record_def lifecycle_outcome_def VALID_OUTCOMES_def split: sum.split)

lemma parse_record_entry:
  assumes "\<And>t. pystr (JStr t) = t" and "lr_outcome r \<in> set VALID_OUTCOMES"
  shows "\<exists>d. record_entry stamp r = JDict d \<and> parse_record pystr d = Some r"
  using assms
  by (cases r) (simp add: record_entry_def parse_record_def int_of_get_def text_of_get_def dict_get_def dict_of_def list_of_def
      int_of_json_def py_iter_def)

definition object_lines :: "json_log \<Rightarrow> bool" where
  "object_lines file \<longleftrightarrow> list_all (\<lambda>j. case j of JDict _ \<Rightarrow> True | _ \<Rightarrow> False) (log_entries file)"

lemma append_record_entries:
  "lifecycle_ledger_enabled env \<Longrightarrow> log_entries (append_record env stamp r file) = log_entries file @ [record_entry stamp r]"
  by (simp add: append_record_def log_entries_def List.map_filter_def split: option.split)

lemma read_append:
  assumes "lifecycle_ledger_enabled env" "\<And>t. pystr (JStr t) = t" "lr_outcome r \<in> set VALID_OUTCOMES" "object_lines file"
  shows "read_records pystr (append_record env stamp r file) = read_records pystr file @ [r] \<and>
    object_lines (append_record env stamp r file)"
proof -
  obtain d where "record_entry stamp r = JDict d" "parse_record pystr d = Some r" using parse_record_entry [OF assms(2,3)] by blast
  then show ?thesis
    using assms(4) unfolding read_records_def object_lines_def append_record_entries [OF assms(1)]
    by (auto simp: list_all_iff list_ex_iff List.map_filter_def split: json.splits)
qed

fun numbered_records :: "dispatch_cfg \<Rightarrow> int \<Rightarrow> primitive_call list \<Rightarrow> lifecycle_record list" where
  "numbered_records cfg n [] = []"
| "numbered_records cfg n (c # cs) = call_record cfg c (n + 1) # numbered_records cfg (n + 1) cs"

lemma dispatch_lifecycle:
  "\<not> emission_raises cfg c \<Longrightarrow> ds_lifecycle (dispatch cfg s c) =
     append_record (dc_env cfg) (pc_stamp c) (call_record cfg c (int (length (cl_entries (fst (ds_ledger s)))) + 1)) (ds_lifecycle s)"
  using ledger_run_entries(1) [of "dc_render cfg" "ds_ledger s" "[Append_Call (call_row cfg c)]", OF refl]
  by (simp add: dispatch_def wrap_primitive_def Let_def split_beta ledger_run_def add.commute)


text \<open>What the projection may see of the keyword arguments.\<close>

definition same_projection :: "(json \<Rightarrow> string) \<Rightarrow> dict \<Rightarrow> dict \<Rightarrow> bool" where
  "same_projection pystr d d' \<longleftrightarrow>
     dict_get d ''section_ids'' = dict_get d' ''section_ids''
     \<and> (case dict_get d ''hyperparameters'' of JDict h \<Rightarrow> map fst h | _ \<Rightarrow> [])
         = (case dict_get d' ''hyperparameters'' of JDict h \<Rightarrow> map fst h | _ \<Rightarrow> [])
     \<and> list_all (\<lambda>k. py_truthy (dict_get d k) = py_truthy (dict_get d' k)) [''plan'', ''repair_context'', ''code'']
     \<and> list_all (\<lambda>k. text_of_get pystr d k = text_of_get pystr d' k) [''sandbox_mode'', ''gpu_mode'', ''env_id'']"

definition same_ending :: "dispatch_cfg \<Rightarrow> primitive_call \<Rightarrow> primitive_call \<Rightarrow> bool" where
  "same_ending cfg c c' \<longleftrightarrow>
     (case (call_result cfg c, call_result cfg c') of
        (Inl t, Inl t') \<Rightarrow> t = t'
      | (Inr r, Inr r') \<Rightarrow> lifecycle_outcome r = lifecycle_outcome r' \<and> outputs_pointer cfg c r = outputs_pointer cfg c' r'
      | _ \<Rightarrow> False)"

lemma hparam_keys_cong:
  "(case v of JDict h \<Rightarrow> map fst h | _ \<Rightarrow> []) = (case v' of JDict h \<Rightarrow> map fst h | _ \<Rightarrow> []) \<Longrightarrow>
     (case v of JDict d \<Rightarrow> map (\<lambda>kv. JStr (fst kv)) d | _ \<Rightarrow> []) = (case v' of JDict d \<Rightarrow> map (\<lambda>kv. JStr (fst kv)) d | _ \<Rightarrow> [])"
proof -
  have *: "(case v of JDict d \<Rightarrow> map (\<lambda>kv. JStr (fst kv)) d | _ \<Rightarrow> []) = map JStr (case v of JDict h \<Rightarrow> map fst h | _ \<Rightarrow> [])"
    for v by (cases v) simp_all
  show "(case v of JDict h \<Rightarrow> map fst h | _ \<Rightarrow> []) = (case v' of JDict h \<Rightarrow> map fst h | _ \<Rightarrow> []) \<Longrightarrow> ?thesis"
    unfolding * by simp
qed

text \<open>C29. The ledger reveals no content: two calls of a primitive that agree on what the projection may see and on how they
  ended write the same record, whatever else their arguments, values and results hold.\<close>

theorem ledger_reveals_no_content:
  assumes "pc_name c = pc_name c'" "pc_iteration c = pc_iteration c'"
    and "same_projection (dc_str cfg) (call_kwargs c) (call_kwargs c')" "same_ending cfg c c'"
  shows "call_record cfg c q = call_record cfg c' q"
proof -
  have "project_inputs (dc_str cfg) (pc_name c') (call_kwargs c) = project_inputs (dc_str cfg) (pc_name c') (call_kwargs c')"
    using assms(3)
    by (simp add: project_inputs_def project_plan_reproduction_def project_implement_baseline_def project_run_experiment_def
        same_projection_def hparam_keys_cong [of "dict_get (call_kwargs c) ''hyperparameters''" "dict_get (call_kwargs c') ''hyperparameters''"])
  then show ?thesis
    using assms(1,2,4) by (simp add: call_record_def same_ending_def split: sum.splits)
qed

text \<open>Positional arguments are not projected: such a call is recorded as one without code and without an environment.\<close>

lemma positional_inputs_unrecorded:
  "pc_name c = ''run_experiment'' \<Longrightarrow> call_kwargs c = [] \<Longrightarrow>
     lr_inputs (call_record cfg c q) = [(''env_id'', JStr []), (''code_present'', JBool False)]"
  by (simp add: call_record_def project_inputs_def project_run_experiment_def text_of_get_def dict_get_def)

section \<open>Messages\<close>

definition fresh_messages :: "(json \<Rightarrow> string) \<Rightarrow> json_file \<Rightarrow> json option list \<Rightarrow> string list" where
  "fresh_messages pystr cursor ls = List.map_filter (user_message pystr) (slice_from (read_cursor cursor) ls)"

definition next_cursor :: "json option list \<Rightarrow> json_file" where
  "next_cursor ls = Json_File (JDict [(''offset'', JInt (int (length ls)))])"

definition operator_messages :: "json \<Rightarrow> json" where
  "operator_messages r = (case r of JDict d \<Rightarrow> dict_get d ''operator_messages'' | _ \<Rightarrow> JNull)"

lemma inject_fresh:
  assumes "inject_steering_enabled env" "name \<in> set STEERING_INJECT_PRIMITIVES" "fresh_messages pystr cursor ls \<noteq> []"
  shows "operator_messages (fst (inject_operator_messages pystr t env name (Some ls) cursor (JDict d)))
      = JList (map JStr (last_three (fresh_messages pystr cursor ls)))"
    and "snd (inject_operator_messages pystr t env name (Some ls) cursor (JDict d)) = next_cursor ls"
  using assms by (simp_all add: inject_operator_messages_def operator_messages_def fresh_messages_def next_cursor_def Let_def dict_get_def)

lemma inject_cursor:
  assumes "inject_steering_enabled env" "name \<in> set STEERING_INJECT_PRIMITIVES"
  shows "snd (inject_operator_messages pystr t env name (Some ls) cursor (JDict d)) = next_cursor ls"
  using assms by (simp add: inject_operator_messages_def next_cursor_def Let_def)

lemma read_next_cursor [simp]: "read_cursor (next_cursor ls) = int (length ls)"
  by (simp add: next_cursor_def read_cursor_def int_of_get_def int_of_json_def)

lemma fresh_after [simp]: "fresh_messages pystr (next_cursor ls) (ls @ new) = List.map_filter (user_message pystr) new"
  by (simp add: fresh_messages_def slice_from_def)

fun fresh_batches :: "(json \<Rightarrow> string) \<Rightarrow> json_file \<Rightarrow> json option list list \<Rightarrow> string list list" where
  "fresh_batches pystr cursor [] = []"
| "fresh_batches pystr cursor (ls # files) = fresh_messages pystr cursor ls # fresh_batches pystr (next_cursor ls) files"

lemma map_filter_appended: "List.map_filter f (xs @ ys) = List.map_filter f xs @ List.map_filter f ys"
  by (simp add: List.map_filter_def)

lemma batches_are_messages:
  assumes "sorted_wrt prefix (ls # files)"
  shows "concat (fresh_batches pystr No_File (ls # files)) = List.map_filter (user_message pystr) (last (ls # files))"
proof -
  have "concat (fresh_batches pystr (next_cursor ls) files) = List.map_filter (user_message pystr) (drop (length ls) (last (ls # files)))
      \<and> prefix ls (last (ls # files))"
    using assms
  proof (induction files arbitrary: ls)
    case (Cons ls' files)
    obtain new where new: "ls' = ls @ new" using Cons.prems by (auto simp: prefix_def)
    have IH: "concat (fresh_batches pystr (next_cursor ls') files)
          = List.map_filter (user_message pystr) (drop (length ls') (last (ls' # files)))" "prefix ls' (last (ls' # files))"
      using Cons.IH [of ls'] Cons.prems by auto
    obtain z where z: "last (ls' # files) = ls @ new @ z" using IH(2) new by (auto simp: prefix_def)
    have "last (ls # ls' # files) = last (ls' # files)" by simp
    then show ?case
      using IH(1) unfolding fresh_batches.simps concat.simps z by (simp add: new map_filter_appended)
  qed (simp add: List.map_filter_def)
  then show ?thesis
    by (auto simp: fresh_messages_def slice_from_def read_cursor_def prefix_def map_filter_appended)
qed

text \<open>The results that a row of calls leaves with, where each call finds its own message file and the cursor of the one before.\<close>

fun deliveries :: "(json \<Rightarrow> string) \<Rightarrow> string \<Rightarrow> environ \<Rightarrow> json_file \<Rightarrow> (string \<times> json option list \<times> dict) list \<Rightarrow> json list" where
  "deliveries pystr t env cursor [] = []"
| "deliveries pystr t env cursor ((name, ls, d) # calls) =
     (let (r, cursor') = inject_operator_messages pystr t env name (Some ls) cursor (JDict d)
      in r # deliveries pystr t env cursor' calls)"

definition shown_messages :: "json \<Rightarrow> json list" where
  "shown_messages r = (case operator_messages r of JList l \<Rightarrow> l | _ \<Rightarrow> [])"

lemma shown_of_inject:
  assumes "inject_steering_enabled env" "name \<in> set STEERING_INJECT_PRIMITIVES" "dict_get d ''operator_messages'' = JNull"
  shows "shown_messages (fst (inject_operator_messages pystr t env name (Some ls) cursor (JDict d)))
    = map JStr (last_three (fresh_messages pystr cursor ls))"
proof (cases "fresh_messages pystr cursor ls = []")
  case True
  then show ?thesis
    using assms
    by (simp add: inject_operator_messages_def fresh_messages_def Let_def shown_messages_def operator_messages_def last_three_def)
next
  case False
  then show ?thesis using inject_fresh(1) [OF assms(1,2) False] by (simp add: shown_messages_def)
qed

lemma deliveries_show_batches:
  assumes "inject_steering_enabled env"
    and "list_all (\<lambda>(name, ls, d). name \<in> set STEERING_INJECT_PRIMITIVES \<and> dict_get d ''operator_messages'' = JNull) calls"
  shows "map shown_messages (deliveries pystr t env cursor calls)
    = map (\<lambda>b. map JStr (last_three b)) (fresh_batches pystr cursor (map (\<lambda>(_, ls, _). ls) calls))"
  using assms(2)
proof (induction calls arbitrary: cursor)
  case (Cons c calls)
  obtain name ls d where c: "c = (name, ls, d)" by (cases c)
  with Cons show ?case
    using shown_of_inject [OF assms(1), of name d pystr t ls cursor] inject_cursor [OF assms(1), of name pystr t ls cursor d]
    by (simp add: case_prod_beta)
qed simp



section \<open>Runs\<close>

definition demo_call :: "primitive_end \<Rightarrow> primitive_call" where
  "demo_call e =
     \<lparr>pc_name = ''run_experiment'', pc_params = [], pc_args = [JStr ''code''], pc_kwargs = [], pc_body = (\<lambda>_ _. e), pc_now = 0,
      pc_stamp = ''t'', pc_usage = some_usage 0, pc_iteration = 1, pc_metrics_exists = True, pc_messages = None, pc_emit_raises = False\<rparr>"

definition demo_dispatch_cfg :: "environ \<Rightarrow> dispatch_cfg" where
  "demo_dispatch_cfg env =
     \<lparr>dc_env = env, dc_provider = Openai, dc_model = ''gpt-4o'', dc_str = (\<lambda>j. case j of JStr s \<Rightarrow> s | _ \<Rightarrow> []), dc_repr = quoted,
      dc_render = le_outcome, dc_steering_text = ''note''\<rparr>"

definition demo_session :: dispatch_state where
  "demo_session = \<lparr>ds_ledger = (make_ledger ''p'' [some_entry ''ok''] False 1, []), ds_lifecycle = None, ds_cursor = No_File\<rparr>"

lemma demo_fresh: "fresh_session demo_session"
  by (simp add: fresh_session_def demo_session_def make_ledger_def)

lemma demo_guard_kwargs: "guarded_args (demo_dispatch_cfg env) ((demo_call e)\<lparr>pc_kwargs := kw\<rparr>) = Inr [JStr ''code'']"
proof -
  have "run_experiment_contract_guard (\<lambda>j. case j of JStr s \<Rightarrow> s | _ \<Rightarrow> []) [JStr ''code''] = Inr [JStr ''code'']"
    by code_simp
  then show ?thesis
    by (simp add: guarded_args_def demo_call_def demo_dispatch_cfg_def coerce_args_def coerced_params_def validate_primitive_args_def
        PRIMITIVE_ARG_CONTRACTS_def)
qed

lemma demo_guard: "guarded_args (demo_dispatch_cfg env) (demo_call e) = Inr [JStr ''code'']"
  using demo_guard_kwargs [where env = env and e = e and kw = "[]"] by (simp add: demo_call_def)

lemma demo_ran_well:
  "ran_well (demo_dispatch_cfg env) (demo_call (Body_Returned (JDict [(''success'', JBool True)])))"
  "\<not> ran_well (demo_dispatch_cfg env) (demo_call (Body_Threw ''ValueError''))"
  unfolding ran_well_def demo_guard by (simp_all add: demo_call_def result_failed_def dict_get_def)

lemma session_counts_real_runs_witness:
  "session_success_compatible_count
     (fst (ds_ledger (foldl (dispatch (demo_dispatch_cfg (\<lambda>_. None))) demo_session
        [demo_call (Body_Returned (JDict [(''success'', JBool True)])), demo_call (Body_Threw ''ValueError'')]))) ''run_experiment'' = 1"
  using session_counts_real_runs [OF demo_fresh, of "demo_dispatch_cfg (\<lambda>_. None)"
      "[demo_call (Body_Returned (JDict [(''success'', JBool True)])), demo_call (Body_Threw ''ValueError'')]" "''run_experiment''"]
  by (simp add: demo_ran_well) (simp add: demo_call_def)

definition demo_ledger_env :: environ where
  "demo_ledger_env = (\<lambda>k. if k = ''OPENRESEARCH_LIFECYCLE_LEDGER'' then Some ''1'' else None)"

lemma demo_ledger_on: "lifecycle_ledger_enabled demo_ledger_env"
  by code_simp


lemma ledger_reveals_no_content_witness:
  "call_record (demo_dispatch_cfg (\<lambda>_. None)) (demo_call (Body_Threw ''ValueError'')) 1 =
   call_record (demo_dispatch_cfg (\<lambda>_. None))
     ((demo_call (Body_Threw ''ValueError''))\<lparr>pc_kwargs := [(''notes'', JStr ''text of the paper'')]\<rparr>) 1"
proof (rule ledger_reveals_no_content)
  show "same_ending (demo_dispatch_cfg (\<lambda>_. None)) (demo_call (Body_Threw ''ValueError''))
      ((demo_call (Body_Threw ''ValueError''))\<lparr>pc_kwargs := [(''notes'', JStr ''text of the paper'')]\<rparr>)"
    unfolding same_ending_def call_result_def demo_guard demo_guard_kwargs by (simp add: demo_call_def)
qed (simp_all add: demo_call_def same_projection_def call_kwargs_def dict_get_def text_of_get_def)

definition demo_message :: "string \<Rightarrow> json option" where
  "demo_message t = Some (JDict [(''role'', JStr ''user''), (''content'', JStr t)])"



end
