(* ===== verification/Spec2Isabelle.thy ===== *)
theory Spec2Isabelle
  imports Event_Subscription Idempotency Event_Bus Intake Checkpoint Task_Lifecycle Delegation
    Approval Resilience_Engine Gpu_Reservation Sandbox Gpu_Resolver Cell_Pool Forced_Iteration Leaf_Report Run_Watchdog Claim_Grounding
    Report_Write Primitive_Dispatch
begin

text \<open>
  \<^bold>\<open>OpenResearch backend: event-sourced core, orchestration, resilient invocation, GPUs, iteration rails and scoring\<close>

  The backend (\<^verbatim>\<open>src/backend\<close>) reproduces research papers with agents. Its control logic, as
  opposed to the model calls, sandboxes and files it drives, has seven parts, and this development
  models them in the order in which they call each other.

  \<^bold>\<open>1. Messaging and the event store.\<close> Services record what happened as events of an aggregate
  in one SQLite table and read them back; consumers follow the global log.
  \<^item> \<open>Ulid\<close>, \<^verbatim>\<open>messaging/envelope.py\<close>: \<open>_ulid\<close> with its module state \<open>_last_ulid\<close> is
    \<open>ulid_step\<close> and \<open>ulid_text\<close> on the record \<open>ulid_state\<close>. Ids of one process are strictly
    increasing texts, also when the clock stands still, runs back or the random part overflows.
  \<^item> \<open>Event_Registry\<close>, \<^verbatim>\<open>messaging/event.py\<close>: \<open>register_event\<close>, \<open>resolve_event_class\<close>,
    \<open>StoredEvent.into\<close>, and \<open>make_envelope\<close>. A registered class stays registered.
  \<^item> \<open>Event_Store\<close>, \<^verbatim>\<open>eventstore/sqlite_store.py\<close> and \<^verbatim>\<open>interface.py\<close>: the table as a list of
    rows, \<open>append_events\<close> with its re-validation, idempotent re-emission, version check, insert loop
    and transaction, \<open>load\<close>, the paging loop \<open>load_global_rows\<close>, \<open>get_aggregate_version\<close> and
    \<open>purge_project_aggregates\<close> with SQLite's \<open>LIKE\<close>.
  \<^item> \<open>Event_Log\<close>: the interface of the store as the locale \<open>event_log\<close> (what a client that
    writes with an expected version may rely on), and \<open>lifecycle_log\<close> for a service that keeps
    a state machine in a stream. \<open>Event_Store_Laws\<close> proves the table invariant
    \<open>store_wf\<close> and that the table refines one append-only stream per aggregate (\<open>stream\<close>),
    and interprets the locale on the store as \<open>es_log\<close>; the clients below use its lemmas.
  \<^item> \<open>Event_Subscription\<close>, \<^verbatim>\<open>eventstore/subscription.py\<close>: checkpoint and redelivery tables,
    \<open>ack\<close>, \<open>nack\<close>, and the polling generator \<open>_iter\<close> as a resumable iterator.
  \<^item> \<open>Idempotency\<close>, \<^verbatim>\<open>messaging/idempotency.py\<close>, and \<open>Event_Bus\<close>, \<^verbatim>\<open>messaging/bus.py\<close>.

  \<^bold>\<open>2. Clients of the store.\<close>
  \<^item> \<open>Intake\<close>, \<^verbatim>\<open>services/ingestion/intake\<close>: paper sources with arXiv normalisation
    (\<^verbatim>\<open>sources.py\<close>), the events and the aggregate (\<^verbatim>\<open>events.py\<close>, \<^verbatim>\<open>aggregate.py\<close>), and the service
    (\<^verbatim>\<open>service.py\<close>) as \<open>register_project\<close> and \<open>fetch_paper\<close>, between whose reads and writes
    other writers may write.
  \<^item> \<open>Checkpoint\<close>, \<^verbatim>\<open>agents/rlm/checkpoint.py\<close>: the iteration log of a run.

  \<^bold>\<open>3. Orchestration.\<close>
  \<^item> \<open>Task_Lifecycle\<close>, \<^verbatim>\<open>services/orchestration/task_lifecycle.py\<close> over \<^verbatim>\<open>schemas/tasks.py\<close> and
    \<^verbatim>\<open>persistence/repositories/task_repository.py\<close>: the transition table, the repository and the
    in-memory history.
  \<^item> \<open>Delegation\<close>, \<^verbatim>\<open>delegation.py\<close>, \<^verbatim>\<open>spawn_policy.py\<close> and \<^verbatim>\<open>blackboard.py\<close> of the same
    directory: the walk to the root, the spawn checks, scoped reads.
  \<^item> \<open>Approval\<close>, \<^verbatim>\<open>services/approval\<close>: the policy with its messages, and the request table.

  \<^bold>\<open>4. Resilient invocation\<close>, \<^verbatim>\<open>agents/resilience\<close>. The engine runs a provider's stream,
  classifies what it raises, charges the ledger, updates the provider's health and asks a chain of
  policies what to do.
  \<^item> \<open>Failures\<close> (\<^verbatim>\<open>failures.py\<close>, \<^verbatim>\<open>classify.py\<close>), \<open>Provider_Health\<close> (\<^verbatim>\<open>health.py\<close>),
    \<open>Cost_Ledger\<close> (\<^verbatim>\<open>pricing.py\<close>, \<^verbatim>\<open>cost.py\<close>), \<open>Recovery_Policy\<close> (\<^verbatim>\<open>context.py\<close>, \<^verbatim>\<open>policy.py\<close>,
    \<^verbatim>\<open>budget.py\<close>), \<open>Resilience_Engine\<close> (\<^verbatim>\<open>engine.py\<close>).

  \<^bold>\<open>5. GPUs and sandboxes.\<close> Cards of the host are leased to runs through a file and can be
  reserved; a resolver picks a cloud machine for a paper; a matrix of training cells runs on a pool of
  cards; a sandbox is an aggregate over the event store.
  \<^item> \<open>Gpu_Allocator\<close>, \<^verbatim>\<open>services/runtime/local_gpu_allocator.py\<close>: discovery from what \<^verbatim>\<open>nvidia-smi\<close>
    prints, \<open>acquire\<close>, \<open>release_lease\<close>, \<open>reclaim_stale\<close> on the lease file. \<open>Gpu_Reservation\<close>,
    \<^verbatim>\<open>gpu_reservation.py\<close>: holders that park on a card, with a time to live.
  \<^item> \<open>Gpu_Resolver\<close>, \<^verbatim>\<open>gpu_catalog.py\<close>, \<^verbatim>\<open>gpu_resolver.py\<close>, \<^verbatim>\<open>gpu_resolution.py\<close> and the two GPU models
    of \<^verbatim>\<open>agents/schemas.py\<close>: the catalog as a list, both resolution paths as \<open>resolve_gpu\<close>.
  \<^item> \<open>Sandbox\<close>, \<^verbatim>\<open>interface.py\<close>, \<^verbatim>\<open>events.py\<close>, \<^verbatim>\<open>aggregate.py\<close>, \<^verbatim>\<open>service.py\<close> of the same directory: the
    aggregate and the service, with other commands running while a command awaits its backend.
  \<^item> \<open>Cell_Scheduler\<close>, \<^verbatim>\<open>agents/rlm/cell_scheduler.py\<close> and the helpers of \<^verbatim>\<open>gpu_cell_runner.py\<close>: manifests and
    resume, budgets and deadlines, the environment of the child. \<open>Dead_Training\<close>,
    \<^verbatim>\<open>dead_training_guard.py\<close>: reading losses from the log and the streaming detector. \<open>Cell_Pool\<close>,
    \<open>run_matrix\<close>: the record \<open>cell_pool\<close> holds the queue, the free cards, the results and the place
    of every worker thread in its loop; \<open>pool_step\<close> is one move of one thread; \<open>pool_rel\<close> is the same
    step as a relation that leaves outcomes open, and \<open>pool_step_rel\<close> shows that the code's moves are
    moves of that relation.

  \<^bold>\<open>6. Iteration rails\<close>, \<^verbatim>\<open>agents/rlm\<close>. A run may only end with an honest final answer.
  \<^item> \<open>Forced_Iteration\<close>, \<^verbatim>\<open>forced_iteration.py\<close> and \<^verbatim>\<open>root_progress.py\<close>: \<open>should_refuse\<close> with every check
    in its order, the repair and no-progress counters, and the interceptor as \<open>final_var\<close>; the
    callback of \<^verbatim>\<open>run.py\<close> against degenerate loops.
  \<^item> \<open>Best_Attempt\<close>, \<^verbatim>\<open>best_attempt.py\<close> and \<^verbatim>\<open>evidence_gate.py\<close>: the best prior attempt, lost leaves,
    champions, the raised target, the veto of a leaf without evidence.

  \<^bold>\<open>7. Scoring\<close>, \<^verbatim>\<open>evals/paperbench\<close>. A run is graded against a weighted rubric.
  \<^item> \<open>Leaf_Rollup\<close>, \<open>flatten_leaves\<close> and \<open>roll_up\<close> of \<^verbatim>\<open>leaf_scorer.py\<close> on the parsed JSON, and the tree
    (\<open>rubric\<close>) they stand for with the share that every leaf has in the whole.
  \<^item> \<open>Leaf_Exclusion\<close>: which leaves are left out (unavailable data, theory, scope of the operator), the
    choice of the metrics file with the digest of \<^verbatim>\<open>grader_digest.py\<close>, and evidence on disk.
  \<^item> \<open>Leaf_Checker\<close>, \<^verbatim>\<open>deterministic_leaf_checker.py\<close>: the leaves that need no grader.
  \<^item> \<open>Leaf_Scorer\<close>: invariants of the code, answers and medians of the grader, \<open>score_reproduction\<close> with its
    concurrent batches (the argument \<open>finished\<close> is the order of completion) and its gates, which
    interpret the locale \<open>score_gate\<close>.
  \<^item> \<open>Leaf_Report\<close>: \<open>finalize_rescore\<close>, \<open>amend_final_report\<close> and the cap of the verdict of \<^verbatim>\<open>agents/rlm/report.py\<close>.

  \<^bold>\<open>Interfaces.\<close> \<open>Call_Machine\<close> holds the locales for a component behind calls (\<open>call_machine\<close>), one
  that keeps a log (\<open>logging_machine\<close>) and a system of threads that runs to an end (\<open>progress_system\<close>);
  they are interpreted on the idempotency table, provider health, tasks, the ledger, leases, holds and
  the pool of cells.

  \<^bold>\<open>How code becomes definitions.\<close> A table is a list of row records in insertion order
  (\<open>sql_table\<close>); where a query has no \<open>ORDER BY\<close>, the order in which SQLite scans is the
  argument \<open>scan\<close>. A function that changes state takes and returns it; a raise is the left of a
  sum or \<open>None\<close>; a generator is what it yields or, for the subscription, a value that is resumed.
  Times are integers of microseconds, versions, positions and counters Python's unbounded
  integers, amounts and delays real numbers (rounding of floats is not modelled), texts lists of
  characters below code point 256. What the code calls and does not decide is an argument:
  Pydantic validation, SHA-256, JSON, clocks, random tokens, \<open>sqlite3.Error\<close> (\<open>fault\<close>), the
  fetchers and the provider streams.

  \<^bold>\<open>What the lemmas show.\<close> The store: a successful append extends one stream and the global log as
  it reports, a raising one changes nothing wherever SQLite faults, a retry returns the original
  result, a stale writer is refused, what was appended is what is loaded, paging is complete, a
  purge has a stated scope. Subscriptions: every matching event is delivered once and in order, a
  negative acknowledgement holds an event back exactly for its delay, consumers do not disturb each
  other. Intake: under every interleaving a project stream is a path of its lifecycle and holds one
  creation; every outcome of a fetch. Checkpoints: one fact and one line per iteration, and
  detection of a second writer. Tasks: the history is a path of the table to the stored status.
  Delegation: guarded spawning keeps the limits, the walk ends on a forest and not on a cycle.
  Approval: monotone in the policy; decisions are read back. Resilience: a run ends within its
  attempt limit with one ledger entry per attempt, every outcome is explained by its last attempt,
  the budget or the limit; the ledger file is complete; cooldowns and dead marks. Leases: no card is
  in two leases whatever processes die and files fail; reserved cards are leased to the own runs only.
  Sandboxes: under every interleaving a stream is a path of the state machine. The resolver: the plan
  is for the smallest feasible machine, an error means that there is none. The cell pool: under every
  interleaving no card is shared, every run ends without blocking itself and answers for every cell;
  the detector kills exactly on the signature over the whole history; what a manifest lets the next
  run skip. The rails: refusals are bounded, acceptance is explained, repairs and degenerate loops end,
  and (at the end of this theory) no answer below a prior attempt is accepted by choice. Scoring: the
  roll-up is a weighted mean of the leaves that count and skipping is deleting; whatever the grader
  answers the score is in the unit interval, does not depend on the order of completion and has the shape
  its readers expect; a forbidden pattern makes it 0; an excluded leaf is sanctioned; an amended report
  is consistent; the re-roll can lift a cap.

  \<^bold>\<open>Loops.\<close> \<open>load_global_rows\<close> is total by the number of rows behind the cursor,
  \<open>engine_loop\<close> by the attempts left up to \<open>max_total_attempts\<close>. \<open>lineage_loop\<close> is a
  \<open>partial_function\<close> since the code loops on a cycle: termination on forests and
  non-termination on cycles are both theorems. \<open>drain\<close>, which drives the subscription iterator,
  has a fuel that its theorem takes larger than the number of stored events. The threads of the cell
  pool need no fuel: every move lowers the rank \<open>pool_rank\<close>, which starts at two per worker and eight
  per cell and allowed attempt.

  \<^bold>\<open>Not modelled.\<close> The run loop and its primitives, the model adapters, containers and cloud backends, the
  HTTP layer and the frontend are I/O in nearly every step. Of the components above: the DOI
  validator and the concrete fetchers, connection handling, telemetry and printed summaries, the
  guard term matching of \<^verbatim>\<open>agents/runtime/base.py\<close>, the subprocess of a cell (an attempt is its exit
  code, its output and the memory readings), the wording of refusals and prompts, the copy of the best
  attempt's code, the gathering of evidence for the grader and the markdown of the report.

  \<^bold>\<open>Plan.\<close> Next come the two-axis verdict, the lifecycle ledger and the watchdog, the failure classifier and
  claim grounding of \<^verbatim>\<open>agents/rlm\<close>, and retention.
\<close>

section \<open>Reservations and leases\<close>

text \<open>
  A reservation keeps a card for the own runs and only for them: while the holder that
  \<open>reserve\<close> parked is alive and its time to live has not passed, a card whose only process is that
  holder and that no live lease names is among the cards \<open>acquire\<close> chooses from when it is given
  \<open>holder_pids\<close>, however much memory the holder uses, and it is not when it is given no process
  ids, which is how every other user's tooling sees it.
\<close>

theorem reserved_card_only_for_own_runs:
  assumes "holds_ok fl" and "reserve h n uuids all_free mib ttl fl = (Inr created, killed, fl')" "r \<in> set created"
    and "uuids_unique (ho_gpu h)" "\<And>us. uuids = Some us \<Longrightarrow> distinct us"
    and "ge_readable (ho_gpu h')" "ge_alive (ho_gpu h') (gr_pid r)"
    and "ttl \<le> 0 \<or> ge_now (ho_gpu h') < ge_now (ho_gpu h) + ttl * 1000000"
    and "holder_pids h' fl' = Inr own"
    and "d \<in> set (discover_gpus (ge_gpu_output (ho_gpu h')) (ge_app_output (ho_gpu h')))"
    and "gd_uuid d = gr_uuid r" "gd_proc_pids d = [gr_pid r]"
    and "\<forall>(lid, e) \<in> set live. gd_uuid d \<notin> set (ln_gpu_uuids e)"
  shows "d \<in> set (lease_candidates (ho_gpu h') thr own live) \<and> d \<notin> set (lease_candidates (ho_gpu h') thr [] live)"
proof -
  obtain rs killed' fl'' where l: "list_reservations h' fl' = (Inr rs, killed', fl'')" "own = map gr_pid rs"
    using assms(9) by (auto simp: holder_pids_def split: sum.splits) (metis prod_cases3 fst_conv)
  have "(gr_uuid r, hold_to_dict r) \<in> set (load_registry True fl')"
    by (rule map_of_SomeD [OF reserve_recorded [OF assms(2-5)]])
  moreover have "\<not> hold_expired (ge_now (ho_gpu h')) (hold_to_dict r)"
    using reserve_expiry [OF assms(2,3)] assms(8) by (auto simp: hold_expired_def hold_to_dict_def)
  moreover have "hd_pid (hold_to_dict r) = gr_pid r" by (simp add: hold_to_dict_def)
  ultimately have "hold_to_res (gr_uuid r) (hold_to_dict r) \<in> set rs"
    using assms(7) unfolding list_reservations_readable(1) [OF assms(6) l(1)] by force
  then have "gr_pid r \<in> set own" by (simp add: l(2))
  then show ?thesis using assms(10,12,13) by (simp add: candidates_usable usable_def)
qed

definition sample_held :: host_env where
  "sample_held = (sample_host 5)\<lparr>ho_gpu := (ho_gpu (sample_host 5))\<lparr>ge_app_output := Some ''GPU-a, 40''\<rparr>\<rparr>"

theorem reserved_card_only_for_own_runs_witness:
  "\<exists>d. gd_uuid d = ''GPU-a'' \<and> d \<in> set (lease_candidates (ho_gpu sample_held) 1024 [40] []) \<and>
     d \<notin> set (lease_candidates (ho_gpu sample_held) 1024 [] [])"
proof -
  have "map gd_uuid (discover_gpus (ge_gpu_output (ho_gpu sample_held)) (ge_app_output (ho_gpu sample_held))) = [''GPU-a'', ''GPU-b''] \<and>
      map gd_proc_pids (discover_gpus (ge_gpu_output (ho_gpu sample_held)) (ge_app_output (ho_gpu sample_held))) = [[40], []] \<and>
      holder_pids sample_held (Some sample_holds) = Inr [40]"
    by code_simp
  then obtain d z where d: "discover_gpus (ge_gpu_output (ho_gpu sample_held)) (ge_app_output (ho_gpu sample_held)) = [d, z]"
    "gd_uuid d = ''GPU-a''" "gd_proc_pids d = [40]" and own: "holder_pids sample_held (Some sample_holds) = Inr [40]"
    by (auto simp: map_eq_Cons_conv)
  have "holds_ok None" by (simp add: holds_ok_def load_registry_def)
  from reserved_card_only_for_own_runs [OF this conjunct1 [OF sample_reserve] _ sample_host_unique _ _ _ _ own,
      of sample_reservation d "[]" 1024]
  have "d \<in> set (lease_candidates (ho_gpu sample_held) 1024 [40] []) \<and> d \<notin> set (lease_candidates (ho_gpu sample_held) 1024 [] [])"
    by (simp add: sample_reservation_def d) (simp add: sample_held_def sample_host_def)
  with d show ?thesis by blast
qed

section \<open>The final answer and the best attempt\<close>


definition hard_floor_policy :: fip_cfg where
  "hard_floor_policy = demo_policy\<lparr>fc_env := [''REPROLAB_FLOOR_HARD'' \<mapsto> ''1'', ''OPENRESEARCH_TARGET_BEST_FLOOR'' \<mapsto> ''1'']\<rparr>"

definition floored_obs :: "real \<Rightarrow> final_obs" where
  "floored_obs score = (demo_final score)\<lparr>fo_rubric := Some (Some score, floored_target (fc_env hard_floor_policy) demo_project (Some 0))\<rparr>"


section \<open>The written verdict and the calls of the process\<close>

text \<open>
  C10. No report claims a success that no experiment made. Whatever the root model types into its report,
  appends to the log of experiments or puts beside it as two-axis artifacts, and whatever rows it left in
  the cost ledger of an earlier process: with the evidence gate on, a final report that is written behind a
  session of calls says \<open>reproduced\<close> or \<open>partial\<close> only if one of these calls was a \<open>run_experiment\<close> that
  passed the guards and returned a result that is no failure, or one that the harness finalized at a
  timeout, with measured work in the log.
\<close>

theorem written_success_has_real_run:
  assumes "verdict_gate_enabled env" "fresh_session s"
    and "success_verdict (verdict_text (write_final_report pystr env inp
      (trust_of_ledger (Some (fst (ds_ledger (foldl (dispatch cfg) s cs))))) r))"
  shows "\<exists>c\<in>set cs. pc_name c = ''run_experiment''
    \<and> (ran_well cfg c \<or> ran_into_timeout cfg c \<and> has_partial_timeout_evidence (ef_log (wi_evidence inp)))"
proof -
  have some: "\<exists>c\<in>set cs. P c" if "1 \<le> length (filter P cs)" for P
    using that by (cases "filter P cs") (auto dest: filter_eq_ConsD)
  show ?thesis
    using written_success_is_backed [OF assms(1,3)] unfolding session_counts [OF assms(2)] by (blast dest: some)
qed

lemma demo_session_counts:
  defines "l \<equiv> fst (ds_ledger (foldl (dispatch (demo_dispatch_cfg quiet_env)) demo_session
      [demo_call (Body_Returned (JDict [(''success'', JBool True)]))]))"
  shows "tc_calls (trust_of_ledger (Some l)) = Some 1" "tc_ok_calls (trust_of_ledger (Some l)) = Some 1"
  unfolding l_def trust_of_ledger_def run_experiment_call_count_def run_experiment_success_count_def
  by (simp_all only: trust_counts.select_convs option.map session_counts [OF demo_fresh])
    (simp_all add: demo_ran_well, simp_all add: demo_call_def)

theorem written_success_has_real_run_witness:
  "\<exists>c. c \<in> set [demo_call (Body_Returned (JDict [(''success'', JBool True)]))]
     \<and> (ran_well (demo_dispatch_cfg quiet_env) c \<or> ran_into_timeout (demo_dispatch_cfg quiet_env) c)"
proof -
  have "success_verdict (verdict_text (write_final_report demo_str quiet_env (demo_write_inputs [demo_row [(''success'', JBool True)]] No_File)
      (trust_of_ledger (Some (fst (ds_ledger (foldl (dispatch (demo_dispatch_cfg quiet_env)) demo_session
         [demo_call (Body_Returned (JDict [(''success'', JBool True)]))]))))) demo_final_report))"
    using demo_written_partial demo_session_counts by simp
  from written_success_has_real_run [OF quiet_gate demo_fresh this] show ?thesis by blast
qed

end
